(* ===== verification/Go_Base.thy ===== *)
theory Go_Base
  imports Main "HOL-Library.Word" "HOL-Library.Sublist"
begin

text \<open>
  Shared vocabulary of the development.

  A fallible Go function returns a value of type \<^typ>\<open>'e + 'a\<close>: \<open>Inl e\<close> is the error result,
  \<open>Inr a\<close> the successful one.  Entropy (\<open>crypto/rand\<close>, \<open>math/rand\<close>) is an explicit stream of the
  bytes still to be drawn; a read fails when the stream is exhausted, so every position at which a
  draw can fail is a behaviour of the model.

  The two generic interfaces used by several components are stated here as locales: fixed width
  big-endian codecs and order preserving duplicate elimination.
\<close>

named_theorems go_simps \<open>equations that evaluate the library routines of the model\<close>
named_theorems go_len \<open>lengths of byte strings built by the model\<close>
named_theorems go_inv \<open>preservation facts of the component invariants\<close>

type_synonym byte = "8 word"
type_synonym bytes = "8 word list"
type_synonym entropy = "8 word list"

abbreviation ok :: "'a \<Rightarrow> 'e + 'a" where
  "ok \<equiv> Inr"

abbreviation err :: "'e \<Rightarrow> 'e + 'a" where
  "err \<equiv> Inl"

fun is_ok :: "'e + 'a \<Rightarrow> bool" where
  "is_ok (Inr _) = True"
| "is_ok (Inl _) = False"

lemma is_ok_iff: "is_ok r \<longleftrightarrow> (\<exists>a. r = Inr a)"
  by (cases r) auto

section \<open>Entropy\<close>

text \<open>\<open>rand.Read(buf)\<close> with a buffer of \<open>n\<close> bytes.\<close>

definition rand_read :: "nat \<Rightarrow> entropy \<Rightarrow> (bytes \<times> entropy) option" where
  "rand_read n src = (if length src < n then None else Some (take n src, drop n src))"

lemma rand_read_length [go_len]: "rand_read n src = Some (bs, rest) \<Longrightarrow> length bs = n"
  by (auto simp: rand_read_def split: if_splits)

lemma rand_read_Some_iff: "(\<exists>p. rand_read n src = Some p) \<longleftrightarrow> n \<le> length src"
  by (auto simp: rand_read_def)

lemma rand_read_one: "rand_read 1 src = Some (bs, rest) \<Longrightarrow> \<exists>b. bs = [b] \<and> src = b # rest"
  by (cases src) (auto simp: rand_read_def split: if_splits)

section \<open>Big-endian codecs\<close>

text \<open>\<open>binary.BigEndian\<close>: the value as a list of bytes, most significant first.\<close>

unbundle bit_operations_syntax

definition PutUint16 :: "16 word \<Rightarrow> bytes" where
  "PutUint16 v = [ucast (drop_bit 8 v), ucast v]"

definition PutUint32 :: "32 word \<Rightarrow> bytes" where
  "PutUint32 v = [ucast (drop_bit 24 v), ucast (drop_bit 16 v), ucast (drop_bit 8 v), ucast v]"

definition Uint16 :: "bytes \<Rightarrow> 16 word" where
  "Uint16 b = (ucast (b ! 1) OR push_bit 8 (ucast (b ! 0)))"

definition Uint32 :: "bytes \<Rightarrow> 32 word" where
  "Uint32 b = (ucast (b ! 3) OR push_bit 8 (ucast (b ! 2)) OR push_bit 16 (ucast (b ! 1))
      OR push_bit 24 (ucast (b ! 0)))"

text \<open>
  A fixed width codec: \<open>width\<close> bytes, and decoding only looks at those bytes of the buffer, so that
  a field can be read in place from the middle of a packet.
\<close>

locale fixed_codec =
  fixes width :: nat
    and put :: "'a \<Rightarrow> bytes"
    and get :: "bytes \<Rightarrow> 'a"
  assumes put_width: "length (put v) = width"
    and get_put: "get (put v @ rest) = v"
    and put_get: "length b = width \<Longrightarrow> put (get b) = b"
    and get_take: "width \<le> length b \<Longrightarrow> get (take width b) = get b"
begin

lemma put_inj: "put v = put v' \<longleftrightarrow> v = v'"
  by (metis append_Nil2 get_put)

lemma get_at: "length pre = k \<Longrightarrow> get (drop k (pre @ put v @ rest)) = v"
  by (simp add: get_put)

lemma put_get_slice: "k + width \<le> length b \<Longrightarrow> put (get (drop k b)) = take width (drop k b)"
  using put_get [of "take width (drop k b)"] get_take [of "drop k b"] by simp

lemma put_append_inj: "put v @ xs = put v' @ xs' \<longleftrightarrow> v = v' \<and> xs = xs'"
  by (auto simp: put_width put_inj append_eq_append_conv)

end

lemma nat_less_two: "i < 2 \<Longrightarrow> i = 0 \<or> i = (1::nat)"
  by arith

lemma Uint16_Put: "Uint16 (PutUint16 v @ rest) = v"
  by (rule bit_word_eqI) (auto simp: Uint16_def PutUint16_def bit_simps)

lemma Uint32_Put: "Uint32 (PutUint32 v @ rest) = v"
proof (rule bit_word_eqI)
  fix n assume "n < LENGTH(32)"
  then consider "n < 8" | "8 \<le> n" "n < 16" | "16 \<le> n" "n < 24" | "24 \<le> n" "n < 32"
    by force
  then show "bit (Uint32 (PutUint32 v @ rest)) n \<longleftrightarrow> bit v n"
    by cases (auto simp: Uint32_def PutUint32_def bit_simps)
qed

lemma length2_conv: "length b = 2 \<longleftrightarrow> (\<exists>x y. b = [x, y])"
  by (auto simp: numeral_2_eq_2 length_Suc_conv)

lemma length4_conv: "length b = 4 \<longleftrightarrow> (\<exists>x y z w. b = [x, y, z, w])"
  by (auto simp: eval_nat_numeral length_Suc_conv)

lemma PutUint16_Uint16: "length b = 2 \<Longrightarrow> PutUint16 (Uint16 b) = b"
  unfolding length2_conv
  by (auto simp: Uint16_def PutUint16_def intro!: bit_word_eqI)
     (auto simp: bit_simps dest: bit_imp_le_length)

lemma PutUint32_Uint32: "length b = 4 \<Longrightarrow> PutUint32 (Uint32 b) = b"
  unfolding length4_conv
  by (auto simp: Uint32_def PutUint32_def intro!: bit_word_eqI)
     (auto simp: bit_simps dest: bit_imp_le_length)

interpretation be16: fixed_codec 2 PutUint16 Uint16
proof (standard, goal_cases)
  case (1 v) show ?case by (simp add: PutUint16_def)
next
  case (2 v rest) show ?case by (rule Uint16_Put)
next
  case (3 b) then show ?case by (rule PutUint16_Uint16)
next
  case (4 b) then show ?case by (simp add: Uint16_def)
qed

interpretation be32: fixed_codec 4 PutUint32 Uint32
proof (standard, goal_cases)
  case (1 v) show ?case by (simp add: PutUint32_def)
next
  case (2 v rest) show ?case by (rule Uint32_Put)
next
  case (3 b) then show ?case by (rule PutUint32_Uint32)
next
  case (4 b) then show ?case by (simp add: Uint32_def)
qed

lemmas be_len [simp, go_len] = be16.put_width be32.put_width

section \<open>Collecting without duplicates\<close>

text \<open>
  The idiom \<open>if seen[x] { continue }; seen[x] = true; out = append(out, x)\<close>, behind a filter.  The contract speaks
  about processing one more element.
\<close>

locale unique_collector =
  fixes collect :: "'a list \<Rightarrow> 'a list"
    and keep :: "'a \<Rightarrow> bool"
  assumes collect_Nil: "collect [] = []"
    and collect_snoc: "collect (xs @ [x]) =
      (if keep x \<and> x \<notin> set (collect xs) then collect xs @ [x] else collect xs)"
begin

lemma collect_set: "set (collect xs) = {x \<in> set xs. keep x}"
  by (induction xs rule: rev_induct) (auto simp: collect_Nil collect_snoc)

lemma collect_distinct: "distinct (collect xs)"
  by (induction xs rule: rev_induct) (auto simp: collect_Nil collect_snoc)

lemma collect_subseq: "subseq (collect xs) xs"
proof (induction xs rule: rev_induct)
  case (snoc x xs)
  show ?case
  proof (cases "keep x \<and> x \<notin> set (collect xs)")
    case True
    then show ?thesis using snoc by (simp add: collect_snoc)
  next
    case False
    then have "collect (xs @ [x]) = collect xs" by (simp only: collect_snoc if_False)
    then show ?thesis using list_emb_prefix [OF snoc] by simp
  qed
qed (simp add: collect_Nil)

text \<open>The first occurrence decides the position.\<close>

lemma collect_append: "collect (xs @ ys) = collect xs @ filter (\<lambda>y. y \<notin> set xs) (collect ys)"
proof (induction ys rule: rev_induct)
  case (snoc y ys)
  have e: "collect (xs @ ys @ [y]) =
      (if keep y \<and> y \<notin> set xs \<and> y \<notin> set ys then collect (xs @ ys) @ [y] else collect (xs @ ys))"
    using collect_snoc [of "xs @ ys" y] collect_set [of "xs @ ys"] by (cases "keep y") simp_all
  show ?case
  proof (cases "keep y \<and> y \<notin> set ys")
    case True
    then show ?thesis using snoc by (simp add: e collect_snoc [of ys] collect_set)
  next
    case False
    then show ?thesis using snoc unfolding e by (simp add: collect_snoc [of ys] collect_set)
  qed
qed (simp add: collect_Nil)

lemma collect_id: "distinct xs \<Longrightarrow> list_all keep xs \<Longrightarrow> collect xs = xs"
  by (induction xs rule: rev_induct) (auto simp: collect_Nil collect_snoc collect_set)

lemma collect_idem: "collect (collect xs) = collect xs"
  by (rule collect_id) (auto simp: collect_distinct collect_set list_all_iff)

end

definition collect_unique :: "('a \<Rightarrow> bool) \<Rightarrow> 'a list \<Rightarrow> 'a list" where
  "collect_unique keep xs =
     foldl (\<lambda>out x. if keep x \<and> x \<notin> set out then out @ [x] else out) [] xs"

interpretation uq: unique_collector "collect_unique keep" keep for keep
  by unfold_locales (simp_all add: collect_unique_def)

end
