(* ===== verification/Go_Strings.thy ===== *)
theory Go_Strings
  imports Go_Base "HOL-Library.Sublist"
begin

text \<open>
  The string routines of the Go standard library that the program uses.  A Go string is a sequence
  of bytes, here a \<^typ>\<open>string\<close>.  \<open>unicode.IsSpace\<close> is decided on the UTF-8 encodings of the white
  space code points, so the routines are exact on arbitrary byte strings.
\<close>

section \<open>Prefixes, suffixes and search\<close>

definition HasPrefix :: "string \<Rightarrow> string \<Rightarrow> bool" where
  "HasPrefix s p \<longleftrightarrow> take (length p) s = p"

definition HasSuffix :: "string \<Rightarrow> string \<Rightarrow> bool" where
  "HasSuffix s p \<longleftrightarrow> length p \<le> length s \<and> drop (length s - length p) s = p"

definition TrimPrefix :: "string \<Rightarrow> string \<Rightarrow> string" where
  "TrimPrefix s p = (if HasPrefix s p then drop (length p) s else s)"

definition TrimSuffix :: "string \<Rightarrow> string \<Rightarrow> string" where
  "TrimSuffix s p = (if HasSuffix s p then take (length s - length p) s else s)"

text \<open>\<open>strings.Index\<close>: the offset of the first occurrence; \<open>None\<close> is Go's -1.\<close>

fun Index :: "string \<Rightarrow> string \<Rightarrow> nat option" where
  "Index [] p = (if p = [] then Some 0 else None)"
| "Index (c # s) p = (if HasPrefix (c # s) p then Some 0 else map_option Suc (Index s p))"

definition Contains :: "string \<Rightarrow> string \<Rightarrow> bool" where
  "Contains s p \<longleftrightarrow> Index s p \<noteq> None"

fun LastIndexByte :: "string \<Rightarrow> char \<Rightarrow> nat option" where
  "LastIndexByte [] b = None"
| "LastIndexByte (c # s) b =
     (case LastIndexByte s b of
        Some i \<Rightarrow> Some (Suc i)
      | None \<Rightarrow> (if c = b then Some 0 else None))"

text \<open>\<open>strings.SplitN(s, sep, 2)\<close> and \<open>strings.Cut\<close>: the parts around the first separator.\<close>

definition Cut :: "string \<Rightarrow> string \<Rightarrow> (string \<times> string) option" where
  "Cut s sep = map_option (\<lambda>i. (take i s, drop (i + length sep) s)) (Index s sep)"

text \<open>\<open>strings.Split\<close> for a separator of one byte.\<close>

fun SplitByte :: "char \<Rightarrow> string \<Rightarrow> string list" where
  "SplitByte b [] = [[]]"
| "SplitByte b (c # s) =
     (if c = b then [] # SplitByte b s
      else case SplitByte b s of
        [] \<Rightarrow> [[c]]
      | p # ps \<Rightarrow> (c # p) # ps)"

fun Join :: "string list \<Rightarrow> string \<Rightarrow> string" where
  "Join [] sep = []"
| "Join [x] sep = x"
| "Join (x # y # xs) sep = x @ sep @ Join (y # xs) sep"

lemma HasPrefix_iff: "HasPrefix s p \<longleftrightarrow> (\<exists>r. s = p @ r)"
  unfolding HasPrefix_def by (metis append_eq_conv_conj)

lemma HasPrefix_append [simp, go_simps]: "HasPrefix (p @ r) p"
  by (simp add: HasPrefix_def)

lemma HasPrefix_Nil [simp, go_simps]: "HasPrefix s []"
  by (simp add: HasPrefix_def)

lemma HasSuffix_iff: "HasSuffix s p \<longleftrightarrow> (\<exists>r. s = r @ p)"
proof
  assume "HasSuffix s p"
  then show "\<exists>r. s = r @ p"
    unfolding HasSuffix_def by (metis append_take_drop_id)
qed (auto simp: HasSuffix_def)

lemma TrimPrefix_append [simp, go_simps]: "TrimPrefix (p @ r) p = r"
  by (simp add: TrimPrefix_def)

lemma TrimSuffix_append [simp, go_simps]: "TrimSuffix (r @ p) p = r"
  by (simp add: TrimSuffix_def HasSuffix_def)

lemma SplitByte_not_Nil [simp]: "SplitByte b s \<noteq> []"
  by (cases s) (auto split: list.splits)

lemma Join_SplitByte: "Join (SplitByte b s) [b] = s"
proof (induction s)
  case (Cons c s)
  obtain p ps where sp: "SplitByte b s = p # ps"
    by (meson SplitByte_not_Nil neq_Nil_conv)
  show ?case using Cons sp by (cases ps) auto
qed simp

lemma SplitByte_no_sep: "p \<in> set (SplitByte b s) \<Longrightarrow> b \<notin> set p"
  by (induction s arbitrary: p) (fastforce split: if_splits list.splits)+

lemma SplitByte_single: "b \<notin> set x \<Longrightarrow> SplitByte b x = [x]"
  by (induction x) auto

lemma SplitByte_append: "b \<notin> set x \<Longrightarrow> SplitByte b (x @ b # r) = x # SplitByte b r"
  by (induction x) auto

lemma SplitByte_Join:
  "xs \<noteq> [] \<Longrightarrow> (\<forall>x\<in>set xs. b \<notin> set x) \<Longrightarrow> SplitByte b (Join xs [b]) = xs"
proof (induction xs)
  case (Cons x xs)
  then show ?case by (cases xs) (auto simp: SplitByte_single SplitByte_append)
qed simp

lemma Index_Some_take_drop: "Index s p = Some i \<Longrightarrow> s = take i s @ p @ drop (i + length p) s"
proof (induction s arbitrary: i)
  case (Cons c s)
  then show ?case
  proof (cases "HasPrefix (c # s) p")
    case True
    with Cons.prems show ?thesis by (auto simp: HasPrefix_iff)
  next
    case False
    then obtain j where "Index s p = Some j" "i = Suc j" using Cons.prems by auto
    with Cons.IH show ?thesis by simp
  qed
qed (auto split: if_splits)

lemma Index_byte_append: "b \<notin> set x \<Longrightarrow> Index (x @ b # r) [b] = Some (length x)"
  by (induction x) (auto simp: HasPrefix_def)

lemma Index_byte_None: "b \<notin> set x \<Longrightarrow> Index x [b] = None"
  by (induction x) (auto simp: HasPrefix_def)

lemma Contains_infix: "Contains (x @ p @ y) p"
proof (induction x)
  case Nil
  have "HasPrefix (p @ y) p" by simp
  then show ?case by (cases "p @ y") (auto simp: Contains_def simp del: HasPrefix_append)
next
  case (Cons a x)
  then show ?case by (auto simp: Contains_def)
qed

lemma Contains_iff: "Contains s p \<longleftrightarrow> (\<exists>x y. s = x @ p @ y)"
proof
  assume "Contains s p"
  then obtain i where "Index s p = Some i" by (auto simp: Contains_def)
  then show "\<exists>x y. s = x @ p @ y" by (blast dest: Index_Some_take_drop)
qed (auto simp: Contains_infix)

lemma Contains_byte_iff [go_simps]: "Contains s [b] \<longleftrightarrow> b \<in> set s"
  by (induction s) (auto simp: HasPrefix_def Contains_def)

section \<open>White space\<close>

text \<open>
  The UTF-8 encodings of the code points that \<open>unicode.IsSpace\<close> accepts.
\<close>

definition space_encodings :: "string list" where
  "space_encodings =
     [[CHR 0x09], [CHR 0x0A], [CHR 0x0B], [CHR 0x0C], [CHR 0x0D], [CHR 0x20],
      [CHR 0xC2, CHR 0x85], [CHR 0xC2, CHR 0xA0], [CHR 0xE1, CHR 0x9A, CHR 0x80],
      [CHR 0xE2, CHR 0x80, CHR 0x80], [CHR 0xE2, CHR 0x80, CHR 0x81], [CHR 0xE2, CHR 0x80, CHR 0x82],
      [CHR 0xE2, CHR 0x80, CHR 0x83], [CHR 0xE2, CHR 0x80, CHR 0x84], [CHR 0xE2, CHR 0x80, CHR 0x85],
      [CHR 0xE2, CHR 0x80, CHR 0x86], [CHR 0xE2, CHR 0x80, CHR 0x87], [CHR 0xE2, CHR 0x80, CHR 0x88],
      [CHR 0xE2, CHR 0x80, CHR 0x89], [CHR 0xE2, CHR 0x80, CHR 0x8A],
      [CHR 0xE2, CHR 0x80, CHR 0xA8], [CHR 0xE2, CHR 0x80, CHR 0xA9], [CHR 0xE2, CHR 0x80, CHR 0xAF],
      [CHR 0xE2, CHR 0x81, CHR 0x9F], [CHR 0xE3, CHR 0x80, CHR 0x80]]"

text \<open>The width of the white space code point at the head of the string, 0 if there is none.\<close>

definition space_width :: "string \<Rightarrow> nat" where
  "space_width s = (case find (HasPrefix s) space_encodings of None \<Rightarrow> 0 | Some e \<Rightarrow> length e)"

definition space_width_last :: "string \<Rightarrow> nat" where
  "space_width_last s = (case find (HasSuffix s) space_encodings of None \<Rightarrow> 0 | Some e \<Rightarrow> length e)"

function trimLeftSpace :: "string \<Rightarrow> string" where
  "trimLeftSpace s = (if s = [] \<or> space_width s = 0 then s else trimLeftSpace (drop (space_width s) s))"
  by auto
termination
  by (relation "measure length") auto

function trimRightSpace :: "string \<Rightarrow> string" where
  "trimRightSpace s =
     (if s = [] \<or> space_width_last s = 0 then s
      else trimRightSpace (take (length s - space_width_last s) s))"
  by auto
termination
  by (relation "measure length") auto

declare trimLeftSpace.simps [simp del] trimRightSpace.simps [simp del]

definition TrimSpace :: "string \<Rightarrow> string" where
  "TrimSpace s = trimRightSpace (trimLeftSpace s)"

text \<open>\<open>strings.Fields\<close>: \<open>acc\<close> is the field being read, reversed.\<close>

function fields_acc :: "string \<Rightarrow> string \<Rightarrow> string list" where
  "fields_acc acc [] = (if acc = [] then [] else [rev acc])"
| "fields_acc acc (c # s) =
     (if space_width (c # s) = 0 then fields_acc (c # acc) s
      else (if acc = [] then [] else [rev acc]) @ fields_acc [] (drop (space_width (c # s) - 1) s))"
  by pat_completeness auto
termination
  by (relation "measure (\<lambda>(_, s). length s)") auto

definition Fields :: "string \<Rightarrow> string list" where
  "Fields s = fields_acc [] s"

lemma space_width_Nil [simp]: "space_width [] = 0"
  by (simp add: space_width_def space_encodings_def HasPrefix_def)

lemma space_width_le: "space_width s \<le> length s"
  by (auto simp: space_width_def HasPrefix_iff find_Some_iff split: option.splits)

lemma space_width_last_le: "space_width_last s \<le> length s"
  by (auto simp: space_width_last_def HasSuffix_def find_Some_iff split: option.splits)

lemma trimLeftSpace_suffix: "\<exists>p. s = p @ trimLeftSpace s"
proof (induction s rule: trimLeftSpace.induct)
  case (1 s)
  show ?case
  proof (cases "s = [] \<or> space_width s = 0")
    case False
    with 1 obtain p where "drop (space_width s) s = p @ trimLeftSpace (drop (space_width s) s)" by blast
    then have "s = (take (space_width s) s @ p) @ trimLeftSpace (drop (space_width s) s)"
      by (metis append.assoc append_take_drop_id)
    with False show ?thesis by (metis trimLeftSpace.simps)
  qed (auto simp: trimLeftSpace.simps)
qed

lemma trimRightSpace_prefix: "\<exists>p. s = trimRightSpace s @ p"
proof (induction s rule: trimRightSpace.induct)
  case (1 s)
  show ?case
  proof (cases "s = [] \<or> space_width_last s = 0")
    case False
    let ?t = "take (length s - space_width_last s) s"
    obtain p where "?t = trimRightSpace ?t @ p" using 1 [OF False] by (rule exE)
    then have "s = trimRightSpace ?t @ (p @ drop (length s - space_width_last s) s)"
      by (metis append.assoc append_take_drop_id)
    with False show ?thesis by (metis trimRightSpace.simps)
  qed (auto simp: trimRightSpace.simps)
qed

lemma TrimSpace_infix: "\<exists>p q. s = p @ TrimSpace s @ q"
  unfolding TrimSpace_def by (metis trimLeftSpace_suffix trimRightSpace_prefix)

lemma set_TrimSpace: "set (TrimSpace s) \<subseteq> set s"
proof -
  obtain p q where "s = p @ TrimSpace s @ q" using TrimSpace_infix by blast
  then show ?thesis by (metis Un_iff set_append subsetI)
qed

lemma trimLeftSpace_width: "trimLeftSpace s = [] \<or> space_width (trimLeftSpace s) = 0"
  by (induction s rule: trimLeftSpace.induct) (metis trimLeftSpace.simps)

lemma trimRightSpace_width: "trimRightSpace s = [] \<or> space_width_last (trimRightSpace s) = 0"
  by (induction s rule: trimRightSpace.induct) (metis trimRightSpace.simps)

lemma TrimSpace_id: "space_width s = 0 \<Longrightarrow> space_width_last s = 0 \<Longrightarrow> TrimSpace s = s"
  by (simp add: TrimSpace_def trimLeftSpace.simps trimRightSpace.simps)

lemma space_width_0_iff: "space_width s = 0 \<longleftrightarrow> (\<forall>e \<in> set space_encodings. \<not> HasPrefix s e)"
proof -
  have "e \<in> set space_encodings \<Longrightarrow> e \<noteq> []" for e by (auto simp: space_encodings_def)
  then show ?thesis
    unfolding space_width_def by (auto simp: find_None_iff find_Some_iff split: option.splits)
qed

lemma space_width_prefix: "space_width (t @ r) = 0 \<Longrightarrow> space_width t = 0"
  by (auto simp: space_width_0_iff HasPrefix_iff)

lemma TrimSpace_edges: "space_width (TrimSpace s) = 0 \<and> (TrimSpace s = [] \<or> space_width_last (TrimSpace s) = 0)"
proof -
  have "space_width (trimLeftSpace s) = 0" using trimLeftSpace_width [of s] by auto
  moreover obtain p where "trimLeftSpace s = trimRightSpace (trimLeftSpace s) @ p" using trimRightSpace_prefix by blast
  ultimately have "space_width (TrimSpace s) = 0" unfolding TrimSpace_def by (metis space_width_prefix)
  then show ?thesis using trimRightSpace_width [of "trimLeftSpace s"] by (simp add: TrimSpace_def)
qed

lemma TrimSpace_idem [simp]: "TrimSpace (TrimSpace s) = TrimSpace s"
  using TrimSpace_edges [of s] TrimSpace_id
  by (metis TrimSpace_def trimLeftSpace.simps trimRightSpace.simps)

text \<open>Printable ASCII strings are left alone by the white space routines.\<close>

definition graphic :: "string \<Rightarrow> bool" where
  "graphic s \<longleftrightarrow> (\<forall>c\<in>set s. 0x20 < (of_char c :: nat) \<and> (of_char c :: nat) < 0x7F)"

lemma space_encoding_not_graphic:
  assumes "e \<in> set space_encodings"
  shows "e \<noteq> [] \<and> \<not> graphic [hd e] \<and> \<not> graphic [last e]"
  using assms by (auto simp: space_encodings_def graphic_def)

lemma space_width_graphic:
  assumes "s \<noteq> [] \<Longrightarrow> graphic [hd s]" shows "space_width s = 0"
proof -
  have "\<not> HasPrefix s e" if "e \<in> set space_encodings" for e
    using space_encoding_not_graphic [OF that] assms
    by (auto simp: HasPrefix_iff)
  then have "find (HasPrefix s) space_encodings = None" by (simp add: find_None_iff)
  then show ?thesis by (simp add: space_width_def)
qed

lemma space_width_last_graphic:
  assumes "s \<noteq> [] \<Longrightarrow> graphic [last s]" shows "space_width_last s = 0"
proof -
  have "\<not> HasSuffix s e" if "e \<in> set space_encodings" for e
    using space_encoding_not_graphic [OF that] assms
    by (auto simp: HasSuffix_iff)
  then have "find (HasSuffix s) space_encodings = None" by (simp add: find_None_iff)
  then show ?thesis by (simp add: space_width_last_def)
qed

lemma graphic_single: "graphic s \<Longrightarrow> c \<in> set s \<Longrightarrow> graphic [c]"
  by (simp add: graphic_def)

lemma TrimSpace_ends: "(s \<noteq> [] \<Longrightarrow> graphic [hd s]) \<Longrightarrow> (s \<noteq> [] \<Longrightarrow> graphic [last s]) \<Longrightarrow> TrimSpace s = s"
  by (simp add: TrimSpace_id space_width_graphic space_width_last_graphic)

lemma TrimSpace_graphic: "graphic s \<Longrightarrow> TrimSpace s = s"
  by (rule TrimSpace_ends) (auto intro: graphic_single)

lemma TrimSpace_Nil [simp, go_simps]: "TrimSpace [] = []"
  by (rule TrimSpace_ends) simp_all

section \<open>Case folding against ASCII literals\<close>

definition ascii_lower :: "char \<Rightarrow> char" where
  "ascii_lower c =
     (let n = (of_char c :: nat) in if 65 \<le> n \<and> n \<le> 90 then char_of (n + 32) else c)"

text \<open>
  Simple case folding restricted to what can meet an ASCII character: besides the upper case
  letters, U+017F folds to \<open>s\<close> and U+212A to \<open>k\<close>.
\<close>

function ascii_fold :: "string \<Rightarrow> string" where
  "ascii_fold s =
     (if s = [] then []
      else if HasPrefix s [CHR 0xC5, CHR 0xBF] then CHR ''s'' # ascii_fold (drop 2 s)
      else if HasPrefix s [CHR 0xE2, CHR 0x84, CHR 0xAA] then CHR ''k'' # ascii_fold (drop 3 s)
      else ascii_lower (hd s) # ascii_fold (tl s))"
  by auto
termination
  by (relation "measure length") auto

declare ascii_fold.simps [simp del]

text \<open>\<open>strings.EqualFold(s, lit)\<close> for an ASCII literal.\<close>

definition EqualFold :: "string \<Rightarrow> string \<Rightarrow> bool" where
  "EqualFold s lit \<longleftrightarrow> ascii_fold s = map ascii_lower lit"

text \<open>
  \<open>strings.ToLower\<close> as seen by a comparison with ASCII text: besides the upper case letters, U+0130 maps to
  \<open>i\<close> and U+212A to \<open>k\<close>; every other non-ASCII character stays non-ASCII and is kept as it is.
\<close>

function lower_view :: "string \<Rightarrow> string" where
  "lower_view s =
     (if s = [] then []
      else if HasPrefix s [CHR 0xC4, CHR 0xB0] then CHR ''i'' # lower_view (drop 2 s)
      else if HasPrefix s [CHR 0xE2, CHR 0x84, CHR 0xAA] then CHR ''k'' # lower_view (drop 3 s)
      else ascii_lower (hd s) # lower_view (tl s))"
  by auto
termination
  by (relation "measure length") auto

declare lower_view.simps [simp del]

lemma lower_view_Nil [simp]: "lower_view [] = []"
  by (simp add: lower_view.simps)

lemma lower_view_ascii:
  "(\<forall>c \<in> set s. (of_char c :: nat) < 128) \<Longrightarrow> lower_view s = map ascii_lower s"
proof (induction s)
  case (Cons c s)
  then have "\<not> HasPrefix (c # s) [CHR 0xC4, CHR 0xB0]" "\<not> HasPrefix (c # s) [CHR 0xE2, CHR 0x84, CHR 0xAA]"
    by (auto simp: HasPrefix_def)
  with Cons show ?case by (simp add: lower_view.simps [of "c # s"])
qed simp

lemma lower_view_ascii_split:
  assumes "(of_char c :: nat) < 128"
  shows "lower_view (x @ c # y) = lower_view x @ ascii_lower c # lower_view y"
proof (induction x rule: lower_view.induct)
  case (1 x)
  have nc: "c \<noteq> CHR 0xB0" "c \<noteq> CHR 0x84" "c \<noteq> CHR 0xAA" "c \<noteq> CHR 0xC4" "c \<noteq> CHR 0xE2" using assms by auto
  show ?case
  proof (cases x)
    case Nil
    then show ?thesis using nc by (simp add: lower_view.simps [of "c # y"] HasPrefix_def)
  next
    case (Cons a x1)
    have p: "HasPrefix (x @ c # y) [CHR 0xC4, CHR 0xB0] \<longleftrightarrow> HasPrefix x [CHR 0xC4, CHR 0xB0]"
        "HasPrefix (x @ c # y) [CHR 0xE2, CHR 0x84, CHR 0xAA] \<longleftrightarrow> HasPrefix x [CHR 0xE2, CHR 0x84, CHR 0xAA]"
      using nc by (auto simp: HasPrefix_iff Cons Cons_eq_append_conv append_eq_Cons_conv)
    have d: "HasPrefix x [CHR 0xC4, CHR 0xB0] \<Longrightarrow> drop 2 (x @ c # y) = drop 2 x @ c # y"
        "HasPrefix x [CHR 0xE2, CHR 0x84, CHR 0xAA] \<Longrightarrow> drop 3 (x @ c # y) = drop 3 x @ c # y"
      by (auto simp: HasPrefix_iff)
    show ?thesis
      unfolding lower_view.simps [of "x @ c # y"] lower_view.simps [of x] p
      using 1 d Cons by auto
  qed
qed

lemma lower_view_ascii_infix:
  assumes "\<forall>c \<in> set p. (of_char c :: nat) < 128" "p \<noteq> []"
  shows "lower_view (x @ p @ y) = lower_view x @ map ascii_lower p @ lower_view y"
  using assms
proof (induction p arbitrary: x)
  case (Cons c p)
  show ?case
  proof (cases "p = []")
    case True
    then show ?thesis using Cons.prems by (simp add: lower_view_ascii_split)
  next
    case False
    have "lower_view (x @ (c # p) @ y) = lower_view x @ ascii_lower c # lower_view ([] @ p @ y)"
      using Cons.prems(1) by (simp add: lower_view_ascii_split)
    also have "lower_view ([] @ p @ y) = lower_view [] @ map ascii_lower p @ lower_view y"
      using Cons.prems(1) False by (intro Cons.IH) auto
    finally show ?thesis by simp
  qed
qed simp

section \<open>Decimal numbers\<close>

definition is_digit :: "char \<Rightarrow> bool" where
  "is_digit c \<longleftrightarrow> 48 \<le> (of_char c :: nat) \<and> (of_char c :: nat) \<le> 57"

definition digit_val :: "char \<Rightarrow> nat" where
  "digit_val c = of_char c - 48"

definition digits_val :: "string \<Rightarrow> nat" where
  "digits_val s = foldl (\<lambda>a c. 10 * a + digit_val c) 0 s"

fun nat_digits :: "nat \<Rightarrow> string" where
  "nat_digits n = (if n < 10 then [char_of (48 + n)] else nat_digits (n div 10) @ [char_of (48 + n mod 10)])"

declare nat_digits.simps [simp del]

definition Itoa :: "int \<Rightarrow> string" where
  "Itoa i = (if i < 0 then CHR ''-'' # nat_digits (nat (- i)) else nat_digits (nat i))"

text \<open>\<open>strconv.Atoi\<close> on a 64-bit platform; \<open>None\<close> is a syntax or range error.\<close>

definition Atoi :: "string \<Rightarrow> int option" where
  "Atoi s =
     (let neg = HasPrefix s ''-'';
          ds = (if HasPrefix s ''-'' \<or> HasPrefix s ''+'' then tl s else s)
      in if ds = [] \<or> \<not> list_all is_digit ds then None
         else
           let v = (if neg then - int (digits_val ds) else int (digits_val ds))
           in if - (2 ^ 63) \<le> v \<and> v < 2 ^ 63 then Some v else None)"

lemma is_digit_char_of: "n < 10 \<Longrightarrow> is_digit (char_of (48 + n :: nat))"
  by (simp add: is_digit_def)

lemma digit_val_char_of: "n < 10 \<Longrightarrow> digit_val (char_of (48 + n :: nat)) = n"
  by (simp add: digit_val_def)

lemma digits_val_snoc [simp]: "digits_val (s @ [c]) = 10 * digits_val s + digit_val c"
  by (simp add: digits_val_def)

lemma nat_digits_props:
  "list_all is_digit (nat_digits n) \<and> nat_digits n \<noteq> [] \<and> digits_val (nat_digits n) = n"
proof (induction n rule: nat_digits.induct)
  case (1 n)
  show ?case
  proof (cases "n < 10")
    case True
    then show ?thesis
      by (simp add: nat_digits.simps [of n] is_digit_char_of digit_val_char_of digits_val_def)
  next
    case False
    with 1 show ?thesis
      by (simp add: nat_digits.simps [of n] is_digit_char_of digit_val_char_of)
  qed
qed

lemmas nat_digits_digit = nat_digits_props [THEN conjunct1]
lemmas nat_digits_val = nat_digits_props [THEN conjunct2, THEN conjunct2]
lemmas nat_digits_ne = nat_digits_props [THEN conjunct2, THEN conjunct1]

lemma nat_digits_no_sign: "\<not> HasPrefix (nat_digits n) ''-'' \<and> \<not> HasPrefix (nat_digits n) ''+''"
  using nat_digits_digit [of n] nat_digits_ne [of n]
  by (cases "nat_digits n") (auto simp: HasPrefix_def is_digit_def)

lemma Atoi_Itoa: "- (2 ^ 63) \<le> i \<Longrightarrow> i < 2 ^ 63 \<Longrightarrow> Atoi (Itoa i) = Some i"
  using nat_digits_no_sign [of "nat i"] nat_digits_digit [of "nat i"] nat_digits_ne [of "nat i"]
    nat_digits_digit [of "nat (- i)"] nat_digits_ne [of "nat (- i)"]
  by (cases "i < 0") (auto simp: Atoi_def Itoa_def nat_digits_val HasPrefix_def Let_def)

lemma LastIndexByte_split:
  "LastIndexByte s b = Some i \<Longrightarrow> s = take i s @ b # drop (i + 1) s \<and> b \<notin> set (drop (i + 1) s)"
proof (induction s arbitrary: i)
  case (Cons c s)
  have none: "b \<notin> set s" if "LastIndexByte s b = None"
    using that by (induction s) (auto split: option.splits if_splits)
  from Cons none show ?case by (auto split: option.splits if_splits)
qed simp

text \<open>\<open>net.SplitHostPort\<close>: \<open>None\<close> is an address error.\<close>

definition SplitHostPort :: "string \<Rightarrow> (string \<times> string) option" where
  "SplitHostPort hp =
     (case LastIndexByte hp CHR '':'' of
        None \<Rightarrow> None
      | Some i \<Rightarrow>
          if HasPrefix hp ''['' then
            (case Index hp '']'' of
               None \<Rightarrow> None
             | Some e \<Rightarrow>
                 if e + 1 \<noteq> i then None
                 else if CHR ''['' \<in> set (drop 1 hp) \<or> CHR '']'' \<in> set (drop (e + 1) hp) then None
                 else Some (take (e - 1) (drop 1 hp), drop (i + 1) hp))
          else if CHR '':'' \<in> set (take i hp) then None
          else if CHR ''['' \<in> set hp \<or> CHR '']'' \<in> set hp then None
          else Some (take i hp, drop (i + 1) hp))"

text \<open>\<open>net.JoinHostPort\<close>: a host with a colon is put in brackets.\<close>

definition JoinHostPort :: "string \<Rightarrow> string \<Rightarrow> string" where
  "JoinHostPort host port =
     (if CHR '':'' \<in> set host then ''['' @ host @ '']:'' @ port else host @ '':'' @ port)"

lemma LastIndexByte_append: "b \<notin> set r \<Longrightarrow> LastIndexByte (x @ b # r) b = Some (length x)"
proof (induction x)
  case Nil
  have "LastIndexByte r b = None" using Nil by (induction r) auto
  then show ?case by simp
qed simp

lemma digit_graphic: "is_digit c \<Longrightarrow> graphic [c]"
  by (simp add: is_digit_def graphic_def)

lemma nat_digits_graphic: "graphic (nat_digits n)"
  using nat_digits_digit [of n] digit_graphic by (auto simp: list_all_iff graphic_def)

end
