(* ===== verification/Obfs.thy ===== *)
theory Obfs
  imports Go_Strings "HOL-Library.AList"
begin

text \<open>
  RTP-like packet obfuscation: \<open>internal/core/obfs.go\<close>, \<open>internal/core/wrap.go\<close> and the
  \<open>obfsDirectConn\<close> of \<open>internal/core/session.go\<close>.

  Integers keep their Go widths.  The third-party AEAD and HKDF constructions are arguments:
  \<open>newc\<close> is \<open>chacha20poly1305.New\<close>, a function from a key to a cipher or an error, and \<open>hkdf\<close> yields
  the key stream of \<open>hkdf.New(sha256.New, ...)\<close>.  What the code relies on is the predicate
  \<open>aead_ok\<close>: sealing adds 16 bytes and opening what was sealed under the same nonce and header
  returns the plain text.
\<close>

section \<open>Keys and ciphers\<close>

definition wrapKeyLen :: nat where
  "wrapKeyLen = 32"

definition rtpHeaderLenFull :: nat where
  "rtpHeaderLenFull = 24"

definition rtpHeaderLenLegacy :: nat where
  "rtpHeaderLenLegacy = 12"

definition aeadOverhead :: nat where
  "aeadOverhead = 16"

lemmas obfs_consts [simp] =
  wrapKeyLen_def rtpHeaderLenFull_def rtpHeaderLenLegacy_def aeadOverhead_def

datatype obfs_error =
    EmptyPassword | DeriveWrapKey
  | RandFailed
  | KeyLength | EmptyPayload | PaddingRandom | CipherInit | PaddingBytes
  | PacketTooShort | NotRtpV2 | TooShortForExtension | InvalidPadding nat
  | NoPayload | DstTooSmall | AuthFailed
  | RelayFailed

text \<open>A cipher of the third-party package: \<open>Seal nonce plain ad\<close> and \<open>Open nonce cipher ad\<close>.\<close>

record aead =
  Seal :: "bytes \<Rightarrow> bytes \<Rightarrow> bytes \<Rightarrow> bytes"
  Open :: "bytes \<Rightarrow> bytes \<Rightarrow> bytes \<Rightarrow> bytes option"

type_synonym aead_cache = "bytes \<Rightarrow> aead option"

definition aead_ok :: "aead \<Rightarrow> bool" where
  "aead_ok a \<longleftrightarrow>
     (\<forall>n p ad. length (Seal a n p ad) = length p + aeadOverhead) \<and>
     (\<forall>n p ad. Open a n (Seal a n p ad) ad = Some p)"

definition deriveWrapKey :: "(string \<Rightarrow> string \<Rightarrow> string \<Rightarrow> bytes) \<Rightarrow> string \<Rightarrow> obfs_error + bytes" where
  "deriveWrapKey hkdf password =
     (if password = [] then err EmptyPassword
      else
        let stream = hkdf password ''WDTT-WRAP-v1'' ''rtp-obfs/chacha20poly1305'' in
        if length stream < wrapKeyLen then err DeriveWrapKey
        else ok (take wrapKeyLen stream))"

definition getAEAD :: "(bytes \<Rightarrow> aead option) \<Rightarrow> bytes \<Rightarrow> aead_cache \<Rightarrow> (obfs_error + aead) \<times> aead_cache" where
  "getAEAD newc key cache =
     (if length key \<noteq> wrapKeyLen then (err KeyLength, cache)
      else case cache key of
        Some a \<Rightarrow> (ok a, cache)
      | None \<Rightarrow>
          (case newc key of
             None \<Rightarrow> (err CipherInit, cache)
           | Some a \<Rightarrow> (ok a, cache(key \<mapsto> a))))"

section \<open>Configuration and per-direction state\<close>

record ObfsConfig =
  SSRC :: "32 word"
  PayloadType :: "8 word"
  PaddingMax :: int

record ObfsState =
  initSeq :: "16 word"
  initTs :: "32 word"
  pcount :: "64 word"

definition normalizeObfsMode :: "string \<Rightarrow> string" where
  "normalizeObfsMode mode = (if EqualFold (TrimSpace mode) ''video'' then ''video'' else ''audio'')"

definition NewObfsConfig :: "string \<Rightarrow> entropy \<Rightarrow> obfs_error + (ObfsConfig \<times> entropy)" where
  "NewObfsConfig mode ent =
     (case rand_read 4 ent of
        None \<Rightarrow> err RandFailed
      | Some (buf, ent') \<Rightarrow>
          let video = (normalizeObfsMode mode = ''video'')
          in ok (\<lparr>SSRC = Uint32 buf,
                  PayloadType = (if video then 96 else 111),
                  PaddingMax = (if video then 60 else 24)\<rparr>, ent'))"

definition NewObfsState :: "entropy \<Rightarrow> obfs_error + (ObfsState \<times> entropy)" where
  "NewObfsState ent =
     (case rand_read 6 ent of
        None \<Rightarrow> err RandFailed
      | Some (buf, ent') \<Rightarrow>
          ok (\<lparr>initSeq = Uint16 (take 2 buf), initTs = Uint32 (drop 2 buf), pcount = 0\<rparr>, ent'))"

section \<open>Nonce derivation\<close>

definition obfsBuildNonce :: "32 word \<Rightarrow> 16 word \<Rightarrow> 32 word \<Rightarrow> bytes" where
  "obfsBuildNonce ssrc seq ts = PutUint32 ssrc @ PutUint16 seq @ [0, 0] @ PutUint32 ts"

text \<open>The RTP sequence number and timestamp of packet number \<open>c\<close>.\<close>

definition obfsSeq :: "ObfsState \<Rightarrow> 64 word \<Rightarrow> 16 word" where
  "obfsSeq st c = initSeq st + ucast c"

definition obfsTs :: "ObfsState \<Rightarrow> 64 word \<Rightarrow> 32 word" where
  "obfsTs st c = initTs st + ucast c * 960 + ucast (drop_bit 16 c)"

section \<open>Wrap\<close>

text \<open>\<open>copy(buf[i:], xs)\<close> for a slice that lies inside the buffer.\<close>

definition put_at :: "nat \<Rightarrow> bytes \<Rightarrow> bytes \<Rightarrow> bytes" where
  "put_at i xs buf = take i buf @ xs @ drop (i + length xs) buf"

definition rtpHeader :: "ObfsConfig \<Rightarrow> 16 word \<Rightarrow> 32 word \<Rightarrow> bytes" where
  "rtpHeader cfg seq ts =
     [0x80 OR 0x20, PayloadType cfg AND 0x7F] @ PutUint16 seq @ PutUint32 ts @ PutUint32 (SSRC cfg)"

definition obfsPadRand :: "ObfsConfig \<Rightarrow> entropy \<Rightarrow> (nat \<times> entropy) option" where
  "obfsPadRand cfg ent =
     (if PaddingMax cfg > 0 then
        (case rand_read 1 ent of
           None \<Rightarrow> None
         | Some (b, ent') \<Rightarrow> Some (unat (hd b) mod nat (PaddingMax cfg), ent'))
      else Some (0, ent))"

definition obfsWrapPacket ::
  "(bytes \<Rightarrow> aead option) \<Rightarrow> bytes \<Rightarrow> bytes \<Rightarrow> ObfsConfig \<Rightarrow> ObfsState \<Rightarrow> aead_cache \<Rightarrow> entropy
     \<Rightarrow> (obfs_error + bytes) \<times> ObfsState \<times> aead_cache \<times> entropy" where
  "obfsWrapPacket newc key payload cfg st cache ent =
     (if length key \<noteq> wrapKeyLen then (err KeyLength, st, cache, ent)
      else if payload = [] then (err EmptyPayload, st, cache, ent)
      else
        let c = pcount st;
            st' = st\<lparr>pcount := c + 1\<rparr>;
            seq = obfsSeq st c;
            ts = obfsTs st c;
            nonce = obfsBuildNonce (SSRC cfg) seq ts
        in case obfsPadRand cfg ent of
             None \<Rightarrow> (err PaddingRandom, st', cache, ent)
           | Some (padRand, ent1) \<Rightarrow>
               let padTotal = padRand + 1;
                   headerLen = rtpHeaderLenLegacy;
                   outLen = headerLen + length payload + aeadOverhead + padTotal;
                   out = put_at 0 (rtpHeader cfg seq ts) (replicate outLen 0)
               in case getAEAD newc key cache of
                    (Inl _, cache') \<Rightarrow> (err CipherInit, st', cache', ent1)
                  | (Inr a, cache') \<Rightarrow>
                      let sealed = Seal a nonce payload (take headerLen out);
                          out1 = put_at headerLen sealed out;
                          padStart = headerLen + length sealed
                      in case (if padRand > 0 then rand_read padRand ent1 else Some ([], ent1)) of
                           None \<Rightarrow> (err PaddingBytes, st', cache', ent1)
                         | Some (pad, ent2) \<Rightarrow>
                             (ok ((put_at padStart pad out1)[outLen - 1 := of_nat padTotal]),
                              st', cache', ent2))"

section \<open>Unwrap\<close>

text \<open>
  The decrypted bytes are what the code leaves in \<open>dst[:n]\<close>; \<open>dstLen\<close> is \<open>len(dst)\<close>.
\<close>

definition obfsUnwrapPacket ::
  "(bytes \<Rightarrow> aead option) \<Rightarrow> bytes \<Rightarrow> bytes \<Rightarrow> nat \<Rightarrow> aead_cache \<Rightarrow> (obfs_error + bytes) \<times> aead_cache" where
  "obfsUnwrapPacket newc key wire dstLen cache =
     (if length key \<noteq> wrapKeyLen then (err KeyLength, cache)
      else if length wire < rtpHeaderLenLegacy + 1 then (err PacketTooShort, cache)
      else if drop_bit 6 (wire ! 0) \<noteq> 2 then (err NotRtpV2, cache)
      else
        let headerLen = (if wire ! 0 AND 0x10 \<noteq> 0 then rtpHeaderLenFull else rtpHeaderLenLegacy)
        in if length wire < headerLen + 1 then (err TooShortForExtension, cache)
        else
          let seq = Uint16 (drop 2 wire);
              ts = Uint32 (drop 4 wire);
              ssrc = Uint32 (drop 8 wire);
              padded = (wire ! 0 AND 0x20 \<noteq> 0);
              padLen = unat (wire ! (length wire - 1))
          in if padded \<and> (padLen = 0 \<or> padLen > length wire - headerLen)
             then (err (InvalidPadding padLen), cache)
             else
               let payloadEnd = (if padded then length wire - padLen else length wire);
                   ciphertextLen = payloadEnd - headerLen
               in if ciphertextLen \<le> aeadOverhead then (err NoPayload, cache)
                  else if ciphertextLen - aeadOverhead > dstLen then (err DstTooSmall, cache)
                  else
                    let nonce = obfsBuildNonce ssrc seq ts
                    in case getAEAD newc key cache of
                         (Inl _, cache') \<Rightarrow> (err CipherInit, cache')
                       | (Inr a, cache') \<Rightarrow>
                           (case Open a nonce (take ciphertextLen (drop headerLen wire)) (take headerLen wire) of
                              None \<Rightarrow> (err AuthFailed, cache')
                            | Some plain \<Rightarrow> (ok plain, cache')))"

definition obfsIsRTPPacket :: "bytes \<Rightarrow> bool" where
  "obfsIsRTPPacket wire =
     (if length wire < rtpHeaderLenLegacy + 1 then False
      else if drop_bit 6 (wire ! 0) \<noteq> 2 then False
      else let pt = wire ! 1 AND 0x7F in pt = 111 \<or> pt = 96)"

section \<open>Replay window\<close>

definition replayWindowSpan :: "64 word" where
  "replayWindowSpan = 4096 * 961"

definition replayWindowMaxEntries :: nat where
  "replayWindowMaxEntries = 8192"

text \<open>\<open>seen\<close> is the Go map from nonces to extended timestamps, as an association list.\<close>

record replayWindow =
  seen :: "(bytes \<times> 64 word) list"
  rssrc :: "32 word"
  highestTime :: "64 word"
  initialized :: bool

definition replayWindow0 :: replayWindow where
  "replayWindow0 = \<lparr>seen = [], rssrc = 0, highestTime = 0, initialized = False\<rparr>"

text \<open>The 32-bit timestamp extended to 64 bits around the highest time seen so far.\<close>

definition extendTime :: "64 word \<Rightarrow> 32 word \<Rightarrow> 64 word" where
  "extendTime highest ts =
     (let base = highest AND NOT 0xffffffff;
          extended = base OR ucast ts
      in if extended + 0x80000000 < highest then extended + 0x100000000
         else if extended > highest + 0x80000000 \<and> extended \<ge> 0x100000000
           then extended - 0x100000000
         else extended)"

definition wireNonce :: "bytes \<Rightarrow> bytes" where
  "wireNonce wire = obfsBuildNonce (Uint32 (drop 8 wire)) (Uint16 (drop 2 wire)) (Uint32 (drop 4 wire))"

definition evictSeen :: "64 word \<Rightarrow> (bytes \<times> 64 word) list \<Rightarrow> (bytes \<times> 64 word) list" where
  "evictSeen highest sn =
     (let cutoff = highest - min highest replayWindowSpan
      in filter (\<lambda>(_, packetTime). \<not> packetTime < cutoff) sn)"

text \<open>The window after its first packet has fixed the SSRC and the time base.\<close>

definition initWindow :: "32 word \<Rightarrow> 32 word \<Rightarrow> replayWindow \<Rightarrow> replayWindow" where
  "initWindow ssrc ts w =
     (if initialized w then w
      else w\<lparr>rssrc := ssrc, highestTime := ucast ts, seen := [], initialized := True\<rparr>)"

definition accept :: "bytes \<Rightarrow> replayWindow \<Rightarrow> bool \<times> replayWindow" where
  "accept wire w =
     (if length wire < rtpHeaderLenLegacy then (False, w)
      else
        let ssrc = Uint32 (drop 8 wire);
            ts = Uint32 (drop 4 wire);
            nonce = wireNonce wire;
            w1 = initWindow ssrc ts w
        in if rssrc w1 \<noteq> ssrc then (False, w1)
        else if map_of (seen w1) nonce \<noteq> None then (False, w1)
        else
          let extended = extendTime (highestTime w1) ts
          in if extended + replayWindowSpan < highestTime w1 then (False, w1)
          else
            let w2 = (if extended > highestTime w1 then w1\<lparr>highestTime := extended\<rparr> else w1);
                w3 = (if length (seen w2) \<ge> replayWindowMaxEntries
                      then w2\<lparr>seen := evictSeen (highestTime w2) (seen w2)\<rparr> else w2)
            in if length (seen w3) \<ge> replayWindowMaxEntries then (False, w3)
               else (True, w3\<lparr>seen := AList.update nonce extended (seen w3)\<rparr>))"

section \<open>The direct connection\<close>

record obfsDirectConn =
  wrapKey :: bytes
  ocfg :: ObfsConfig
  writeState :: ObfsState
  replay :: replayWindow

text \<open>
  \<open>Read\<close> polls the relay until a packet passes every filter.  \<open>net\<close> lists what the next calls of
  \<open>relay.ReadFrom\<close> deliver (\<open>None\<close> is an error); \<open>None\<close> as the result means that the call is still
  waiting when the list is used up.
\<close>

fun obfsRead ::
  "(bytes \<Rightarrow> aead option) \<Rightarrow> nat \<Rightarrow> bytes option list \<Rightarrow> obfsDirectConn \<Rightarrow> aead_cache
     \<Rightarrow> (obfs_error + bytes) option \<times> bytes option list \<times> obfsDirectConn \<times> aead_cache" where
  "obfsRead newc n [] c cache = (None, [], c, cache)"
| "obfsRead newc n (None # net) c cache = (Some (err RelayFailed), net, c, cache)"
| "obfsRead newc n (Some wire # net) c cache =
     (if \<not> obfsIsRTPPacket wire then obfsRead newc n net c cache
      else case obfsUnwrapPacket newc (wrapKey c) wire n cache of
        (Inl _, cache') \<Rightarrow> obfsRead newc n net c cache'
      | (Inr plain, cache') \<Rightarrow>
          (case accept wire (replay c) of
             (False, w) \<Rightarrow> obfsRead newc n net (c\<lparr>replay := w\<rparr>) cache'
           | (True, w) \<Rightarrow> (Some (ok plain), net, c\<lparr>replay := w\<rparr>, cache')))"

text \<open>
  \<open>Write\<close>: \<open>sent\<close> is the list of packets handed to the relay so far, \<open>up\<close> says whether
  \<open>relay.WriteTo\<close> succeeds.
\<close>

definition obfsWrite ::
  "(bytes \<Rightarrow> aead option) \<Rightarrow> bool \<Rightarrow> bytes \<Rightarrow> obfsDirectConn \<Rightarrow> aead_cache \<Rightarrow> entropy \<Rightarrow> bytes list
     \<Rightarrow> (obfs_error + nat) \<times> obfsDirectConn \<times> aead_cache \<times> entropy \<times> bytes list" where
  "obfsWrite newc up b c cache ent sent =
     (case obfsWrapPacket newc (wrapKey c) b (ocfg c) (writeState c) cache ent of
        (Inl e, st', cache', ent') \<Rightarrow> (err e, c\<lparr>writeState := st'\<rparr>, cache', ent', sent)
      | (Inr wrapped, st', cache', ent') \<Rightarrow>
          (if up then (ok (length b), c\<lparr>writeState := st'\<rparr>, cache', ent', sent @ [wrapped])
           else (err RelayFailed, c\<lparr>writeState := st'\<rparr>, cache', ent', sent)))"

section \<open>Nonces\<close>

lemma obfsBuildNonce_inj:
  "obfsBuildNonce a s t = obfsBuildNonce a' s' t' \<longleftrightarrow> a = a' \<and> s = s' \<and> t = t'"
  by (simp add: obfsBuildNonce_def be32.put_append_inj be16.put_append_inj be32.put_inj)

lemma length_obfsBuildNonce [go_len, simp]: "length (obfsBuildNonce a s t) = 12"
  by (simp add: obfsBuildNonce_def)

lemma mod_2_48_iff:
  fixes n m :: nat
  shows "n mod 2 ^ 48 = m mod 2 ^ 48 \<longleftrightarrow>
    n mod 2 ^ 16 = m mod 2 ^ 16 \<and> n div 2 ^ 16 mod 2 ^ 32 = m div 2 ^ 16 mod 2 ^ 32"
proof -
  have split: "k mod 2 ^ 48 = 2 ^ 16 * (k div 2 ^ 16 mod 2 ^ 32) + k mod 2 ^ 16" for k :: nat
    using mod_mult2_eq [of k "2 ^ 16" "2 ^ 32"] by simp
  have low: "k mod 2 ^ 48 mod 2 ^ 16 = k mod 2 ^ 16" for k :: nat
    by (simp add: mod_mod_cancel)
  show ?thesis
  proof
    assume eq: "n mod 2 ^ 48 = m mod 2 ^ 48"
    then have "n mod 2 ^ 16 = m mod 2 ^ 16" by (metis low)
    with eq show "n mod 2 ^ 16 = m mod 2 ^ 16 \<and> n div 2 ^ 16 mod 2 ^ 32 = m div 2 ^ 16 mod 2 ^ 32"
      unfolding split [of n] split [of m] by simp
  next
    assume "n mod 2 ^ 16 = m mod 2 ^ 16 \<and> n div 2 ^ 16 mod 2 ^ 32 = m div 2 ^ 16 mod 2 ^ 32"
    then show "n mod 2 ^ 48 = m mod 2 ^ 48" unfolding split [of n] split [of m] by simp
  qed
qed

text \<open>The timestamp step: 960 per packet and one more per wrap of the sequence number.\<close>

definition tsOffset :: "nat \<Rightarrow> nat" where
  "tsOffset c = 960 * c + c div 2 ^ 16"

lemma obfsTs_nat: "obfsTs st c = initTs st + of_nat (tsOffset (unat c))"
proof -
  have "(ucast c :: 32 word) = of_nat (unat c)" by (rule of_nat_unat [symmetric])
  moreover have "(ucast (drop_bit 16 c) :: 32 word) = of_nat (unat c div 2 ^ 16)"
    by (metis of_nat_unat unat_drop_bit_eq drop_bit_eq_div)
  ultimately show ?thesis by (simp add: obfsTs_def tsOffset_def algebra_simps)
qed

lemma obfsSeq_nat: "obfsSeq st c = initSeq st + of_nat (unat c)"
  by (simp add: obfsSeq_def)

lemma of_nat_16_eq: "(of_nat n :: 16 word) = of_nat m \<longleftrightarrow> n mod 2 ^ 16 = m mod 2 ^ 16"
  by (simp add: word_of_nat_eq_iff take_bit_eq_mod)

lemma of_nat_32_eq: "(of_nat n :: 32 word) = of_nat m \<longleftrightarrow> n mod 2 ^ 32 = m mod 2 ^ 32"
  by (simp add: word_of_nat_eq_iff take_bit_eq_mod)

lemma odd_factor_inverse: "4232052737 * (62914561 * z) = (z :: 32 word)"
proof -
  have "4232052737 * 62914561 = (1 :: 32 word)" by simp
  then show ?thesis by (simp only: mult.assoc [symmetric] mult_1)
qed

lemma odd_factor_cancel: "62914561 * x = 62914561 * y \<longleftrightarrow> x = (y :: 32 word)"
  by (metis odd_factor_inverse)

lemma tsOffset_split:
  "(of_nat (tsOffset n) :: 32 word) = 62914561 * of_nat (n div 2 ^ 16) + 960 * of_nat (n mod 2 ^ 16)"
proof -
  have "tsOffset n = 62914561 * (n div 2 ^ 16) + 960 * (n mod 2 ^ 16)"
  proof -
    define q r where "q = n div 2 ^ 16" "r = n mod 2 ^ 16"
    then have "n = 65536 * q + r" by simp
    then show ?thesis unfolding tsOffset_def q_r_def [symmetric] by simp
  qed
  then show ?thesis by simp
qed

lemma rtp_fields_unique:
  "obfsSeq st c = obfsSeq st d \<and> obfsTs st c = obfsTs st d \<longleftrightarrow>
   unat c mod 2 ^ 48 = unat d mod 2 ^ 48"
proof -
  have "obfsSeq st c = obfsSeq st d \<longleftrightarrow> unat c mod 2 ^ 16 = unat d mod 2 ^ 16"
    unfolding obfsSeq_nat add_left_cancel by (rule of_nat_16_eq)
  moreover have "obfsTs st c = obfsTs st d \<longleftrightarrow> unat c div 2 ^ 16 mod 2 ^ 32 = unat d div 2 ^ 16 mod 2 ^ 32"
    if "unat c mod 2 ^ 16 = unat d mod 2 ^ 16"
    unfolding obfsTs_nat add_left_cancel tsOffset_split that add_right_cancel odd_factor_cancel
    by (rule of_nat_32_eq)
  ultimately show ?thesis unfolding mod_2_48_iff by blast
qed

section \<open>Shape of wrapped packets\<close>

lemma length_rtpHeader [go_len, simp]: "length (rtpHeader cfg s t) = 12"
  by (simp add: rtpHeader_def)

lemma put_at_0: "put_at 0 xs buf = xs @ drop (length xs) buf"
  by (simp add: put_at_def)

lemma put_at_append: "length pre = i \<Longrightarrow> put_at i xs (pre @ post) = pre @ xs @ drop (length xs) post"
  by (simp add: put_at_def)

definition cache_ok :: "(bytes \<Rightarrow> aead option) \<Rightarrow> aead_cache \<Rightarrow> bool" where
  "cache_ok newc cache \<longleftrightarrow> (\<forall>k a. cache k = Some a \<longrightarrow> newc k = Some a)"

lemma cache_ok_empty [simp]: "cache_ok newc Map.empty"
  by (simp add: cache_ok_def)

lemma getAEAD_transparent [go_inv]:
  assumes "cache_ok newc cache" "length key = wrapKeyLen"
  shows "fst (getAEAD newc key cache) = (case newc key of None \<Rightarrow> err CipherInit | Some a \<Rightarrow> ok a)"
    and "cache_ok newc (snd (getAEAD newc key cache))"
  using assms by (auto simp: getAEAD_def cache_ok_def split: option.splits)

lemma getAEAD_cases:
  assumes "cache_ok newc cache" "length key = wrapKeyLen" "newc key = Some a"
  obtains cache' where "getAEAD newc key cache = (ok a, cache')" "cache_ok newc cache'"
  using getAEAD_transparent [OF assms(1,2)] assms(3)
  by (cases "getAEAD newc key cache") auto

lemma unat_byte_less: "unat (b :: byte) < 256"
  using unsigned_less [of b, where 'a = nat] by simp

text \<open>The bytes of a wrapped packet: header, sealed payload, padding and padding count.\<close>

lemma obfsWrapPacket_layout:
  assumes "obfsWrapPacket newc key payload cfg st cache ent = (ok wire, st', cache', ent')"
  obtains sealed padding a where
    "fst (getAEAD newc key cache) = ok a"
    "sealed = Seal a (obfsBuildNonce (SSRC cfg) (obfsSeq st (pcount st)) (obfsTs st (pcount st))) payload
               (rtpHeader cfg (obfsSeq st (pcount st)) (obfsTs st (pcount st)))"
    "length sealed = length payload + aeadOverhead \<longrightarrow>
       wire = rtpHeader cfg (obfsSeq st (pcount st)) (obfsTs st (pcount st))
              @ sealed @ padding @ [of_nat (length padding + 1)]"
    "take 12 wire = rtpHeader cfg (obfsSeq st (pcount st)) (obfsTs st (pcount st))"
    "length padding < nat (PaddingMax cfg) \<or> padding = []"
    "length padding < 256"
    "payload \<noteq> []" "length key = wrapKeyLen"
    "st' = st\<lparr>pcount := pcount st + 1\<rparr>" "cache' = snd (getAEAD newc key cache)"
proof -
  let ?h = "rtpHeader cfg (obfsSeq st (pcount st)) (obfsTs st (pcount st))"
  let ?nonce = "obfsBuildNonce (SSRC cfg) (obfsSeq st (pcount st)) (obfsTs st (pcount st))"
  have key: "length key = wrapKeyLen" and pl: "payload \<noteq> []"
    using assms by (auto simp: obfsWrapPacket_def split: if_splits)
  obtain padRand ent1 where pr: "obfsPadRand cfg ent = Some (padRand, ent1)"
    using assms key pl by (auto simp: obfsWrapPacket_def Let_def split: option.splits)
  obtain a cache1 where ga: "getAEAD newc key cache = (ok a, cache1)"
    using assms key pl pr
    by (auto simp: obfsWrapPacket_def Let_def split: option.splits prod.splits sum.splits)
  define n where "n = 12 + length payload + 16 + (padRand + 1)"
  define sealed where "sealed = Seal a ?nonce payload ?h"
  have buf: "put_at 0 ?h (replicate n 0) = ?h @ replicate (n - 12) 0"
    by (simp add: put_at_0)
  obtain pad where pad: "(if padRand > 0 then rand_read padRand ent1 else Some ([], ent1)) = Some (pad, ent')"
    and wire: "wire = (put_at (12 + length sealed) pad (put_at 12 sealed (?h @ replicate (n - 12) 0)))
                      [n - 1 := of_nat (padRand + 1)]"
    and rest: "st' = st\<lparr>pcount := pcount st + 1\<rparr>" "cache' = cache1"
    using assms key pl pr ga
    by (auto simp: obfsWrapPacket_def Let_def n_def sealed_def put_at_0 split: option.splits prod.splits)
  have lpad: "length pad = padRand"
    using pad by (auto split: if_splits dest: rand_read_length)
  have wire2: "wire = (?h @ sealed @ pad @ drop (length pad) (drop (length sealed) (replicate (n - 12) 0)))
                      [n - 1 := of_nat (padRand + 1)]"
    using wire put_at_append [of "?h @ sealed" "12 + length sealed"] by (simp add: put_at_append)
  have tail: "drop (length pad) (drop (length sealed) (replicate (n - 12) 0)) = [0 :: byte]"
    if "length sealed = length payload + 16"
    using that lpad by (simp add: n_def del: replicate_Suc drop_Suc) (simp add: Suc_diff_le)
  have lay: "wire = ?h @ sealed @ pad @ [of_nat (padRand + 1)]" if "length sealed = length payload + 16"
    unfolding wire2 tail [OF that] using that lpad by (simp add: n_def list_update_append)
  have hd12: "take 12 wire = ?h"
    unfolding wire2 by (simp add: n_def list_update_append)
  have bound: "padRand < nat (PaddingMax cfg) \<or> padRand = 0" "padRand < 256"
  proof -
    have "padRand = 0 \<or> (\<exists>b. padRand = unat (b :: byte) mod nat (PaddingMax cfg) \<and> 0 < PaddingMax cfg)"
      using pr by (auto simp: obfsPadRand_def split: if_splits option.splits)
    moreover have "unat (b :: byte) mod nat (PaddingMax cfg) < 256" for b
      using unat_byte_less [of b] by (simp add: order_le_less_trans [OF mod_less_eq_dividend])
    ultimately show "padRand < nat (PaddingMax cfg) \<or> padRand = 0" "padRand < 256" by auto
  qed
  show thesis
    by (rule that [of a sealed pad]) (use ga sealed_def lay hd12 bound lpad key pl rest in auto)
qed

lemma header_fields:
  assumes "take 12 wire = rtpHeader cfg seq ts"
  shows "Uint16 (drop 2 wire) = seq" "Uint32 (drop 4 wire) = ts" "Uint32 (drop 8 wire) = SSRC cfg"
    and "wire ! 0 = 0xA0" "wire ! 1 = PayloadType cfg AND 0x7F" "12 \<le> length wire"
proof -
  obtain rest where w: "wire = rtpHeader cfg seq ts @ rest"
    by (metis assms append_take_drop_id)
  show "Uint16 (drop 2 wire) = seq" "Uint32 (drop 4 wire) = ts" "Uint32 (drop 8 wire) = SSRC cfg"
    "wire ! 0 = 0xA0" "wire ! 1 = PayloadType cfg AND 0x7F" "12 \<le> length wire"
    unfolding w by (simp_all add: rtpHeader_def be16.get_put be32.get_put)
qed

lemma wireNonce_header:
  "take 12 wire = rtpHeader cfg seq ts \<Longrightarrow> wireNonce wire = obfsBuildNonce (SSRC cfg) seq ts"
  by (simp add: wireNonce_def header_fields)

text \<open>One direction of a session: the packets produced for a sequence of payloads.\<close>

fun obfsWraps ::
  "(bytes \<Rightarrow> aead option) \<Rightarrow> bytes \<Rightarrow> ObfsConfig \<Rightarrow> bytes list \<Rightarrow> ObfsState \<Rightarrow> aead_cache \<Rightarrow> entropy
     \<Rightarrow> bytes list" where
  "obfsWraps newc key cfg [] st cache ent = []"
| "obfsWraps newc key cfg (p # ps) st cache ent =
     (case obfsWrapPacket newc key p cfg st cache ent of
        (Inl _, st', cache', ent') \<Rightarrow> obfsWraps newc key cfg ps st' cache' ent'
      | (Inr wire, st', cache', ent') \<Rightarrow> wire # obfsWraps newc key cfg ps st' cache' ent')"

definition nonceAt :: "ObfsConfig \<Rightarrow> ObfsState \<Rightarrow> 64 word \<Rightarrow> bytes" where
  "nonceAt cfg st c = obfsBuildNonce (SSRC cfg) (obfsSeq st c) (obfsTs st c)"

lemma nonceAt_eq_iff: "nonceAt cfg st c = nonceAt cfg st d \<longleftrightarrow> unat c mod 2 ^ 48 = unat d mod 2 ^ 48"
  unfolding nonceAt_def obfsBuildNonce_inj using rtp_fields_unique [of st c d] by blast

lemma nonceAt_pcount [simp]: "nonceAt cfg (st\<lparr>pcount := k\<rparr>) c = nonceAt cfg st c"
  by (simp add: nonceAt_def obfsSeq_def obfsTs_def)

lemma obfsWrapPacket_nonce:
  "obfsWrapPacket newc key p cfg st cache ent = (ok wire, st', cache', ent')
   \<Longrightarrow> wireNonce wire = nonceAt cfg st (pcount st)"
  by (erule obfsWrapPacket_layout) (simp add: nonceAt_def wireNonce_header)

text \<open>The counter moves by at most one per call, also when the call fails.\<close>

lemma obfsWrapPacket_state:
  "obfsWrapPacket newc key p cfg st cache ent = (r, st', cache', ent')
   \<Longrightarrow> st' = st \<or> st' = st\<lparr>pcount := pcount st + 1\<rparr>"
  by (auto simp: obfsWrapPacket_def Let_def split: if_splits option.splits prod.splits sum.splits)

lemma obfsWraps_nonces:
  "n \<in> set (map wireNonce (obfsWraps newc key cfg ps st cache ent))
   \<Longrightarrow> \<exists>k < length ps. n = nonceAt cfg st (pcount st + of_nat k)"
proof (induction ps arbitrary: st cache ent)
  case (Cons p ps)
  obtain r st' cache' ent' where w: "obfsWrapPacket newc key p cfg st cache ent = (r, st', cache', ent')"
    by (metis prod_cases4)
  have st': "st' = st \<or> st' = st\<lparr>pcount := pcount st + 1\<rparr>" using obfsWrapPacket_state [OF w] .
  from Cons.prems w consider
      "\<exists>wire. r = ok wire \<and> n = wireNonce wire"
    | "n \<in> set (map wireNonce (obfsWraps newc key cfg ps st' cache' ent'))"
    by (cases r) auto
  then show ?case
  proof cases
    case 1
    with w have "n = nonceAt cfg st (pcount st + of_nat 0)"
      using obfsWrapPacket_nonce by fastforce
    then show ?thesis by blast
  next
    case 2
    from Cons.IH [OF this] obtain k where k: "k < length ps" "n = nonceAt cfg st' (pcount st' + of_nat k)"
      by blast
    from st' show ?thesis
    proof
      assume "st' = st" with k show ?thesis by (auto intro!: exI [of _ k])
    next
      assume "st' = st\<lparr>pcount := pcount st + 1\<rparr>"
      with k show ?thesis by (auto intro!: exI [of _ "Suc k"] simp: algebra_simps)
    qed
  qed
qed simp

lemma counter_offset_ne:
  assumes "k < 2 ^ 48" "0 < k"
  shows "unat (c + of_nat k :: 64 word) mod 2 ^ 48 \<noteq> unat c mod 2 ^ 48"
proof
  assume eq: "unat (c + of_nat k) mod 2 ^ 48 = unat c mod 2 ^ 48"
  have "unat (c + of_nat k) = (unat c + k) mod 2 ^ 64"
    using assms by (simp add: unat_word_ariths unat_of_nat mod_add_right_eq)
  then have "unat (c + of_nat k) mod 2 ^ 48 = (unat c + k) mod 2 ^ 48"
    by (simp add: mod_mod_cancel)
  with eq have "(unat c + k) mod 2 ^ 48 = unat c mod 2 ^ 48" by simp
  then have "2 ^ 48 dvd k" by (metis add_diff_cancel_left' le_add1 mod_eq_dvd_iff_nat)
  with assms show False by (meson nat_dvd_not_less)
qed

text \<open>
  C1.  Nonce uniqueness.  Over up to \<open>2^48\<close> packets of one direction, whatever payloads are sent and
  whichever calls fail, no two packets carry the same AEAD nonce, although the wire fields hold only
  a 16-bit sequence number and a 32-bit timestamp.
\<close>

theorem obfs_nonces_distinct:
  assumes "length payloads \<le> 2 ^ 48"
  shows "distinct (map wireNonce (obfsWraps newc key cfg payloads st cache ent))"
  using assms
proof (induction payloads arbitrary: st cache ent)
  case (Cons p ps)
  obtain r st' cache' ent' where w: "obfsWrapPacket newc key p cfg st cache ent = (r, st', cache', ent')"
    by (metis prod_cases4)
  have IH: "distinct (map wireNonce (obfsWraps newc key cfg ps st' cache' ent'))"
    using Cons by simp
  show ?case
  proof (cases r)
    case (Inr wire)
    have st': "st' = st\<lparr>pcount := pcount st + 1\<rparr>"
      using w Inr by (auto elim: obfsWrapPacket_layout)
    have "wireNonce wire \<notin> set (map wireNonce (obfsWraps newc key cfg ps st' cache' ent'))"
    proof
      assume "wireNonce wire \<in> set (map wireNonce (obfsWraps newc key cfg ps st' cache' ent'))"
      from obfsWraps_nonces [OF this] obtain k where
        k: "k < length ps" "wireNonce wire = nonceAt cfg st' (pcount st' + of_nat k)" by blast
      then have "nonceAt cfg st (pcount st + of_nat (Suc k)) = nonceAt cfg st (pcount st)"
        using w Inr st' by (simp add: obfsWrapPacket_nonce algebra_simps)
      then show False
        using counter_offset_ne [of "Suc k" "pcount st"] k Cons.prems by (simp add: nonceAt_eq_iff)
    qed
    with IH w Inr show ?thesis by simp
  qed (use IH w in simp)
qed simp

text \<open>
  A cipher that satisfies the hypotheses on the third-party package, for the concrete runs below: it
  appends sixteen bytes that depend on the nonce and checks them.
\<close>

definition demo_aead :: aead where
  "demo_aead =
     \<lparr>Seal = (\<lambda>n p ad. map (\<lambda>b. b + 1) p @ take 16 (n @ replicate 16 0)),
      Open = (\<lambda>n c ad.
        let k = length c - 16 in
        if drop k c = take 16 (n @ replicate 16 0) then Some (map (\<lambda>b. b - 1) (take k c)) else None)\<rparr>"

lemma demo_aead_ok: "aead_ok demo_aead"
  by (auto simp: aead_ok_def demo_aead_def comp_def)

definition demo_new :: "bytes \<Rightarrow> aead option" where
  "demo_new key = (if length key = 32 then Some demo_aead else None)"

definition demo_cfg :: ObfsConfig where
  "demo_cfg = \<lparr>SSRC = 7, PayloadType = 111, PaddingMax = 24\<rparr>"

definition demo_state :: ObfsState where
  "demo_state = \<lparr>initSeq = 65535, initTs = 4294967295, pcount = 0\<rparr>"

text \<open>A run with three payloads, one of them empty and therefore refused, gives two packets.\<close>

theorem obfs_nonces_distinct_witness:
  "length (obfsWraps demo_new (replicate 32 9) demo_cfg [[1], [], [2, 3]] demo_state Map.empty
            [1, 0x11, 25, 0x22]) = 2 \<and>
   distinct (map wireNonce (obfsWraps demo_new (replicate 32 9) demo_cfg [[1], [], [2, 3]] demo_state
            Map.empty [1, 0x11, 25, 0x22]))"
proof
  show "length (obfsWraps demo_new (replicate 32 9) demo_cfg [[1], [], [2, 3]] demo_state Map.empty
            [1, 0x11, 25, 0x22]) = 2"
    by code_simp
qed (rule obfs_nonces_distinct, simp)

section \<open>Round trip\<close>

definition cfg_ok :: "ObfsConfig \<Rightarrow> bool" where
  "cfg_ok cfg \<longleftrightarrow> (PayloadType cfg = 111 \<and> PaddingMax cfg = 24) \<or> (PayloadType cfg = 96 \<and> PaddingMax cfg = 60)"

lemma NewObfsConfig_ok [go_inv]: "NewObfsConfig mode ent = ok (cfg, ent') \<Longrightarrow> cfg_ok cfg"
  by (auto simp: NewObfsConfig_def cfg_ok_def Let_def split: option.splits if_splits)

lemma obfsWrapPacket_succeeds:
  assumes "length key = 32" "payload \<noteq> []" "newc key = Some a" "cache_ok newc cache"
    and "1 + PaddingMax cfg \<le> int (length ent)" "0 < PaddingMax cfg"
  shows "\<exists>wire st' cache' ent'. obfsWrapPacket newc key payload cfg st cache ent = (ok wire, st', cache', ent')"
proof -
  obtain cache' where ga: "getAEAD newc key cache = (ok a, cache')"
    using getAEAD_cases [of newc cache key a] assms by auto
  obtain b ent1 where ent: "ent = b # ent1" using assms by (cases ent) auto
  let ?n = "unat b mod nat (PaddingMax cfg)"
  have pr: "obfsPadRand cfg ent = Some (?n, ent1)"
    using assms by (simp add: obfsPadRand_def rand_read_def ent)
  have "?n < nat (PaddingMax cfg)" "nat (PaddingMax cfg) \<le> length ent1" using assms by (simp_all add: ent)
  then have "?n \<le> length ent1" by linarith
  then show ?thesis
    using assms pr ga by (auto simp: obfsWrapPacket_def Let_def rand_read_def)
qed

lemma obfsWrapPacket_wire:
  assumes w: "obfsWrapPacket newc key payload cfg st cache ent = (ok wire, st', cache', ent')"
    and a: "newc key = Some a" "aead_ok a" and c: "cache_ok newc cache"
  obtains padding where
    "wire = rtpHeader cfg (obfsSeq st (pcount st)) (obfsTs st (pcount st))
       @ Seal a (nonceAt cfg st (pcount st)) payload (rtpHeader cfg (obfsSeq st (pcount st)) (obfsTs st (pcount st)))
       @ padding @ [of_nat (length padding + 1)]"
    "length padding < nat (PaddingMax cfg) \<or> padding = []" "length padding < 256"
    "payload \<noteq> []" "length key = 32" "cache_ok newc cache'" "st' = st\<lparr>pcount := pcount st + 1\<rparr>"
  using w
proof (rule obfsWrapPacket_layout)
  fix sealed padding a' assume l: "fst (getAEAD newc key cache) = ok a'"
    "sealed = Seal a' (obfsBuildNonce (SSRC cfg) (obfsSeq st (pcount st)) (obfsTs st (pcount st))) payload
               (rtpHeader cfg (obfsSeq st (pcount st)) (obfsTs st (pcount st)))"
    "length sealed = length payload + aeadOverhead \<longrightarrow>
       wire = rtpHeader cfg (obfsSeq st (pcount st)) (obfsTs st (pcount st))
              @ sealed @ padding @ [of_nat (length padding + 1)]"
    "length padding < nat (PaddingMax cfg) \<or> padding = []" "length padding < 256"
    "payload \<noteq> []" "length key = wrapKeyLen"
    "st' = st\<lparr>pcount := pcount st + 1\<rparr>" "cache' = snd (getAEAD newc key cache)"
  have "a' = a" using getAEAD_transparent(1) [OF c l(7)] l(1) a(1) by simp
  moreover have "length sealed = length payload + aeadOverhead" using a(2) l(2) \<open>a' = a\<close>
    by (simp add: aead_ok_def)
  ultimately show thesis
    using that [of padding] l getAEAD_transparent(2) [OF c l(7)] by (simp add: nonceAt_def)
qed

lemma unat_pad_byte: "n < 255 \<Longrightarrow> unat (of_nat (n + 1) :: byte) = n + 1"
  by (subst unat_of_nat) simp

text \<open>Decoding any packet laid out as the sender does, with less than 255 bytes of padding.\<close>

lemma obfsUnwrapPacket_layout:
  assumes "length key = 32" "newc key = Some a" "aead_ok a" "cache_ok newc cache"
    and h: "h = rtpHeader cfg seq ts"
    and wire: "wire = h @ Seal a (obfsBuildNonce (SSRC cfg) seq ts) payload h @ padding @ [of_nat (length padding + 1)]"
    and "length padding < 255" "payload \<noteq> []" "length payload \<le> dstLen"
  obtains cache' where "obfsUnwrapPacket newc key wire dstLen cache = (ok payload, cache')" "cache_ok newc cache'"
proof -
  obtain cache' where ga: "getAEAD newc key cache = (ok a, cache')" "cache_ok newc cache'"
    using getAEAD_cases [of newc cache key a] assms(1-4) by auto
  let ?s = "Seal a (obfsBuildNonce (SSRC cfg) seq ts) payload h"
  have t12: "take 12 wire = rtpHeader cfg seq ts" by (simp add: wire h)
  note f = header_fields [OF t12]
  have ls: "length ?s = length payload + 16" using assms(3) by (simp add: aead_ok_def)
  have lw: "length wire = 12 + (length payload + 16) + (length padding + 1)" using ls by (simp add: wire h)
  have last: "unat (wire ! (length wire - 1)) = length padding + 1"
  proof -
    have "wire ! (length wire - 1) = of_nat (length padding + 1)"
      by (simp add: wire nth_append)
    then show ?thesis using unat_pad_byte assms(7) by simp
  qed
  have bits: "drop_bit 6 (0xA0 :: byte) = 2" "(0xA0 :: byte) AND 0x10 = 0" "(0xA0 :: byte) AND 0x20 \<noteq> 0"
    by code_simp+
  have opened: "Open a (obfsBuildNonce (SSRC cfg) seq ts) (take (16 + length payload) (drop 12 wire)) (take 12 wire)
      = Some payload"
    using assms(3) ls by (simp add: wire h aead_ok_def)
  have "obfsUnwrapPacket newc key wire dstLen cache = (ok payload, cache')"
    unfolding obfsUnwrapPacket_def
    using assms(1,8,9) opened ga(1) last by (simp add: f bits lw Let_def)
  then show thesis using ga(2) by (rule that)
qed

text \<open>
  C2.  Round trip.  With a configuration made by \<open>NewObfsConfig\<close> (either mode), a 32-byte key and
  enough entropy, wrapping a non-empty payload succeeds, the packet passes the receiver's RTP filter,
  and unwrapping it with the same key into a buffer that is large enough gives back the payload,
  whatever the two sides have cached.
\<close>

theorem obfs_wrap_unwrap:
  assumes "NewObfsConfig mode ent0 = ok (cfg, ent1)"
    and "newc key = Some a" "aead_ok a" "length key = 32" "cache_ok newc cache" "cache_ok newc rcache"
    and "payload \<noteq> []" "61 \<le> length ent" "length payload \<le> dstLen"
  shows "\<exists>wire st' cache' ent'. obfsWrapPacket newc key payload cfg st cache ent = (ok wire, st', cache', ent')
           \<and> obfsIsRTPPacket wire
           \<and> fst (obfsUnwrapPacket newc key wire dstLen rcache) = ok payload"
proof -
  have cfg: "cfg_ok cfg" using assms(1) by (rule NewObfsConfig_ok)
  then have "0 < PaddingMax cfg" "PaddingMax cfg \<le> 60" by (auto simp: cfg_ok_def)
  then obtain wire st' cache' ent' where
    w: "obfsWrapPacket newc key payload cfg st cache ent = (ok wire, st', cache', ent')"
    using obfsWrapPacket_succeeds [of key payload newc a cache cfg ent st] assms by auto
  then obtain padding where l:
    "wire = rtpHeader cfg (obfsSeq st (pcount st)) (obfsTs st (pcount st))
       @ Seal a (nonceAt cfg st (pcount st)) payload (rtpHeader cfg (obfsSeq st (pcount st)) (obfsTs st (pcount st)))
       @ padding @ [of_nat (length padding + 1)]"
    "length padding < nat (PaddingMax cfg) \<or> padding = []"
    by (rule obfsWrapPacket_wire [OF _ assms(2,3,5)])
  have "length padding < 255" using l(2) \<open>PaddingMax cfg \<le> 60\<close> by auto
  then obtain rcache' where "obfsUnwrapPacket newc key wire dstLen rcache = (ok payload, rcache')"
    by (rule obfsUnwrapPacket_layout [OF assms(4,2,3,6) refl l(1) [unfolded nonceAt_def] _ assms(7,9)])
  then have "fst (obfsUnwrapPacket newc key wire dstLen rcache) = ok payload" by simp
  moreover have "obfsIsRTPPacket wire"
  proof -
    have t12: "take 12 wire = rtpHeader cfg (obfsSeq st (pcount st)) (obfsTs st (pcount st))"
      by (simp add: l(1))
    have bits: "drop_bit 6 (0xA0 :: byte) = 2" "(111 :: byte) AND 0x7F = 111" "(96 :: byte) AND 0x7F = 96"
      by code_simp+
    have "12 < length wire" by (simp add: l(1))
    then show ?thesis
      using cfg unfolding obfsIsRTPPacket_def header_fields [OF t12] cfg_ok_def
      by (elim disjE conjE) (simp_all add: bits Let_def)
  qed
  ultimately show ?thesis using w by blast
qed

theorem obfs_wrap_unwrap_witness:
  "\<exists>wire st' cache' ent'.
     obfsWrapPacket demo_new (replicate 32 9) [1, 2, 3] \<lparr>SSRC = 0x01020304, PayloadType = 96, PaddingMax = 60\<rparr>
       demo_state Map.empty (replicate 61 200) = (ok wire, st', cache', ent')
     \<and> obfsIsRTPPacket wire
     \<and> fst (obfsUnwrapPacket demo_new (replicate 32 9) wire 3 Map.empty) = ok [1, 2, 3]"
proof (rule obfs_wrap_unwrap [where a = demo_aead and mode = "'' Video''" and ?ent0.0 = "[1, 2, 3, 4]" and ?ent1.0 = "[]"])
  show "NewObfsConfig '' Video'' [1, 2, 3, 4] =
    ok (\<lparr>SSRC = 0x01020304, PayloadType = 96, PaddingMax = 60\<rparr>, [])"
    by code_simp
qed (simp_all add: demo_new_def demo_aead_ok)

text \<open>
  C3.  Size of packets.  A wrapped packet is at most 28 bytes and the padding longer than the payload.
  The receive buffer of \<open>obfsDirectConn.Read\<close> has 80 bytes of slack, so it holds every packet of the
  audio mode.
\<close>

theorem obfs_wire_length:
  assumes "NewObfsConfig mode ent0 = ok (cfg, ent1)"
    and "obfsWrapPacket newc key payload cfg st cache ent = (ok wire, st', cache', ent')"
    and "newc key = Some a" "aead_ok a" "cache_ok newc cache"
  shows "length payload + 29 \<le> length wire \<and> int (length wire) \<le> int (length payload) + 28 + PaddingMax cfg
         \<and> (normalizeObfsMode mode = ''audio'' \<longrightarrow> length wire \<le> length payload + 80)"
proof -
  have cfg: "cfg_ok cfg" using assms(1) by (rule NewObfsConfig_ok)
  have audio: "PaddingMax cfg = 24" if "normalizeObfsMode mode = ''audio''"
    using assms(1) that by (auto simp: NewObfsConfig_def Let_def split: option.splits)
  obtain padding where l:
    "wire = rtpHeader cfg (obfsSeq st (pcount st)) (obfsTs st (pcount st))
       @ Seal a (nonceAt cfg st (pcount st)) payload (rtpHeader cfg (obfsSeq st (pcount st)) (obfsTs st (pcount st)))
       @ padding @ [of_nat (length padding + 1)]"
    "length padding < nat (PaddingMax cfg) \<or> padding = []"
    by (rule obfsWrapPacket_wire [OF assms(2-5)])
  have "length wire = 12 + (length payload + 16) + (length padding + 1)"
    using assms(4) by (simp add: l(1) aead_ok_def)
  then show ?thesis using l(2) cfg audio by (auto simp: cfg_ok_def)
qed

theorem obfs_wire_length_witness:
  "\<exists>wire st' cache' ent'.
     obfsWrapPacket demo_new (replicate 32 9) [1, 2, 3] demo_cfg demo_state Map.empty (replicate 61 200)
       = (ok wire, st', cache', ent') \<and> 32 \<le> length wire \<and> length wire \<le> 83"
proof -
  have cfg: "NewObfsConfig ''audio'' [0, 0, 0, 7] = ok (demo_cfg, [])" by code_simp
  have mode: "normalizeObfsMode ''audio'' = ''audio''" by code_simp
  obtain wire st' cache' ent' where
    w: "obfsWrapPacket demo_new (replicate 32 9) [1, 2, 3] demo_cfg demo_state Map.empty (replicate 61 200)
          = (ok wire, st', cache', ent')"
    using obfsWrapPacket_succeeds [of "replicate 32 9" "[1, 2, 3]" demo_new demo_aead Map.empty demo_cfg
        "replicate 61 200" demo_state]
    by (auto simp: demo_new_def demo_cfg_def)
  from obfs_wire_length [OF cfg w _ demo_aead_ok] mode w show ?thesis
    by (auto simp: demo_new_def)
qed

text \<open>
  In the video mode the slack is too small: with an admissible padding draw the packet exceeds the
  payload by 88 bytes, 8 more than the receive buffer of \<open>obfsDirectConn.Read\<close> provides for.
\<close>

lemma obfs_video_exceeds_read_slack:
  "\<exists>wire st' cache' ent'.
     NewObfsConfig ''video'' [0, 0, 0, 7] = ok (\<lparr>SSRC = 7, PayloadType = 96, PaddingMax = 60\<rparr>, [])
     \<and> obfsWrapPacket demo_new (replicate 32 9) [1, 2, 3] \<lparr>SSRC = 7, PayloadType = 96, PaddingMax = 60\<rparr>
         demo_state Map.empty (59 # replicate 59 0) = (ok wire, st', cache', ent')
     \<and> length wire = length [1 :: byte, 2, 3] + 88"
proof -
  let ?cfg = "\<lparr>SSRC = 7, PayloadType = 96, PaddingMax = 60\<rparr>"
  let ?r = "obfsWrapPacket demo_new (replicate 32 9) [1, 2, 3] ?cfg demo_state Map.empty (59 # replicate 59 0)"
  have "NewObfsConfig ''video'' [0, 0, 0, 7] = ok (?cfg, [])" by code_simp
  moreover have "(case fst ?r of Inr wire \<Rightarrow> length wire = 91 | Inl _ \<Rightarrow> False)" by code_simp
  ultimately show ?thesis
    by (cases ?r) (auto split: sum.splits)
qed

end
