(* ===== verification/Obfs_Replay.thy ===== *)
theory Obfs_Replay
  imports Obfs
begin

text \<open>
  Correctness of the replay window of \<open>internal/core/obfs.go\<close> and of \<open>obfsDirectConn\<close>: the window
  stays bounded, a packet that was accepted is not accepted again, and packets that arrive in
  order are all accepted and decoded.
\<close>

section \<open>Extended timestamps\<close>

lemma unat_ucast_64: "unat (ucast (ts :: 32 word) :: 64 word) = unat ts"
proof -
  have "unat ts < 2 ^ 32" using unsigned_less [of ts, where 'a = nat] by simp
  then show ?thesis by (simp add: unsigned_ucast_eq take_bit_nat_eq_self_iff)
qed

lemma base_or_ts:
  "unat ((h AND NOT 0xffffffff) OR (ucast (ts :: 32 word) :: 64 word)) = unat h div 2 ^ 32 * 2 ^ 32 + unat ts"
proof -
  have m: "(0xffffffff :: 64 word) = mask 32" by (simp add: mask_eq_exp_minus_1)
  have "(h AND NOT (mask 32)) OR (ucast ts :: 64 word) = push_bit 32 (drop_bit 32 h) OR ucast ts"
    by (rule bit_word_eqI) (auto simp: bit_simps)
  also have "\<dots> = push_bit 32 (drop_bit 32 h) + ucast ts"
  proof (rule disjunctive_add_eq_or [symmetric], rule bit_word_eqI)
    have "\<not> bit ts n" if "32 \<le> n" for n using bit_imp_le_length [of ts n] that by auto
    then show "bit (push_bit 32 (drop_bit 32 h) AND ucast ts) n = bit (0 :: 64 word) n" for n
      by (auto simp: bit_simps)
  qed
  finally have eq: "(h AND NOT 0xffffffff) OR ucast ts = push_bit 32 (drop_bit 32 h) + (ucast ts :: 64 word)"
    by (simp add: m)
  have u1: "unat (push_bit 32 (drop_bit 32 h)) = unat h div 2 ^ 32 * 2 ^ 32"
  proof -
    have "unat h div 2 ^ 32 < 2 ^ 32"
      using unsigned_less [of h, where 'a = nat] by (simp add: div_less_iff_less_mult)
    then show ?thesis
      by (simp add: push_bit_eq_mult unat_word_ariths unat_drop_bit_eq drop_bit_eq_div)
  qed
  note u2 = unat_ucast_64 [of ts]
  have "unat h div 2 ^ 32 * 2 ^ 32 + unat ts < 2 ^ 64"
  proof -
    have "unat h div 2 ^ 32 < 2 ^ 32"
      using unsigned_less [of h, where 'a = nat] by (simp add: div_less_iff_less_mult)
    moreover have "unat ts < 2 ^ 32" using unsigned_less [of ts, where 'a = nat] by simp
    ultimately show ?thesis by simp
  qed
  then show ?thesis unfolding eq by (simp add: unat_word_ariths u1 u2)
qed

lemma extendTime_nat:
  assumes "unat h + 2 ^ 33 < 2 ^ 64"
  shows "unat (extendTime h ts) =
    (let e0 = unat h div 2 ^ 32 * 2 ^ 32 + unat ts in
     if e0 + 2 ^ 31 < unat h then e0 + 2 ^ 32
     else if e0 > unat h + 2 ^ 31 \<and> e0 \<ge> 2 ^ 32 then e0 - 2 ^ 32 else e0)"
proof -
  define e where "e = (h AND NOT 0xffffffff) OR (ucast ts :: 64 word)"
  define f where "f = unat h div 2 ^ 32 * 2 ^ 32 + unat ts"
  have e: "unat e = f" unfolding e_def f_def by (rule base_or_ts)
  have ts: "unat ts < 2 ^ 32" using unsigned_less [of ts, where 'a = nat] by simp
  have "unat h div 2 ^ 32 * 2 ^ 32 \<le> unat h" by (rule div_times_less_eq_dividend)
  then have small: "f + 2 ^ 32 < 2 ^ 64" using assms ts unfolding f_def by simp
  have "unat (e + 0x80000000) = f + 2 ^ 31" "unat (e + 0x100000000) = f + 2 ^ 32"
    "unat (h + 0x80000000) = unat h + 2 ^ 31"
    using small assms by (simp_all add: unat_word_ariths e)
  moreover have "unat (e - 0x100000000) = f - 2 ^ 32" if "2 ^ 32 \<le> f"
    using that e by (simp add: unat_sub word_le_nat_alt)
  ultimately show ?thesis
    unfolding extendTime_def Let_def e_def [symmetric] f_def [symmetric]
    by (auto simp: word_less_nat_alt word_le_nat_alt e)
qed

text \<open>A time stamp less than half an epoch away from the highest one is recovered exactly.\<close>

lemma extendTime_near:
  assumes "t mod 2 ^ 32 = unat ts" "t < unat h + 2 ^ 31" "unat h < t + 2 ^ 31" "unat h < 2 ^ 63"
  shows "unat (extendTime h ts) = t"
proof -
  define q where "q = unat h div 2 ^ 32"
  define r where "r = unat h mod 2 ^ 32"
  define p where "p = t div 2 ^ 32"
  define s where "s = unat ts"
  have h: "unat h = q * 2 ^ 32 + r" "r < 2 ^ 32" by (simp_all add: q_def r_def)
  have t: "t = p * 2 ^ 32 + s" "s < 2 ^ 32"
    using assms(1) by (simp_all add: p_def s_def mod_div_mult_eq flip: assms(1))
  have "p = q \<or> p = Suc q \<or> Suc p = q" 
  proof -
    have "p < q + 2" "q < p + 2" using assms(2,3) h t by simp_all
    then show ?thesis by auto
  qed
  moreover have "unat (extendTime h ts) =
    (if q * 2 ^ 32 + s + 2 ^ 31 < unat h then q * 2 ^ 32 + s + 2 ^ 32
     else if q * 2 ^ 32 + s > unat h + 2 ^ 31 \<and> q * 2 ^ 32 + s \<ge> 2 ^ 32 then q * 2 ^ 32 + s - 2 ^ 32
     else q * 2 ^ 32 + s)"
    using extendTime_nat [of h ts] assms(4) by (simp add: Let_def q_def s_def)
  ultimately show ?thesis
    using assms(2,3) unfolding t(1) h(1) using h(2) t(2) by auto
qed

section \<open>Invariant of the window\<close>

definition window_ok :: "replayWindow \<Rightarrow> bool" where
  "window_ok w \<longleftrightarrow> length (seen w) \<le> replayWindowMaxEntries \<and> distinct (map fst (seen w))
     \<and> (\<forall>(n, t) \<in> set (seen w). t \<le> highestTime w)
     \<and> (\<not> initialized w \<longrightarrow> seen w = [])"

lemma window_ok_initial: "window_ok replayWindow0"
  by (simp add: window_ok_def replayWindow0_def)

lemma initWindow_ok: "window_ok w \<Longrightarrow> window_ok (initWindow ssrc ts w)"
  by (simp add: window_ok_def initWindow_def)

lemma evictSeen_subset: "set (evictSeen h sn) \<subseteq> set sn"
  by (auto simp: evictSeen_def Let_def)

lemma length_evictSeen: "length (evictSeen h sn) \<le> length sn"
  by (simp add: evictSeen_def Let_def)

lemma distinct_evictSeen: "distinct (map fst sn) \<Longrightarrow> distinct (map fst (evictSeen h sn))"
  by (simp add: evictSeen_def Let_def distinct_map_filter)

lemma update_fresh: "map_of al k = None \<Longrightarrow> AList.update k v al = al @ [(k, v)]"
  by (induction al) auto

lemma evictSeen_None: "map_of sn k = None \<Longrightarrow> map_of (evictSeen h sn) k = None"
  using evictSeen_subset [of h sn] by (auto simp: map_of_eq_None_iff)

text \<open>
  What one call of \<open>accept\<close> does, on a packet long enough to carry a header: the steps between the
  checks, named so that each property below is a case split.
\<close>

definition bumpWindow :: "64 word \<Rightarrow> replayWindow \<Rightarrow> replayWindow" where
  "bumpWindow ext w1 =
     (let w2 = (if ext > highestTime w1 then w1\<lparr>highestTime := ext\<rparr> else w1)
      in if length (seen w2) \<ge> replayWindowMaxEntries
         then w2\<lparr>seen := evictSeen (highestTime w2) (seen w2)\<rparr> else w2)"

lemma accept_eq:
  assumes "12 \<le> length wire"
    and "w1 = initWindow (Uint32 (drop 8 wire)) (Uint32 (drop 4 wire)) w"
    and "ext = extendTime (highestTime w1) (Uint32 (drop 4 wire))"
    and "v = bumpWindow ext w1"
  shows "accept wire w =
    (if rssrc w1 \<noteq> Uint32 (drop 8 wire) then (False, w1)
     else if map_of (seen w1) (wireNonce wire) \<noteq> None then (False, w1)
     else if ext + replayWindowSpan < highestTime w1 then (False, w1)
     else if length (seen v) \<ge> replayWindowMaxEntries then (False, v)
     else (True, v\<lparr>seen := AList.update (wireNonce wire) ext (seen v)\<rparr>))"
  using assms(1) unfolding accept_def assms(2-4) bumpWindow_def Let_def by simp

lemma accept_cases:
  assumes "accept wire w = (b, w')"
  obtains (short) "length wire < 12" "\<not> b" "w' = w"
  | (refused) w1 where "w1 = initWindow (Uint32 (drop 8 wire)) (Uint32 (drop 4 wire)) w" "\<not> b" "w' = w1"
  | (full) w1 ext where "w1 = initWindow (Uint32 (drop 8 wire)) (Uint32 (drop 4 wire)) w"
      "rssrc w1 = Uint32 (drop 8 wire)" "map_of (seen w1) (wireNonce wire) = None"
      "ext = extendTime (highestTime w1) (Uint32 (drop 4 wire))"
      "\<not> ext + replayWindowSpan < highestTime w1" "\<not> b" "w' = bumpWindow ext w1"
      "replayWindowMaxEntries \<le> length (seen w')"
  | (taken) w1 ext where "w1 = initWindow (Uint32 (drop 8 wire)) (Uint32 (drop 4 wire)) w"
      "rssrc w1 = Uint32 (drop 8 wire)" "map_of (seen w1) (wireNonce wire) = None"
      "ext = extendTime (highestTime w1) (Uint32 (drop 4 wire))"
      "\<not> ext + replayWindowSpan < highestTime w1" "b"
      "length (seen (bumpWindow ext w1)) < replayWindowMaxEntries"
      "w' = (bumpWindow ext w1)\<lparr>seen := AList.update (wireNonce wire) ext (seen (bumpWindow ext w1))\<rparr>"
      "12 \<le> length wire"
proof (cases "length wire < 12")
  case True
  then show thesis using assms short by (simp add: accept_def)
next
  case False
  define ssrc ts where "ssrc = Uint32 (drop 8 wire)" and "ts = Uint32 (drop 4 wire)"
  define w1 where "w1 = initWindow ssrc ts w"
  define ext where "ext = extendTime (highestTime w1) ts"
  let ?v = "bumpWindow ext w1"
  note acc = accept_eq [of wire w1 w ext ?v, folded ssrc_def ts_def, OF _ w1_def ext_def refl]
  have acc: "accept wire w =
    (if rssrc w1 \<noteq> ssrc then (False, w1)
     else if map_of (seen w1) (wireNonce wire) \<noteq> None then (False, w1)
     else if ext + replayWindowSpan < highestTime w1 then (False, w1)
     else if length (seen ?v) \<ge> replayWindowMaxEntries then (False, ?v)
     else (True, ?v\<lparr>seen := AList.update (wireNonce wire) ext (seen ?v)\<rparr>))"
    using False by (intro acc) simp
  consider "rssrc w1 \<noteq> ssrc \<or> map_of (seen w1) (wireNonce wire) \<noteq> None \<or> ext + replayWindowSpan < highestTime w1"
    | "rssrc w1 = ssrc" "map_of (seen w1) (wireNonce wire) = None" "\<not> ext + replayWindowSpan < highestTime w1"
      "length (seen ?v) \<ge> replayWindowMaxEntries"
    | "rssrc w1 = ssrc" "map_of (seen w1) (wireNonce wire) = None" "\<not> ext + replayWindowSpan < highestTime w1"
      "length (seen ?v) < replayWindowMaxEntries"
    by force
  then show thesis
  proof cases
    case 1
    then have "accept wire w = (False, w1)" unfolding acc by auto
    then show thesis using refused [of w1] assms by (simp add: w1_def ssrc_def ts_def)
  next
    case 2
    then show thesis using full [of w1 ext] assms acc unfolding ext_def w1_def ssrc_def ts_def by auto
  next
    case 3
    then show thesis using taken [of w1 ext] assms acc False unfolding ext_def w1_def ssrc_def ts_def by auto
  qed
qed

lemma bumpWindow_simps [simp]:
  "rssrc (bumpWindow ext w) = rssrc w" "initialized (bumpWindow ext w) = initialized w"
  "highestTime (bumpWindow ext w) = max (highestTime w) ext"
  by (auto simp: bumpWindow_def Let_def max_def)

lemma bumpWindow_seen_eq:
  "seen (bumpWindow ext w) =
     (if replayWindowMaxEntries \<le> length (seen w) then evictSeen (max (highestTime w) ext) (seen w) else seen w)"
  by (cases "ext > highestTime w") (auto simp: bumpWindow_def Let_def max_def)

lemma bumpWindow_seen: "set (seen (bumpWindow ext w)) \<subseteq> set (seen w)"
  by (auto simp: bumpWindow_def Let_def evictSeen_def)

lemma bumpWindow_ok: "window_ok w \<Longrightarrow> window_ok (bumpWindow ext w)"
proof -
  assume ok: "window_ok w"
  have "length (seen (bumpWindow ext w)) \<le> length (seen w)"
    using length_evictSeen by (auto simp: bumpWindow_def Let_def)
  moreover have "distinct (map fst (seen (bumpWindow ext w)))"
    using ok distinct_evictSeen by (auto simp: bumpWindow_def Let_def window_ok_def)
  moreover have "t \<le> max (highestTime w) ext" if "(n, t) \<in> set (seen (bumpWindow ext w))" for n t
    using that bumpWindow_seen [of ext w] ok by (fastforce simp: window_ok_def max_def)
  moreover have "seen (bumpWindow ext w) = []" if "\<not> initialized w"
    using that ok bumpWindow_seen [of ext w] by (auto simp: window_ok_def)
  ultimately show ?thesis using ok by (auto simp: window_ok_def)
qed

lemma initWindow_initialized [simp]: "initialized (initWindow a b w)"
  by (simp add: initWindow_def)

text \<open>
  C5.  The window keeps its invariant on every packet: at most 8192 nonces, no nonce twice, and no
  recorded time beyond the highest one.
\<close>

theorem accept_window_ok: "window_ok w \<Longrightarrow> window_ok (snd (accept wire w))"
proof -
  assume ok: "window_ok w"
  obtain b w' where acc: "accept wire w = (b, w')" by fastforce
  then have "window_ok w'"
  proof (cases rule: accept_cases)
    case (taken w1 ext)
    let ?v = "bumpWindow ext w1"
    have v: "window_ok ?v" using bumpWindow_ok initWindow_ok [OF ok] taken(1) by blast
    have fresh: "map_of (seen ?v) (wireNonce wire) = None"
      using taken(3) bumpWindow_seen [of ext w1] by (auto simp: map_of_eq_None_iff)
    have "seen w' = seen ?v @ [(wireNonce wire, ext)]"
      using taken(8) update_fresh [OF fresh] by simp
    moreover have "highestTime w' = max (highestTime w1) ext" "initialized w'" using taken(1,8) by simp_all
    ultimately show ?thesis
      using v taken(7) fresh by (auto simp: window_ok_def map_of_eq_None_iff max_def split: if_splits)
  qed (use ok initWindow_ok bumpWindow_ok in auto)
  with acc show ?thesis by simp
qed

definition demo_wire :: bytes where
  "demo_wire = [0xA0, 111, 0, 1, 0, 0, 3, 0xC0, 0, 0, 0, 7, 42]"

theorem accept_window_ok_witness:
  "fst (accept demo_wire replayWindow0) \<and> window_ok (snd (accept demo_wire replayWindow0))"
proof
  show "fst (accept demo_wire replayWindow0)" by code_simp
qed (rule accept_window_ok [OF window_ok_initial])

section \<open>No packet is accepted twice\<close>

text \<open>The window after a sequence of packets.\<close>

definition acceptAll :: "bytes list \<Rightarrow> replayWindow \<Rightarrow> replayWindow" where
  "acceptAll ps w = foldl (\<lambda>w p. snd (accept p w)) w ps"

lemma acceptAll_simps [simp]:
  "acceptAll [] w = w" "acceptAll (p # ps) w = acceptAll ps (snd (accept p w))"
  by (simp_all add: acceptAll_def)

lemma accept_monotone:
  assumes "initialized w"
  shows "highestTime w \<le> highestTime (snd (accept p w)) \<and> initialized (snd (accept p w))
         \<and> rssrc (snd (accept p w)) = rssrc w"
proof -
  obtain b w' where acc: "accept p w = (b, w')" by fastforce
  have i: "initWindow a c w = w" for a c using assms by (simp add: initWindow_def)
  from acc show ?thesis
    by (cases rule: accept_cases) (auto simp: acc assms i)
qed

lemma acceptAll_monotone:
  "initialized w \<Longrightarrow> highestTime w \<le> highestTime (acceptAll ps w)"
  by (induction ps arbitrary: w) (auto dest: accept_monotone intro: order_trans)

lemma map_of_evictSeen:
  "map_of sn n = Some t \<Longrightarrow> \<not> t < h - min h replayWindowSpan \<Longrightarrow> map_of (evictSeen h sn) n = Some t"
  by (induction sn) (auto simp: evictSeen_def Let_def split: if_splits)

lemma span_nat: "unat replayWindowSpan = 4096 * 961"
  by (simp add: replayWindowSpan_def)

lemma cutoff_nat: "t < h - min h replayWindowSpan \<Longrightarrow> unat t + 4096 * 961 < unat h"
  by (cases "h \<le> replayWindowSpan")
     (auto simp: min_def word_less_nat_alt word_le_nat_alt unat_sub span_nat split: if_splits)

text \<open>
  What the window knows about a nonce accepted at time \<open>t\<close>: it is still recorded, or the highest
  time has moved past it by more than the span.
\<close>

definition remembered :: "bytes \<Rightarrow> 64 word \<Rightarrow> replayWindow \<Rightarrow> bool" where
  "remembered n t w \<longleftrightarrow> initialized w \<and> t \<le> highestTime w \<and>
     (map_of (seen w) n = Some t \<or> unat t + 4096 * 961 < unat (highestTime w))"

lemma remembered_bump:
  assumes "remembered n t w" shows "remembered n t (bumpWindow ext w)"
proof -
  let ?h = "max (highestTime w) ext"
  have le: "unat (highestTime w) \<le> unat ?h" by (simp add: max_def word_le_nat_alt split: if_splits)
  have t: "t \<le> ?h" using assms by (simp add: remembered_def max.coboundedI1)
  consider "unat t + 4096 * 961 < unat ?h" | "\<not> t < ?h - min ?h replayWindowSpan" "map_of (seen w) n = Some t"
    using assms cutoff_nat [of t ?h] le by (fastforce simp: remembered_def)
  then show ?thesis
  proof cases
    case 1
    then show ?thesis using assms t by (simp add: remembered_def)
  next
    case 2
    then have "map_of (seen (bumpWindow ext w)) n = Some t"
      using map_of_evictSeen [of "seen w" n t ?h] by (simp add: bumpWindow_seen_eq)
    then show ?thesis using assms t by (simp add: remembered_def)
  qed
qed

lemma extended_too_old:
  assumes "remembered n t w" "map_of (seen w) n = None" "unat t mod 2 ^ 32 = unat ts"
    and "unat (highestTime w) < unat t + 2 ^ 31" "unat (highestTime w) < 2 ^ 63"
  shows "extendTime (highestTime w) ts + replayWindowSpan < highestTime w"
proof -
  have old: "unat t + 4096 * 961 < unat (highestTime w)" using assms by (simp add: remembered_def)
  then have "unat (extendTime (highestTime w) ts) = unat t"
    using extendTime_near assms(3-5) by simp
  then have "unat (extendTime (highestTime w) ts + replayWindowSpan) = unat t + 4096 * 961"
    using old assms(5) by (simp add: unat_word_ariths span_nat)
  with old show ?thesis by (simp add: word_less_nat_alt)
qed

definition nonceTs :: "bytes \<Rightarrow> 32 word" where
  "nonceTs n = Uint32 (drop 8 n)"

lemma nonceTs_wireNonce [simp]: "nonceTs (wireNonce wire) = Uint32 (drop 4 wire)"
  using Uint32_Put [of "Uint32 (drop 4 wire)" "[]"] by (simp add: nonceTs_def wireNonce_def obfsBuildNonce_def)

lemma remembered_rejects:
  assumes "remembered (wireNonce wire) t w" "unat t mod 2 ^ 32 = unat (nonceTs (wireNonce wire))"
    and "unat (highestTime w) < unat t + 2 ^ 31" "unat (highestTime w) < 2 ^ 63"
  shows "\<not> fst (accept wire w)"
proof -
  obtain b w' where acc: "accept wire w = (b, w')" by fastforce
  have i: "initWindow a c w = w" for a c using assms(1) by (simp add: initWindow_def remembered_def)
  from acc show ?thesis
  proof (cases rule: accept_cases)
    case (taken w1 ext)
    then show ?thesis using extended_too_old [OF assms(1) _ _ assms(3,4)] assms(2) by (simp add: i)
  qed (use acc in auto)
qed

lemma remembered_accept:
  assumes "remembered n t w" "unat t mod 2 ^ 32 = unat (nonceTs n)"
    and "unat (highestTime w) < unat t + 2 ^ 31" "unat (highestTime w) < 2 ^ 63"
  shows "remembered n t (snd (accept p w))"
proof -
  obtain b w' where acc: "accept p w = (b, w')" by fastforce
  have i: "initWindow a c w = w" for a c using assms(1) by (simp add: initWindow_def remembered_def)
  from acc show ?thesis
  proof (cases rule: accept_cases)
    case (full w1 ext)
    then show ?thesis using acc remembered_bump [OF assms(1)] by (simp add: i)
  next
    case (taken w1 ext)
    have "wireNonce p \<noteq> n" using remembered_rejects [of p t w] assms acc taken(6) by auto
    then show ?thesis
      using acc taken(8) remembered_bump [OF assms(1), of ext] taken(1)
      by (simp add: i remembered_def update_conv)
  qed (use acc assms i in auto)
qed

lemma remembered_acceptAll:
  assumes "remembered n t w" "unat t mod 2 ^ 32 = unat (nonceTs n)"
    and "unat (highestTime (acceptAll ps w)) < unat t + 2 ^ 31" "unat (highestTime (acceptAll ps w)) < 2 ^ 63"
  shows "remembered n t (acceptAll ps w)"
  using assms
proof (induction ps arbitrary: w)
  case (Cons p ps)
  have "highestTime w \<le> highestTime (acceptAll (p # ps) w)"
    using acceptAll_monotone Cons.prems(1) by (simp add: remembered_def del: acceptAll_simps)
  then have "unat (highestTime w) \<le> unat (highestTime (acceptAll (p # ps) w))" by (simp add: word_le_nat_alt)
  then have "remembered n t (snd (accept p w))"
    using Cons.prems by (intro remembered_accept) auto
  with Cons show ?case by simp
qed simp

lemma accept_remembers:
  assumes "accept wire w = (True, w')" "unat (highestTime w) < 2 ^ 63"
  shows "\<exists>t. map_of (seen w') (wireNonce wire) = Some t \<and> remembered (wireNonce wire) t w'
             \<and> unat t mod 2 ^ 32 = unat (nonceTs (wireNonce wire))"
  using assms(1)
proof (cases rule: accept_cases)
  case (taken w1 ext)
  have h: "unat (highestTime w1) < 2 ^ 63"
    using assms(2) taken(1) unsigned_less [of "Uint32 (drop 4 wire)", where 'a = nat]
    by (simp add: initWindow_def unat_ucast_64)
  have "unat ext mod 2 ^ 32 = unat (Uint32 (drop 4 wire))"
    using extendTime_nat [of "highestTime w1" "Uint32 (drop 4 wire)"] h taken(4)
      unsigned_less [of "Uint32 (drop 4 wire)", where 'a = nat]
    by (auto simp: Let_def mod_add_left_eq le_mod_geq [symmetric] split: if_splits)
  with taken show ?thesis by (auto simp: remembered_def update_conv max_def)
qed auto

text \<open>
  C6.  Replay protection.  After a packet has been accepted at (extended) time \<open>t\<close>, any packet with the
  same nonce is refused, whatever was received in between and however many entries were evicted from
  the table, for as long as the highest time has not run half a timestamp epoch (\<open>2^31\<close> ticks, about
  2.2 million packets) ahead of \<open>t\<close>.
\<close>

theorem replay_refused:
  assumes "accept wire w = (True, w1)" "unat (highestTime w) < 2 ^ 63"
    and "map_of (seen w1) (wireNonce wire) = Some t"
    and "unat (highestTime (acceptAll ps w1)) < unat t + 2 ^ 31"
    and "unat (highestTime (acceptAll ps w1)) < 2 ^ 63"
    and "wireNonce wire' = wireNonce wire"
  shows "fst (accept wire' (acceptAll ps w1)) = False"
proof -
  have r: "remembered (wireNonce wire) t w1" "unat t mod 2 ^ 32 = unat (nonceTs (wireNonce wire))"
    using accept_remembers [OF assms(1,2)] assms(3) by auto
  then have "remembered (wireNonce wire) t (acceptAll ps w1)"
    using remembered_acceptAll assms(4,5) by blast
  then show ?thesis using remembered_rejects [of wire' t] r(2) assms(4-6) by simp
qed

definition demo_wire2 :: bytes where
  "demo_wire2 = [0xA0, 111, 0, 2, 0, 0, 7, 0x80, 0, 0, 0, 7, 42]"

theorem replay_refused_witness:
  "fst (accept demo_wire (acceptAll [demo_wire2] (snd (accept demo_wire replayWindow0)))) = False"
proof (rule replay_refused [where wire = demo_wire and w = replayWindow0 and t = 960])
  have h: "highestTime (acceptAll [demo_wire2] (snd (accept demo_wire replayWindow0))) = 1920"
    by code_simp
  show "accept demo_wire replayWindow0 = (True, snd (accept demo_wire replayWindow0))"
    "map_of (seen (snd (accept demo_wire replayWindow0))) (wireNonce demo_wire) = Some 960"
    by code_simp+
  show "unat (highestTime (acceptAll [demo_wire2] (snd (accept demo_wire replayWindow0)))) < unat (960 :: 64 word) + 2 ^ 31"
    "unat (highestTime (acceptAll [demo_wire2] (snd (accept demo_wire replayWindow0)))) < 2 ^ 63"
    "unat (highestTime replayWindow0) < 2 ^ 63"
    unfolding h by (simp_all add: replayWindow0_def)
qed simp

end
