(* ===== verification/Obfs_Order.thy ===== *)
theory Obfs_Order
  imports Obfs_Replay
begin

text \<open>
  Delivery through \<open>obfsDirectConn\<close>: packets that arrive in the order they were sent, with losses of
  up to two million packets in a row, all pass the replay window, and \<open>Read\<close> returns the payloads.
\<close>

section \<open>Absolute time of a packet\<close>

lemma tsOffset_lower: "c \<le> d \<Longrightarrow> tsOffset c + 960 * (d - c) \<le> tsOffset d"
  using div_le_mono [of c d "2 ^ 16"] by (simp add: tsOffset_def diff_mult_distrib2)

lemma tsOffset_upper: "c \<le> d \<Longrightarrow> tsOffset d \<le> tsOffset c + 961 * (d - c)"
proof -
  assume "c \<le> d"
  then obtain k where d: "d = c + k" using le_Suc_ex by blast
  have "(c + k) div 2 ^ 16 \<le> c div 2 ^ 16 + k"
  proof (induction k)
    case (Suc k)
    have "Suc (c + k) div 2 ^ 16 \<le> Suc ((c + k) div 2 ^ 16)" by (simp add: div_Suc)
    with Suc show ?case by simp
  qed simp
  then show ?thesis by (simp add: tsOffset_def d)
qed

definition absTime :: "ObfsState \<Rightarrow> nat \<Rightarrow> nat \<Rightarrow> nat" where
  "absTime st c0 c = unat (obfsTs st (of_nat c0)) + (tsOffset c - tsOffset c0)"

lemma absTime_mod:
  assumes "c0 \<le> c" "c < 2 ^ 48"
  shows "absTime st c0 c mod 2 ^ 32 = unat (obfsTs st (of_nat c))"
proof -
  have u: "unat (of_nat c :: 64 word) = c" "unat (of_nat c0 :: 64 word) = c0"
    using assms by (simp_all add: unat_of_nat)
  have "tsOffset c0 \<le> tsOffset c" using tsOffset_lower [OF assms(1)] by simp
  then have "obfsTs st (of_nat c) = obfsTs st (of_nat c0) + of_nat (tsOffset c - tsOffset c0)"
    by (simp add: obfsTs_nat u of_nat_diff)
  then show ?thesis
    by (simp add: absTime_def unat_word_ariths unat_of_nat mod_add_right_eq)
qed

lemma absTime_bound: "c < 2 ^ 48 \<Longrightarrow> absTime st c0 c + 2 ^ 33 < 2 ^ 63"
proof -
  assume c: "c < 2 ^ 48"
  have "unat (obfsTs st (of_nat c0)) < 2 ^ 32"
    using unsigned_less [of "obfsTs st (of_nat c0)", where 'a = nat] by simp
  moreover have "tsOffset c \<le> 961 * 2 ^ 48" using tsOffset_upper [of 0 c] c by (simp add: tsOffset_def)
  ultimately show ?thesis by (simp add: absTime_def)
qed

lemma absTime_diff:
  assumes "c0 \<le> c" "c \<le> d"
  shows "absTime st c0 c + 960 * (d - c) \<le> absTime st c0 d"
    and "absTime st c0 d \<le> absTime st c0 c + 961 * (d - c)"
  using tsOffset_lower [OF assms(1)] tsOffset_lower [OF assms(2)] tsOffset_upper [OF assms(2)]
  by (simp_all add: absTime_def)

section \<open>In-order arrival\<close>

definition in_order :: "ObfsConfig \<Rightarrow> ObfsState \<Rightarrow> nat \<Rightarrow> nat \<Rightarrow> replayWindow \<Rightarrow> bool" where
  "in_order cfg st c0 c w \<longleftrightarrow> initialized w \<and> rssrc w = SSRC cfg
     \<and> unat (highestTime w) = absTime st c0 c \<and> distinct (map fst (seen w)) \<and> c0 \<le> c
     \<and> (\<forall>(n, t) \<in> set (seen w). \<exists>d. c0 \<le> d \<and> d \<le> c \<and> n = nonceAt cfg st (of_nat d) \<and> unat t = absTime st c0 d)"

definition packetAt :: "ObfsConfig \<Rightarrow> ObfsState \<Rightarrow> nat \<Rightarrow> bytes \<Rightarrow> bool" where
  "packetAt cfg st c wire \<longleftrightarrow> take 12 wire = rtpHeader cfg (obfsSeq st (of_nat c)) (obfsTs st (of_nat c))"

lemma packetAt_fields:
  assumes "packetAt cfg st c wire"
  shows "wireNonce wire = nonceAt cfg st (of_nat c)" "Uint32 (drop 4 wire) = obfsTs st (of_nat c)"
    "Uint32 (drop 8 wire) = SSRC cfg" "12 \<le> length wire"
  using assms header_fields [of wire cfg "obfsSeq st (of_nat c)" "obfsTs st (of_nat c)"]
  by (simp_all add: packetAt_def nonceAt_def wireNonce_header)

lemma nonceAt_small_inj:
  "c < 2 ^ 48 \<Longrightarrow> d < 2 ^ 48 \<Longrightarrow> nonceAt cfg st (of_nat c) = nonceAt cfg st (of_nat d) \<longleftrightarrow> c = d"
  by (simp add: nonceAt_eq_iff unat_of_nat)

lemma kept_recent: "\<not> t < h - min h replayWindowSpan \<Longrightarrow> unat h \<le> unat t + 4096 * 961"
proof (rule ccontr)
  assume a: "\<not> t < h - min h replayWindowSpan" and "\<not> unat h \<le> unat t + 4096 * 961"
  then have b: "unat t + 4096 * 961 < unat h" by simp
  then have "replayWindowSpan \<le> h" by (simp add: word_le_nat_alt span_nat)
  then have "unat (h - min h replayWindowSpan) = unat h - 4096 * 961"
    by (simp add: min_def unat_sub span_nat)
  with a b show False by (simp add: word_less_nat_alt)
qed

text \<open>Eviction always makes room: fewer than 4102 packets fit into the span.\<close>

lemma eviction_makes_room:
  assumes o: "in_order cfg st c0 c w" and d: "c < d" and h: "unat h = absTime st c0 d"
  shows "length (evictSeen h (seen w)) < replayWindowMaxEntries"
proof -
  let ?L = "evictSeen h (seen w)"
  have "fst e \<in> (\<lambda>k. nonceAt cfg st (of_nat k)) ` {d - 4101..d}" if e: "e \<in> set ?L" for e
  proof -
    obtain n t where nt: "e = (n, t)" by fastforce
    have "(n, t) \<in> set (seen w)" using e nt evictSeen_subset by blast
    then obtain k where k: "c0 \<le> k" "k \<le> c" "n = nonceAt cfg st (of_nat k)" "unat t = absTime st c0 k"
      using o by (auto simp: in_order_def)
    have "\<not> t < h - min h replayWindowSpan" using e nt by (simp add: evictSeen_def Let_def)
    then have "absTime st c0 d \<le> absTime st c0 k + 4096 * 961" using kept_recent h k(4) by fastforce
    then have "960 * (d - k) \<le> 4096 * 961" using absTime_diff(1) [of c0 k d st] k d by simp
    then have "d - k \<le> 4101" by linarith
    then have "k \<in> {d - 4101..d}" using k(2) d by simp
    with k(3) nt show ?thesis by auto
  qed
  then have "set (map fst ?L) \<subseteq> (\<lambda>k. nonceAt cfg st (of_nat k)) ` {d - 4101..d}" by auto
  then have "card (set (map fst ?L)) \<le> card ((\<lambda>k. nonceAt cfg st (of_nat k)) ` {d - 4101..d})"
    by (intro card_mono) auto
  also have "\<dots> \<le> card {d - 4101..d}" by (rule card_image_le) simp
  also have "\<dots> \<le> 4102" unfolding card_atLeastAtMost by linarith
  finally have "card (set (map fst ?L)) < replayWindowMaxEntries" by (simp add: replayWindowMaxEntries_def)
  moreover have "distinct (map fst ?L)" using o by (intro distinct_evictSeen) (simp add: in_order_def)
  then have "card (set (map fst ?L)) = length ?L" by (simp only: distinct_card length_map)
  ultimately show ?thesis by simp
qed

lemma in_order_step:
  assumes o: "in_order cfg st c0 c w" and p: "packetAt cfg st d wire"
    and d: "c < d" "d - c \<le> 2 ^ 21" "d < 2 ^ 48"
  shows "\<exists>w'. accept wire w = (True, w') \<and> in_order cfg st c0 d w'"
proof -
  note f = packetAt_fields [OF p]
  define ext where "ext = extendTime (highestTime w) (obfsTs st (of_nat d))"
  have i: "initWindow a b w = w" for a b using o by (simp add: initWindow_def in_order_def)
  have h: "unat (highestTime w) = absTime st c0 c" and c0: "c0 \<le> c" using o by (simp_all add: in_order_def)
  have lo: "absTime st c0 c < absTime st c0 d" and hi: "absTime st c0 d < absTime st c0 c + 2 ^ 31"
    using absTime_diff [OF c0, of d st] d by simp_all
  have ext: "unat ext = absTime st c0 d"
    unfolding ext_def using absTime_mod [of c0 d st] c0 d lo hi absTime_bound [of c st c0] h
    by (intro extendTime_near) simp_all
  have gt: "highestTime w < ext" using ext lo h by (simp add: word_less_nat_alt)
  let ?v = "bumpWindow ext w"
  have mx: "max (highestTime w) ext = ext" using gt by (simp add: max.absorb2 less_imp_le)
  have fresh: "map_of (seen w) (wireNonce wire) = None"
  proof -
    have "n \<noteq> nonceAt cfg st (of_nat d)" if nt: "(n, t) \<in> set (seen w)" for n t
    proof -
      obtain k where "k \<le> c" "n = nonceAt cfg st (of_nat k)"
        using nt o by (auto simp: in_order_def)
      then show ?thesis using nonceAt_small_inj [of k d cfg st] d(1,3) by simp
    qed
    then have "wireNonce wire \<notin> fst ` set (seen w)" unfolding f by force
    then show ?thesis by (simp add: map_of_eq_None_iff)
  qed
  have "unat (ext + replayWindowSpan) = absTime st c0 d + 4096 * 961"
    using absTime_bound [OF d(3), of st c0] by (simp add: unat_word_ariths ext span_nat)
  then have nold: "\<not> ext + replayWindowSpan < highestTime w" using h lo by (simp add: word_less_nat_alt)
  have room: "length (seen ?v) < replayWindowMaxEntries"
    using eviction_makes_room [OF o d(1), of ext] ext by (simp add: bumpWindow_seen_eq mx)
  let ?w' = "?v\<lparr>seen := AList.update (wireNonce wire) ext (seen ?v)\<rparr>"
  have acc: "accept wire w = (True, ?w')"
    unfolding accept_eq [OF f(4) refl refl refl] i f(2,3) ext_def [symmetric]
    using fresh nold room o by (simp add: in_order_def)
  have freshv: "map_of (seen ?v) (wireNonce wire) = None"
    using fresh bumpWindow_seen [of ext w] by (auto simp: map_of_eq_None_iff)
  have entries: "\<exists>k. c0 \<le> k \<and> k \<le> d \<and> n = nonceAt cfg st (of_nat k) \<and> unat t = absTime st c0 k"
    if "(n, t) \<in> set (seen ?w')" for n t
  proof -
    have "(n, t) \<in> set (seen w) \<or> (n, t) = (wireNonce wire, ext)"
      using that bumpWindow_seen [of ext w] by (auto simp: update_fresh [OF freshv])
    then show ?thesis
    proof
      assume "(n, t) \<in> set (seen w)"
      then obtain k where "c0 \<le> k" "k \<le> c" "n = nonceAt cfg st (of_nat k)" "unat t = absTime st c0 k"
        using o by (auto simp: in_order_def)
      then show ?thesis using d(1) by (intro exI [of _ k]) simp
    next
      assume "(n, t) = (wireNonce wire, ext)"
      then show ?thesis using f(1) ext c0 d(1) by (intro exI [of _ d]) simp
    qed
  qed
  have "distinct (map fst (seen ?v))"
    using o distinct_evictSeen by (auto simp: in_order_def bumpWindow_seen_eq)
  then have "distinct (map fst (seen ?w'))"
    using freshv by (auto simp: update_fresh [OF freshv] map_of_eq_None_iff)
  then have "in_order cfg st c0 d ?w'"
    using o entries ext c0 d(1) by (auto simp: in_order_def mx)
  with acc show ?thesis by blast
qed

text \<open>The first packet initialises the window.\<close>

lemma in_order_first:
  assumes p: "packetAt cfg st c wire" and c: "c < 2 ^ 48"
  shows "\<exists>w'. accept wire replayWindow0 = (True, w') \<and> in_order cfg st c c w'"
proof -
  note f = packetAt_fields [OF p]
  let ?ts = "obfsTs st (of_nat c)"
  let ?w1 = "initWindow (SSRC cfg) ?ts replayWindow0"
  have w1: "?w1 = \<lparr>seen = [], rssrc = SSRC cfg, highestTime = ucast ?ts, initialized = True\<rparr>"
    by (simp add: initWindow_def replayWindow0_def)
  have abs: "absTime st c c = unat ?ts" by (simp add: absTime_def)
  have ext: "extendTime (ucast ?ts) ?ts = ucast ?ts"
  proof (rule word_unat_eq_iff [THEN iffD2])
    show "unat (extendTime (ucast ?ts) ?ts) = unat (ucast ?ts :: 64 word)"
      using absTime_mod [OF order_refl c, of st] absTime_bound [OF c, of st c]
      by (intro extendTime_near) (simp_all add: unat_ucast_64 abs)
  qed
  have v: "bumpWindow (ucast ?ts) ?w1 = ?w1"
    by (simp add: bumpWindow_def w1 replayWindowMaxEntries_def)
  have "unat (ucast ?ts + replayWindowSpan :: 64 word) = unat ?ts + 4096 * 961"
    using absTime_bound [OF c, of st c] by (simp add: unat_word_ariths unat_ucast_64 span_nat abs)
  then have nold: "\<not> ucast ?ts + replayWindowSpan < (ucast ?ts :: 64 word)"
    by (simp add: word_less_nat_alt unat_ucast_64)
  have "accept wire replayWindow0 = (True, ?w1\<lparr>seen := [(wireNonce wire, ucast ?ts)]\<rparr>)"
    unfolding accept_eq [OF f(4) refl refl refl] f(2,3) using nold
    by (simp add: w1 ext v [unfolded w1] replayWindowMaxEntries_def)
  moreover have "in_order cfg st c c (?w1\<lparr>seen := [(wireNonce wire, ucast ?ts)]\<rparr>)"
    by (auto simp: in_order_def w1 f(1) abs unat_ucast_64)
  ultimately show ?thesis by blast
qed

section \<open>Delivery\<close>

text \<open>All results of repeated \<open>Read\<close> calls on what the relay delivers, up to the call that waits.\<close>

function obfsReads ::
  "(bytes \<Rightarrow> aead option) \<Rightarrow> nat \<Rightarrow> bytes option list \<Rightarrow> obfsDirectConn \<Rightarrow> aead_cache
     \<Rightarrow> (obfs_error + bytes) list" where
  "obfsReads newc n net c cache =
     (if net = [] then []
      else case obfsRead newc n net c cache of
        (None, _, _, _) \<Rightarrow> []
      | (Some r, net', c', cache') \<Rightarrow>
          if length net' < length net then r # obfsReads newc n net' c' cache' else [r])"
  by auto
termination
  by (relation "measure (\<lambda>(_, _, net, _, _). length net)") auto

declare obfsReads.simps [simp del]

lemma obfsReads_Nil [simp]: "obfsReads newc n [] c cache = []"
  by (simp add: obfsReads.simps)

lemma obfsReads_accepted:
  assumes "obfsIsRTPPacket wire" "obfsUnwrapPacket newc (wrapKey c) wire n cache = (ok plain, cache')"
    and "accept wire (replay c) = (True, w)"
  shows "obfsReads newc n (Some wire # net) c cache = ok plain # obfsReads newc n net (c\<lparr>replay := w\<rparr>) cache'"
  using assms by (simp add: obfsReads.simps [of newc n "Some wire # net"])

text \<open>
  A packet of the sender: number \<open>c\<close> of the direction, header and sealed payload as \<open>obfsWrapPacket\<close>
  lays them out (see \<open>obfsWrapPacket_wire\<close>).
\<close>

definition sentAs :: "aead \<Rightarrow> ObfsConfig \<Rightarrow> ObfsState \<Rightarrow> nat \<Rightarrow> bytes \<Rightarrow> bytes \<Rightarrow> bool" where
  "sentAs a cfg st c payload wire \<longleftrightarrow>
     (\<exists>padding h. h = rtpHeader cfg (obfsSeq st (of_nat c)) (obfsTs st (of_nat c))
        \<and> wire = h @ Seal a (nonceAt cfg st (of_nat c)) payload h @ padding @ [of_nat (length padding + 1)]
        \<and> length padding < 255 \<and> payload \<noteq> [])"

lemma sentAs_packetAt: "sentAs a cfg st c payload wire \<Longrightarrow> packetAt cfg st c wire"
  by (auto simp: sentAs_def packetAt_def)

lemma sentAs_rtp:
  assumes "cfg_ok cfg" "sentAs a cfg st c payload wire"
  shows "obfsIsRTPPacket wire"
proof -
  have t12: "take 12 wire = rtpHeader cfg (obfsSeq st (of_nat c)) (obfsTs st (of_nat c))"
    using sentAs_packetAt [OF assms(2)] by (simp add: packetAt_def)
  have bits: "drop_bit 6 (0xA0 :: byte) = 2" "(111 :: byte) AND 0x7F = 111" "(96 :: byte) AND 0x7F = 96"
    by code_simp+
  have "12 < length wire" using assms(2) by (auto simp: sentAs_def)
  then show ?thesis
    using assms(1) unfolding obfsIsRTPPacket_def header_fields [OF t12] cfg_ok_def
    by (elim disjE conjE) (simp_all add: bits Let_def)
qed

lemma sentAs_unwrap:
  assumes "length key = 32" "newc key = Some a" "aead_ok a" "cache_ok newc cache"
    and "sentAs a cfg st c payload wire" "length payload \<le> n"
  obtains cache' where "obfsUnwrapPacket newc key wire n cache = (ok payload, cache')" "cache_ok newc cache'"
  using assms(5) unfolding sentAs_def nonceAt_def
  by (elim exE conjE) (rule obfsUnwrapPacket_layout [OF assms(1-4) _ _ _ _ assms(6)]; (assumption | rule that))

text \<open>
  The arrivals \<open>(c1, p1, w1), (c2, p2, w2), ...\<close>: packet numbers, payloads and wire packets, the
  numbers increasing with gaps of at most \<open>2^21\<close>.
\<close>

fun arrivals_ok :: "aead \<Rightarrow> ObfsConfig \<Rightarrow> ObfsState \<Rightarrow> nat \<Rightarrow> nat \<Rightarrow> (nat \<times> bytes \<times> bytes) list \<Rightarrow> bool" where
  "arrivals_ok a cfg st n c [] = True"
| "arrivals_ok a cfg st n c ((d, p, wire) # xs) \<longleftrightarrow>
     c < d \<and> d - c \<le> 2 ^ 21 \<and> d < 2 ^ 48 \<and> sentAs a cfg st d p wire \<and> length p \<le> n
     \<and> arrivals_ok a cfg st n d xs"

lemma reads_after_first:
  assumes "cfg_ok cfg" "length key = 32" "newc key = Some a" "aead_ok a"
  shows "arrivals_ok a cfg st n c xs \<Longrightarrow> in_order cfg st c0 c (replay conn) \<Longrightarrow> wrapKey conn = key \<Longrightarrow>
    cache_ok newc cache \<Longrightarrow>
    obfsReads newc n (map (\<lambda>(_, _, w). Some w) xs) conn cache = map (\<lambda>(_, p, _). ok p) xs"
proof (induction xs arbitrary: c conn cache)
  case (Cons x xs)
  obtain d p wire where x: "x = (d, p, wire)" by (metis prod_cases3)
  have s: "sentAs a cfg st d p wire" "length p \<le> n" using Cons.prems(1) by (auto simp: x)
  obtain w' where acc: "accept wire (replay conn) = (True, w')" and o: "in_order cfg st c0 d w'"
    using in_order_step [OF Cons.prems(2) sentAs_packetAt [OF s(1)]] Cons.prems(1) by (auto simp: x)
  obtain cache' where u: "obfsUnwrapPacket newc key wire n cache = (ok p, cache')" "cache_ok newc cache'"
    by (rule sentAs_unwrap [OF assms(2-4) Cons.prems(4) s])
  have "obfsReads newc n (map (\<lambda>(_, _, w). Some w) xs) (conn\<lparr>replay := w'\<rparr>) cache' = map (\<lambda>(_, p, _). ok p) xs"
    using Cons.prems o u(2) by (intro Cons.IH [of d]) (simp_all add: x)
  then show ?case
    using obfsReads_accepted [OF sentAs_rtp [OF assms(1) s(1)], of newc conn n cache p cache' w'] acc u(1) Cons.prems(3)
    by (simp add: x)
qed simp

text \<open>A fresh connection delivers every payload of such arrivals, in order and unchanged.\<close>

lemma in_order_delivery_gaps:
  assumes "cfg_ok cfg" "length key = 32" "newc key = Some a" "aead_ok a" "cache_ok newc cache"
    and "wrapKey conn = key" "replay conn = replayWindow0"
    and "d < 2 ^ 48" "sentAs a cfg st d p wire" "length p \<le> n" "arrivals_ok a cfg st n d xs"
  shows "obfsReads newc n (Some wire # map (\<lambda>(_, _, w). Some w) xs) conn cache = ok p # map (\<lambda>(_, p, _). ok p) xs"
proof -
  obtain w' where acc: "accept wire (replay conn) = (True, w')" and o: "in_order cfg st d d w'"
    using in_order_first [OF sentAs_packetAt [OF assms(9)] assms(8)] assms(7) by auto
  obtain cache' where u: "obfsUnwrapPacket newc key wire n cache = (ok p, cache')" "cache_ok newc cache'"
    by (rule sentAs_unwrap [OF assms(2-5) assms(9,10)])
  have "obfsReads newc n (map (\<lambda>(_, _, w). Some w) xs) (conn\<lparr>replay := w'\<rparr>) cache' = map (\<lambda>(_, p, _). ok p) xs"
    using assms o u(2) by (intro reads_after_first [where key = key and c = d and ?c0.0 = d]) simp_all
  then show ?thesis
    using obfsReads_accepted [OF sentAs_rtp [OF assms(1,9)], of newc conn n cache p cache' w'] acc u(1) assms(6)
    by simp
qed

lemma arrivals_okI:
  "sorted_wrt (<) (c # map fst xs) \<Longrightarrow>
   (\<forall>(d, p, w) \<in> set xs. d \<le> c + 2 ^ 21 \<and> d < 2 ^ 48 \<and> sentAs a cfg st d p w \<and> length p \<le> n) \<Longrightarrow>
   arrivals_ok a cfg st n c xs"
  by (induction xs arbitrary: c) fastforce+

section \<open>What the sender produces\<close>

lemma obfsWrapPacket_sentAs:
  assumes "obfsWrapPacket newc key p cfg st cache ent = (ok wire, st', cache', ent')"
    and "newc key = Some a" "aead_ok a" "cache_ok newc cache" "cfg_ok cfg"
  shows "sentAs a cfg st (unat (pcount st)) p wire" "cache_ok newc cache'" "st' = st\<lparr>pcount := pcount st + 1\<rparr>"
proof -
  obtain padding where l:
    "wire = rtpHeader cfg (obfsSeq st (pcount st)) (obfsTs st (pcount st))
       @ Seal a (nonceAt cfg st (pcount st)) p (rtpHeader cfg (obfsSeq st (pcount st)) (obfsTs st (pcount st)))
       @ padding @ [of_nat (length padding + 1)]"
    "length padding < nat (PaddingMax cfg) \<or> padding = []" "p \<noteq> []"
    and r: "cache_ok newc cache'" "st' = st\<lparr>pcount := pcount st + 1\<rparr>"
    by (rule obfsWrapPacket_wire [OF assms(1-4)])
  have "length padding < 255" using l(2) assms(5) by (auto simp: cfg_ok_def)
  then show "sentAs a cfg st (unat (pcount st)) p wire" using l by (auto simp: sentAs_def)
  show "cache_ok newc cache'" "st' = st\<lparr>pcount := pcount st + 1\<rparr>" by (fact r)+
qed

lemma obfsWrapPacket_entropy:
  assumes "obfsWrapPacket newc key p cfg st cache ent = (ok wire, st', cache', ent')" "cfg_ok cfg"
  shows "length ent \<le> length ent' + 61"
proof -
  have "length ent \<le> length e' + 1" if "obfsPadRand cfg ent = Some (k, e')" for k e'
    using that by (auto simp: obfsPadRand_def rand_read_def split: if_splits)
  moreover have "k < 60" if "obfsPadRand cfg ent = Some (k, e')" for k e'
    using that assms(2) by (auto simp: obfsPadRand_def cfg_ok_def split: if_splits option.splits)
  ultimately show ?thesis
    using assms(1)
    by (auto simp: obfsWrapPacket_def Let_def rand_read_def split: if_splits option.splits prod.splits sum.splits)
qed

lemma obfsWraps_sent:
  assumes "cfg_ok cfg" "length key = 32" "newc key = Some a" "aead_ok a"
  shows "cache_ok newc cache \<Longrightarrow> (\<forall>p \<in> set ps. p \<noteq> []) \<Longrightarrow> 61 * length ps \<le> length ent \<Longrightarrow>
    unat (pcount st) + length ps \<le> 2 ^ 48 \<Longrightarrow>
    length (obfsWraps newc key cfg ps st cache ent) = length ps \<and>
    (\<forall>i < length ps. sentAs a cfg st (unat (pcount st) + i) (ps ! i) (obfsWraps newc key cfg ps st cache ent ! i))"
proof (induction ps arbitrary: st cache ent)
  case (Cons p ps)
  have "1 + PaddingMax cfg \<le> int (length ent)" "0 < PaddingMax cfg"
    using assms(1) Cons.prems(3) by (auto simp: cfg_ok_def)
  then obtain wire st' cache' ent' where
    w: "obfsWrapPacket newc key p cfg st cache ent = (ok wire, st', cache', ent')"
    using obfsWrapPacket_succeeds [of key p newc a cache cfg ent st] assms Cons.prems(1,2) by auto
  note s = obfsWrapPacket_sentAs [OF w assms(3,4) Cons.prems(1) assms(1)]
  have c1: "unat (pcount st + 1) = unat (pcount st) + 1"
    using Cons.prems(4) by (simp add: unat_word_ariths)
  have sent': "sentAs a cfg (st\<lparr>pcount := k\<rparr>) = sentAs a cfg st" for k
    by (intro ext) (simp add: sentAs_def obfsSeq_def obfsTs_def)
  have "length (obfsWraps newc key cfg ps st' cache' ent') = length ps \<and>
    (\<forall>i < length ps. sentAs a cfg st' (unat (pcount st') + i) (ps ! i) (obfsWraps newc key cfg ps st' cache' ent' ! i))"
    using Cons.prems s(2,3) c1 obfsWrapPacket_entropy [OF w assms(1)] by (intro Cons.IH) auto
  then show ?case
    using w s(1) by (auto simp: sent' s(3) c1 less_Suc_eq_0_disj)
qed simp

lemma session_delivery:
  assumes "NewObfsConfig mode ent0 = ok (cfg, ent1)"
    and "length key = 32" "newc key = Some a" "aead_ok a" "cache_ok newc cache" "cache_ok newc rcache"
    and "wrapKey conn = key" "replay conn = replayWindow0"
    and "\<forall>p \<in> set ps. p \<noteq> [] \<and> length p \<le> n" "61 * length ps \<le> length ent"
    and "length ps \<le> 2 ^ 21" "unat (pcount st) + length ps \<le> 2 ^ 48"
  shows "obfsReads newc n (map Some (nths (obfsWraps newc key cfg ps st cache ent) arrived)) conn rcache
           = map ok (nths ps arrived)"
proof -
  have cfg: "cfg_ok cfg" using assms(1) by (rule NewObfsConfig_ok)
  let ?ws = "obfsWraps newc key cfg ps st cache ent"
  let ?c = "unat (pcount st)"
  have ws: "length ?ws = length ps" "\<And>i. i < length ps \<Longrightarrow> sentAs a cfg st (?c + i) (ps ! i) (?ws ! i)"
    using obfsWraps_sent [OF cfg assms(2-5), of ps ent st] assms(9,10,12) by auto
  define xs where "xs = nths (zip [?c..<?c + length ps] (zip ps ?ws)) arrived"
  have parts: "map (\<lambda>(_, _, w). w) xs = nths ?ws arrived" "map (\<lambda>(_, p, _). p) xs = nths ps arrived"
    "map fst xs = nths [?c..<?c + length ps] arrived"
    using ws(1) by (simp_all add: xs_def nths_map [symmetric] case_prod_unfold map_fst_zip map_snd_zip
      flip: map_map [unfolded comp_def])
  have elem: "d < ?c + length ps \<and> ?c \<le> d \<and> sentAs a cfg st d p w \<and> length p \<le> n" if "(d, p, w) \<in> set xs" for d p w
  proof -
    have "(d, p, w) \<in> set (zip [?c..<?c + length ps] (zip ps ?ws))" using that xs_def in_set_nthsD by fastforce
    then obtain i where "i < length ps" "d = ?c + i" "p = ps ! i" "w = ?ws ! i"
      using ws(1) by (auto simp: set_zip)
    then show ?thesis using ws(2) assms(9) by auto
  qed
  have sorted: "sorted_wrt (<) (map fst xs)"
    unfolding parts(3) strict_sorted_iff by (simp add: sorted_nths)
  have "obfsReads newc n (map (\<lambda>(_, _, w). Some w) xs) conn rcache = map (\<lambda>(_, p, _). ok p) xs"
  proof (cases xs)
    case (Cons x ys)
    obtain d p w where x: "x = (d, p, w)" by (metis prod_cases3)
    have e: "d < ?c + length ps" "?c \<le> d" "sentAs a cfg st d p w" "length p \<le> n"
      using elem [of d p w] by (simp_all add: Cons x)
    have "arrivals_ok a cfg st n d ys"
    proof (rule arrivals_okI)
      show "sorted_wrt (<) (d # map fst ys)" using sorted by (simp add: Cons x)
      show "\<forall>(d', p, w) \<in> set ys. d' \<le> d + 2 ^ 21 \<and> d' < 2 ^ 48 \<and> sentAs a cfg st d' p w \<and> length p \<le> n"
        using elem e(2) assms(11,12) by (fastforce simp: Cons)
    qed
    then show ?thesis
      using in_order_delivery_gaps [OF cfg assms(2-4,6-8) _ e(3,4)] e(1) assms(12) by (simp add: Cons x)
  qed simp
  then show ?thesis
    unfolding parts(1,2) [symmetric] by (simp add: comp_def case_prod_unfold)
qed



end
