(* ===== verification/Go_Chan.thy ===== *)
theory Go_Chan
  imports Go_Base
begin

text \<open>
  Buffered Go channels with the operations the program uses: the non-blocking send of
  \<open>select { case ch <- v: default: }\<close>, the receive, and \<open>close\<close>.  Sending on or closing a closed channel
  panics.  The interface that the clients rely on is the locale \<open>bounded_fifo\<close>.
\<close>

record 'a gochan =
  chbuf :: "'a list"
  chcap :: nat
  chclosed :: bool

datatype 'r attempt = Done 'r | Busy | Crash

definition make_chan :: "nat \<Rightarrow> 'a gochan" where
  "make_chan n = \<lparr>chbuf = [], chcap = n, chclosed = False\<rparr>"

definition try_send :: "'a \<Rightarrow> 'a gochan \<Rightarrow> 'a gochan attempt" where
  "try_send v ch =
     (if chclosed ch then Crash
      else if length (chbuf ch) < chcap ch then Done (ch\<lparr>chbuf := chbuf ch @ [v]\<rparr>)
      else Busy)"

definition try_recv :: "'a gochan \<Rightarrow> ('a \<times> 'a gochan) option" where
  "try_recv ch = (case chbuf ch of [] \<Rightarrow> None | v # vs \<Rightarrow> Some (v, ch\<lparr>chbuf := vs\<rparr>))"

definition close_chan :: "'a gochan \<Rightarrow> 'a gochan option" where
  "close_chan ch = (if chclosed ch then None else Some (ch\<lparr>chclosed := True\<rparr>))"

definition chan_ok :: "'a gochan \<Rightarrow> bool" where
  "chan_ok ch \<longleftrightarrow> length (chbuf ch) \<le> chcap ch"

locale bounded_fifo =
  fixes contents :: "'q \<Rightarrow> 'a list"
    and capacity :: "'q \<Rightarrow> nat"
    and writable :: "'q \<Rightarrow> bool"
    and send :: "'a \<Rightarrow> 'q \<Rightarrow> 'q attempt"
    and recv :: "'q \<Rightarrow> ('a \<times> 'q) option"
  assumes send_done: "writable q \<Longrightarrow> send v q = Done q' \<Longrightarrow>
      length (contents q) < capacity q \<and> contents q' = contents q @ [v] \<and> capacity q' = capacity q \<and> writable q'"
    and send_busy: "writable q \<Longrightarrow> send v q = Busy \<longleftrightarrow> capacity q \<le> length (contents q)"
    and send_no_crash: "writable q \<Longrightarrow> send v q \<noteq> Crash"
    and recv_none: "recv q = None \<longleftrightarrow> contents q = []"
    and recv_some: "recv q = Some (v, q') \<Longrightarrow>
      contents q = v # contents q' \<and> capacity q' = capacity q \<and> writable q' = writable q"
begin

text \<open>Send a batch, keeping what fits and dropping the rest, as the callers with a \<open>default\<close> do.\<close>

fun send_many :: "'a list \<Rightarrow> 'q \<Rightarrow> 'q" where
  "send_many [] q = q"
| "send_many (v # vs) q = (case send v q of Done q' \<Rightarrow> send_many vs q' | _ \<Rightarrow> send_many vs q)"

fun recv_many :: "nat \<Rightarrow> 'q \<Rightarrow> 'a list \<times> 'q" where
  "recv_many 0 q = ([], q)"
| "recv_many (Suc n) q =
     (case recv q of None \<Rightarrow> ([], q) | Some (v, q') \<Rightarrow> (case recv_many n q' of (vs, q'') \<Rightarrow> (v # vs, q'')))"

lemma send_total:
  assumes "writable q"
  shows "(\<exists>q'. send v q = Done q') \<or> send v q = Busy"
  using send_no_crash [OF assms] by (cases "send v q") auto

lemma send_room: "writable q \<Longrightarrow> length (contents q) < capacity q \<Longrightarrow> \<exists>q'. send v q = Done q'"
  using send_total send_busy by fastforce

lemma send_bounded:
  "writable q \<Longrightarrow> length (contents q) \<le> capacity q \<Longrightarrow> send v q = Done q' \<Longrightarrow> length (contents q') \<le> capacity q'"
  using send_done by fastforce

lemma send_many_contents:
  "writable q \<Longrightarrow> length (contents q) \<le> capacity q \<Longrightarrow>
   contents (send_many vs q) = contents q @ take (capacity q - length (contents q)) vs"
proof (induction vs arbitrary: q)
  case (Cons v vs)
  show ?case
  proof (cases "length (contents q) < capacity q")
    case True
    then obtain q' where q': "send v q = Done q'" using send_room Cons.prems by blast
    note d = send_done [OF Cons.prems(1) q']
    then have "contents (send_many vs q') = contents q' @ take (capacity q' - length (contents q')) vs"
      using Cons.IH [of q'] send_bounded [OF Cons.prems q'] by blast
    with q' d True show ?thesis by (simp add: take_Cons' Suc_diff_Suc)
  next
    case False
    then have "send v q = Busy" using send_busy Cons.prems by simp
    with Cons False show ?thesis by simp
  qed
qed simp

lemma recv_many_contents:
  "fst (recv_many n q) = take n (contents q) \<and> contents (snd (recv_many n q)) = drop n (contents q)"
proof (induction n arbitrary: q)
  case (Suc n)
  show ?case
  proof (cases "recv q")
    case None
    then have "contents q = []" by (simp add: recv_none)
    with None show ?thesis by simp
  next
    case (Some p)
    then obtain v q' where p: "recv q = Some (v, q')" by (cases p) auto
    with recv_some [OF p] Suc [of q'] show ?thesis by (simp add: case_prod_unfold)
  qed
qed simp

text \<open>Receivers see the elements in the order in which they were sent.\<close>

lemma fifo_order:
  assumes "writable q" "contents q = []"
  shows "fst (recv_many n (send_many vs q)) = take n (take (capacity q) vs)"
  using assms by (simp add: recv_many_contents send_many_contents)

end

interpretation ch: bounded_fifo chbuf chcap "\<lambda>c. \<not> chclosed c" try_send try_recv
proof (standard, goal_cases)
  case (1 q v q')
  then show ?case by (auto simp: try_send_def split: if_splits)
next
  case (2 q v)
  then show ?case by (auto simp: try_send_def)
next
  case (3 q v)
  then show ?case by (auto simp: try_send_def)
next
  case (4 q)
  then show ?case by (auto simp: try_recv_def split: list.splits)
next
  case (5 q v q')
  then show ?case by (auto simp: try_recv_def split: list.splits)
qed

lemma try_send_ok [go_inv]: "chan_ok ch \<Longrightarrow> try_send v ch = Done ch' \<Longrightarrow> chan_ok ch'"
  by (auto simp: try_send_def chan_ok_def split: if_splits)

lemma try_recv_ok [go_inv]: "chan_ok ch \<Longrightarrow> try_recv ch = Some (v, ch') \<Longrightarrow> chan_ok ch'"
  by (auto simp: try_recv_def chan_ok_def split: list.splits)

end
