(* ===== verification/Dispatcher.thy ===== *)
theory Dispatcher
  imports Go_Chan
begin

text \<open>
  The packet dispatcher \<open>internal/core/dispatcher.go\<close> and the goroutines of a worker session that
  share its channels (\<open>internal/core/session.go\<close>: writer, reader, keepalive).

  Worker slots are heap objects: \<open>workers\<close> holds pointers, \<open>slots\<close> is the store they point into, so that a
  session keeps using its channels after the slot has been unregistered.  Times are Unix
  milliseconds.  Every operation that can panic in Go (a send on, or a second close of, a closed channel)
  returns \<open>None\<close> for the panic.  Recycling of packet buffers through \<open>pktPool\<close> is modelled on the
  capacities of the pooled buffers only.
\<close>

section \<open>Buffer pool\<close>

definition getPktBuf :: "nat \<Rightarrow> nat list \<Rightarrow> nat \<times> nat \<times> nat list" where
  "getPktBuf sz pool =
     (let (b, pool') = (case pool of [] \<Rightarrow> (2048, []) | c # cs \<Rightarrow> (c, cs));
          b' = (if b < sz then sz else b)
      in (sz, b', pool'))"

definition putPktBuf :: "nat \<Rightarrow> nat list \<Rightarrow> nat list" where
  "putPktBuf c pool = (if c < 2048 then pool else c # pool)"

text \<open>Every pooled buffer holds at least 2048 bytes, and a buffer that is handed out is large enough.\<close>

lemma getPktBuf_capacity:
  "\<forall>c \<in> set pool. 2048 \<le> c \<Longrightarrow> getPktBuf sz pool = (len, c, pool') \<Longrightarrow>
   len = sz \<and> sz \<le> c \<and> 2048 \<le> c \<and> (\<forall>c \<in> set pool'. 2048 \<le> c)"
  by (auto simp: getPktBuf_def Let_def split: list.splits if_splits)

section \<open>State\<close>

definition returnChBuf :: nat where "returnChBuf = 512"
definition prioBuf :: nat where "prioBuf = 32"
definition workerSendBuf :: nat where "workerSendBuf = 128"
definition maxDwellMS :: int where "maxDwellMS = 15"
definition prioThreshold :: nat where "prioThreshold = 128"

lemmas disp_consts = returnChBuf_def prioBuf_def workerSendBuf_def maxDwellMS_def prioThreshold_def

definition chunkSizeFor :: "nat \<Rightarrow> nat" where
  "chunkSizeFor pktSize =
     (if pktSize > 1100 then 64
      else if pktSize \<ge> 701 then 24
      else if pktSize \<ge> 301 then 8
      else if pktSize \<ge> 101 then 3
      else 1)"

type_synonym ptr = nat
type_synonym netaddr = string

record WorkerSlot =
  slotID :: int
  SendCh :: "bytes gochan"
  PrioCh :: "bytes gochan"

record Dispatcher =
  tunFile :: bool
  ready :: bool
  cancelled :: bool
  clientAddr :: "netaddr option"
  workers :: "ptr list"
  slots :: "ptr \<Rightarrow> WorkerSlot"
  rrIndex :: nat
  rrCount :: nat
  lastPktTime :: int
  chunkStartTs :: int
  ReturnCh :: "bytes gochan"
  bytesUp :: int
  bytesDown :: int
  firstPktUp :: bool
  firstPktDown :: bool
  firstReadErr :: bool
  firstWriteErr :: bool
  tunReadCount :: "64 word"
  tunSentCount :: "64 word"
  tunDroppedCount :: "64 word"

definition dispatcher0 :: Dispatcher where
  "dispatcher0 =
     \<lparr>tunFile = False, ready = False, cancelled = False, clientAddr = None, workers = [],
      slots = (\<lambda>_. \<lparr>slotID = 0, SendCh = make_chan 0, PrioCh = make_chan 0\<rparr>),
      rrIndex = 0, rrCount = 0, lastPktTime = 0, chunkStartTs = 0,
      ReturnCh = make_chan returnChBuf, bytesUp = 0, bytesDown = 0,
      firstPktUp = False, firstPktDown = False, firstReadErr = False, firstWriteErr = False,
      tunReadCount = 0, tunSentCount = 0, tunDroppedCount = 0\<rparr>"

definition NewDispatcher :: Dispatcher where
  "NewDispatcher = dispatcher0\<lparr>ready := True\<rparr>"

definition NewDispatcherPendingTUN :: Dispatcher where
  "NewDispatcherPendingTUN = dispatcher0"

text \<open>\<open>close(d.ready)\<close> panics when the channel is closed already.\<close>

definition AttachTUN :: "Dispatcher \<Rightarrow> Dispatcher option" where
  "AttachTUN d = (if ready d then None else Some (d\<lparr>tunFile := True, ready := True\<rparr>))"

definition Shutdown :: "Dispatcher \<Rightarrow> Dispatcher" where
  "Shutdown d = d\<lparr>cancelled := True\<rparr>"

section \<open>Registration\<close>

definition newSlot :: "int \<Rightarrow> WorkerSlot" where
  "newSlot sessionID = \<lparr>slotID = sessionID, SendCh = make_chan workerSendBuf, PrioCh = make_chan prioBuf\<rparr>"

definition Register :: "ptr \<Rightarrow> Dispatcher \<Rightarrow> Dispatcher" where
  "Register w d = d\<lparr>workers := workers d @ [w]\<rparr>"

text \<open>The loop of \<open>Unregister\<close> deletes the first occurrence of the pointer.\<close>

definition Unregister :: "ptr \<Rightarrow> Dispatcher \<Rightarrow> Dispatcher option" where
  "Unregister slot d =
     (let ws = remove1 slot (workers d);
          remaining = length ws;
          ix = (if rrIndex d \<ge> remaining \<and> remaining > 0 then rrIndex d mod remaining else rrIndex d);
          d1 = d\<lparr>workers := ws, rrIndex := ix, rrCount := 0\<rparr>
      in case close_chan (SendCh (slots d1 slot)) of
           None \<Rightarrow> None
         | Some c \<Rightarrow> Some (d1\<lparr>slots := (slots d1)(slot := (slots d1 slot)\<lparr>SendCh := c\<lparr>chbuf := []\<rparr>\<rparr>)\<rparr>))"

section \<open>Read loop\<close>

datatype lane = Data | Prio

fun laneOf :: "lane \<Rightarrow> WorkerSlot \<Rightarrow> bytes gochan" where
  "laneOf Data s = SendCh s"
| "laneOf Prio s = PrioCh s"

fun setLane :: "lane \<Rightarrow> bytes gochan \<Rightarrow> WorkerSlot \<Rightarrow> WorkerSlot" where
  "setLane Data c s = s\<lparr>SendCh := c\<rparr>"
| "setLane Prio c s = s\<lparr>PrioCh := c\<rparr>"

text \<open>\<open>select { case d.workers[i].Ch <- pkt: default: }\<close>\<close>

definition sendTo :: "lane \<Rightarrow> nat \<Rightarrow> bytes \<Rightarrow> Dispatcher \<Rightarrow> Dispatcher attempt" where
  "sendTo l i pkt d =
     (let p = workers d ! i in
      case try_send pkt (laneOf l (slots d p)) of
        Done c \<Rightarrow> Done (d\<lparr>slots := (slots d)(p := setLane l c (slots d p))\<rparr>)
      | Busy \<Rightarrow> Busy
      | Crash \<Rightarrow> Crash)"

text \<open>The search for another worker: \<open>for i := 1; i < nw; i++\<close> over the indices \<open>(idx + i) % nw\<close>.\<close>

fun sendAlt :: "lane \<Rightarrow> bytes \<Rightarrow> nat \<Rightarrow> nat \<Rightarrow> nat list \<Rightarrow> Dispatcher \<Rightarrow> (nat \<times> Dispatcher) attempt" where
  "sendAlt l pkt idx nw [] d = Busy"
| "sendAlt l pkt idx nw (i # is) d =
     (let altIdx = (idx + i) mod nw in
      case sendTo l altIdx pkt d of
        Done d' \<Rightarrow> Done (altIdx, d')
      | Busy \<Rightarrow> sendAlt l pkt idx nw is d
      | Crash \<Rightarrow> Crash)"

definition countSent :: "Dispatcher \<Rightarrow> Dispatcher" where
  "countSent d = (if tunFile d then d\<lparr>tunSentCount := tunSentCount d + 1\<rparr> else d)"

definition countDropped :: "Dispatcher \<Rightarrow> Dispatcher" where
  "countDropped d = (if tunFile d then d\<lparr>tunDroppedCount := tunDroppedCount d + 1\<rparr> else d)"

text \<open>A pause of more than 10 ms ends the chunk.\<close>

definition afterPause :: "int \<Rightarrow> Dispatcher \<Rightarrow> Dispatcher" where
  "afterPause now d =
     (let nw = length (workers d);
          lastTime = lastPktTime d;
          d1 = d\<lparr>lastPktTime := now\<rparr>
      in if lastTime > 0 \<and> now - lastTime > 10
         then d1\<lparr>rrIndex := (rrIndex d + 1) mod nw, rrCount := 0, chunkStartTs := now\<rparr>
         else d1)"

text \<open>The priority lane for small packets; \<open>Busy\<close> falls through to the data lane.\<close>

definition dispatchPrio :: "bytes \<Rightarrow> Dispatcher \<Rightarrow> Dispatcher attempt" where
  "dispatchPrio pkt d =
     (if length pkt \<le> prioThreshold then
        let nw = length (workers d);
            idx = rrIndex d mod nw
        in case sendTo Prio idx pkt d of
             Done d' \<Rightarrow> Done (countSent d')
           | Crash \<Rightarrow> Crash
           | Busy \<Rightarrow>
               (case sendAlt Prio pkt idx nw [1..<nw] d of
                  Done (_, d') \<Rightarrow> Done (countSent d')
                | Busy \<Rightarrow> Busy
                | Crash \<Rightarrow> Crash)
      else Busy)"

definition dwell :: "int \<Rightarrow> Dispatcher \<Rightarrow> Dispatcher" where
  "dwell now d =
     (if chunkStartTs d = 0 then d\<lparr>chunkStartTs := now\<rparr>
      else if now - chunkStartTs d \<ge> maxDwellMS
        then d\<lparr>rrIndex := (rrIndex d + 1) mod length (workers d), rrCount := 0, chunkStartTs := now\<rparr>
      else d)"

definition dispatchData :: "int \<Rightarrow> bytes \<Rightarrow> Dispatcher \<Rightarrow> Dispatcher option" where
  "dispatchData now pkt d0 =
     (let chunk = chunkSizeFor (length pkt);
          d = dwell now d0;
          nw = length (workers d);
          idx = rrIndex d mod nw
      in case sendTo Data idx pkt d of
           Crash \<Rightarrow> None
         | Done d1 \<Rightarrow>
             (let n = rrCount d1 + 1
              in Some (countSent
                  (if n \<ge> chunk
                   then d1\<lparr>rrIndex := (idx + 1) mod nw, rrCount := 0, chunkStartTs := now\<rparr>
                   else d1\<lparr>rrCount := n\<rparr>)))
         | Busy \<Rightarrow>
             (case sendAlt Data pkt idx nw [1..<nw] d of
                Crash \<Rightarrow> None
              | Done (altIdx, d1) \<Rightarrow>
                  Some (countSent (d1\<lparr>rrIndex := altIdx, rrCount := 1, chunkStartTs := now\<rparr>))
              | Busy \<Rightarrow> Some (countDropped (d\<lparr>rrIndex := (idx + 1) mod nw, rrCount := 0\<rparr>))))"

definition dispatchPacket :: "int \<Rightarrow> bytes \<Rightarrow> Dispatcher \<Rightarrow> Dispatcher option" where
  "dispatchPacket now pkt d =
     (if workers d = [] then Some (countDropped d)
      else
        let d1 = afterPause now d
        in case dispatchPrio pkt d1 of
             Done d2 \<Rightarrow> Some d2
           | Crash \<Rightarrow> None
           | Busy \<Rightarrow> dispatchData now pkt d1)"

text \<open>
  One turn of \<open>readLoop\<close>: \<open>None\<close> as the event is a failed read, otherwise the packet and, outside the TUN
  mode, the address it came from.  After cancellation the loop has returned and nothing changes.
\<close>

definition readStep :: "int \<Rightarrow> (bytes \<times> netaddr) option \<Rightarrow> Dispatcher \<Rightarrow> Dispatcher option" where
  "readStep now ev d =
     (if cancelled d \<or> \<not> ready d then Some d
      else case ev of
        None \<Rightarrow> Some (d\<lparr>firstReadErr := True\<rparr>)
      | Some (pkt, addr) \<Rightarrow>
          (let d1 = (if tunFile d then d\<lparr>tunReadCount := tunReadCount d + 1\<rparr> else d\<lparr>clientAddr := Some addr\<rparr>);
               d2 = d1\<lparr>bytesUp := bytesUp d1 + int (length pkt), firstPktUp := True\<rparr>
           in dispatchPacket now pkt d2))"

section \<open>Write loop\<close>

text \<open>
  One turn of \<open>writeLoop\<close>: the packet taken from \<open>ReturnCh\<close> goes to the TUN device or to the last known
  client; \<open>wok\<close> says whether the write succeeds.  The second component is what was written.
\<close>

definition writeStep :: "bool \<Rightarrow> Dispatcher \<Rightarrow> Dispatcher \<times> (bytes \<times> netaddr option) option" where
  "writeStep wok d =
     (if cancelled d \<or> \<not> ready d then (d, None)
      else case try_recv (ReturnCh d) of
        None \<Rightarrow> (d, None)
      | Some (pkt, c) \<Rightarrow>
          (let d1 = d\<lparr>ReturnCh := c\<rparr> in
           if tunFile d then
             (let d2 = d1\<lparr>firstPktDown := True,
                          firstWriteErr := (firstWriteErr d1 \<or> \<not> wok),
                          bytesDown := bytesDown d1 + int (length pkt)\<rparr>
              in (d2, if wok then Some (pkt, None) else None))
           else case clientAddr d of
             None \<Rightarrow> (d1, None)
           | Some addr \<Rightarrow>
               (d1\<lparr>firstWriteErr := (firstWriteErr d1 \<or> \<not> wok),
                   bytesDown := bytesDown d1 + int (length pkt)\<rparr>,
                if wok then Some (pkt, Some addr) else None)))"

section \<open>Session goroutines\<close>

definition keepaliveByte :: byte where "keepaliveByte = 0xFF"

text \<open>\<open>copy(didBytes, deviceID)\<close> into 16 zero bytes, then the packet of \<open>25 + rand.Intn(20)\<close> bytes.\<close>

definition keepalivePacket :: "bytes \<Rightarrow> nat \<Rightarrow> bytes" where
  "keepalivePacket deviceID sz =
     (let did = take 16 (deviceID @ replicate 16 0)
      in keepaliveByte # did @ replicate (sz - 17) keepaliveByte)"

definition keepaliveStep :: "bytes \<Rightarrow> nat \<Rightarrow> ptr \<Rightarrow> Dispatcher \<Rightarrow> Dispatcher option" where
  "keepaliveStep deviceID rnd p d =
     (case try_send (keepalivePacket deviceID (25 + rnd mod 20)) (PrioCh (slots d p)) of
        Done c \<Rightarrow> Some (d\<lparr>slots := (slots d)(p := (slots d p)\<lparr>PrioCh := c\<rparr>)\<rparr>)
      | Busy \<Rightarrow> Some d
      | Crash \<Rightarrow> None)"

text \<open>
  The writer takes from the priority lane first; only when that is empty does the second \<open>select\<close>
  look at both lanes.  The second component is the packet written to the connection.
\<close>

definition writerStep :: "ptr \<Rightarrow> Dispatcher \<Rightarrow> Dispatcher \<times> bytes option" where
  "writerStep p d =
     (case try_recv (PrioCh (slots d p)) of
        Some (pkt, c) \<Rightarrow> (d\<lparr>slots := (slots d)(p := (slots d p)\<lparr>PrioCh := c\<rparr>)\<rparr>, Some pkt)
      | None \<Rightarrow>
          (case try_recv (SendCh (slots d p)) of
             Some (pkt, c) \<Rightarrow> (d\<lparr>slots := (slots d)(p := (slots d p)\<lparr>SendCh := c\<rparr>)\<rparr>, Some pkt)
           | None \<Rightarrow> (d, None)))"

text \<open>The reader drops keepalives and puts the rest into \<open>ReturnCh\<close> unless that is full.\<close>

definition readerStep :: "bytes \<Rightarrow> Dispatcher \<Rightarrow> Dispatcher option" where
  "readerStep pkt d =
     (if pkt \<noteq> [] \<and> hd pkt = keepaliveByte then Some d
      else case try_send pkt (ReturnCh d) of
        Done c \<Rightarrow> Some (d\<lparr>ReturnCh := c\<rparr>)
      | Busy \<Rightarrow> Some d
      | Crash \<Rightarrow> None)"

section \<open>Invariant\<close>

definition slot_ok :: "WorkerSlot \<Rightarrow> bool" where
  "slot_ok s \<longleftrightarrow> chan_ok (SendCh s) \<and> chan_ok (PrioCh s) \<and> \<not> chclosed (PrioCh s)"

definition disp_ok :: "Dispatcher \<Rightarrow> bool" where
  "disp_ok d \<longleftrightarrow> distinct (workers d) \<and> (\<forall>p. slot_ok (slots d p))
     \<and> (\<forall>p \<in> set (workers d). \<not> chclosed (SendCh (slots d p))
            \<and> chcap (SendCh (slots d p)) = workerSendBuf \<and> chcap (PrioCh (slots d p)) = prioBuf)
     \<and> chan_ok (ReturnCh d) \<and> \<not> chclosed (ReturnCh d) \<and> chcap (ReturnCh d) = returnChBuf"

definition full :: "lane \<Rightarrow> ptr \<Rightarrow> Dispatcher \<Rightarrow> bool" where
  "full l p d \<longleftrightarrow> chcap (laneOf l (slots d p)) \<le> length (chbuf (laneOf l (slots d p)))"

text \<open>The effect of a delivery: one packet at the end of one lane of one worker, nothing else.\<close>

definition appended :: "lane \<Rightarrow> ptr \<Rightarrow> bytes \<Rightarrow> Dispatcher \<Rightarrow> Dispatcher \<Rightarrow> bool" where
  "appended l p pkt d d' \<longleftrightarrow> workers d' = workers d \<and> ReturnCh d' = ReturnCh d
     \<and> slots d' = (slots d)(p := setLane l
          ((laneOf l (slots d p))\<lparr>chbuf := chbuf (laneOf l (slots d p)) @ [pkt]\<rparr>) (slots d p))"

definition same_queues :: "Dispatcher \<Rightarrow> Dispatcher \<Rightarrow> bool" where
  "same_queues d d' \<longleftrightarrow> workers d' = workers d \<and> ReturnCh d' = ReturnCh d \<and> slots d' = slots d"

lemma lane_open: "disp_ok d \<Longrightarrow> p \<in> set (workers d) \<Longrightarrow> \<not> chclosed (laneOf l (slots d p))"
  by (cases l) (auto simp: disp_ok_def slot_ok_def)

lemma lane_ok: "disp_ok d \<Longrightarrow> chan_ok (laneOf l (slots d p))"
  by (cases l) (auto simp: disp_ok_def slot_ok_def)

lemma setLane_ok:
  "slot_ok s \<Longrightarrow> chan_ok c \<Longrightarrow> (l = Prio \<Longrightarrow> \<not> chclosed c) \<Longrightarrow> slot_ok (setLane l c s)"
  by (cases l) (auto simp: slot_ok_def)

lemma appended_ok [go_inv]:
  assumes "disp_ok d" "appended l p pkt d d'" "p \<in> set (workers d)" "\<not> full l p d"
  shows "disp_ok d'"
proof -
  let ?c = "(laneOf l (slots d p))\<lparr>chbuf := chbuf (laneOf l (slots d p)) @ [pkt]\<rparr>"
  have c: "chan_ok ?c" "\<not> chclosed ?c"
    using assms(4) lane_open [OF assms(1,3), of l] by (simp_all add: chan_ok_def full_def)
  have "slot_ok (setLane l ?c (slots d p))"
    using assms(1) c by (intro setLane_ok) (simp_all add: disp_ok_def)
  moreover have "\<not> chclosed (SendCh (setLane l ?c (slots d p)))"
    "chcap (SendCh (setLane l ?c (slots d p))) = workerSendBuf" "chcap (PrioCh (setLane l ?c (slots d p))) = prioBuf"
    using assms(1,3) c by (cases l; auto simp: disp_ok_def)+
  ultimately show ?thesis using assms(1,2) by (auto simp: disp_ok_def appended_def)
qed

lemma same_queues_ok [go_inv]: "disp_ok d \<Longrightarrow> same_queues d d' \<Longrightarrow> disp_ok d'"
  by (simp add: disp_ok_def same_queues_def)

lemma same_queues_trans: "same_queues a b \<Longrightarrow> same_queues b c \<Longrightarrow> same_queues a c"
  by (simp add: same_queues_def)

lemma appended_same: "same_queues d e \<Longrightarrow> appended l p pkt e f \<Longrightarrow> same_queues f g \<Longrightarrow> appended l p pkt d g"
  by (simp add: same_queues_def appended_def)

lemma full_same: "same_queues d e \<Longrightarrow> full l p e = full l p d"
  by (simp add: same_queues_def full_def)

lemma same_queues_simps [simp]:
  "same_queues d (countSent d)" "same_queues d (countDropped d)"
  "same_queues d (afterPause now d)" "same_queues d (dwell now d)"
  by (simp_all add: same_queues_def countSent_def countDropped_def afterPause_def dwell_def Let_def)

lemma sendTo_cases:
  assumes "disp_ok d" "i < length (workers d)" "p = workers d ! i"
  obtains (sent) d' where "sendTo l i pkt d = Done d'" "appended l p pkt d d'" "\<not> full l p d"
      "d' = d\<lparr>slots := slots d'\<rparr>" "p \<in> set (workers d)"
  | (busy) "sendTo l i pkt d = Busy" "full l p d" "p \<in> set (workers d)"
proof -
  have p: "p \<in> set (workers d)" using assms by simp
  let ?c = "laneOf l (slots d p)"
  have op: "\<not> chclosed ?c" using lane_open [OF assms(1) p] .
  show thesis
  proof (cases "length (chbuf ?c) < chcap ?c")
    case True
    let ?e = "d\<lparr>slots := (slots d)(p := setLane l (?c\<lparr>chbuf := chbuf ?c @ [pkt]\<rparr>) (slots d p))\<rparr>"
    have "sendTo l i pkt d = Done ?e"
      using op assms(3) True by (simp add: sendTo_def try_send_def Let_def)
    then show thesis by (rule sent) (use True p in \<open>simp_all add: appended_def full_def\<close>)
  next
    case False
    then have "sendTo l i pkt d = Busy" using op assms(3) by (simp add: sendTo_def try_send_def Let_def)
    then show thesis using False p by (intro busy) (simp_all add: full_def)
  qed
qed

lemma sendAlt_cases:
  assumes "disp_ok d" "nw = length (workers d)" "0 < nw"
  shows "(\<exists>k d'. sendAlt l pkt idx nw is d = Done (k, d') \<and> k < nw \<and> sendTo l k pkt d = Done d')
       \<or> (sendAlt l pkt idx nw is d = Busy \<and> (\<forall>i \<in> set is. full l (workers d ! ((idx + i) mod nw)) d))"
proof (induction "is")
  case (Cons i "is")
  have lt: "(idx + i) mod nw < length (workers d)" using assms by simp
  from assms(1) lt refl show ?case
  proof (cases rule: sendTo_cases [where l = l and pkt = pkt])
    case (sent d')
    then show ?thesis using lt assms(2) by (auto simp: Let_def)
  next
    case busy
    then show ?thesis using Cons by (auto simp: Let_def)
  qed
qed simp

text \<open>The indices tried are all of them: the current one and \<open>nw - 1\<close> alternatives.\<close>

lemma all_indices_tried:
  fixes nw :: nat
  assumes "k < nw" "idx < nw" "k \<noteq> idx"
  shows "\<exists>i \<in> {1..<nw}. (idx + i) mod nw = k"
proof (cases "idx < k")
  case True
  then show ?thesis using assms by (intro bexI [of _ "k - idx"]) auto
next
  case False
  then have "(idx + (nw - idx + k)) mod nw = k" using assms by simp
  then show ?thesis using assms False by (intro bexI [of _ "nw - idx + k"]) auto
qed

lemma all_full:
  assumes "full l (workers d ! idx) d" "\<forall>i \<in> set [1..<nw]. full l (workers d ! ((idx + i) mod nw)) d"
    and "nw = length (workers d)" "idx < nw" "p \<in> set (workers d)"
  shows "full l p d"
proof -
  obtain k where k: "k < nw" "p = workers d ! k" using assms(3,5) by (metis in_set_conv_nth)
  show ?thesis
  proof (cases "k = idx")
    case False
    then obtain i where "i \<in> {1..<nw}" "(idx + i) mod nw = k" using all_indices_tried k(1) assms(4) by blast
    then show ?thesis using assms(2) k(2) by auto
  qed (use assms(1) k(2) in simp)
qed

section \<open>Delivery\<close>

text \<open>
  What a dispatch may do: put the packet at the end of one lane of one registered worker, or drop it.
\<close>

datatype outcome = Delivered lane ptr | Dropped

fun achieves :: "outcome \<Rightarrow> bytes \<Rightarrow> Dispatcher \<Rightarrow> Dispatcher \<Rightarrow> bool" where
  "achieves (Delivered l p) pkt d d' \<longleftrightarrow> p \<in> set (workers d) \<and> \<not> full l p d \<and> appended l p pkt d d'"
| "achieves Dropped pkt d d' \<longleftrightarrow> same_queues d d'"

lemma achieves_ok [go_inv]: "disp_ok d \<Longrightarrow> achieves out pkt d d' \<Longrightarrow> disp_ok d'"
  by (cases out) (auto intro: appended_ok same_queues_ok)

lemma achieves_same:
  "same_queues d e \<Longrightarrow> achieves out pkt e f \<Longrightarrow> same_queues f g \<Longrightarrow> achieves out pkt d g"
  by (cases out) (auto simp: same_queues_def appended_def full_def)

lemma dispatchPrio_cases:
  assumes ok: "disp_ok d" and ne: "workers d \<noteq> []"
  shows "(\<exists>d' p. dispatchPrio pkt d = Done d' \<and> length pkt \<le> prioThreshold \<and> achieves (Delivered Prio p) pkt d d')
       \<or> (dispatchPrio pkt d = Busy \<and>
          (length pkt \<le> prioThreshold \<longrightarrow> (\<forall>p \<in> set (workers d). full Prio p d)))"
proof (cases "length pkt \<le> prioThreshold")
  case small: True
  define nw where "nw = length (workers d)"
  define idx where "idx = rrIndex d mod nw"
  have nw: "0 < nw" and idx: "idx < nw" using ne by (simp_all add: nw_def idx_def)
  have lt: "idx < length (workers d)" using idx by (simp add: nw_def)
  have unf: "dispatchPrio pkt d =
      (case sendTo Prio idx pkt d of
         Done d' \<Rightarrow> Done (countSent d')
       | Crash \<Rightarrow> Crash
       | Busy \<Rightarrow> (case sendAlt Prio pkt idx nw [1..<nw] d of
            Done (_, d') \<Rightarrow> Done (countSent d') | Busy \<Rightarrow> Busy | Crash \<Rightarrow> Crash))"
    unfolding dispatchPrio_def Let_def nw_def idx_def using small by simp
  have done1: "achieves (Delivered Prio (workers d ! k)) pkt d (countSent d')"
    if k: "k < length (workers d)" and s: "sendTo Prio k pkt d = Done d'" for k d'
    using ok k refl
  proof (cases rule: sendTo_cases [where l = Prio and pkt = pkt])
    case (sent e)
    then show ?thesis using s by (auto simp: countSent_def appended_def)
  qed (use s in simp)
  from ok lt refl show ?thesis
  proof (cases rule: sendTo_cases [where l = Prio and pkt = pkt])
    case (sent d')
    then show ?thesis using done1 [OF lt sent(1)] unf small by auto
  next
    case busy
    from sendAlt_cases [OF ok nw_def nw, of Prio pkt idx "[1..<nw]"] show ?thesis
    proof (elim disjE exE conjE)
      fix k d' assume a: "sendAlt Prio pkt idx nw [1..<nw] d = Done (k, d')" "k < nw" "sendTo Prio k pkt d = Done d'"
      then have "achieves (Delivered Prio (workers d ! k)) pkt d (countSent d')" using done1 by (simp add: nw_def)
      then show ?thesis using a(1) unf busy(1) small by auto
    next
      assume "sendAlt Prio pkt idx nw [1..<nw] d = Busy"
        "\<forall>i \<in> set [1..<nw]. full Prio (workers d ! ((idx + i) mod nw)) d"
      then show ?thesis using all_full [OF busy(2) _ nw_def idx] unf busy(1) by auto
    qed
  qed
qed (auto simp: dispatchPrio_def)

lemma dispatchData_cases:
  assumes ok0: "disp_ok d0" and ne: "workers d0 \<noteq> []"
  shows "\<exists>d' out. dispatchData now pkt d0 = Some d' \<and> achieves out pkt d0 d'
       \<and> (case out of Delivered l p \<Rightarrow> l = Data | Dropped \<Rightarrow> \<forall>p \<in> set (workers d0). full Data p d0)"
proof -
  define d where "d = dwell now d0"
  have same: "same_queues d0 d" by (simp add: d_def)
  have ok: "disp_ok d" using same_queues_ok [OF ok0 same] .
  define nw where "nw = length (workers d)"
  define idx where "idx = rrIndex d mod nw"
  have nw: "0 < nw" and idx: "idx < nw" using ne same by (simp_all add: nw_def idx_def same_queues_def)
  have lt: "idx < length (workers d)" using idx by (simp add: nw_def)
  note unf = dispatchData_def [of now pkt d0, unfolded Let_def d_def [symmetric], folded nw_def, folded idx_def]
  have done1: "achieves (Delivered Data (workers d ! k)) pkt d0 g"
    if k: "k < length (workers d)" and s: "sendTo Data k pkt d = Done e" "same_queues e g" for k e g
    using ok k refl
  proof (cases rule: sendTo_cases [where l = Data and pkt = pkt])
    case (sent f)
    then show ?thesis
      using s by (intro achieves_same [OF same, of _ _ e]) auto
  qed (use s in simp)
  from ok lt refl show ?thesis
  proof (cases rule: sendTo_cases [where l = Data and pkt = pkt])
    case (sent d1)
    let ?g = "countSent (if rrCount d1 + 1 \<ge> chunkSizeFor (length pkt)
       then d1\<lparr>rrIndex := (idx + 1) mod nw, rrCount := 0, chunkStartTs := now\<rparr>
       else d1\<lparr>rrCount := rrCount d1 + 1\<rparr>)"
    have "same_queues d1 ?g" by (simp add: same_queues_def countSent_def)
    then show ?thesis using done1 [OF lt sent(1)] unf sent(1)
      by (intro exI [of _ ?g] exI [of _ "Delivered Data (workers d ! idx)"]) simp
  next
    case busy
    from sendAlt_cases [OF ok nw_def nw, of Data pkt idx "[1..<nw]"] show ?thesis
    proof (elim disjE exE conjE)
      fix k d1 assume a: "sendAlt Data pkt idx nw [1..<nw] d = Done (k, d1)" "k < nw" "sendTo Data k pkt d = Done d1"
      let ?g = "countSent (d1\<lparr>rrIndex := k, rrCount := 1, chunkStartTs := now\<rparr>)"
      have "same_queues d1 ?g" by (simp add: same_queues_def countSent_def)
      then show ?thesis using done1 [of k d1 ?g] a unf busy(1)
        by (intro exI [of _ ?g] exI [of _ "Delivered Data (workers d ! k)"]) (simp add: nw_def)
    next
      assume b: "sendAlt Data pkt idx nw [1..<nw] d = Busy"
        "\<forall>i \<in> set [1..<nw]. full Data (workers d ! ((idx + i) mod nw)) d"
      let ?g = "countDropped (d\<lparr>rrIndex := (idx + 1) mod nw, rrCount := 0\<rparr>)"
      have "same_queues d ?g" by (simp add: same_queues_def countDropped_def)
      then have "same_queues d0 ?g" by (rule same_queues_trans [OF same])
      moreover have "\<forall>p \<in> set (workers d0). full Data p d0"
        using all_full [OF busy(2) b(2) nw_def idx] same by (simp add: full_same same_queues_def full_def)
      ultimately show ?thesis using unf busy(1) b(1)
        by (intro exI [of _ ?g] exI [of _ Dropped]) simp
    qed
  qed
qed

lemma dispatchPacket_spec:
  assumes "disp_ok d" "workers d \<noteq> []"
  shows "\<exists>d' out. dispatchPacket now pkt d = Some d' \<and> disp_ok d' \<and> achieves out pkt d d' \<and>
    (case out of
       Delivered Prio p \<Rightarrow> length pkt \<le> prioThreshold
     | Delivered Data p \<Rightarrow> length pkt \<le> prioThreshold \<longrightarrow> (\<forall>q \<in> set (workers d). full Prio q d)
     | Dropped \<Rightarrow> (\<forall>q \<in> set (workers d). full Data q d \<and> (length pkt \<le> prioThreshold \<longrightarrow> full Prio q d)))"
proof -
  define d1 where "d1 = afterPause now d"
  have same: "same_queues d d1" by (simp add: d1_def)
  have ok: "disp_ok d1" using same_queues_ok [OF assms(1) same] .
  have ne: "workers d1 \<noteq> []" using assms(2) same by (simp add: same_queues_def)
  have lifted: "achieves out pkt d d'" if "achieves out pkt d1 d'" for out d'
    using achieves_same [OF same that] by (simp add: same_queues_def)
  have fulleq: "full l p d1 = full l p d" for l p by (rule full_same [OF same])
  have ws: "workers d1 = workers d" using same by (simp add: same_queues_def)
  have unf: "dispatchPacket now pkt d =
      (case dispatchPrio pkt d1 of Done d2 \<Rightarrow> Some d2 | Crash \<Rightarrow> None | Busy \<Rightarrow> dispatchData now pkt d1)"
    unfolding dispatchPacket_def d1_def Let_def using assms(2) by simp
  from dispatchPrio_cases [OF ok ne, of pkt] show ?thesis
  proof (elim disjE exE conjE)
    fix d' p assume a: "dispatchPrio pkt d1 = Done d'" "length pkt \<le> prioThreshold" "achieves (Delivered Prio p) pkt d1 d'"
    show ?thesis
      using unf a achieves_ok [OF assms(1) lifted [OF a(3)]] lifted [OF a(3)]
      by (intro exI [of _ d'] exI [of _ "Delivered Prio p"]) simp
  next
    assume a: "dispatchPrio pkt d1 = Busy" "length pkt \<le> prioThreshold \<longrightarrow> (\<forall>p \<in> set (workers d1). full Prio p d1)"
    obtain d' out where b: "dispatchData now pkt d1 = Some d'" "achieves out pkt d1 d'"
      "case out of Delivered l p \<Rightarrow> l = Data | Dropped \<Rightarrow> \<forall>p \<in> set (workers d1). full Data p d1"
      using dispatchData_cases [OF ok ne, of now pkt] by blast
    show ?thesis
      using unf a b achieves_ok [OF assms(1) lifted [OF b(2)]] lifted [OF b(2)]
      by (intro exI [of _ d'] exI [of _ out]) (auto simp: fulleq ws split: outcome.splits)
  qed
qed

text \<open>
  C8.  Dispatch of one packet.  With at least one registered worker the dispatcher never panics, keeps its
  invariant, and does exactly one of two things: it appends the packet to one lane of one registered
  worker and leaves every other queue alone, or it drops the packet.  The priority lane takes only
  packets of up to 128 bytes; such a packet uses the data lane only if the priority lane of every
  worker is full; and a packet is dropped only if the data lane of every worker is full.
\<close>

theorem dispatch_exactly_once:
  assumes "disp_ok d" "workers d \<noteq> []"
  shows "\<exists>d' out. dispatchPacket now pkt d = Some d' \<and> disp_ok d' \<and> achieves out pkt d d' \<and>
    (case out of
       Delivered Prio p \<Rightarrow> length pkt \<le> prioThreshold
     | Delivered Data p \<Rightarrow> length pkt \<le> prioThreshold \<longrightarrow> (\<forall>q \<in> set (workers d). full Prio q d)
     | Dropped \<Rightarrow> (\<forall>q \<in> set (workers d). full Data q d \<and> (length pkt \<le> prioThreshold \<longrightarrow> full Prio q d)))"
  using assms by (rule dispatchPacket_spec)

section \<open>All operations together\<close>

text \<open>
  The dispatcher, its sessions and its two loops run concurrently; the mutex and the channels make each
  of the following steps atomic.  A session allocates a slot that is not in use, registers it, and
  unregisters it once.
\<close>

inductive dstep :: "Dispatcher \<Rightarrow> Dispatcher \<Rightarrow> bool" where
  register: "p \<notin> set (workers d) \<Longrightarrow>
     dstep d (Register p (d\<lparr>slots := (slots d)(p := newSlot sid)\<rparr>))"
| unregister: "p \<in> set (workers d) \<Longrightarrow> Unregister p d = Some d' \<Longrightarrow> dstep d d'"
| readl: "readStep now ev d = Some d' \<Longrightarrow> dstep d d'"
| writel: "writeStep wok d = (d', out) \<Longrightarrow> dstep d d'"
| writer: "writerStep p d = (d', pkt) \<Longrightarrow> dstep d d'"
| reader: "readerStep pkt d = Some d' \<Longrightarrow> dstep d d'"
| keepalive: "keepaliveStep did rnd p d = Some d' \<Longrightarrow> dstep d d'"
| attach: "AttachTUN d = Some d' \<Longrightarrow> dstep d d'"
| shutdown: "dstep d (Shutdown d)"

inductive reachable :: "Dispatcher \<Rightarrow> bool" where
  start: "reachable NewDispatcher"
| start_tun: "reachable NewDispatcherPendingTUN"
| step: "reachable d \<Longrightarrow> dstep d d' \<Longrightarrow> reachable d'"

lemma chan_ok_make [simp]: "chan_ok (make_chan n)"
  by (simp add: chan_ok_def make_chan_def)

lemma disp_ok_initial: "disp_ok NewDispatcher" "disp_ok NewDispatcherPendingTUN"
  by (simp_all add: disp_ok_def NewDispatcher_def NewDispatcherPendingTUN_def dispatcher0_def slot_ok_def)
     (simp_all add: make_chan_def)

lemma Register_ok [go_inv]:
  "disp_ok d \<Longrightarrow> p \<notin> set (workers d) \<Longrightarrow> disp_ok (Register p (d\<lparr>slots := (slots d)(p := newSlot sid)\<rparr>))"
  by (auto simp: disp_ok_def Register_def newSlot_def slot_ok_def make_chan_def chan_ok_def)

lemma Unregister_ok [go_inv]: "disp_ok d \<Longrightarrow> Unregister p d = Some d' \<Longrightarrow> disp_ok d'"
  by (auto simp: disp_ok_def Unregister_def Let_def close_chan_def slot_ok_def chan_ok_def
      split: if_splits dest: in_set_remove1)

lemma Unregister_defined: "disp_ok d \<Longrightarrow> p \<in> set (workers d) \<Longrightarrow> \<exists>d'. Unregister p d = Some d'"
  by (simp add: disp_ok_def Unregister_def Let_def close_chan_def)

lemma readStep_defined:
  assumes "disp_ok d"
  shows "\<exists>d'. readStep now ev d = Some d' \<and> disp_ok d'"
proof (cases "cancelled d \<or> \<not> ready d \<or> ev = None")
  case True
  then show ?thesis using assms by (auto simp: readStep_def disp_ok_def split: option.splits)
next
  case False
  then obtain pkt addr where ev: "ev = Some (pkt, addr)" by force
  define d1 where "d1 = (if tunFile d then d\<lparr>tunReadCount := tunReadCount d + 1\<rparr> else d\<lparr>clientAddr := Some addr\<rparr>)"
  define d2 where "d2 = d1\<lparr>bytesUp := bytesUp d1 + int (length pkt), firstPktUp := True\<rparr>"
  have r: "readStep now ev d = dispatchPacket now pkt d2"
    using False by (simp add: readStep_def ev d1_def d2_def Let_def)
  have ok: "disp_ok d2" using assms by (auto simp: d1_def d2_def disp_ok_def)
  show ?thesis
  proof (cases "workers d2 = []")
    case True
    then show ?thesis using r ok by (auto simp: dispatchPacket_def countDropped_def disp_ok_def)
  next
    case False
    then show ?thesis using r dispatchPacket_spec [OF ok False] by auto
  qed
qed

lemma readStep_ok [go_inv]: "disp_ok d \<Longrightarrow> readStep now ev d = Some d' \<Longrightarrow> disp_ok d'"
  using readStep_defined [of d now ev] by auto

lemma writeStep_ok [go_inv]: "disp_ok d \<Longrightarrow> writeStep wok d = (d', out) \<Longrightarrow> disp_ok d'"
  by (auto simp: writeStep_def disp_ok_def try_recv_def chan_ok_def Let_def
      split: if_splits option.splits list.splits)

lemma slot_recv_ok:
  assumes "disp_ok d" "try_recv (laneOf l (slots d p)) = Some (v, c)"
  shows "disp_ok (d\<lparr>slots := (slots d)(p := setLane l c (slots d p))\<rparr>)"
proof -
  have c: "chan_ok c" using try_recv_ok [OF lane_ok [OF assms(1)] assms(2)] .
  have "chcap c = chcap (laneOf l (slots d p))" "chclosed c = chclosed (laneOf l (slots d p))"
    using ch.recv_some [OF assms(2)] by simp_all
  with c assms(1) show ?thesis by (cases l) (auto simp: disp_ok_def slot_ok_def)
qed

lemma writerStep_ok [go_inv]: "disp_ok d \<Longrightarrow> writerStep p d = (d', pkt) \<Longrightarrow> disp_ok d'"
  using slot_recv_ok [of d Data p] slot_recv_ok [of d Prio p]
  by (auto simp: writerStep_def split: option.splits)

lemma readerStep_ok [go_inv]: "disp_ok d \<Longrightarrow> readerStep pkt d = Some d' \<Longrightarrow> disp_ok d'"
  by (auto simp: readerStep_def disp_ok_def try_send_def chan_ok_def split: if_splits)

lemma keepaliveStep_ok [go_inv]: "disp_ok d \<Longrightarrow> keepaliveStep did rnd p d = Some d' \<Longrightarrow> disp_ok d'"
  by (auto simp: keepaliveStep_def disp_ok_def slot_ok_def try_send_def chan_ok_def split: if_splits)

lemma AttachTUN_ok [go_inv]: "disp_ok d \<Longrightarrow> AttachTUN d = Some d' \<Longrightarrow> disp_ok d'"
  by (auto simp: AttachTUN_def disp_ok_def split: if_splits)

lemma Shutdown_ok [go_inv]: "disp_ok d \<Longrightarrow> disp_ok (Shutdown d)"
  by (simp add: Shutdown_def disp_ok_def)

lemma dstep_ok: "dstep d d' \<Longrightarrow> disp_ok d \<Longrightarrow> disp_ok d'"
  by (induction rule: dstep.induct) (blast intro: go_inv)+

lemma reachable_ok: "reachable d \<Longrightarrow> disp_ok d"
  by (induction rule: reachable.induct) (auto simp: disp_ok_initial intro: dstep_ok)


text \<open>A run: one worker registers, and a packet of three bytes arrives.\<close>

definition demo_disp :: Dispatcher where
  "demo_disp = Register 1 (NewDispatcher\<lparr>slots := (slots NewDispatcher)(1 := newSlot 7)\<rparr>)"

lemma demo_disp_reachable: "reachable demo_disp"
proof -
  have "dstep NewDispatcher demo_disp"
    unfolding demo_disp_def by (rule dstep.register) (simp add: NewDispatcher_def dispatcher0_def)
  then show ?thesis by (rule reachable.step [OF reachable.start])
qed

theorem dispatch_exactly_once_witness:
  "\<exists>d' out. dispatchPacket 5 [1, 2, 3] demo_disp = Some d' \<and> disp_ok d' \<and> achieves out [1, 2, 3] demo_disp d' \<and>
    (case out of
       Delivered Prio p \<Rightarrow> length [1 :: byte, 2, 3] \<le> prioThreshold
     | Delivered Data p \<Rightarrow> length [1 :: byte, 2, 3] \<le> prioThreshold \<longrightarrow> (\<forall>q \<in> set (workers demo_disp). full Prio q demo_disp)
     | Dropped \<Rightarrow> (\<forall>q \<in> set (workers demo_disp). full Data q demo_disp
          \<and> (length [1 :: byte, 2, 3] \<le> prioThreshold \<longrightarrow> full Prio q demo_disp)))"
  by (rule dispatch_exactly_once [OF reachable_ok [OF demo_disp_reachable]])
     (simp add: demo_disp_def Register_def)


section \<open>Chunk affinity\<close>

text \<open>A run of packets with their arrival times.\<close>

fun dispatchAll :: "(int \<times> bytes) list \<Rightarrow> Dispatcher \<Rightarrow> Dispatcher option" where
  "dispatchAll [] d = Some d"
| "dispatchAll ((now, pkt) # ps) d =
     (case dispatchPacket now pkt d of None \<Rightarrow> None | Some d' \<Rightarrow> dispatchAll ps d')"

text \<open>No pause above 10 ms, and all arrivals within the dwell time of a chunk that began at \<open>t0\<close>.\<close>

fun steady :: "int \<Rightarrow> int \<Rightarrow> (int \<times> bytes) list \<Rightarrow> bool" where
  "steady t0 prev [] = True"
| "steady t0 prev ((now, pkt) # ps) \<longleftrightarrow> now - prev \<le> 10 \<and> now - t0 < maxDwellMS \<and> steady t0 now ps"

lemma affinity_step:
  assumes "disp_ok d" "rrIndex d < length (workers d)" "p = workers d ! rrIndex d" "\<not> full Data p d"
    and "length pkt > prioThreshold" "chunkStartTs d \<noteq> 0" "now - chunkStartTs d < maxDwellMS"
    and "now - lastPktTime d \<le> 10"
  obtains d1 where "appended Data p pkt d d1" "disp_ok d1" "lastPktTime d1 = now" "tunFile d1 = tunFile d"
    "dispatchPacket now pkt d = Some d1"
    "rrCount d + 1 < chunkSizeFor (length pkt) \<longrightarrow>
       rrIndex d1 = rrIndex d \<and> rrCount d1 = rrCount d + 1 \<and> chunkStartTs d1 = chunkStartTs d"
    "rrCount d + 1 \<ge> chunkSizeFor (length pkt) \<longrightarrow>
       rrIndex d1 = (rrIndex d + 1) mod length (workers d) \<and> rrCount d1 = 0"
proof -
  let ?d = "d\<lparr>lastPktTime := now\<rparr>"
  have ok: "disp_ok ?d" using assms(1) by (simp add: disp_ok_def)
  have ne: "workers d \<noteq> []" using assms(2) by auto
  have ix: "rrIndex d mod length (workers d) = rrIndex d" using assms(2) by simp
  from ok have "\<exists>e. sendTo Data (rrIndex d) pkt ?d = Done e \<and> appended Data p pkt ?d e \<and> e = ?d\<lparr>slots := slots e\<rparr>"
    by (rule sendTo_cases [where i = "rrIndex d" and l = Data and pkt = pkt])
       (use assms in \<open>auto simp: full_def\<close>)
  then obtain e where e: "sendTo Data (rrIndex d) pkt ?d = Done e" "appended Data p pkt ?d e" "e = ?d\<lparr>slots := slots e\<rparr>"
    by blast
  let ?r = "countSent (if rrCount e + 1 \<ge> chunkSizeFor (length pkt)
     then e\<lparr>rrIndex := (rrIndex d + 1) mod length (workers d), rrCount := 0, chunkStartTs := now\<rparr>
     else e\<lparr>rrCount := rrCount e + 1\<rparr>)"
  have dw: "dwell now ?d = ?d" using assms(6,7) by (simp add: dwell_def)
  have ap: "afterPause now d = ?d" using assms(8) by (simp add: afterPause_def Let_def)
  have r: "dispatchPacket now pkt d = Some ?r"
    using ne assms(5) e(1)
    by (simp add: dispatchPacket_def ap dispatchPrio_def dispatchData_def dw ix Let_def)
  have f: "rrCount e = rrCount d" "rrIndex e = rrIndex d" "chunkStartTs e = chunkStartTs d" "lastPktTime e = now"
    "tunFile e = tunFile d"
    by (subst e(3), simp)+
  have app: "appended Data p pkt d ?r" using e(2) by (simp add: appended_def countSent_def)
  have ok': "disp_ok ?r"
    using appended_ok [OF assms(1) app _ assms(4)] assms(2,3) by simp
  show thesis
    by (rule that [OF app ok' _ _ r]) (simp_all add: f countSent_def)
qed

lemma affinity_run:
  "disp_ok d \<Longrightarrow> rrIndex d < length (workers d) \<Longrightarrow> p = workers d ! rrIndex d \<Longrightarrow>
   \<forall>(t, pkt) \<in> set ps. length pkt > prioThreshold \<and> chunkSizeFor (length pkt) = k \<Longrightarrow>
   chunkStartTs d \<noteq> 0 \<Longrightarrow> steady (chunkStartTs d) (lastPktTime d) ps \<Longrightarrow>
   rrCount d + length ps = k \<Longrightarrow> ps \<noteq> [] \<Longrightarrow>
   length (chbuf (SendCh (slots d p))) + length ps \<le> chcap (SendCh (slots d p)) \<Longrightarrow>
   \<exists>d'. dispatchAll ps d = Some d' \<and> rrIndex d' = (rrIndex d + 1) mod length (workers d) \<and> rrCount d' = 0
     \<and> workers d' = workers d
     \<and> slots d' = (slots d)(p := (slots d p)\<lparr>SendCh := (SendCh (slots d p))
          \<lparr>chbuf := chbuf (SendCh (slots d p)) @ map snd ps\<rparr>\<rparr>)"
proof (induction ps arbitrary: d)
  case (Cons x ps)
  obtain now pkt where x: "x = (now, pkt)" by fastforce
  have nf: "\<not> full Data p d" using Cons.prems(9) by (simp add: full_def)
  have chunk: "chunkSizeFor (length pkt) = k" and big: "length pkt > prioThreshold"
    using Cons.prems(4) by (auto simp: x)
  have t: "now - chunkStartTs d < maxDwellMS" "now - lastPktTime d \<le> 10" "steady (chunkStartTs d) now ps"
    using Cons.prems(6) by (simp_all add: x)
  obtain d1 where d1: "appended Data p pkt d d1" "disp_ok d1" "lastPktTime d1 = now" "dispatchPacket now pkt d = Some d1"
    "rrCount d + 1 < chunkSizeFor (length pkt) \<longrightarrow>
       rrIndex d1 = rrIndex d \<and> rrCount d1 = rrCount d + 1 \<and> chunkStartTs d1 = chunkStartTs d"
    "rrCount d + 1 \<ge> chunkSizeFor (length pkt) \<longrightarrow>
       rrIndex d1 = (rrIndex d + 1) mod length (workers d) \<and> rrCount d1 = 0"
    by (rule affinity_step [OF Cons.prems(1-3) nf big Cons.prems(5) t(1,2)])
  have ws: "workers d1 = workers d" and sl: "slots d1 = (slots d)(p := (slots d p)\<lparr>SendCh :=
      (SendCh (slots d p))\<lparr>chbuf := chbuf (SendCh (slots d p)) @ [pkt]\<rparr>\<rparr>)"
    using d1(1) by (simp_all add: appended_def)
  show ?case
  proof (cases "ps = []")
    case True
    then show ?thesis using d1(4,6) chunk Cons.prems(7) ws sl by (simp add: x fun_upd_def)
  next
    case False
    then have lt: "rrCount d + 1 < k" using Cons.prems(7) by (cases ps) auto
    note s = d1(5) [unfolded chunk, rule_format, OF lt]
    have "\<exists>d'. dispatchAll ps d1 = Some d' \<and> rrIndex d' = (rrIndex d1 + 1) mod length (workers d1) \<and> rrCount d' = 0
     \<and> workers d' = workers d1
     \<and> slots d' = (slots d1)(p := (slots d1 p)\<lparr>SendCh := (SendCh (slots d1 p))
          \<lparr>chbuf := chbuf (SendCh (slots d1 p)) @ map snd ps\<rparr>\<rparr>)"
      using Cons.prems s t(3) d1(2,3) False by (intro Cons.IH) (simp_all add: ws sl)
    then show ?thesis using d1(4) s by (auto simp: x ws sl fun_eq_iff)
  qed
qed simp

text \<open>
  C10.  Chunk affinity.  A burst of large packets of one size class that arrives without a pause above 10 ms
  and within the dwell time, and as many as the chunk has left, goes in order to the data lane of the
  current worker and to no other; then the dispatcher has moved on to the next worker.
\<close>

theorem chunk_affinity:
  assumes "disp_ok d" "rrIndex d < length (workers d)" "p = workers d ! rrIndex d"
    and "\<forall>(t, pkt) \<in> set ps. length pkt > prioThreshold \<and> chunkSizeFor (length pkt) = k"
    and "chunkStartTs d \<noteq> 0" "steady (chunkStartTs d) (lastPktTime d) ps"
    and "rrCount d + length ps = k" "ps \<noteq> []"
    and "length (chbuf (SendCh (slots d p))) + length ps \<le> chcap (SendCh (slots d p))"
  shows "\<exists>d'. dispatchAll ps d = Some d' \<and> rrIndex d' = (rrIndex d + 1) mod length (workers d) \<and> rrCount d' = 0
     \<and> workers d' = workers d
     \<and> slots d' = (slots d)(p := (slots d p)\<lparr>SendCh := (SendCh (slots d p))
          \<lparr>chbuf := chbuf (SendCh (slots d p)) @ map snd ps\<rparr>\<rparr>)"
  by (rule affinity_run [OF assms])

theorem chunk_affinity_witness:
  "\<exists>d'. dispatchAll [(5, replicate 150 1), (9, replicate 150 2), (11, replicate 200 3)] (demo_disp\<lparr>chunkStartTs := 1\<rparr>) = Some d'
     \<and> rrIndex d' = 0 \<and> map length (chbuf (SendCh (slots d' 1))) = [150, 150, 200]"
proof -
  let ?d = "demo_disp\<lparr>chunkStartTs := 1\<rparr>"
  have ok: "disp_ok ?d" using reachable_ok [OF demo_disp_reachable] by (simp add: disp_ok_def)
  note d = demo_disp_def Register_def NewDispatcher_def dispatcher0_def newSlot_def make_chan_def
  from chunk_affinity [OF ok, of 1 "[(5, replicate 150 1), (9, replicate 150 2), (11, replicate 200 3)]" 3]
  show ?thesis by (auto simp: d disp_consts chunkSizeFor_def)
qed

end
