(* ===== verification/Creds.thy ===== *)
theory Creds
  imports Go_Strings Complex_Main
begin

text \<open>
  TURN credentials: \<open>internal/core/creds.go\<close>.  Modelled are the error classification, the per-group
  credential cache with its error counter, the throttled fetch, the rotation over the VK application
  ids, and the DNS arguments.  The HTTP conversations with VK (\<open>getVKCredsViaVKCallsPath\<close>,
  \<open>getTokenChain\<close>) enter as the results they return; \<open>Token_Chain\<close> puts the conversations themselves in their place.  Times are Unix seconds in the cache and
  milliseconds in the throttle, as in the code.
\<close>

section \<open>Errors\<close>

text \<open>
  The Go error values: \<open>Wrapped pre e\<close> is \<open>fmt.Errorf("pre%w", e)\<close>.  The text of a captcha challenge is
  carried by its constructor.
\<close>

datatype vkerr =
    CallUnavailableError int string
  | VkCaptchaError string
  | vkCallsFailure string string vkerr
  | vkCallsVKAPIError int string
  | vkCallsOKAPIError int string
  | Wrapped string vkerr
  | Plain string

fun errText :: "vkerr \<Rightarrow> string" where
  "errText (CallUnavailableError code msg) =
     (if msg \<noteq> [] then ''VK returns error: '' @ msg @ '' (error_code='' @ Itoa code @ '')''
      else ''VK call is unavailable (error_code='' @ Itoa code @ '')'')"
| "errText (VkCaptchaError t) = t"
| "errText (vkCallsFailure step kind e) = ''step='' @ step @ '' kind='' @ kind @ '': '' @ errText e"
| "errText (vkCallsVKAPIError code msg) =
     (if msg = [] then ''error_code='' @ Itoa code else ''error_code='' @ Itoa code @ '' '' @ msg)"
| "errText (vkCallsOKAPIError code msg) =
     (if msg = [] then ''error_code='' @ Itoa code else ''error_code='' @ Itoa code @ '' '' @ msg)"
| "errText (Wrapped pre e) = pre @ errText e"
| "errText (Plain s) = s"

text \<open>\<open>errors.As\<close> walks the chain of wrapped errors.\<close>

fun asCallUnavailableError :: "vkerr \<Rightarrow> vkerr option" where
  "asCallUnavailableError (CallUnavailableError c m) = Some (CallUnavailableError c m)"
| "asCallUnavailableError (vkCallsFailure _ _ e) = asCallUnavailableError e"
| "asCallUnavailableError (Wrapped _ e) = asCallUnavailableError e"
| "asCallUnavailableError _ = None"

fun asCaptchaError :: "vkerr \<Rightarrow> bool" where
  "asCaptchaError (VkCaptchaError _) = True"
| "asCaptchaError (vkCallsFailure _ _ e) = asCaptchaError e"
| "asCaptchaError (Wrapped _ e) = asCaptchaError e"
| "asCaptchaError _ = False"

definition vkCallsAPIErrorKind :: "vkerr \<Rightarrow> string" where
  "vkCallsAPIErrorKind e =
     (if asCallUnavailableError e \<noteq> None then ''call_unavailable''
      else if asCaptchaError e then ''captcha''
      else ''vk_api'')"

fun asVKCallsFailure :: "vkerr \<Rightarrow> vkerr option" where
  "asVKCallsFailure (vkCallsFailure s k e) = Some (vkCallsFailure s k e)"
| "asVKCallsFailure (Wrapped _ e) = asVKCallsFailure e"
| "asVKCallsFailure _ = None"

definition describeVKCallsFailure :: "vkerr option \<Rightarrow> string" where
  "describeVKCallsFailure e =
     (case e of
        None \<Rightarrow> []
      | Some e \<Rightarrow> (case asVKCallsFailure e of Some f \<Rightarrow> errText f | None \<Rightarrow> errText e))"

section \<open>Responses\<close>

text \<open>Decoded JSON; a missing key of an object is \<open>nil\<close>.  Numbers are \<open>float64\<close> in Go, rationals here.\<close>

datatype json = JNull | JBool bool | JNum rat | JStr string | JArr "json list" | JObj "(string \<times> json) list"

definition jget :: "(string \<times> json) list \<Rightarrow> string \<Rightarrow> json" where
  "jget m k = (case map_of m k of Some v \<Rightarrow> v | None \<Rightarrow> JNull)"

text \<open>\<open>int(f)\<close> truncates towards zero.\<close>

definition trunc :: "rat \<Rightarrow> int" where
  "trunc r = (if r < 0 then - \<lfloor>- r\<rfloor> else \<lfloor>r\<rfloor>)"

fun vkErrorCode :: "json \<Rightarrow> int" where
  "vkErrorCode (JNum r) = trunc r"
| "vkErrorCode (JStr s) = (case Atoi s of Some n \<Rightarrow> n | None \<Rightarrow> 0)"
| "vkErrorCode _ = 0"

fun jstr :: "json \<Rightarrow> string" where
  "jstr (JStr s) = s"
| "jstr _ = []"

definition fatalCallError :: "(string \<times> json) list \<Rightarrow> vkerr option" where
  "fatalCallError resp =
     (case jget resp ''error'' of
        JObj errObj \<Rightarrow>
          (let code = vkErrorCode (jget errObj ''error_code'') in
           if code = 951 \<or> code = 954 \<or> (9000 \<le> code \<and> code \<le> 9999)
           then Some (CallUnavailableError code (jstr (jget errObj ''error_msg'')))
           else None)
      | _ \<Rightarrow> None)"

text \<open>\<open>captcha\<close> stands for \<open>parseVkCaptchaError(errObj)\<close>.\<close>

definition vkCallsAPIError :: "((string \<times> json) list \<Rightarrow> vkerr) \<Rightarrow> (string \<times> json) list \<Rightarrow> vkerr option" where
  "vkCallsAPIError captcha resp =
     (case jget resp ''error'' of
        JObj errObj \<Rightarrow>
          (let code = (case jget errObj ''error_code'' of JNum r \<Rightarrow> r | _ \<Rightarrow> 0);
               msg = jstr (jget errObj ''error_msg'')
           in if code = 0 \<and> msg = [] then None
              else case fatalCallError resp of
                Some e \<Rightarrow> Some e
              | None \<Rightarrow> if trunc code = 14 then Some (captcha errObj) else Some (vkCallsVKAPIError (trunc code) msg))
      | _ \<Rightarrow> None)"

definition vkCallsOKError :: "(string \<times> json) list \<Rightarrow> vkerr option" where
  "vkCallsOKError resp =
     (case jget resp ''error_code'' of
        JNum code \<Rightarrow> if code = 0 then None else Some (vkCallsOKAPIError (trunc code) (jstr (jget resp ''error_msg'')))
      | _ \<Rightarrow> None)"

fun extractVKCallsStr :: "json \<Rightarrow> string list \<Rightarrow> string option" where
  "extractVKCallsStr (JStr s) [] = Some s"
| "extractVKCallsStr _ [] = None"
| "extractVKCallsStr (JObj m) (k # ks) = extractVKCallsStr (jget m k) ks"
| "extractVKCallsStr _ (k # ks) = None"

fun extractVKCallsFloat :: "json \<Rightarrow> string list \<Rightarrow> rat option" where
  "extractVKCallsFloat (JNum r) [] = Some r"
| "extractVKCallsFloat _ [] = None"
| "extractVKCallsFloat (JObj m) (k # ks) = extractVKCallsFloat (jget m k) ks"
| "extractVKCallsFloat _ (k # ks) = None"

text \<open>Strip the query and the scheme of a TURN URL.\<close>

definition turnAddress :: "string \<Rightarrow> string" where
  "turnAddress url = TrimPrefix (TrimPrefix (hd (SplitByte CHR ''?'' url)) ''turn:'') ''turns:''"

definition parseVKCallsTURNAddresses :: "(string \<times> json) list \<Rightarrow> string list" where
  "parseVKCallsTURNAddresses resp =
     (case jget resp ''turn_server'' of
        JObj ts \<Rightarrow>
          (case jget ts ''urls'' of
             JArr us \<Rightarrow> List.map_filter (\<lambda>u. case u of JStr s \<Rightarrow> Some (turnAddress s) | _ \<Rightarrow> None) us
           | _ \<Rightarrow> [])
      | _ \<Rightarrow> [])"

definition turnURLsToAddresses :: "string list \<Rightarrow> string list" where
  "turnURLsToAddresses urls = filter (\<lambda>a. a \<noteq> []) (map turnAddress (filter (\<lambda>u. u \<noteq> []) (map TrimSpace urls)))"

definition truncateVKCallsLog :: "string \<Rightarrow> nat \<Rightarrow> string" where
  "truncateVKCallsLog s n = (if length s \<le> n then s else take n s @ ''...'')"

definition isAuthError :: "vkerr option \<Rightarrow> bool" where
  "isAuthError e =
     (case e of
        None \<Rightarrow> False
      | Some e \<Rightarrow>
          (let s = errText e in
           Contains s ''401'' \<or> Contains s ''Unauthorized'' \<or> Contains s ''authentication'' \<or>
           Contains s ''invalid credential'' \<or> Contains s ''stale nonce''))"

section \<open>Credential cache\<close>

type_synonym creds = "string \<times> string \<times> string list"

record TurnCredentials =
  Username :: string
  Password :: string
  ServerAddrs :: "string list"
  ExpiresAt :: int
  Link :: string

record StreamCredentialsCache =
  tcreds :: TurnCredentials
  errorCount :: int
  lastErrorTime :: int

definition credentialLifetime :: int where "credentialLifetime = 600"
definition cacheSafetyMargin :: int where "cacheSafetyMargin = 60"
definition maxCacheErrors :: int where "maxCacheErrors = 3"
definition errorWindow :: int where "errorWindow = 10"
definition streamsPerCache :: nat where "streamsPerCache = 10"

lemmas cache_consts =
  credentialLifetime_def cacheSafetyMargin_def maxCacheErrors_def errorWindow_def streamsPerCache_def

definition getCacheID :: "nat \<Rightarrow> nat" where
  "getCacheID streamID = streamID div streamsPerCache"

text \<open>The zero value: \<open>ExpiresAt\<close> is the zero \<open>time.Time\<close>, long before any Unix time in use.\<close>

definition noCreds :: TurnCredentials where
  "noCreds = \<lparr>Username = [], Password = [], ServerAddrs = [], ExpiresAt = - 62135596800, Link = []\<rparr>"

definition newCache :: StreamCredentialsCache where
  "newCache = \<lparr>tcreds = noCreds, errorCount = 0, lastErrorTime = 0\<rparr>"

type_synonym cred_store = "nat \<Rightarrow> StreamCredentialsCache option"

definition getStreamCache :: "nat \<Rightarrow> cred_store \<Rightarrow> StreamCredentialsCache \<times> cred_store" where
  "getStreamCache streamID st =
     (let cacheID = getCacheID streamID in
      case st cacheID of
        Some c \<Rightarrow> (c, st)
      | None \<Rightarrow> (newCache, st(cacheID \<mapsto> newCache)))"

definition invalidate :: "StreamCredentialsCache \<Rightarrow> StreamCredentialsCache" where
  "invalidate c = c\<lparr>tcreds := noCreds, errorCount := 0, lastErrorTime := 0\<rparr>"

definition handleAuthError :: "int \<Rightarrow> nat \<Rightarrow> cred_store \<Rightarrow> bool \<times> cred_store" where
  "handleAuthError now streamID st =
     (let (c, st1) = getStreamCache streamID st;
          cacheID = getCacheID streamID;
          base = (if now - lastErrorTime c > errorWindow then 0 else errorCount c);
          count = base + 1;
          c1 = c\<lparr>errorCount := count, lastErrorTime := now\<rparr>
      in if count \<ge> maxCacheErrors then (True, st1(cacheID \<mapsto> invalidate c1))
         else (False, st1(cacheID \<mapsto> c1)))"

definition usable :: "string \<Rightarrow> int \<Rightarrow> TurnCredentials \<Rightarrow> bool" where
  "usable link now t \<longleftrightarrow> Link t = link \<and> now < ExpiresAt t \<and> ServerAddrs t \<noteq> []"

text \<open>
  \<open>now\<close> is the time of the check, \<open>now'\<close> the time after the fetch; \<open>fetch\<close> is what
  \<open>fetchVkCredsSerialized\<close> returns if it is called.  The last component says whether it was.
\<close>

definition getVkCredsCached ::
  "string \<Rightarrow> nat \<Rightarrow> int \<Rightarrow> int \<Rightarrow> (vkerr + creds) \<Rightarrow> cred_store \<Rightarrow> (vkerr + creds) \<times> cred_store \<times> bool" where
  "getVkCredsCached link streamID now now' fetch st =
     (let (c, st1) = getStreamCache streamID st;
          t = tcreds c
      in if usable link now t then (Inr (Username t, Password t, ServerAddrs t), st1, False)
         else case fetch of
           Inl e \<Rightarrow> (Inl e, st1, True)
         | Inr (user, pass, addrs) \<Rightarrow>
             (Inr (user, pass, addrs),
              st1(getCacheID streamID \<mapsto> c\<lparr>tcreds :=
                \<lparr>Username = user, Password = pass, ServerAddrs = addrs,
                 ExpiresAt = now' + (credentialLifetime - cacheSafetyMargin), Link = link\<rparr>\<rparr>), True))"

section \<open>Throttled fetch\<close>

text \<open>
  \<open>fetchVkCredsSerialized\<close> under \<open>vkRequestMu\<close>: \<open>prev\<close> is \<open>globalLastVkFetchTime\<close> in milliseconds (\<open>None\<close>
  for the zero time), \<open>rnd\<close> the draw of \<open>rand.Intn(3000)\<close>, \<open>stop\<close> says that the context ends during the
  wait.  The result is the time at which the fetch starts.
\<close>

definition throttle :: "int option \<Rightarrow> nat \<Rightarrow> int \<Rightarrow> bool \<Rightarrow> int option" where
  "throttle prev rnd now stop =
     (let minInterval = 3000 + int (rnd mod 3000) in
      case prev of
        None \<Rightarrow> Some now
      | Some l \<Rightarrow>
          (let elapsed = now - l in
           if elapsed < minInterval then (if stop then None else Some (now + (minInterval - elapsed)))
           else Some now))"

definition fetchVkCredsSerialized ::
  "int option \<Rightarrow> nat \<Rightarrow> int \<Rightarrow> bool \<Rightarrow> (int \<Rightarrow> (vkerr + creds) \<times> int) \<Rightarrow> (vkerr + creds) \<times> int option" where
  "fetchVkCredsSerialized prev rnd now stop fetch =
     (case throttle prev rnd now stop of
        None \<Rightarrow> (Inl (Plain ''context canceled''), prev)
      | Some t \<Rightarrow> (case fetch t of (r, tend) \<Rightarrow> (r, Some tend)))"

section \<open>Rotation over the credential sets\<close>

definition vkCredentialAttemptLimit :: nat where "vkCredentialAttemptLimit = 4"

definition vkCredentialsList :: "(string \<times> string) list" where
  "vkCredentialsList =
     [(''6287487'', ''MuAxFaKDYDOICzGnEOhp''), (''8202606'', ''lMRsTiMCyPnp5vfoldmn'')]"

text \<open>
  The outside world of one fetch: the anonymous path setting, the result of the VK Calls path, the result
  of the token chain in each attempt with the client id it is given, and whether the context ends in
  the pause after an attempt.
\<close>

record fetch_env =
  lockedOut :: bool
  anonPath :: string
  viaCalls :: "vkerr + creds"
  tokenChain :: "nat \<Rightarrow> string \<Rightarrow> vkerr + creds"
  ctxDone :: "nat \<Rightarrow> bool"

fun fetchLoop :: "fetch_env \<Rightarrow> nat list \<Rightarrow> vkerr \<Rightarrow> vkerr + creds" where
  "fetchLoop env [] lastErr = Inl (Wrapped ''all VK credentials failed: '' lastErr)"
| "fetchLoop env (attempt # rest) lastErr =
     (let n = length vkCredentialsList in
      case tokenChain env attempt (fst (vkCredentialsList ! (attempt mod n))) of
        Inr c \<Rightarrow> Inr c
      | Inl e \<Rightarrow>
          (case asCallUnavailableError e of
             Some ce \<Rightarrow> Inl ce
           | None \<Rightarrow>
               if Contains (errText e) ''CAPTCHA_WAIT_REQUIRED'' \<or> Contains (errText e) ''FATAL_CAPTCHA'' then Inl e
               else if attempt mod n = n - 1 \<and> attempt + 1 < vkCredentialAttemptLimit \<and> ctxDone env attempt
                 then Inl (Plain ''context canceled'')
               else fetchLoop env rest e))"

definition fetchVkCreds :: "fetch_env \<Rightarrow> vkerr + creds" where
  "fetchVkCreds env =
     (let legacy = fetchLoop env [0..<vkCredentialAttemptLimit] (Plain [])
      in if lockedOut env then Inl (Plain ''CAPTCHA_WAIT_REQUIRED: global lockout active'')
         else if anonPath env = ''vkcalls'' then
           (case viaCalls env of
              Inr c \<Rightarrow> Inr c
            | Inl e \<Rightarrow> (case asCallUnavailableError e of Some ce \<Rightarrow> Inl ce | None \<Rightarrow> legacy))
         else legacy)"

definition SetVkAuthMode :: "string \<Rightarrow> string" where
  "SetVkAuthMode mode = (if lower_view (TrimSpace mode) = ''anonymous'' then ''anonymous'' else ''account'')"

definition SetVkAnonPath :: "string \<Rightarrow> string" where
  "SetVkAnonPath path = (if lower_view (TrimSpace path) = ''legacy'' then ''legacy'' else ''vkcalls'')"

section \<open>DNS arguments\<close>

definition goDNSServersForPreset :: "string \<Rightarrow> string list" where
  "goDNSServersForPreset preset =
     (let p = lower_view (TrimSpace preset) in
      if p = ''cloudflare'' then [''1.1.1.1:53'', ''1.0.0.1:53'']
      else if p = ''google'' then [''8.8.8.8:53'', ''8.8.4.4:53'']
      else [''77.88.8.8:53'', ''77.88.8.1:53''])"

definition goDNSServersForArg :: "string \<Rightarrow> string list" where
  "goDNSServersForArg a =
     (let arg = TrimSpace a in
      if HasPrefix arg ''custom:'' then
        (let parts = filter (\<lambda>p. p \<noteq> []) (map TrimSpace (SplitByte CHR '','' (TrimPrefix arg ''custom:'')));
             out = map (\<lambda>p. if CHR '':'' \<in> set p then p else p @ '':53'') parts
         in if out \<noteq> [] then out else goDNSServersForPreset ''yandex'')
      else goDNSServersForPreset arg)"

definition isLoopbackDNSAddress :: "string \<Rightarrow> bool" where
  "isLoopbackDNSAddress address =
     (let host = (case SplitHostPort address of Some (h, _) \<Rightarrow> h | None \<Rightarrow> address);
          host = dropWhile (\<lambda>c. c \<in> set ''[]'') (rev (dropWhile (\<lambda>c. c \<in> set ''[]'') (rev host)))
      in host = ''127.0.0.1'' \<or> host = ''::1'' \<or> host = ''localhost'' \<or> host = ''0.0.0.0'')"

definition goDNSLabel :: "string \<Rightarrow> string" where
  "goDNSLabel a =
     (let arg = TrimSpace a; l = lower_view arg in
      if HasPrefix arg ''custom:'' then ''Custom DNS''
      else if HasPrefix arg ''doh:'' then ''Custom DoH''
      else if l = ''cloudflare'' then ''Cloudflare''
      else if l = ''google'' then ''Google DNS''
      else if l = ''doh-cloudflare'' then ''Cloudflare DoH''
      else if l = ''doh-google'' then ''Google DoH''
      else if l = ''doh-yandex'' then ''Yandex DoH''
      else ''Yandex DNS'')"

definition formatGoDNSServers :: "string list \<Rightarrow> string" where
  "formatGoDNSServers servers =
     Join (map (\<lambda>s. case SplitHostPort s of None \<Rightarrow> s | Some (h, p) \<Rightarrow> if p = ''53'' then h else s) servers) '', ''"

section \<open>Properties of the cache\<close>

lemma getStreamCache_store:
  "getStreamCache s st = (c, st') \<Longrightarrow> st' (getCacheID s) = Some c \<and> (\<forall>k. k \<noteq> getCacheID s \<longrightarrow> st' k = st k)"
  by (auto simp: getStreamCache_def Let_def split: option.splits)

lemma getStreamCache_again: "st (getCacheID s) = Some c \<Longrightarrow> getStreamCache s st = (c, st)"
  by (simp add: getStreamCache_def Let_def)

lemma noCreds_unusable: "\<not> usable link now noCreds"
  by (simp add: usable_def noCreds_def)

text \<open>Entries of other groups of ten streams are never touched.\<close>

lemma getVkCredsCached_frame:
  "getVkCredsCached link s now now' f st = (r, st', fetched) \<Longrightarrow> k \<noteq> getCacheID s \<Longrightarrow> st' k = st k"
  using getStreamCache_store [of s st]
  by (auto simp: getVkCredsCached_def Let_def split: prod.splits if_splits sum.splits)

lemma handleAuthError_frame:
  "handleAuthError now s st = (r, st') \<Longrightarrow> k \<noteq> getCacheID s \<Longrightarrow> st' k = st k"
  using getStreamCache_store [of s st]
  by (auto simp: handleAuthError_def Let_def split: prod.splits if_splits)

lemma getVkCredsCached_fetched:
  assumes "getVkCredsCached link s now now' (Inr (u, p, as)) st = (r, st', True)"
  shows "r = Inr (u, p, as)" "\<exists>c. st' (getCacheID s) = Some c \<and> tcreds c =
    \<lparr>Username = u, Password = p, ServerAddrs = as, ExpiresAt = now' + 540, Link = link\<rparr>"
  using assms by (auto simp: getVkCredsCached_def cache_consts Let_def split: prod.splits if_splits)

lemma getVkCredsCached_hit:
  assumes "st (getCacheID s) = Some c" "usable link now (tcreds c)"
  shows "getVkCredsCached link s now now' f st =
    (Inr (Username (tcreds c), Password (tcreds c), ServerAddrs (tcreds c)), st, False)"
  using assms by (simp add: getVkCredsCached_def getStreamCache_again Let_def)

lemma getVkCredsCached_miss:
  assumes "st (getCacheID s) = Some c" "\<not> usable link now (tcreds c)"
  shows "\<exists>st'. getVkCredsCached link s now now' f st = (f, st', True)"
  using assms by (auto simp: getVkCredsCached_def getStreamCache_again Let_def split: sum.splits)



text \<open>The error counter stays below the limit.\<close>

definition store_ok :: "cred_store \<Rightarrow> bool" where
  "store_ok st \<longleftrightarrow> (\<forall>k c. st k = Some c \<longrightarrow> 0 \<le> errorCount c \<and> errorCount c < maxCacheErrors)"

lemma getStreamCache_ok [go_inv]:
  "store_ok st \<Longrightarrow> getStreamCache s st = (c, st') \<Longrightarrow> store_ok st' \<and> 0 \<le> errorCount c \<and> errorCount c < maxCacheErrors"
  by (auto simp: store_ok_def getStreamCache_def newCache_def cache_consts Let_def split: option.splits if_splits)

lemma handleAuthError_ok [go_inv]: "store_ok st \<Longrightarrow> handleAuthError now s st = (b, st') \<Longrightarrow> store_ok st'"
  using getStreamCache_ok [of st s]
  by (auto simp: handleAuthError_def invalidate_def store_ok_def cache_consts Let_def split: prod.splits if_splits)

lemma handleAuthError_step:
  assumes "st (getCacheID s) = Some c"
  shows "handleAuthError now s st =
    (let n = (if now - lastErrorTime c > 10 then 1 else errorCount c + 1);
         c1 = c\<lparr>errorCount := n, lastErrorTime := now\<rparr>
     in (n \<ge> 3, st(getCacheID s \<mapsto> (if n \<ge> 3 then invalidate c1 else c1))))"
  using assms by (simp add: handleAuthError_def getStreamCache_again cache_consts Let_def)



section \<open>Properties of the fetch\<close>

text \<open>What makes an attempt of the token chain the last one.\<close>

definition attemptResult :: "fetch_env \<Rightarrow> nat \<Rightarrow> vkerr + creds" where
  "attemptResult env k = tokenChain env k (fst (vkCredentialsList ! (k mod 2)))"

definition retryable :: "fetch_env \<Rightarrow> nat \<Rightarrow> bool" where
  "retryable env k \<longleftrightarrow>
     (case attemptResult env k of
        Inr _ \<Rightarrow> False
      | Inl e \<Rightarrow> asCallUnavailableError e = None \<and> \<not> Contains (errText e) ''CAPTCHA_WAIT_REQUIRED''
          \<and> \<not> Contains (errText e) ''FATAL_CAPTCHA'') \<and> \<not> (k = 1 \<and> ctxDone env k)"

definition attemptOutcome :: "fetch_env \<Rightarrow> nat \<Rightarrow> vkerr + creds" where
  "attemptOutcome env k =
     (case attemptResult env k of
        Inr c \<Rightarrow> Inr c
      | Inl e \<Rightarrow>
          (case asCallUnavailableError e of
             Some ce \<Rightarrow> Inl ce
           | None \<Rightarrow> if Contains (errText e) ''CAPTCHA_WAIT_REQUIRED'' \<or> Contains (errText e) ''FATAL_CAPTCHA''
               then Inl e else Inl (Plain ''context canceled'')))"

lemma fetchLoop_step:
  assumes "k < 4"
  shows "fetchLoop env (k # ks) e0 =
    (if retryable env k then fetchLoop env ks (case attemptResult env k of Inl e \<Rightarrow> e | Inr _ \<Rightarrow> e0)
     else attemptOutcome env k)"
proof -
  have "k mod 2 = 1 \<and> k + 1 < 4 \<longleftrightarrow> k = 1" using assms by (auto simp: numeral_eq_Suc less_Suc_eq)
  moreover have "length vkCredentialsList = 2" by (simp add: vkCredentialsList_def)
  ultimately show ?thesis
    by (auto simp: Let_def vkCredentialAttemptLimit_def attemptResult_def retryable_def attemptOutcome_def
        split: sum.splits option.splits)
qed

lemma fetchLoop_find:
  "(\<forall>k \<in> set ks. k < 4) \<Longrightarrow> ks \<noteq> [] \<Longrightarrow>
   fetchLoop env ks e0 =
    (case find (\<lambda>k. \<not> retryable env k) ks of
       Some k \<Rightarrow> attemptOutcome env k
     | None \<Rightarrow> Inl (Wrapped ''all VK credentials failed: ''
         (case attemptResult env (last ks) of Inl e \<Rightarrow> e | Inr _ \<Rightarrow> Plain [])))"
proof (induction ks arbitrary: e0)
  case (Cons k ks)
  have step: "fetchLoop env (k # ks) e0 =
    (if retryable env k then fetchLoop env ks (case attemptResult env k of Inl e \<Rightarrow> e | Inr _ \<Rightarrow> e0)
     else attemptOutcome env k)"
    using Cons.prems by (intro fetchLoop_step) simp
  show ?case
  proof (cases "ks = []")
    case True
    then show ?thesis unfolding step by (auto simp: retryable_def split: sum.splits)
  next
    case False
    then have l: "last (k # ks) = last ks" by simp
    show ?thesis unfolding step l
      using Cons.IH [of "case attemptResult env k of Inl e \<Rightarrow> e | Inr _ \<Rightarrow> e0"] Cons.prems False by simp
  qed
qed simp


text \<open>Fetches start at least three seconds after the previous one ended.\<close>

lemma throttle_interval: "throttle (Some l) rnd now stop = Some t \<Longrightarrow> l + 3000 \<le> t \<and> now \<le> t"
  by (auto simp: throttle_def Let_def split: if_splits)

end
