(* ===== verification/Slider.thy ===== *)
theory Slider
  imports Go_Strings Creds "HOL-Library.Multiset" "HOL-Library.Product_Lexorder"
begin

text \<open>
  The slider captcha solver \<open>internal/core/captcha_v2_slider.go\<close>: decoding of the step list, the tile
  permutations, the seam scores over the image and the ranking of the candidates.

  An image is a rectangle with a function from pixels to 8-bit colour components.  The text score is
  \<open>float64\<close> arithmetic: each operation is the rational one followed by the rounding \<open>fl\<close>, an argument like \<open>math.Exp\<close>.  The
  ranking takes the text score as a function from tile mappings to rationals.
\<close>

datatype slider_error =
    InvalidResponse | RateLimited | ContentStatus string | ImageMissing | StepsMissing
  | InvalidNumeric | StepsTooShort | InvalidSize int | InvalidSwapPayload | DecodeImage
  | NoCandidates | InvalidTileCount int | InvalidSwapsLength | StepOutOfRange int int
  | NoAttempts | TokenNotFound | GuessesExhausted | CheckFailed

section \<open>Steps\<close>

definition splitSliderStepsV2 :: "int list \<Rightarrow> slider_error + (int \<times> int list \<times> int)" where
  "splitSliderStepsV2 steps =
     (if length steps < 3 then Inl StepsTooShort
      else
        let sz = hd steps in
        if sz \<le> 0 then Inl (InvalidSize sz)
        else
          let tail = tl steps;
              odd_tail = (length tail mod 2 \<noteq> 0);
              attempts = (if odd_tail then last tail else 4);
              tail' = (if odd_tail then butlast tail else tail);
              attempts' = (if attempts \<le> 0 then 4 else attempts)
          in if tail' = [] \<or> length tail' mod 2 \<noteq> 0 then Inl InvalidSwapPayload
             else Inr (sz, tail', attempts'))"

fun parseSteps :: "json list \<Rightarrow> slider_error + int list" where
  "parseSteps [] = Inr []"
| "parseSteps (v # vs) =
     (case (case v of
              JNum r \<Rightarrow> Some (trunc r)
            | JStr s \<Rightarrow> Atoi (TrimSpace s)
            | _ \<Rightarrow> None) of
        None \<Rightarrow> Inl InvalidNumeric
      | Some n \<Rightarrow> (case parseSteps vs of Inl e \<Rightarrow> Inl e | Inr ns \<Rightarrow> Inr (n # ns)))"

definition activeSwapsForIndexV2 :: "int list \<Rightarrow> int \<Rightarrow> int list" where
  "activeSwapsForIndexV2 swaps i = (if i \<le> 0 then [] else take (min (nat (i * 2)) (length swaps)) swaps)"

text \<open>The pairs of a swap list applied to the mapping, left to right.\<close>

fun swapPairs :: "int \<Rightarrow> int list \<Rightarrow> nat list \<Rightarrow> slider_error + nat list" where
  "swapPairs tileCount (left # right # rest) mapping =
     (if left < 0 \<or> right < 0 \<or> left \<ge> tileCount \<or> right \<ge> tileCount then Inl (StepOutOfRange left right)
      else
        let l = nat left; r = nat right
        in swapPairs tileCount rest (mapping[l := mapping ! r, r := mapping ! l]))"
| "swapPairs tileCount _ mapping = Inr mapping"

definition applySliderSwapsV2 :: "int \<Rightarrow> int list \<Rightarrow> slider_error + nat list" where
  "applySliderSwapsV2 gridSize swaps =
     (let tileCount = gridSize * gridSize in
      if tileCount \<le> 0 then Inl (InvalidTileCount tileCount)
      else if length swaps mod 2 \<noteq> 0 then Inl InvalidSwapsLength
      else swapPairs tileCount swaps [0..<nat tileCount])"

section \<open>Tiles and seams\<close>

record rectangle =
  MinX :: int
  MinY :: int
  MaxX :: int
  MaxY :: int

definition Rect :: "int \<Rightarrow> int \<Rightarrow> int \<Rightarrow> int \<Rightarrow> rectangle" where
  "Rect x0 y0 x1 y1 = \<lparr>MinX = min x0 x1, MinY = min y0 y1, MaxX = max x0 x1, MaxY = max y0 y1\<rparr>"

definition Dx :: "rectangle \<Rightarrow> int" where "Dx r = MaxX r - MinX r"
definition Dy :: "rectangle \<Rightarrow> int" where "Dy r = MaxY r - MinY r"

record raster =
  bounds :: rectangle
  pixel :: "int \<Rightarrow> int \<Rightarrow> nat \<times> nat \<times> nat"

definition sliderTileRect :: "rectangle \<Rightarrow> int \<Rightarrow> int \<Rightarrow> rectangle" where
  "sliderTileRect b gridSize idx =
     (let col = idx mod gridSize; row = idx div gridSize in
      Rect (MinX b + (col * Dx b) div gridSize) (MinY b + (row * Dy b) div gridSize)
           (MinX b + ((col + 1) * Dx b) div gridSize) (MinY b + ((row + 1) * Dy b) div gridSize))"

text \<open>The source pixel that lands on \<open>(dstX, dstY)\<close>.\<close>

definition samplePoint :: "rectangle \<Rightarrow> rectangle \<Rightarrow> int \<Rightarrow> int \<Rightarrow> int \<times> int" where
  "samplePoint dst src dstX dstY =
     (let dx = (if Dx dst < 1 then 1 else Dx dst);
          dy = (if Dy dst < 1 then 1 else Dy dst)
      in (MinX src + (dstX - MinX dst) * Dx src div dx, MinY src + (dstY - MinY dst) * Dy src div dy))"

definition sampleColorMappedV2 :: "raster \<Rightarrow> rectangle \<Rightarrow> rectangle \<Rightarrow> int \<Rightarrow> int \<Rightarrow> nat \<times> nat \<times> nat" where
  "sampleColorMappedV2 img dst src dstX dstY = (case samplePoint dst src dstX dstY of (x, y) \<Rightarrow> pixel img x y)"

definition sampleLumaMappedV2 :: "raster \<Rightarrow> rectangle \<Rightarrow> rectangle \<Rightarrow> int \<Rightarrow> int \<Rightarrow> nat" where
  "sampleLumaMappedV2 img dst src dstX dstY =
     (case sampleColorMappedV2 img dst src dstX dstY of
        (r, g, b) \<Rightarrow> ((299 * r + 587 * g + 114 * b) div 1000) mod 256)"

definition absIntV2 :: "int \<Rightarrow> int" where
  "absIntV2 v = (if v < 0 then - v else v)"

definition pixelDiff :: "nat \<times> nat \<times> nat \<Rightarrow> nat \<times> nat \<times> nat \<Rightarrow> int" where
  "pixelDiff a b =
     (case (a, b) of
        ((ar, ag, ab), (br, bg, bb)) \<Rightarrow>
          absIntV2 (int ar - int br) + absIntV2 (int ag - int bg) + absIntV2 (int ab - int bb))"

text \<open>The integers \<open>0, ..., n - 1\<close> of a counting loop.\<close>

definition count_to :: "int \<Rightarrow> int list" where
  "count_to n = map int [0..<nat n]"

text \<open>
  Both seam scores walk the same seams; \<open>diff dst src x y dst' src' x' y'\<close> is the contribution of the two
  pixels on either side.
\<close>

definition seamSum ::
  "rectangle \<Rightarrow> int \<Rightarrow> nat list \<Rightarrow>
   (rectangle \<Rightarrow> rectangle \<Rightarrow> int \<Rightarrow> int \<Rightarrow> rectangle \<Rightarrow> rectangle \<Rightarrow> int \<Rightarrow> int \<Rightarrow> int) \<Rightarrow> int" where
  "seamSum b gridSize mapping diff =
     (\<Sum>row \<leftarrow> count_to gridSize. \<Sum>col \<leftarrow> count_to (gridSize - 1).
        let leftIdx = row * gridSize + col;
            rightIdx = leftIdx + 1;
            leftDst = sliderTileRect b gridSize leftIdx;
            rightDst = sliderTileRect b gridSize rightIdx;
            leftSrc = sliderTileRect b gridSize (int (mapping ! nat leftIdx));
            rightSrc = sliderTileRect b gridSize (int (mapping ! nat rightIdx));
            h = (if Dy rightDst < Dy leftDst then Dy rightDst else Dy leftDst)
        in \<Sum>y \<leftarrow> count_to h.
             diff leftDst leftSrc (MaxX leftDst - 1) (MinY leftDst + y) rightDst rightSrc (MinX rightDst) (MinY leftDst + y))
     + (\<Sum>row \<leftarrow> count_to (gridSize - 1). \<Sum>col \<leftarrow> count_to gridSize.
        let topIdx = row * gridSize + col;
            bottomIdx = (row + 1) * gridSize + col;
            topDst = sliderTileRect b gridSize topIdx;
            bottomDst = sliderTileRect b gridSize bottomIdx;
            topSrc = sliderTileRect b gridSize (int (mapping ! nat topIdx));
            bottomSrc = sliderTileRect b gridSize (int (mapping ! nat bottomIdx));
            w = (if Dx bottomDst < Dx topDst then Dx bottomDst else Dx topDst)
        in \<Sum>x \<leftarrow> count_to w.
             diff topDst topSrc (MinX topDst + x) (MaxY topDst - 1) bottomDst bottomSrc (MinX topDst + x) (MinY bottomDst))"

definition seamScoreLumaV2 :: "raster \<Rightarrow> int \<Rightarrow> nat list \<Rightarrow> int" where
  "seamScoreLumaV2 img gridSize mapping =
     seamSum (bounds img) gridSize mapping
       (\<lambda>d s x y d' s' x' y'.
          absIntV2 (int (sampleLumaMappedV2 img d s x y) - int (sampleLumaMappedV2 img d' s' x' y')))"

text \<open>The first component of \<open>seamScoreRGBTextV2\<close>.\<close>

definition seamScoreRGBV2 :: "raster \<Rightarrow> int \<Rightarrow> nat list \<Rightarrow> int" where
  "seamScoreRGBV2 img gridSize mapping =
     seamSum (bounds img) gridSize mapping
       (\<lambda>d s x y d' s' x' y'. pixelDiff (sampleColorMappedV2 img d s x y) (sampleColorMappedV2 img d' s' x' y'))"

section \<open>The text score\<close>

text \<open>The pairs of pixels on either side of the seams, in the order of the loops: tiles side by side, then tiles above each other.\<close>

type_synonym sample = "rectangle \<times> rectangle \<times> int \<times> int"

definition sideSeams :: "rectangle \<Rightarrow> int \<Rightarrow> nat list \<Rightarrow> (sample \<times> sample) list" where
  "sideSeams b gridSize mapping =
     concat (map (\<lambda>row. concat (map (\<lambda>col.
        let leftIdx = row * gridSize + col;
            rightIdx = leftIdx + 1;
            leftDst = sliderTileRect b gridSize leftIdx;
            rightDst = sliderTileRect b gridSize rightIdx;
            leftSrc = sliderTileRect b gridSize (int (mapping ! nat leftIdx));
            rightSrc = sliderTileRect b gridSize (int (mapping ! nat rightIdx));
            h = (if Dy rightDst < Dy leftDst then Dy rightDst else Dy leftDst)
        in map (\<lambda>y. ((leftDst, leftSrc, MaxX leftDst - 1, MinY leftDst + y), (rightDst, rightSrc, MinX rightDst, MinY leftDst + y)))
             (count_to h)) (count_to (gridSize - 1)))) (count_to gridSize))"

definition lowerSeams :: "rectangle \<Rightarrow> int \<Rightarrow> nat list \<Rightarrow> (sample \<times> sample) list" where
  "lowerSeams b gridSize mapping =
     concat (map (\<lambda>row. concat (map (\<lambda>col.
        let topIdx = row * gridSize + col;
            bottomIdx = (row + 1) * gridSize + col;
            topDst = sliderTileRect b gridSize topIdx;
            bottomDst = sliderTileRect b gridSize bottomIdx;
            topSrc = sliderTileRect b gridSize (int (mapping ! nat topIdx));
            bottomSrc = sliderTileRect b gridSize (int (mapping ! nat bottomIdx));
            w = (if Dx bottomDst < Dx topDst then Dx bottomDst else Dx topDst)
        in map (\<lambda>x. ((topDst, topSrc, MinX topDst + x, MaxY topDst - 1), (bottomDst, bottomSrc, MinX topDst + x, MinY bottomDst)))
             (count_to w)) (count_to gridSize))) (count_to (gridSize - 1)))"

definition absFloatV2 :: "rat \<Rightarrow> rat" where
  "absFloatV2 v = (if v < 0 then - v else v)"

definition textCenters :: "(rat \<Rightarrow> rat) \<Rightarrow> rectangle \<Rightarrow> rat list" where
  "textCenters fl b = map (\<lambda>c. fl (of_int (MinY b) + fl (fl c * of_int (Dy b)))) [1 / 5, 1 / 2, 4 / 5]"

definition textSigma :: "(rat \<Rightarrow> rat) \<Rightarrow> rectangle \<Rightarrow> rat" where
  "textSigma fl b = (let sigma = fl (of_int (Dy b) * fl (14 / 100)) in if sigma < 1 then 1 else sigma)"

text \<open>\<open>ex\<close> is \<open>math.Exp\<close>.\<close>

definition textWeight :: "(rat \<Rightarrow> rat) \<Rightarrow> (rat \<Rightarrow> rat) \<Rightarrow> rectangle \<Rightarrow> int \<Rightarrow> rat" where
  "textWeight fl ex b y =
     (let dist = (\<lambda>c. absFloatV2 (fl (of_int y - c)));
          centers = textCenters fl b;
          best = foldl (\<lambda>best c. if dist c < best then dist c else best) (dist (centers ! 0)) (tl centers);
          sigma = textSigma fl b
      in fl (1 + fl (3 * ex (fl (- fl (best * best) / fl (fl (2 * sigma) * sigma))))))"

definition blueDiff :: "raster \<Rightarrow> sample \<times> sample \<Rightarrow> int" where
  "blueDiff img pq =
     (case pq of ((d, s, x, y), (d', s', x', y')) \<Rightarrow>
        absIntV2 (int (snd (snd (sampleColorMappedV2 img d s x y))) - int (snd (snd (sampleColorMappedV2 img d' s' x' y')))))"

definition sampleY :: "sample \<times> sample \<Rightarrow> int" where
  "sampleY pq = (case pq of ((d, s, x, y), _) \<Rightarrow> y)"

text \<open>The second component of \<open>seamScoreRGBTextV2\<close>.\<close>

definition seamScoreTextV2 :: "(rat \<Rightarrow> rat) \<Rightarrow> (rat \<Rightarrow> rat) \<Rightarrow> raster \<Rightarrow> int \<Rightarrow> nat list \<Rightarrow> rat" where
  "seamScoreTextV2 fl ex img gridSize mapping =
     foldl (\<lambda>score w. fl (score + w)) 0
       (map (\<lambda>pq. fl (textWeight fl ex (bounds img) (sampleY pq) * of_int (blueDiff img pq))) (sideSeams (bounds img) gridSize mapping)
        @ map (\<lambda>pq. fl (fl (65 / 100) * of_int (blueDiff img pq))) (lowerSeams (bounds img) gridSize mapping))"

text \<open>The integer scores walk the same seams.\<close>

lemma sum_list_concat_map: "sum_list (concat (map f xs)) = (\<Sum>x \<leftarrow> xs. sum_list (f x))" for f :: "'a \<Rightarrow> int list"
  by (induction xs) simp_all

lemma seamSum_seams:
  "seamSum b gridSize mapping diff =
     (\<Sum>((d, s, x, y), (d', s', x', y')) \<leftarrow> sideSeams b gridSize mapping @ lowerSeams b gridSize mapping. diff d s x y d' s' x' y')"
  by (simp add: seamSum_def sideSeams_def lowerSeams_def map_concat sum_list_concat_map o_def Let_def)

lemma foldl_nonneg: "(\<And>x. 0 \<le> x \<Longrightarrow> 0 \<le> fl x) \<Longrightarrow> list_all (\<lambda>w. 0 \<le> w) ws \<Longrightarrow> 0 \<le> a \<Longrightarrow> 0 \<le> foldl (\<lambda>s w. fl (s + w)) a (ws :: rat list)"
  by (induction ws arbitrary: a) auto

lemma text_score_nonneg:
  assumes fl: "\<And>x. 0 \<le> x \<Longrightarrow> 0 \<le> fl x" and ex: "\<And>x. 0 \<le> ex x"
  shows "0 \<le> seamScoreTextV2 fl ex img gridSize mapping"
proof -
  have "0 \<le> textWeight fl ex b y" for b y
    unfolding textWeight_def Let_def by (intro fl add_nonneg_nonneg mult_nonneg_nonneg ex) simp_all
  moreover have "0 \<le> blueDiff img pq" for pq by (auto simp: blueDiff_def absIntV2_def split: prod.split)
  ultimately show ?thesis
    unfolding seamScoreTextV2_def
    by (intro foldl_nonneg fl) (auto simp: list_all_iff intro!: fl mult_nonneg_nonneg)
qed

section \<open>Ranking\<close>

record sliderGuessV2 =
  gIndex :: nat
  gSwaps :: "int list"
  ConsensusRank :: nat
  ScoreRGB :: int
  ScoreLuma :: int
  ScoreText :: rat

fun lumaGuesses :: "raster \<Rightarrow> int \<Rightarrow> int list \<Rightarrow> nat list \<Rightarrow> slider_error + sliderGuessV2 list" where
  "lumaGuesses img gridSize swaps [] = Inr []"
| "lumaGuesses img gridSize swaps (idx # rest) =
     (let active = activeSwapsForIndexV2 swaps (int idx) in
      case applySliderSwapsV2 gridSize active of
        Inl e \<Rightarrow> Inl e
      | Inr mapping \<Rightarrow>
          (case lumaGuesses img gridSize swaps rest of
             Inl e \<Rightarrow> Inl e
           | Inr gs \<Rightarrow>
               Inr (\<lparr>gIndex = idx, gSwaps = active, ConsensusRank = 0, ScoreRGB = 0,
                     ScoreLuma = seamScoreLumaV2 img gridSize mapping, ScoreText = 0\<rparr> # gs)))"

text \<open>The position of an index in an order.\<close>

definition rankOf :: "sliderGuessV2 list \<Rightarrow> nat \<Rightarrow> nat" where
  "rankOf order i = length (takeWhile (\<lambda>g. gIndex g \<noteq> i) order)"

text \<open>One result of the second stage, drained from \<open>resCh\<close> in the order in which the workers finish.\<close>

definition storeResult :: "(nat list \<Rightarrow> int) \<Rightarrow> (nat list \<Rightarrow> rat) \<Rightarrow> int \<Rightarrow> sliderGuessV2 \<Rightarrow> sliderGuessV2" where
  "storeResult rgb text gridSize g =
     (case applySliderSwapsV2 gridSize (gSwaps g) of
        Inl _ \<Rightarrow> g
      | Inr mapping \<Rightarrow> g\<lparr>ScoreRGB := rgb mapping, ScoreText := text mapping\<rparr>)"

definition drainResults ::
  "(nat list \<Rightarrow> int) \<Rightarrow> (nat list \<Rightarrow> rat) \<Rightarrow> int \<Rightarrow> nat list \<Rightarrow> sliderGuessV2 list \<Rightarrow> sliderGuessV2 list" where
  "drainResults rgb text gridSize order gs =
     foldl (\<lambda>gs i. gs[i - 1 := storeResult rgb text gridSize (gs ! (i - 1))]) gs order"

definition rankSliderGuessesV2 ::
  "raster \<Rightarrow> (nat list \<Rightarrow> rat) \<Rightarrow> (nat list \<Rightarrow> nat list) \<Rightarrow> int \<Rightarrow> int list \<Rightarrow> slider_error + sliderGuessV2 list" where
  "rankSliderGuessesV2 img text schedule gridSize swaps =
     (let candidateCount = length swaps div 2 in
      if candidateCount = 0 then Inl NoCandidates
      else case lumaGuesses img gridSize swaps [1..<candidateCount + 1] of
        Inl e \<Rightarrow> Inl e
      | Inr guesses \<Rightarrow>
          (let lumaOrder = sort_key (\<lambda>g. (ScoreLuma g, gIndex g)) guesses;
               stage2Count = (if candidateCount > 12 then 12 else candidateCount);
               stage2Set = map gIndex (take stage2Count lumaOrder);
               guesses2 = drainResults (seamScoreRGBV2 img gridSize) text gridSize (schedule stage2Set) guesses;
               stage2 = filter (\<lambda>g. gIndex g \<in> set stage2Set) guesses2;
               rgbOrder = sort_key (\<lambda>g. (ScoreRGB g, gIndex g)) stage2;
               textOrder = sort_key (\<lambda>g. (ScoreText g, gIndex g)) stage2;
               ranked = map (\<lambda>g. g\<lparr>ConsensusRank := rankOf lumaOrder (gIndex g) +
                    (if gIndex g \<in> set stage2Set then rankOf rgbOrder (gIndex g) + rankOf textOrder (gIndex g)
                     else candidateCount)\<rparr>) guesses2
           in Inr (sort_key (\<lambda>g. (ConsensusRank g, ScoreLuma g, gIndex g)) ranked)))"

section \<open>Attempts\<close>

definition captchaV2MaxSliderChecks :: int where "captchaV2MaxSliderChecks = 2"

section \<open>Permutations\<close>

lemma swapPairs_mset:
  "swapPairs n swaps m = Inr m' \<Longrightarrow> int (length m) = n \<Longrightarrow> mset m' = mset m"
proof (induction n swaps m rule: swapPairs.induct)
  case (1 n l r rest m)
  then have lr: "nat l < length m" "nat r < length m" by (auto split: if_splits)
  have "mset m' = mset (m[nat l := m ! nat r, nat r := m ! nat l])"
    using 1 by (auto simp: Let_def split: if_splits)
  then show ?case using mset_swap [OF lr(2,1)] by simp
qed auto

lemma swapPairs_error:
  "swapPairs n swaps m = Inl e \<Longrightarrow> \<exists>l r. e = StepOutOfRange l r \<and> l \<in> set swaps \<and> r \<in> set swaps
     \<and> \<not> (0 \<le> l \<and> l < n \<and> 0 \<le> r \<and> r < n)"
  by (induction n swaps m rule: swapPairs.induct) (fastforce simp: Let_def split: if_splits)+

lemma swapPairs_total: "(\<forall>x \<in> set swaps. 0 \<le> x \<and> x < n) \<Longrightarrow> \<exists>m'. swapPairs n swaps m = Inr m'"
  by (induction n swaps m rule: swapPairs.induct) (auto simp: Let_def)

text \<open>
  The swaps of a candidate always yield a permutation of the tiles: every tile of the grid is used exactly
  once.  The computation succeeds exactly on a positive grid with an even number of swaps whose steps name
  tiles of the grid.
\<close>

lemma slider_swaps_permutation:
  "(\<forall>m. applySliderSwapsV2 gridSize swaps = Inr m \<longrightarrow> mset m = mset [0..<nat (gridSize * gridSize)])
   \<and> ((\<exists>m. applySliderSwapsV2 gridSize swaps = Inr m) \<longleftrightarrow>
       gridSize \<noteq> 0 \<and> even (length swaps) \<and> (\<forall>x \<in> set swaps. 0 \<le> x \<and> x < gridSize * gridSize))"
proof -
  have pos: "gridSize * gridSize \<le> 0 \<longleftrightarrow> gridSize = 0"
    by (metis mult_le_0_iff nle_le mult_zero_left order_refl linorder_le_cases)
  have pairs: "\<forall>x \<in> set swaps. 0 \<le> x \<and> x < n"
    if "swapPairs n swaps m = Inr m'" "even (length swaps)" for n m m'
    using that by (induction n swaps m rule: swapPairs.induct) (auto simp: Let_def split: if_splits)
  have "mset m = mset [0..<nat (gridSize * gridSize)]" if "applySliderSwapsV2 gridSize swaps = Inr m" for m
    using that swapPairs_mset by (fastforce simp: applySliderSwapsV2_def Let_def split: if_splits)
  moreover have "(\<exists>m. applySliderSwapsV2 gridSize swaps = Inr m) \<longleftrightarrow>
       gridSize \<noteq> 0 \<and> even (length swaps) \<and> (\<forall>x \<in> set swaps. 0 \<le> x \<and> x < gridSize * gridSize)"
    using pairs swapPairs_total
    by (auto simp: applySliderSwapsV2_def Let_def pos even_iff_mod_2_eq_zero split: if_splits)
  ultimately show ?thesis by blast
qed

text \<open>A rotation of three tiles on a grid of four.\<close>

lemma slider_swaps_sample:
  "applySliderSwapsV2 2 [0, 1, 1, 3] = Inr [1, 3, 2, 0] \<and> mset [1, 3, 2, 0 :: nat] = mset [0..<nat (2 * 2)]"
proof -
  have "applySliderSwapsV2 2 [0, 1, 1, 3] = Inr [1, 3, 2, 0]" by code_simp
  then show ?thesis using slider_swaps_permutation [of 2 "[0, 1, 1, 3]"] by blast
qed

section \<open>Ranking\<close>

lemma lumaGuesses_shape:
  "lumaGuesses img n swaps idxs = Inr gs \<Longrightarrow>
   map gIndex gs = idxs \<and> (\<forall>g \<in> set gs. gSwaps g = activeSwapsForIndexV2 swaps (int (gIndex g)))"
  by (induction idxs arbitrary: gs) (auto simp: Let_def split: sum.splits)

lemma storeResult_simps [simp]:
  "gIndex (storeResult r t n g) = gIndex g" "gSwaps (storeResult r t n g) = gSwaps g"
  "ScoreLuma (storeResult r t n g) = ScoreLuma g"
  "storeResult r t n (storeResult r t n g) = storeResult r t n g"
  by (auto simp: storeResult_def split: sum.splits)

lemma map_storeResult_insert:
  assumes "map gIndex gs = [1..<Suc (length gs)]" "i \<in> {1..length gs}"
  shows "map (\<lambda>g. if gIndex g \<in> S then storeResult r t n g else g) (gs[i - 1 := storeResult r t n (gs ! (i - 1))])
       = map (\<lambda>g. if gIndex g \<in> insert i S then storeResult r t n g else g) gs"
proof (rule nth_equalityI)
  fix k assume k: "k < length (map (\<lambda>g. if gIndex g \<in> S then storeResult r t n g else g)
      (gs[i - 1 := storeResult r t n (gs ! (i - 1))]))"
  have ix: "gIndex (gs ! k) = Suc k" if "k < length gs" for k
    using arg_cong [OF assms(1), of "\<lambda>xs. xs ! k"] that by (simp del: upt_Suc)
  show "map (\<lambda>g. if gIndex g \<in> S then storeResult r t n g else g) (gs[i - 1 := storeResult r t n (gs ! (i - 1))]) ! k
      = map (\<lambda>g. if gIndex g \<in> insert i S then storeResult r t n g else g) gs ! k"
    using k assms(2) ix [of k] ix [of "i - 1"] by (cases "k = i - 1") auto
qed simp

text \<open>The order in which the workers finish does not matter.\<close>

lemma drainResults_map:
  "map gIndex gs = [1..<Suc (length gs)] \<Longrightarrow> set order \<subseteq> {1..length gs} \<Longrightarrow>
   drainResults r t n order gs = map (\<lambda>g. if gIndex g \<in> set order then storeResult r t n g else g) gs"
proof (induction order arbitrary: gs)
  case Nil
  then show ?case by (simp add: drainResults_def)
next
  case (Cons i order)
  let ?gs = "gs[i - 1 := storeResult r t n (gs ! (i - 1))]"
  have "map gIndex ?gs = (map gIndex gs)[i - 1 := map gIndex gs ! (i - 1)]"
    using Cons.prems(2) by (cases "i - 1 < length gs") (auto simp: map_update)
  then have idx: "map gIndex ?gs = [1..<Suc (length ?gs)]"
    using Cons.prems(1) by (simp only: list_update_id length_list_update)
  have "drainResults r t n (i # order) gs = drainResults r t n order ?gs" by (simp add: drainResults_def)
  also have "\<dots> = map (\<lambda>g. if gIndex g \<in> set order then storeResult r t n g else g) ?gs"
    using Cons.prems idx by (intro Cons.IH) simp_all
  also have "\<dots> = map (\<lambda>g. if gIndex g \<in> set (i # order) then storeResult r t n g else g) gs"
    using map_storeResult_insert [OF Cons.prems(1), of i "set order"] Cons.prems(2) by simp
  finally show ?case .
qed

text \<open>What is ranked, before the final sort.\<close>

lemma rank_shape:
  assumes "rankSliderGuessesV2 img text schedule gridSize swaps = Inr gs" "\<And>xs. set (schedule xs) = set xs"
  obtains ranked where "gs = sort_key (\<lambda>g. (ConsensusRank g, ScoreLuma g, gIndex g)) ranked"
    "map gIndex ranked = [1..<length swaps div 2 + 1]"
    "\<forall>g \<in> set ranked. gSwaps g = activeSwapsForIndexV2 swaps (int (gIndex g))"
proof -
  let ?n = "length swaps div 2"
  obtain guesses where g: "lumaGuesses img gridSize swaps [1..<?n + 1] = Inr guesses"
    using assms(1) by (auto simp: rankSliderGuessesV2_def Let_def split: if_splits sum.splits)
  note sh = lumaGuesses_shape [OF g]
  have len: "length guesses = ?n" using arg_cong [OF conjunct1 [OF sh], of length] by simp
  define lumaOrder where "lumaOrder = sort_key (\<lambda>g. (ScoreLuma g, gIndex g)) guesses"
  define S where "S = map gIndex (take (if ?n > 12 then 12 else ?n) lumaOrder)"
  define guesses2 where "guesses2 = drainResults (seamScoreRGBV2 img gridSize) text gridSize (schedule S) guesses"
  have "set S \<subseteq> gIndex ` set guesses" unfolding S_def lumaOrder_def by (auto dest: in_set_takeD)
  also have "\<dots> = {1..?n}" using conjunct1 [OF sh] by (metis atLeastLessThanSuc_atLeastAtMost set_map set_upt Suc_eq_plus1)
  finally have S: "set (schedule S) \<subseteq> {1..length guesses}" using assms(2) len by simp
  have g2: "guesses2 = map (\<lambda>g. if gIndex g \<in> set S then storeResult (seamScoreRGBV2 img gridSize) text gridSize g else g) guesses"
    unfolding guesses2_def using drainResults_map [OF _ S] sh len assms(2) by simp
  have "map gIndex guesses2 = map gIndex guesses" unfolding g2 map_map by (rule map_cong) auto
  then have idx2: "map gIndex guesses2 = [1..<?n + 1]" using sh by simp
  have sw2: "\<forall>g \<in> set guesses2. gSwaps g = activeSwapsForIndexV2 swaps (int (gIndex g))" using sh unfolding g2 by auto
  define rank :: "sliderGuessV2 \<Rightarrow> nat" where "rank = (\<lambda>g. rankOf lumaOrder (gIndex g) +
      (if gIndex g \<in> set S
       then rankOf (sort_key (\<lambda>g. (ScoreRGB g, gIndex g)) (filter (\<lambda>g. gIndex g \<in> set S) guesses2)) (gIndex g)
          + rankOf (sort_key (\<lambda>g. (ScoreText g, gIndex g)) (filter (\<lambda>g. gIndex g \<in> set S) guesses2)) (gIndex g)
       else ?n))"
  have "gs = sort_key (\<lambda>g. (ConsensusRank g, ScoreLuma g, gIndex g)) (map (\<lambda>g. g\<lparr>ConsensusRank := rank g\<rparr>) guesses2)"
    using assms(1) g unfolding rankSliderGuessesV2_def Let_def rank_def guesses2_def S_def lumaOrder_def
    by (simp split: if_splits)
  then show thesis
    by (rule that) (use idx2 sw2 in \<open>auto simp: comp_def\<close>)
qed

lemma rank_schedule:
  assumes "\<And>xs. set (schedule xs) = set xs"
  shows "rankSliderGuessesV2 img text schedule gridSize swaps = rankSliderGuessesV2 img text (\<lambda>xs. xs) gridSize swaps"
proof (cases "lumaGuesses img gridSize swaps [1..<length swaps div 2 + 1]")
  case (Inl e)
  show ?thesis unfolding rankSliderGuessesV2_def Let_def Inl sum.case ..
next
  case (Inr guesses)
  let ?n = "length swaps div 2"
  note sh = lumaGuesses_shape [OF Inr]
  have len: "length guesses = ?n" using arg_cong [OF conjunct1 [OF sh], of length] by simp
  have eq: "drainResults r text gridSize (schedule (map gIndex (take k (sort_key f guesses)))) guesses
      = drainResults r text gridSize (map gIndex (take k (sort_key f guesses))) guesses"
    for r k and f :: "sliderGuessV2 \<Rightarrow> int \<times> nat"
  proof -
    let ?S = "map gIndex (take k (sort_key f guesses))"
    have "set ?S \<subseteq> gIndex ` set guesses" by (auto dest: in_set_takeD)
    also have "\<dots> = {1..?n}" using conjunct1 [OF sh] by (metis atLeastLessThanSuc_atLeastAtMost set_map set_upt Suc_eq_plus1)
    finally have S: "set ?S \<subseteq> {1..length guesses}" "set (schedule ?S) \<subseteq> {1..length guesses}"
      using assms len by simp_all
    have ix: "map gIndex guesses = [1..<Suc (length guesses)]" using sh len by simp
    show ?thesis using drainResults_map [OF ix S(1)] drainResults_map [OF ix S(2)] assms by simp
  qed
  show ?thesis unfolding rankSliderGuessesV2_def Let_def Inr sum.case eq ..
qed

text \<open>
  C15.  The ranking does not depend on the scheduling of the concurrent second stage: results may arrive in any
  order.  When it succeeds, it lists every candidate exactly once, with its own swaps, sorted by consensus
  rank, luma score and index.
\<close>

theorem slider_ranking:
  assumes "\<And>xs. set (schedule xs) = set xs"
  shows "rankSliderGuessesV2 img text schedule gridSize swaps = rankSliderGuessesV2 img text (\<lambda>xs. xs) gridSize swaps
    \<and> (\<forall>gs. rankSliderGuessesV2 img text schedule gridSize swaps = Inr gs \<longrightarrow>
         mset (map gIndex gs) = mset [1..<length swaps div 2 + 1]
         \<and> sorted (map (\<lambda>g. (ConsensusRank g, ScoreLuma g, gIndex g)) gs)
         \<and> (\<forall>g \<in> set gs. gSwaps g = activeSwapsForIndexV2 swaps (int (gIndex g))))"
proof (intro conjI allI impI)
  show "rankSliderGuessesV2 img text schedule gridSize swaps = rankSliderGuessesV2 img text (\<lambda>xs. xs) gridSize swaps"
    by (rule rank_schedule) (rule assms)
  fix gs assume "rankSliderGuessesV2 img text schedule gridSize swaps = Inr gs"
  from this assms obtain ranked where r: "gs = sort_key (\<lambda>g. (ConsensusRank g, ScoreLuma g, gIndex g)) ranked"
    "map gIndex ranked = [1..<length swaps div 2 + 1]"
    "\<forall>g \<in> set ranked. gSwaps g = activeSwapsForIndexV2 swaps (int (gIndex g))"
    by (rule rank_shape)
  have "mset (map gIndex gs) = mset (map gIndex ranked)" by (simp add: r(1))
  then show "mset (map gIndex gs) = mset [1..<length swaps div 2 + 1]" by (simp only: r(2))
  show "sorted (map (\<lambda>g. (ConsensusRank g, ScoreLuma g, gIndex g)) gs)" by (simp add: r(1))
  show "\<forall>g \<in> set gs. gSwaps g = activeSwapsForIndexV2 swaps (int (gIndex g))" using r(1,3) by simp
qed

lemma lumaGuesses_ok:
  "(\<forall>i \<in> set idxs. is_ok (applySliderSwapsV2 n (activeSwapsForIndexV2 swaps (int i)))) \<Longrightarrow>
   is_ok (lumaGuesses img n swaps idxs)"
  by (induction idxs) (auto simp: Let_def is_ok_iff)

lemma rank_ok:
  assumes "\<forall>i \<in> {1..length swaps div 2}. is_ok (applySliderSwapsV2 n (activeSwapsForIndexV2 swaps (int i)))"
    and "length swaps div 2 \<noteq> 0"
  shows "is_ok (rankSliderGuessesV2 img text schedule n swaps)"
proof -
  have "is_ok (lumaGuesses img n swaps [1..<length swaps div 2 + 1])"
    using assms(1) by (intro lumaGuesses_ok) auto
  then obtain gs where "lumaGuesses img n swaps [1..<length swaps div 2 + 1] = Inr gs" by (auto simp: is_ok_iff)
  with assms(2) show ?thesis unfolding rankSliderGuessesV2_def Let_def by (simp del: upt_Suc)
qed

text \<open>A small picture with two candidates, the results of the second stage arriving in reverse.\<close>

definition demo_raster :: raster where
  "demo_raster = \<lparr>bounds = Rect 0 0 4 4, pixel = (\<lambda>x y. (nat (x * 40), nat (y * 40), 7))\<rparr>"

theorem slider_ranking_witness:
  "is_ok (rankSliderGuessesV2 demo_raster (\<lambda>m. rat_of_nat (hd m)) rev 2 [0, 1, 2, 3])
   \<and> rankSliderGuessesV2 demo_raster (\<lambda>m. rat_of_nat (hd m)) rev 2 [0, 1, 2, 3]
       = rankSliderGuessesV2 demo_raster (\<lambda>m. rat_of_nat (hd m)) (\<lambda>xs. xs) 2 [0, 1, 2, 3]"
proof
  have "is_ok (applySliderSwapsV2 2 (activeSwapsForIndexV2 [0, 1, 2, 3] (int i)))" if "i \<in> {1..length [0, 1, 2, 3 :: int] div 2}" for i
  proof -
    have "i = 1 \<or> i = 2" using that by auto
    have "is_ok (applySliderSwapsV2 2 (activeSwapsForIndexV2 [0, 1, 2, 3] (int 1)))"
      "is_ok (applySliderSwapsV2 2 (activeSwapsForIndexV2 [0, 1, 2, 3] (int 2)))" by code_simp+
    with \<open>i = 1 \<or> i = 2\<close> show ?thesis by blast
  qed
  then show "is_ok (rankSliderGuessesV2 demo_raster (\<lambda>m. rat_of_nat (hd m)) rev 2 [0, 1, 2, 3])"
    by (intro rank_ok) simp_all
  show "rankSliderGuessesV2 demo_raster (\<lambda>m. rat_of_nat (hd m)) rev 2 [0, 1, 2, 3]
       = rankSliderGuessesV2 demo_raster (\<lambda>m. rat_of_nat (hd m)) (\<lambda>xs. xs) 2 [0, 1, 2, 3]"
    using slider_ranking [of rev demo_raster "\<lambda>m. rat_of_nat (hd m)" 2 "[0, 1, 2, 3]"] by simp
qed

section \<open>Tiles\<close>

lemma div_mult_le: "0 < (g :: int) \<Longrightarrow> a div g * g \<le> a"
  using minus_mod_eq_div_mult [of a g] pos_mod_sign [of g a] by linarith

lemma split_point:
  fixes D g x :: int
  assumes "0 < g" "0 < D" "0 \<le> x" "x < D"
  shows "\<exists>c. 0 \<le> c \<and> c < g \<and> (c * D) div g \<le> x \<and> x < ((c + 1) * D) div g"
proof -
  define c where "c = ((x + 1) * g - 1) div D"
  have le: "c * D \<le> (x + 1) * g - 1" unfolding c_def by (rule div_mult_le) (rule assms(2))
  have "(x + 1) * g - 1 - c * D = ((x + 1) * g - 1) mod D" unfolding c_def by (simp add: minus_div_mult_eq_mod)
  then have gt: "(x + 1) * g - 1 < (c + 1) * D"
    using pos_mod_bound [OF assms(2), of "(x + 1) * g - 1"] by (simp add: distrib_right)
  have "1 * 1 \<le> (x + 1) * g" by (rule mult_mono) (use assms in auto)
  then have c0: "0 \<le> c" unfolding c_def using assms by (intro pos_imp_zdiv_nonneg_iff [THEN iffD2]) auto
  have "(x + 1) * g \<le> D * g" using assms by (intro mult_right_mono) auto
  then have "c * D < g * D" using le by (simp add: mult.commute)
  then have "c < g" using assms by (simp add: mult_less_cancel_right)
  moreover have "(c * D) div g \<le> x"
  proof (rule ccontr)
    assume "\<not> (c * D) div g \<le> x"
    then have "(x + 1) * g \<le> ((c * D) div g) * g" using assms(1) by (intro mult_right_mono) auto
    also have "\<dots> \<le> c * D" by (rule div_mult_le) (rule assms(1))
    finally show False using le by simp
  qed
  moreover have "x < ((c + 1) * D) div g"
  proof -
    have "(x + 1) * g \<le> (c + 1) * D" using gt by simp
    then have "(x + 1) * g div g \<le> ((c + 1) * D) div g" using assms(1) by (rule zdiv_mono1)
    then show ?thesis using assms(1) by simp
  qed
  ultimately show ?thesis using c0 by blast
qed

lemma split_point_unique:
  fixes D g x c c' :: int
  assumes "0 < g" "0 \<le> D" "(c * D) div g \<le> x" "x < ((c + 1) * D) div g"
    and "(c' * D) div g \<le> x" "x < ((c' + 1) * D) div g"
  shows "c = c'"
proof (rule ccontr)
  assume "c \<noteq> c'"
  then consider "c + 1 \<le> c'" | "c' + 1 \<le> c" by linarith
  then show False
  proof cases
    case 1
    then have "((c + 1) * D) div g \<le> (c' * D) div g" using assms(1,2) by (intro zdiv_mono1 mult_right_mono) auto
    with assms(4,5) show False by simp
  next
    case 2
    then have "((c' + 1) * D) div g \<le> (c * D) div g" using assms(1,2) by (intro zdiv_mono1 mult_right_mono) auto
    with assms(3,6) show False by simp
  qed
qed

definition inRect :: "int \<Rightarrow> int \<Rightarrow> rectangle \<Rightarrow> bool" where
  "inRect x y r \<longleftrightarrow> MinX r \<le> x \<and> x < MaxX r \<and> MinY r \<le> y \<and> y < MaxY r"

lemma tile_edges:
  assumes "0 < g" "0 \<le> Dx b" "0 \<le> Dy b"
  shows "inRect x y (sliderTileRect b g i) \<longleftrightarrow>
    (i mod g * Dx b) div g \<le> x - MinX b \<and> x - MinX b < ((i mod g + 1) * Dx b) div g \<and>
    (i div g * Dy b) div g \<le> y - MinY b \<and> y - MinY b < ((i div g + 1) * Dy b) div g"
proof -
  have "(i mod g * Dx b) div g \<le> ((i mod g + 1) * Dx b) div g" "(i div g * Dy b) div g \<le> ((i div g + 1) * Dy b) div g"
    using assms by (intro zdiv_mono1 mult_right_mono; simp)+
  then show ?thesis by (auto simp: inRect_def sliderTileRect_def Rect_def Let_def min_def max_def)
qed

text \<open>
  The tiles partition the picture: whatever its size, every pixel of the bounds lies in exactly one of
  the \<open>gridSize^2\<close> tiles.
\<close>

lemma slider_tiles_partition:
  assumes "0 < gridSize" "inRect x y b"
  shows "\<exists>!i. 0 \<le> i \<and> i < gridSize * gridSize \<and> inRect x y (sliderTileRect b gridSize i)"
proof -
  have D: "0 < Dx b" "0 < Dy b" "0 \<le> x - MinX b" "x - MinX b < Dx b" "0 \<le> y - MinY b" "y - MinY b < Dy b"
    using assms(2) by (auto simp: inRect_def Dx_def Dy_def)
  obtain c where c: "0 \<le> c" "c < gridSize" "(c * Dx b) div gridSize \<le> x - MinX b" "x - MinX b < ((c + 1) * Dx b) div gridSize"
    using split_point [OF assms(1) D(1,3,4)] by blast
  obtain r where r: "0 \<le> r" "r < gridSize" "(r * Dy b) div gridSize \<le> y - MinY b" "y - MinY b < ((r + 1) * Dy b) div gridSize"
    using split_point [OF assms(1) D(2,5,6)] by blast
  note edges = tile_edges [OF assms(1) less_imp_le [OF D(1)] less_imp_le [OF D(2)]]
  show ?thesis
  proof (rule ex1I [of _ "r * gridSize + c"])
    have "(r + 1) * gridSize \<le> gridSize * gridSize" using r(2) assms(1) by (intro mult_right_mono) auto
    then have "r * gridSize + c < gridSize * gridSize" using c(2) by (simp add: distrib_right)
    then show "0 \<le> r * gridSize + c \<and> r * gridSize + c < gridSize * gridSize
        \<and> inRect x y (sliderTileRect b gridSize (r * gridSize + c))"
      using c r assms(1) by (simp add: edges)
  next
    fix i assume i: "0 \<le> i \<and> i < gridSize * gridSize \<and> inRect x y (sliderTileRect b gridSize i)"
    have "i mod gridSize = c"
      using i c D assms(1) by (intro split_point_unique [of gridSize "Dx b" _ "x - MinX b"]) (auto simp: edges)
    moreover have "i div gridSize = r"
      using i r D assms(1) by (intro split_point_unique [of gridSize "Dy b" _ "y - MinY b"]) (auto simp: edges)
    ultimately show "i = r * gridSize + c" by (metis div_mult_mod_eq)
  qed
qed

end
