(* ===== verification/Go_Url.thy ===== *)
theory Go_Url
  imports Go_Strings "HOL-Library.Char_ord" "HOL-Library.List_Lexorder"
begin

text \<open>
  The part of \<open>net/url\<close> the program uses: query escaping, \<open>Values.Encode\<close>, \<open>ParseQuery\<close>, and \<open>Parse\<close> as far as
  it decides whether a URL is well formed and what its raw query is.
\<close>

section \<open>Escaping\<close>

definition hex_digit :: "nat \<Rightarrow> char" where
  "hex_digit n = (if n < 10 then char_of (48 + n) else char_of (55 + n))"

definition unhex :: "char \<Rightarrow> nat option" where
  "unhex c =
     (let n = (of_char c :: nat) in
      if 48 \<le> n \<and> n \<le> 57 then Some (n - 48)
      else if 65 \<le> n \<and> n \<le> 70 then Some (n - 55)
      else if 97 \<le> n \<and> n \<le> 102 then Some (n - 87)
      else None)"

definition is_alnum :: "char \<Rightarrow> bool" where
  "is_alnum c =
     (let n = (of_char c :: nat) in
      (48 \<le> n \<and> n \<le> 57) \<or> (65 \<le> n \<and> n \<le> 90) \<or> (97 \<le> n \<and> n \<le> 122))"

definition query_unreserved :: "char \<Rightarrow> bool" where
  "query_unreserved c \<longleftrightarrow> is_alnum c \<or> c \<in> set ''-_.~''"

definition escape_byte :: "char \<Rightarrow> string" where
  "escape_byte c =
     (if query_unreserved c then [c]
      else if c = CHR '' '' then ''+''
      else [CHR ''%'', hex_digit (of_char c div 16), hex_digit (of_char c mod 16)])"

definition QueryEscape :: "string \<Rightarrow> string" where
  "QueryEscape s = concat (map escape_byte s)"

fun QueryUnescape :: "string \<Rightarrow> string option" where
  "QueryUnescape [] = Some []"
| "QueryUnescape (c # s) =
     (if c = CHR ''%'' then
        (case s of
           a # b # r \<Rightarrow>
             (case (unhex a, unhex b) of
                (Some x, Some y) \<Rightarrow> map_option (Cons (char_of (16 * x + y))) (QueryUnescape r)
              | _ \<Rightarrow> None)
         | _ \<Rightarrow> None)
      else map_option (Cons (if c = CHR ''+'' then CHR '' '' else c)) (QueryUnescape s))"

lemma hex_digit_facts:
  assumes "n < 16"
  shows "unhex (hex_digit n) = Some n" "is_alnum (hex_digit n)"
  using assms by (auto simp: unhex_def is_alnum_def hex_digit_def Let_def)

lemma of_char_less: "(of_char (c :: char) :: nat) < 256"
  by (metis atLeastLessThan_iff range_nat_of_char rangeI)

lemma nibbles: "(of_char (c :: char) :: nat) div 16 < 16"
  using of_char_less [of c] by linarith

lemma query_unreserved_not: "query_unreserved c \<Longrightarrow> c \<noteq> CHR ''%'' \<and> c \<noteq> CHR ''+''"
  by (auto simp: query_unreserved_def is_alnum_def)

lemma QueryUnescape_escape_byte: "QueryUnescape (escape_byte c @ r) = map_option (Cons c) (QueryUnescape r)"
proof (cases "query_unreserved c")
  case True
  then show ?thesis using query_unreserved_not [OF True] by (simp add: escape_byte_def)
next
  case False
  have "(of_char c :: nat) div 16 < 16" by (rule nibbles)
  then show ?thesis using False by (simp add: escape_byte_def hex_digit_facts)
qed

lemma QueryUnescape_QueryEscape: "QueryUnescape (QueryEscape s) = Some s"
  by (induction s) (simp_all add: QueryEscape_def QueryUnescape_escape_byte)

text \<open>Escaped text consists of unreserved characters, percent and plus signs.\<close>

lemma escape_byte_chars: "x \<in> set (escape_byte c) \<Longrightarrow> query_unreserved x \<or> x = CHR ''%'' \<or> x = CHR ''+''"
proof -
  have "(of_char c :: nat) div 16 < 16" by (rule nibbles)
  then show "x \<in> set (escape_byte c) \<Longrightarrow> query_unreserved x \<or> x = CHR ''%'' \<or> x = CHR ''+''"
    by (auto simp: escape_byte_def query_unreserved_def hex_digit_facts split: if_splits)
qed

lemma QueryEscape_chars: "x \<in> set (QueryEscape s) \<Longrightarrow> query_unreserved x \<or> x = CHR ''%'' \<or> x = CHR ''+''"
  using escape_byte_chars by (auto simp: QueryEscape_def)

lemma QueryEscape_no:
  "\<not> query_unreserved x \<Longrightarrow> x \<noteq> CHR ''%'' \<Longrightarrow> x \<noteq> CHR ''+'' \<Longrightarrow> x \<notin> set (QueryEscape s)"
  using QueryEscape_chars by blast

lemma reserved_chars:
  "\<not> query_unreserved CHR ''&''" "\<not> query_unreserved CHR ''=''" "\<not> query_unreserved CHR '';''"
  "\<not> query_unreserved CHR ''#''" "\<not> query_unreserved CHR ''?''" "\<not> query_unreserved CHR ''/''"
  by code_simp+

section \<open>Query strings\<close>

type_synonym query_values = "(string \<times> string) list"

definition Encode :: "query_values \<Rightarrow> string" where
  "Encode kvs = Join (map (\<lambda>(k, v). QueryEscape k @ ''='' @ QueryEscape v) (sort_key fst kvs)) ''&''"

text \<open>One \<open>key=value\<close> segment; a segment with a semicolon or a malformed escape is skipped.\<close>

definition parse_pair :: "string \<Rightarrow> (string \<times> string) option" where
  "parse_pair seg =
     (if CHR '';'' \<in> set seg \<or> seg = [] then None
      else
        let (k, v) = (case Cut seg ''='' of Some p \<Rightarrow> p | None \<Rightarrow> (seg, []))
        in case (QueryUnescape k, QueryUnescape v) of
             (Some k', Some v') \<Rightarrow> Some (k', v')
           | _ \<Rightarrow> None)"

definition ParseQuery :: "string \<Rightarrow> query_values" where
  "ParseQuery q = List.map_filter parse_pair (SplitByte CHR ''&'' q)"

definition query_get :: "query_values \<Rightarrow> string \<Rightarrow> string" where
  "query_get kvs k = (case map_of kvs k of Some v \<Rightarrow> v | None \<Rightarrow> [])"

lemma parse_pair_encoded: "parse_pair (QueryEscape k @ ''='' @ QueryEscape v) = Some (k, v)"
proof -
  have noeq: "CHR ''='' \<notin> set (QueryEscape k)" using reserved_chars by (intro QueryEscape_no) auto
  have "CHR '';'' \<notin> set (QueryEscape k)" "CHR '';'' \<notin> set (QueryEscape v)"
    using reserved_chars by (intro QueryEscape_no; auto)+
  moreover have "Cut (QueryEscape k @ ''='' @ QueryEscape v) ''='' = Some (QueryEscape k, QueryEscape v)"
    using Index_byte_append [OF noeq, of "QueryEscape v"] by (simp add: Cut_def)
  ultimately show ?thesis by (simp add: parse_pair_def QueryUnescape_QueryEscape)
qed

lemma ParseQuery_Encode: "kvs \<noteq> [] \<Longrightarrow> ParseQuery (Encode kvs) = sort_key fst kvs"
proof -
  assume "kvs \<noteq> []"
  let ?segs = "map (\<lambda>(k, v). QueryEscape k @ ''='' @ QueryEscape v) (sort_key fst kvs)"
  have "CHR ''&'' \<notin> set (QueryEscape s)" for s using reserved_chars by (intro QueryEscape_no) auto
  then have "\<forall>x \<in> set ?segs. CHR ''&'' \<notin> set x" by auto
  moreover have "?segs \<noteq> []" using \<open>kvs \<noteq> []\<close> by (metis list.map_disc_iff length_0_conv length_sort)
  ultimately have "SplitByte CHR ''&'' (Encode kvs) = ?segs"
    unfolding Encode_def by (intro SplitByte_Join) auto
  moreover have "List.map_filter parse_pair (map (\<lambda>(k, v). QueryEscape k @ ''='' @ QueryEscape v) xs) = xs" for xs
    using parse_pair_encoded by (induction xs) (auto simp: List.map_filter_def)
  ultimately show ?thesis by (simp add: ParseQuery_def)
qed

text \<open>Sorting the pairs by their distinct keys does not change the values.\<close>

lemma query_get_sort: "distinct (map fst kvs) \<Longrightarrow> query_get (sort_key fst kvs) k = query_get kvs k"
proof -
  assume d: "distinct (map fst kvs)"
  have "map_of (sort_key fst kvs) = map_of kvs"
  proof (rule map_of_inject_set [THEN iffD2])
    show "distinct (map fst (sort_key fst kvs))"
      using d by (metis distinct_map distinct_sort inj_on_def set_sort)
  qed (use d in simp_all)
  then show ?thesis by (simp add: query_get_def)
qed

section \<open>Parsing a URL\<close>

definition has_ctl :: "string \<Rightarrow> bool" where
  "has_ctl s \<longleftrightarrow> (\<exists>c \<in> set s. (of_char c :: nat) < 0x20 \<or> (of_char c :: nat) = 0x7F)"

text \<open>The escapes of a path, fragment or user name are well formed.\<close>

fun escapes_ok :: "string \<Rightarrow> bool" where
  "escapes_ok [] = True"
| "escapes_ok (c # s) =
     (if c = CHR ''%'' then
        (case s of a # b # r \<Rightarrow> unhex a \<noteq> None \<and> unhex b \<noteq> None \<and> escapes_ok r | _ \<Rightarrow> False)
      else escapes_ok s)"

text \<open>Host characters: reserved ASCII characters are refused, escapes only encode non-ASCII bytes or a percent sign.\<close>

definition host_char :: "char \<Rightarrow> bool" where
  "host_char c \<longleftrightarrow> is_alnum c \<or> (of_char c :: nat) \<ge> 0x80 \<or> c \<in> set ''!$&()*+,;=:[]<>-_.~'' \<or> c = CHR 0x27 \<or> c = CHR 0x22"

fun host_ok :: "string \<Rightarrow> bool" where
  "host_ok [] = True"
| "host_ok (c # s) =
     (if c = CHR ''%'' then
        (case s of
           a # b # r \<Rightarrow>
             (case (unhex a, unhex b) of
                (Some x, Some y) \<Rightarrow> (x \<ge> 8 \<or> (x = 2 \<and> y = 5)) \<and> host_ok r
              | _ \<Rightarrow> False)
         | _ \<Rightarrow> False)
      else host_char c \<and> host_ok s)"

definition port_ok :: "string \<Rightarrow> bool" where
  "port_ok p \<longleftrightarrow> p = [] \<or> (hd p = CHR '':'' \<and> list_all is_digit (tl p))"

definition user_char :: "char \<Rightarrow> bool" where
  "user_char c \<longleftrightarrow> is_alnum c \<or> c \<in> set ''-._:~!$&()*+,;=%@'' \<or> c = CHR 0x27"

text \<open>\<open>parseAuthority\<close>; the zone of a bracketed IPv6 address is only checked for its escapes.\<close>

definition authority_ok :: "string \<Rightarrow> bool" where
  "authority_ok auth =
     (let (user, host) =
        (case LastIndexByte auth CHR ''@'' of
           Some i \<Rightarrow> (Some (take i auth), drop (i + 1) auth)
         | None \<Rightarrow> (None, auth));
          user_fine = (case user of None \<Rightarrow> True | Some u \<Rightarrow> list_all user_char u \<and> escapes_ok u);
          host_fine =
            (if HasPrefix host ''['' then
               (case LastIndexByte host CHR '']'' of
                  None \<Rightarrow> False
                | Some i \<Rightarrow> port_ok (drop (i + 1) host) \<and> escapes_ok host)
             else
               (case LastIndexByte host CHR '':'' of
                  Some i \<Rightarrow> port_ok (drop i host)
                | None \<Rightarrow> True) \<and> host_ok host)
      in user_fine \<and> host_fine)"

text \<open>
  \<open>url.Parse\<close> for a text that begins with \<open>qwdtt://\<close>: \<open>None\<close> is an error, otherwise the raw query.
\<close>

definition parse_raw_query :: "string \<Rightarrow> string option" where
  "parse_raw_query raw =
     (let (u, frag) = (case Cut raw ''#'' of Some p \<Rightarrow> p | None \<Rightarrow> (raw, [])) in
      if has_ctl u then None
      else
        let rest = TrimPrefix u ''qwdtt:'';
            (rest1, query) = (case Cut rest ''?'' of Some p \<Rightarrow> p | None \<Rightarrow> (rest, []));
            authpath = TrimPrefix rest1 ''//'';
            (auth, path) = (case Index authpath ''/'' of
                              Some i \<Rightarrow> (take i authpath, drop i authpath)
                            | None \<Rightarrow> (authpath, []))
        in if authority_ok auth \<and> escapes_ok path \<and> escapes_ok frag then Some query else None)"

end
