(* ===== verification/Go_Utf8.thy ===== *)
theory Go_Utf8
  imports Go_Strings
begin

text \<open>
  Iteration over the code points of a byte string as Go's \<open>range\<close> does it: an invalid byte yields U+FFFD
  and advances by one.
\<close>

definition byte_in :: "char \<Rightarrow> nat \<Rightarrow> nat \<Rightarrow> bool" where
  "byte_in c lo hi \<longleftrightarrow> lo \<le> (of_char c :: nat) \<and> (of_char c :: nat) \<le> hi"

text \<open>The width of the well-formed sequence at the head of the string, 0 if there is none.\<close>

fun utf8_width :: "string \<Rightarrow> nat" where
  "utf8_width [] = 0"
| "utf8_width (a # s) =
     (if byte_in a 0 0x7F then 1
      else if byte_in a 0xC2 0xDF then
        (case s of b # _ \<Rightarrow> if byte_in b 0x80 0xBF then 2 else 0 | _ \<Rightarrow> 0)
      else if byte_in a 0xE0 0xEF then
        (case s of
           b # c # _ \<Rightarrow>
             if byte_in b (if a = CHR 0xE0 then 0xA0 else 0x80) (if a = CHR 0xED then 0x9F else 0xBF)
                \<and> byte_in c 0x80 0xBF then 3 else 0
         | _ \<Rightarrow> 0)
      else if byte_in a 0xF0 0xF4 then
        (case s of
           b # c # d # _ \<Rightarrow>
             if byte_in b (if a = CHR 0xF0 then 0x90 else 0x80) (if a = CHR 0xF4 then 0x8F else 0xBF)
                \<and> byte_in c 0x80 0xBF \<and> byte_in d 0x80 0xBF then 4 else 0
         | _ \<Rightarrow> 0)
      else 0)"

definition rune_error :: string where
  "rune_error = [CHR 0xEF, CHR 0xBF, CHR 0xBD]"

text \<open>The code points of a string, each as its UTF-8 encoding; invalid bytes become U+FFFD.\<close>

function runes :: "string \<Rightarrow> string list" where
  "runes s =
     (if s = [] then []
      else if utf8_width s = 0 then rune_error # runes (tl s)
      else take (utf8_width s) s # runes (drop (utf8_width s) s))"
  by auto
termination
  by (relation "measure length") auto

declare runes.simps [simp del]

lemma runes_Nil [simp]: "runes [] = []"
  by (simp add: runes.simps)

lemma runes_ascii: "(of_char c :: nat) < 128 \<Longrightarrow> runes (c # s) = [c] # runes s"
  by (simp add: runes.simps [of "c # s"] byte_in_def)

lemma runes_ascii_string: "(\<forall>c \<in> set s. (of_char c :: nat) < 128) \<Longrightarrow> runes s = map (\<lambda>c. [c]) s"
  by (induction s) (auto simp: runes_ascii)

end
