(* ===== verification/Links.thy ===== *)
theory Links
  imports Go_Url Go_Utf8
begin

text \<open>
  Connection links: \<open>url_parser.go\<close>, \<open>translit.go\<close> and the link building part of \<open>shareCmd\<close> in
  \<open>commands.go\<close>.
\<close>

datatype link_error =
    TooFewFields | MissingFields | BadURL | PeerRequired | PassRequired
  | WorkersNotNumber string | WorkersNotPositive | WorkersNotMultiple | UnknownScheme

record WdttLink =
  IP :: string
  DTLSPort :: string
  Password :: string
  Hashes :: "string list"
  Name :: string
  Workers :: int
  Port :: string

definition defaultWorkers :: int where "defaultWorkers = 9"
definition defaultListenPort :: string where "defaultListenPort = ''9000''"

definition validateWorkers :: "int \<Rightarrow> link_error option" where
  "validateWorkers n =
     (if n \<le> 0 then Some WorkersNotPositive
      else if n mod defaultWorkers \<noteq> 0 then Some WorkersNotMultiple
      else None)"

text \<open>The loop that splits a comma separated list, trims the parts and drops the empty ones.\<close>

definition splitHashes :: "string \<Rightarrow> string list" where
  "splitHashes s = filter (\<lambda>h. h \<noteq> []) (map TrimSpace (SplitByte CHR '','' s))"

definition parseWdttURL :: "string \<Rightarrow> link_error + WdttLink" where
  "parseWdttURL raw =
     (let stripped = TrimPrefix (TrimSpace raw) ''wdtt://'';
          parts = SplitByte CHR '':'' stripped
      in if length parts < 5 then Inl TooFewFields
         else
           let ip = parts ! 0;
               dtlsPort = parts ! 1;
               tail = Join (drop 4 parts) '':'';
               (name, passwordAndHashes) =
                 (case LastIndexByte tail CHR ''#'' of
                    None \<Rightarrow> (''Server'', tail)
                  | Some i \<Rightarrow>
                      let candidate = TrimSpace (drop (i + 1) tail)
                      in (if candidate \<noteq> [] then candidate else ''Server'', take i tail));
               (password, hashes) =
                 (case LastIndexByte passwordAndHashes CHR '':'' of
                    Some i \<Rightarrow> (take i passwordAndHashes, splitHashes (drop (i + 1) passwordAndHashes))
                  | None \<Rightarrow> (passwordAndHashes, []))
           in if ip = [] \<or> dtlsPort = [] \<or> password = [] then Inl MissingFields
              else Inr \<lparr>IP = ip, DTLSPort = dtlsPort, Password = password, Hashes = hashes, Name = name,
                        Workers = defaultWorkers, Port = defaultListenPort\<rparr>)"

definition parseWorkers :: "string \<Rightarrow> link_error + int" where
  "parseWorkers w =
     (if w = [] then Inr defaultWorkers
      else case Atoi w of
        None \<Rightarrow> Inl (WorkersNotNumber w)
      | Some n \<Rightarrow> (case validateWorkers n of Some e \<Rightarrow> Inl e | None \<Rightarrow> Inr n))"

definition splitPeer :: "string \<Rightarrow> string \<times> string" where
  "splitPeer peer =
     (case LastIndexByte peer CHR '':'' of
        Some i \<Rightarrow> (take i peer, drop (i + 1) peer)
      | None \<Rightarrow> (peer, []))"

definition parseQwdttConfigURL :: "string \<Rightarrow> link_error + WdttLink" where
  "parseQwdttConfigURL raw0 =
     (let raw = TrimSpace raw0 in
      case parse_raw_query raw of
        None \<Rightarrow> Inl BadURL
      | Some rq \<Rightarrow>
          (let q = ParseQuery rq;
               name = (if TrimSpace (query_get q ''name'') = [] then ''Server'' else query_get q ''name'');
               peer = TrimSpace (query_get q ''peer'')
           in if peer = [] then Inl PeerRequired
              else
                let (ip, dtlsPort) = splitPeer peer;
                    password = query_get q ''pass''
                in if TrimSpace password = [] then Inl PassRequired
                   else
                     let hashes = (if query_get q ''hashes'' \<noteq> [] then splitHashes (query_get q ''hashes'') else [])
                     in case parseWorkers (query_get q ''workers'') of
                          Inl e \<Rightarrow> Inl e
                        | Inr workers \<Rightarrow>
                            (let port0 = TrimSpace (query_get q ''port'');
                                 port = (if port0 = [] then defaultListenPort else port0)
                             in if ip = [] \<or> dtlsPort = [] then Inl MissingFields
                                else Inr \<lparr>IP = ip, DTLSPort = dtlsPort, Password = password, Hashes = hashes,
                                          Name = name, Workers = workers, Port = port\<rparr>)))"

definition parseLink :: "string \<Rightarrow> link_error + WdttLink" where
  "parseLink raw =
     (let trimmed = TrimSpace raw in
      if HasPrefix trimmed ''wdtt://'' then parseWdttURL trimmed
      else if HasPrefix trimmed ''qwdtt://'' then parseQwdttConfigURL trimmed
      else Inl UnknownScheme)"

definition linkValues :: "WdttLink \<Rightarrow> query_values" where
  "linkValues l =
     [(''name'', Name l), (''peer'', IP l @ '':'' @ DTLSPort l), (''pass'', Password l)]
     @ (if Hashes l \<noteq> [] then [(''hashes'', Join (Hashes l) '','')] else [])
     @ (if Workers l > 0 then [(''workers'', Itoa (Workers l))] else [])
     @ (if Port l \<noteq> [] then [(''port'', Port l)] else [])"

definition buildQwdttConfigURL :: "WdttLink \<Rightarrow> string" where
  "buildQwdttConfigURL l = ''qwdtt://config?'' @ Encode (linkValues l)"

text \<open>The classic link that \<open>share\<close> prints when a profile has no link file.\<close>

definition shareWdttURL :: "string \<Rightarrow> string \<Rightarrow> string \<Rightarrow> string list \<Rightarrow> string \<Rightarrow> string" where
  "shareWdttURL ip dtlsPort password hashes displayName =
     ''wdtt://'' @ ip @ '':'' @ dtlsPort @ '':0:9000:'' @ password @ '':'' @ Join hashes '','' @ ''#'' @ displayName"

section \<open>Transliteration\<close>

text \<open>\<open>translitTable\<close>: code point of a Cyrillic letter and its Latin replacement.\<close>

definition translitLower :: "string list" where
  "translitLower =
     [''a'', ''b'', ''v'', ''g'', ''d'', ''e'', ''zh'', ''z'', ''i'', ''y'', ''k'', ''l'', ''m'', ''n'', ''o'', ''p'',
      ''r'', ''s'', ''t'', ''u'', ''f'', ''kh'', ''ts'', ''ch'', ''sh'', ''shch'', '''', ''y'', '''', ''e'', ''yu'', ''ya'']"

definition translitUpper :: "string list" where
  "translitUpper =
     [''A'', ''B'', ''V'', ''G'', ''D'', ''E'', ''Zh'', ''Z'', ''I'', ''Y'', ''K'', ''L'', ''M'', ''N'', ''O'', ''P'',
      ''R'', ''S'', ''T'', ''U'', ''F'', ''Kh'', ''Ts'', ''Ch'', ''Sh'', ''Shch'', '''', ''Y'', '''', ''E'', ''Yu'', ''Ya'']"

definition translitTable :: "nat \<Rightarrow> string option" where
  "translitTable r =
     (if 0x0410 \<le> r \<and> r \<le> 0x042F then Some (translitUpper ! (r - 0x0410))
      else if 0x0430 \<le> r \<and> r \<le> 0x044F then Some (translitLower ! (r - 0x0430))
      else if r = 0x0401 then Some ''E''
      else if r = 0x0451 then Some ''e''
      else None)"

text \<open>The code point of a two byte sequence; the table holds no others.\<close>

fun rune_value :: "string \<Rightarrow> nat" where
  "rune_value [a, b] = (of_char a - 0xC0) * 64 + (of_char b - 0x80)"
| "rune_value _ = 0"

definition transliterateCyrillic :: "string \<Rightarrow> string" where
  "transliterateCyrillic s =
     concat (map (\<lambda>r. case translitTable (rune_value r) of Some t \<Rightarrow> t | None \<Rightarrow> r) (runes s))"

lemma transliterate_ascii: "(\<forall>c \<in> set s. (of_char c :: nat) < 128) \<Longrightarrow> transliterateCyrillic s = s"
  by (simp add: transliterateCyrillic_def runes_ascii_string comp_def translitTable_def)

section \<open>Lists of hashes\<close>

text \<open>A list of hashes that survives printing and splitting.\<close>

definition hashes_ok :: "string list \<Rightarrow> bool" where
  "hashes_ok hs \<longleftrightarrow> (\<forall>h \<in> set hs. h \<noteq> [] \<and> TrimSpace h = h \<and> CHR '','' \<notin> set h)"

lemma splitHashes_ok: "hashes_ok (splitHashes s)"
  using SplitByte_no_sep set_TrimSpace by (fastforce simp: hashes_ok_def splitHashes_def)

lemma splitHashes_Join: "hashes_ok hs \<Longrightarrow> splitHashes (Join hs '','') = hs"
proof (cases "hs = []")
  case False
  assume ok: "hashes_ok hs"
  then have "SplitByte CHR '','' (Join hs '','') = hs"
    using False by (intro SplitByte_Join) (auto simp: hashes_ok_def)
  moreover have "map TrimSpace hs = hs" using ok by (auto simp: hashes_ok_def intro: map_idI)
  moreover have "filter (\<lambda>h. h \<noteq> []) hs = hs" using ok by (auto simp: hashes_ok_def filter_id_conv)
  ultimately show ?thesis by (simp add: splitHashes_def)
qed (simp add: splitHashes_def)

lemma Join_ne: "hashes_ok hs \<Longrightarrow> hs \<noteq> [] \<Longrightarrow> Join hs '','' \<noteq> []"
  by (cases hs rule: list.exhaust; cases "tl hs") (auto simp: hashes_ok_def)

section \<open>The link built from a configuration\<close>

definition link_ok :: "WdttLink \<Rightarrow> bool" where
  "link_ok l \<longleftrightarrow>
     TrimSpace (Name l) \<noteq> [] \<and> TrimSpace (Password l) \<noteq> [] \<and>
     IP l \<noteq> [] \<and> DTLSPort l \<noteq> [] \<and> CHR '':'' \<notin> set (DTLSPort l) \<and>
     TrimSpace (IP l @ '':'' @ DTLSPort l) = IP l @ '':'' @ DTLSPort l \<and>
     hashes_ok (Hashes l) \<and> validateWorkers (Workers l) = None \<and> Workers l < 2 ^ 63 \<and>
     Port l \<noteq> [] \<and> TrimSpace (Port l) = Port l"

definition url_safe :: "char \<Rightarrow> bool" where
  "url_safe c \<longleftrightarrow> query_unreserved c \<or> c \<in> set ''%+&=''"

lemma url_safe_graphic: "url_safe c \<Longrightarrow> graphic [c]"
  by (auto simp: url_safe_def query_unreserved_def is_alnum_def graphic_def Let_def)

lemma url_safe_not: "url_safe c \<Longrightarrow> c \<noteq> CHR ''#'' \<and> c \<noteq> CHR ''?'' \<and> c \<noteq> CHR ''/''"
  by (auto simp: url_safe_def query_unreserved_def is_alnum_def Let_def)

lemma Join_chars: "x \<in> set (Join xs sep) \<Longrightarrow> (\<exists>y \<in> set xs. x \<in> set y) \<or> x \<in> set sep"
  by (induction xs sep rule: Join.induct) auto

lemma Encode_safe: "c \<in> set (Encode kvs) \<Longrightarrow> url_safe c"
  unfolding Encode_def
  by (drule Join_chars) (auto simp: url_safe_def dest: QueryEscape_chars)

lemma parse_raw_query_config:
  assumes "\<forall>c \<in> set q. url_safe c"
  shows "parse_raw_query (''qwdtt://config?'' @ q) = Some q"
proof -
  let ?raw = "''qwdtt://config?'' @ q"
  have no: "CHR ''#'' \<notin> set ?raw" "CHR ''?'' \<notin> set q" using assms url_safe_not by auto
  have cut1: "Cut ?raw ''#'' = None" using Index_byte_None [OF no(1)] by (simp add: Cut_def)
  have gr: "graphic ?raw" using assms url_safe_graphic by (auto simp: graphic_def)
  have ctl: "\<not> has_ctl ?raw" using gr by (auto simp: has_ctl_def graphic_def)
  have rest: "TrimPrefix ?raw ''qwdtt:'' = ''//config'' @ CHR ''?'' # q"
    by (simp add: TrimPrefix_def HasPrefix_def)
  have cut2: "Cut (''//config'' @ CHR ''?'' # q) ''?'' = Some (''//config'', q)"
    using Index_byte_append [of "CHR ''?''" "''//config''" q] by (simp add: Cut_def)
  have auth: "TrimPrefix ''//config'' ''//'' = ''config''" "Index ''config'' ''/'' = None" "authority_ok ''config''"
    by code_simp+
  show ?thesis
    unfolding parse_raw_query_def cut1 option.case prod.case Let_def
    using ctl by (simp only: rest cut2 option.case prod.case auth if_False) simp
qed

lemma linkValues_get:
  assumes "link_ok l"
  shows "query_get (linkValues l) ''name'' = Name l"
    "query_get (linkValues l) ''peer'' = IP l @ '':'' @ DTLSPort l"
    "query_get (linkValues l) ''pass'' = Password l"
    "query_get (linkValues l) ''hashes'' = Join (Hashes l) '',''"
    "query_get (linkValues l) ''workers'' = Itoa (Workers l)"
    "query_get (linkValues l) ''port'' = Port l"
    "distinct (map fst (linkValues l))"
  using assms by (auto simp: linkValues_def query_get_def link_ok_def validateWorkers_def split: if_splits)

lemma parseWorkers_Itoa:
  assumes "validateWorkers n = None" "n < 2 ^ 63"
  shows "parseWorkers (Itoa n) = Inr n"
proof -
  have n: "0 < n" using assms(1) by (auto simp: validateWorkers_def split: if_splits)
  then have "Itoa n \<noteq> []" using nat_digits_ne by (simp add: Itoa_def)
  moreover have "Atoi (Itoa n) = Some n" using n assms(2) by (intro Atoi_Itoa) auto
  ultimately show ?thesis using assms(1) by (simp add: parseWorkers_def)
qed

lemma splitPeer_join: "CHR '':'' \<notin> set p \<Longrightarrow> splitPeer (ip @ CHR '':'' # p) = (ip, p)"
  by (simp add: splitPeer_def LastIndexByte_append)

lemma TrimSpace_config_url: "TrimSpace (buildQwdttConfigURL l) = buildQwdttConfigURL l"
proof (rule TrimSpace_ends)
  have "Encode (linkValues l) \<noteq> []"
  proof
    assume "Encode (linkValues l) = []"
    then have "ParseQuery [] = sort_key fst (linkValues l)"
      using ParseQuery_Encode [of "linkValues l"] by (simp add: linkValues_def)
    moreover have "ParseQuery [] = []" by (simp add: ParseQuery_def parse_pair_def List.map_filter_def)
    ultimately have "length (linkValues l) = 0" by (metis length_sort list.size(3))
    then show False by (simp add: linkValues_def)
  qed
  then have "last (buildQwdttConfigURL l) \<in> set (Encode (linkValues l))" by (simp add: buildQwdttConfigURL_def)
  then show "graphic [last (buildQwdttConfigURL l)]" using Encode_safe url_safe_graphic by blast
  show "graphic [hd (buildQwdttConfigURL l)]" by (simp add: buildQwdttConfigURL_def graphic_def)
qed

lemma config_url_roundtrip:
  assumes ok: "link_ok l"
  shows "parseLink (buildQwdttConfigURL l) = Inr l"
proof -
  let ?u = "buildQwdttConfigURL l"
  have pq: "parse_raw_query ?u = Some (Encode (linkValues l))"
    unfolding buildQwdttConfigURL_def using Encode_safe by (intro parse_raw_query_config) blast
  have q: "ParseQuery (Encode (linkValues l)) = sort_key fst (linkValues l)"
    by (rule ParseQuery_Encode) (simp add: linkValues_def)
  note get = linkValues_get [OF ok]
  have g: "query_get (sort_key fst (linkValues l)) k = query_get (linkValues l) k" for k
    by (rule query_get_sort) (rule get(7))
  have nc: "\<not> HasPrefix ?u ''wdtt://''" "HasPrefix ?u ''qwdtt://''"
    by (simp_all add: buildQwdttConfigURL_def HasPrefix_def)
  have hs: "(if Join (Hashes l) '','' \<noteq> [] then splitHashes (Join (Hashes l) '','') else []) = Hashes l"
    using ok splitHashes_Join [of "Hashes l"] Join_ne [of "Hashes l"]
    by (cases "Hashes l = []") (auto simp: link_ok_def)
  have w: "parseWorkers (Itoa (Workers l)) = Inr (Workers l)"
    using ok by (intro parseWorkers_Itoa) (simp_all add: link_ok_def)
  have peer: "splitPeer (IP l @ '':'' @ DTLSPort l) = (IP l, DTLSPort l)"
    using ok splitPeer_join [of "DTLSPort l" "IP l"] by (simp add: link_ok_def)
  have "parseQwdttConfigURL ?u = Inr l"
    unfolding parseQwdttConfigURL_def TrimSpace_config_url pq option.case Let_def q g get(1-6) hs w
    using ok peer by (simp add: link_ok_def)
  then show ?thesis by (simp add: parseLink_def TrimSpace_config_url nc Let_def)
qed

text \<open>
  C17.  Round trip of configuration links: the \<open>qwdtt://config\<close> link built from a well-formed configuration, with
  any bytes in the name and the password, parses back to the same configuration.
\<close>

theorem qwdtt_link_roundtrip: "link_ok l \<Longrightarrow> parseLink (buildQwdttConfigURL l) = Inr l"
  by (rule config_url_roundtrip)

definition demo_link :: WdttLink where
  "demo_link = \<lparr>IP = ''1.2.3.4'', DTLSPort = ''56000'', Password = ''p&s=%+#?'', Hashes = [''h1'', ''h2''],
     Name = ''my home'', Workers = 18, Port = ''9000''\<rparr>"

lemma demo_link_ok: "link_ok demo_link"
proof -
  have "TrimSpace ''my home'' = ''my home''" "TrimSpace ''p&s=%+#?'' = ''p&s=%+#?''"
    "TrimSpace ''1.2.3.4:56000'' = ''1.2.3.4:56000''" "TrimSpace ''h1'' = ''h1''" "TrimSpace ''h2'' = ''h2''"
    "TrimSpace ''9000'' = ''9000''"
    by (rule TrimSpace_ends; simp add: graphic_def)+
  then show ?thesis
    by (simp add: link_ok_def demo_link_def hashes_ok_def validateWorkers_def defaultWorkers_def)
qed

theorem qwdtt_link_roundtrip_witness: "parseLink (buildQwdttConfigURL demo_link) = Inr demo_link"
  by (rule qwdtt_link_roundtrip [OF demo_link_ok])

text \<open>What the parser of configuration links accepts is well formed, so links can be normalised by printing.\<close>

lemma parseQwdttConfigURL_ok:
  assumes "parseQwdttConfigURL raw = Inr l" shows "link_ok l"
proof -
  obtain rq where rq: "parse_raw_query (TrimSpace raw) = Some rq"
    using assms by (auto simp: parseQwdttConfigURL_def Let_def split: option.splits)
  let ?q = "ParseQuery rq"
  let ?peer = "TrimSpace (query_get ?q ''peer'')"
  obtain ip dp where sp: "splitPeer ?peer = (ip, dp)" by fastforce
  obtain w where w: "parseWorkers (query_get ?q ''workers'') = Inr w"
    and l: "l = \<lparr>IP = ip, DTLSPort = dp, Password = query_get ?q ''pass'',
        Hashes = (if query_get ?q ''hashes'' \<noteq> [] then splitHashes (query_get ?q ''hashes'') else []),
        Name = (if TrimSpace (query_get ?q ''name'') = [] then ''Server'' else query_get ?q ''name''),
        Workers = w,
        Port = (if TrimSpace (query_get ?q ''port'') = [] then defaultListenPort else TrimSpace (query_get ?q ''port''))\<rparr>"
    and ne: "TrimSpace (query_get ?q ''pass'') \<noteq> []" "ip \<noteq> []" "dp \<noteq> []"
    using assms rq sp
    by (auto simp: parseQwdttConfigURL_def Let_def split: if_splits sum.splits)
  have "ip @ '':'' @ dp = ?peer \<and> CHR '':'' \<notin> set dp"
    using sp ne(3) LastIndexByte_split [of ?peer "CHR '':''"] by (auto simp: splitPeer_def split: option.splits)
  moreover have "validateWorkers w = None \<and> w < 2 ^ 63"
    using w by (auto simp: parseWorkers_def validateWorkers_def defaultWorkers_def Atoi_def Let_def
        split: if_splits option.splits)
  moreover have "TrimSpace ''Server'' = ''Server''" "TrimSpace ''9000'' = ''9000''"
    by (rule TrimSpace_ends; simp add: graphic_def)+
  moreover have "hashes_ok []" by (simp add: hashes_ok_def)
  ultimately show ?thesis
    using ne splitHashes_ok by (auto simp: link_ok_def l defaultListenPort_def)
qed

text \<open>
  Every configuration link that the parser accepts denotes a well-formed configuration (non-empty peer address,
  port and password, a positive multiple of nine workers, clean hashes), and printing the configuration gives
  a link with the same meaning.
\<close>

lemma qwdtt_parse_canonical:
  assumes "HasPrefix (TrimSpace raw) ''qwdtt://''" "parseLink raw = Inr l"
  shows "link_ok l \<and> parseLink (buildQwdttConfigURL l) = Inr l"
proof -
  have "\<not> HasPrefix (TrimSpace raw) ''wdtt://''" using assms(1) by (auto simp: HasPrefix_iff)
  then have "parseQwdttConfigURL (TrimSpace raw) = Inr l" using assms by (simp add: parseLink_def Let_def)
  then have "link_ok l" by (rule parseQwdttConfigURL_ok)
  then show ?thesis using config_url_roundtrip by blast
qed

section \<open>The classic link\<close>

lemma SplitByte_prefix_fields:
  assumes "CHR '':'' \<notin> set a" "CHR '':'' \<notin> set b"
  shows "SplitByte CHR '':'' (a @ '':'' @ b @ '':0:9000:'' @ t) = [a, b, ''0'', ''9000''] @ SplitByte CHR '':'' t"
proof -
  have "SplitByte CHR '':'' (a @ CHR '':'' # (b @ CHR '':'' # (''0'' @ CHR '':'' # (''9000'' @ CHR '':'' # t))))
      = a # b # ''0'' # ''9000'' # SplitByte CHR '':'' t"
    using assms by (subst SplitByte_append; simp)+
  then show ?thesis by simp
qed

text \<open>
  Round trip of classic links: the \<open>wdtt://\<close> link that \<open>share\<close> prints for a profile is parsed by \<open>add\<close> to the
  same peer, password, hashes and name.  The password may contain colons and hash signs; the address must
  be free of colons, so an IPv6 peer does not qualify.
\<close>

lemma wdtt_link_roundtrip:
  assumes "CHR '':'' \<notin> set ip" "ip \<noteq> []" "CHR '':'' \<notin> set port" "port \<noteq> []" "password \<noteq> []"
    and "hashes_ok hashes" "\<forall>h \<in> set hashes. CHR '':'' \<notin> set h \<and> CHR ''#'' \<notin> set h"
    and "name \<noteq> []" "TrimSpace name = name" "CHR ''#'' \<notin> set name"
    and "TrimSpace (shareWdttURL ip port password hashes name) = shareWdttURL ip port password hashes name"
  shows "parseLink (shareWdttURL ip port password hashes name) =
    Inr \<lparr>IP = ip, DTLSPort = port, Password = password, Hashes = hashes, Name = name, Workers = 9, Port = ''9000''\<rparr>"
proof -
  let ?hs = "Join hashes '',''"
  let ?tail = "password @ CHR '':'' # ?hs @ CHR ''#'' # name"
  let ?u = "shareWdttURL ip port password hashes name"
  have strip: "TrimPrefix ?u ''wdtt://'' = ip @ '':'' @ port @ '':0:9000:'' @ ?tail"
    by (simp add: shareWdttURL_def TrimPrefix_def HasPrefix_def)
  have split: "SplitByte CHR '':'' (ip @ '':'' @ port @ '':0:9000:'' @ ?tail) = [ip, port, ''0'', ''9000''] @ SplitByte CHR '':'' ?tail"
    using assms(1,3) by (rule SplitByte_prefix_fields)
  have l4: "0 < length (SplitByte CHR '':'' ?tail)" by simp
  have join: "Join (SplitByte CHR '':'' ?tail) '':'' = ?tail" by (rule Join_SplitByte)
  have hash: "LastIndexByte ?tail CHR ''#'' = Some (length (password @ CHR '':'' # ?hs))"
    using LastIndexByte_append [OF assms(10), of "password @ CHR '':'' # ?hs"] by simp
  have nocolon: "CHR '':'' \<notin> set ?hs" using assms(7) by (auto dest: Join_chars)
  have colon: "LastIndexByte (password @ CHR '':'' # ?hs) CHR '':'' = Some (length password)"
    using LastIndexByte_append [OF nocolon] by blast
  have pre: "HasPrefix ?u ''wdtt://''" by (simp add: shareWdttURL_def HasPrefix_def)
  have "parseWdttURL ?u =
    Inr \<lparr>IP = ip, DTLSPort = port, Password = password, Hashes = hashes, Name = name, Workers = 9, Port = ''9000''\<rparr>"
    unfolding parseWdttURL_def assms(11) strip split Let_def
    using l4 assms splitHashes_Join [OF assms(6)]
    by (simp add: join hash colon defaultWorkers_def defaultListenPort_def)
  then show ?thesis using pre by (simp add: parseLink_def assms(11) Let_def)
qed

lemma wdtt_link_sample:
  "parseLink (shareWdttURL ''1.2.3.4'' ''56000'' ''pa:ss#1'' [''h1'', ''h2''] ''Home'') =
    Inr \<lparr>IP = ''1.2.3.4'', DTLSPort = ''56000'', Password = ''pa:ss#1'', Hashes = [''h1'', ''h2''], Name = ''Home'',
         Workers = 9, Port = ''9000''\<rparr>"
proof (rule wdtt_link_roundtrip)
  have t: "TrimSpace ''h1'' = ''h1''" "TrimSpace ''h2'' = ''h2''" by (rule TrimSpace_ends; simp add: graphic_def)+
  then show "hashes_ok [''h1'', ''h2'']" by (simp add: hashes_ok_def)
  show "TrimSpace ''Home'' = ''Home''" by (rule TrimSpace_ends; simp add: graphic_def)
  show "TrimSpace (shareWdttURL ''1.2.3.4'' ''56000'' ''pa:ss#1'' [''h1'', ''h2''] ''Home'') =
      shareWdttURL ''1.2.3.4'' ''56000'' ''pa:ss#1'' [''h1'', ''h2''] ''Home''"
    by (rule TrimSpace_ends; simp add: shareWdttURL_def graphic_def)
qed simp_all

end
