(* ===== verification/Profiles.thy ===== *)
theory Profiles
  imports Links Complex_Main "HOL-Library.AList"
begin

text \<open>
  The configuration directory: \<open>profile.go\<close>, \<open>config.go\<close> and the profile commands of \<open>commands.go\<close> (\<open>add\<close>, \<open>edit\<close>,
  \<open>remove\<close>, \<open>move\<close>, \<open>enable\<close>, \<open>disable\<close>, \<open>device-id\<close>, the name lists and masks).

  The files are the state: profile and subscription files by name, \<open>status.json\<close>, the pointer files, the device id and
  the link files that profiles refer to.  A JSON file holds a decoded value or \<open>Garbage\<close> that does not parse; strings are
  valid UTF-8, so that encoding and decoding are inverse, and \<open>status.json\<close> is not the literal \<open>null\<close>.  Names are free of
  path separators; \<open>ro-profiles\<close> holds the files whose names start with \<open>ro-\<close> and \<open>profiles\<close> the others.  Every
  read, write and removal may fail, leaving the file as it was: \<open>io\<close> says which ones do, so that all error branches
  are behaviours of the model.  Random bytes and answers at prompts are arguments.
\<close>

section \<open>Data\<close>

datatype 'a stored = Good 'a | Garbage

record ProfileData =
  pPeerAddr :: string
  pPassword :: string
  pHashes :: "string list"
  pListen :: string
  pTurnHost :: string
  pTurnPort :: string
  pWorkers :: int
  pDeviceID :: string
  pPriority :: int
  pLinkFile :: string
  pGroups :: "string list"
  pSubscription :: string

record SubscriptionConfig =
  sURL :: string
  sName :: string
  sDescription :: string
  sTrafficUsedMb :: rat
  sTrafficLimitMb :: rat
  sUpdatedAt :: string
  sVersion :: int
  sProfiles :: "string list"
  sLastFetch :: string

record store =
  profFiles :: "(string \<times> ProfileData stored) list"
  subFiles :: "(string \<times> SubscriptionConfig stored) list"
  statusFile :: "(string \<times> bool) list stored option"
  activeFile :: "string option"
  autoswitchFile :: "string option"
  deviceFile :: "string option"
  linkFiles :: "(string \<times> string) list"

datatype path = ProfileP string | SubP string | StatusP | ActiveP | AutoswitchP | DeviceP | LinkP string
datatype fsop = ReadFile path | WriteFile path | RemoveFile path

type_synonym io = "fsop \<Rightarrow> bool"

datatype store_error =
    NotFound | ReadFailed | ParseFailed | WriteFailed | RemoveFailed | ReadOnly | AlreadyExists
  | LinkUnreadable | LinkInvalid link_error | SameName | Managed string | Running | Usage | NotManaged | NotReadOnly
  | BadWorkers link_error | BlockedGroups "string list" | BadDeviceID | Fetch | BadJSON | NoProfiles | MissingField string

definition isRO :: "string \<Rightarrow> bool" where
  "isRO name \<longleftrightarrow> HasPrefix name ''ro-''"

section \<open>Statuses\<close>

definition loadStatuses :: "io \<Rightarrow> store \<Rightarrow> store_error + (string \<times> bool) list" where
  "loadStatuses io s =
     (if io (ReadFile StatusP) then Inl ReadFailed
      else case statusFile s of
        None \<Rightarrow> Inr []
      | Some Garbage \<Rightarrow> Inl ParseFailed
      | Some (Good m) \<Rightarrow> Inr m)"

definition saveStatuses :: "io \<Rightarrow> (string \<times> bool) list \<Rightarrow> store \<Rightarrow> store_error option \<times> store" where
  "saveStatuses io m s =
     (if io (WriteFile StatusP) then (Some WriteFailed, s) else (None, s\<lparr>statusFile := Some (Good m)\<rparr>))"

definition isProfileEnabled :: "io \<Rightarrow> store \<Rightarrow> string \<Rightarrow> bool" where
  "isProfileEnabled io s name =
     (case loadStatuses io s of
        Inl _ \<Rightarrow> True
      | Inr m \<Rightarrow> (case map_of m name of Some b \<Rightarrow> b | None \<Rightarrow> True))"

definition setProfileEnabled :: "io \<Rightarrow> string \<Rightarrow> bool \<Rightarrow> store \<Rightarrow> store_error option \<times> store" where
  "setProfileEnabled io name enabled s =
     (let m = (case loadStatuses io s of Inl _ \<Rightarrow> [] | Inr m \<Rightarrow> m)
      in saveStatuses io (AList.update name enabled m) s)"

section \<open>Device id and pointer files\<close>

definition hexEncode :: "bytes \<Rightarrow> string" where
  "hexEncode bs = concat (map (\<lambda>b. let n = unat b; d = (\<lambda>k. if k < 10 then char_of (48 + k) else char_of (87 + k :: nat))
                                   in [d (n div 16), d (n mod 16)]) bs)"

text \<open>\<open>draw\<close> are the eight bytes from \<open>crypto/rand\<close> or, if that fails, from the clock.\<close>

definition getOrCreateDeviceID :: "io \<Rightarrow> bytes \<Rightarrow> store \<Rightarrow> string \<times> store" where
  "getOrCreateDeviceID io draw s =
     (let old = (if io (ReadFile DeviceP) then None else deviceFile s) in
      case old of
        Some data \<Rightarrow>
          if length (TrimSpace data) = 16 then (TrimSpace data, s)
          else (hexEncode draw, if io (WriteFile DeviceP) then s else s\<lparr>deviceFile := Some (hexEncode draw)\<rparr>)
      | None \<Rightarrow> (hexEncode draw, if io (WriteFile DeviceP) then s else s\<lparr>deviceFile := Some (hexEncode draw)\<rparr>))"

definition setActiveProfile :: "io \<Rightarrow> string \<Rightarrow> store \<Rightarrow> store" where
  "setActiveProfile io name s = (if io (WriteFile ActiveP) then s else s\<lparr>activeFile := Some name\<rparr>)"

definition getActiveProfile :: "io \<Rightarrow> store \<Rightarrow> string" where
  "getActiveProfile io s =
     (if io (ReadFile ActiveP) then [] else case activeFile s of None \<Rightarrow> [] | Some d \<Rightarrow> TrimSpace d)"

definition clearActiveProfile :: "io \<Rightarrow> store \<Rightarrow> store" where
  "clearActiveProfile io s = (if io (RemoveFile ActiveP) then s else s\<lparr>activeFile := None\<rparr>)"

definition setAutoswitchCurrentProfile :: "io \<Rightarrow> string \<Rightarrow> store \<Rightarrow> store" where
  "setAutoswitchCurrentProfile io name s = (if io (WriteFile AutoswitchP) then s else s\<lparr>autoswitchFile := Some name\<rparr>)"

definition getAutoswitchCurrentProfile :: "io \<Rightarrow> store \<Rightarrow> string" where
  "getAutoswitchCurrentProfile io s =
     (if io (ReadFile AutoswitchP) then [] else case autoswitchFile s of None \<Rightarrow> [] | Some d \<Rightarrow> TrimSpace d)"

definition clearAutoswitchCurrentProfile :: "io \<Rightarrow> store \<Rightarrow> store" where
  "clearAutoswitchCurrentProfile io s = (if io (RemoveFile AutoswitchP) then s else s\<lparr>autoswitchFile := None\<rparr>)"

section \<open>Loading and saving a profile\<close>

text \<open>\<open>strings.ReplaceAll(s, old, "")\<close> for a non-empty \<open>old\<close>.\<close>

function removeAll_str :: "string \<Rightarrow> string \<Rightarrow> string" where
  "removeAll_str old s =
     (if s = [] \<or> old = [] then s
      else if HasPrefix s old then removeAll_str old (drop (length old) s)
      else hd s # removeAll_str old (tl s))"
  by auto
termination
  by (relation "measure (\<lambda>(_, s). length s)") auto

declare removeAll_str.simps [simp del]

definition cleanPassword :: "string \<Rightarrow> string" where
  "cleanPassword p =
     removeAll_str [CHR 0x0D] (removeAll_str [CHR 0x0A] (removeAll_str [CHR 0x5C, CHR ''n''] (TrimSpace p)))"

definition fromLinkFile :: "io \<Rightarrow> store \<Rightarrow> ProfileData \<Rightarrow> store_error + ProfileData" where
  "fromLinkFile io s p =
     (case (if io (ReadFile (LinkP (pLinkFile p))) then None else map_of (linkFiles s) (pLinkFile p)) of
        None \<Rightarrow> Inl LinkUnreadable
      | Some data \<Rightarrow>
          (case parseLink (TrimSpace data) of
             Inl e \<Rightarrow> Inl (LinkInvalid e)
           | Inr link \<Rightarrow>
               (let p1 = p\<lparr>pPeerAddr := IP link @ '':'' @ DTLSPort link, pPassword := Password link, pHashes := Hashes link\<rparr>;
                    p2 = (if Workers link > 0 then p1\<lparr>pWorkers := Workers link\<rparr> else p1)
                in Inr (if Port link \<noteq> [] then p2\<lparr>pListen := ''127.0.0.1:'' @ Port link\<rparr> else p2))))"

definition loadProfile :: "io \<Rightarrow> store \<Rightarrow> string \<Rightarrow> store_error + ProfileData" where
  "loadProfile io s name =
     (if io (ReadFile (ProfileP name)) then Inl ReadFailed
      else case map_of (profFiles s) name of
        None \<Rightarrow> Inl NotFound
      | Some Garbage \<Rightarrow> Inl ParseFailed
      | Some (Good p0) \<Rightarrow>
          (let p = p0\<lparr>pPassword := cleanPassword (pPassword p0)\<rparr>
           in if (pPeerAddr p = [] \<or> pPassword p = []) \<and> pLinkFile p \<noteq> [] then fromLinkFile io s p else Inr p))"

definition withGroup :: "ProfileData \<Rightarrow> ProfileData" where
  "withGroup p =
     (if pSubscription p \<noteq> [] \<and> pSubscription p \<notin> set (pGroups p)
      then p\<lparr>pGroups := pGroups p @ [pSubscription p]\<rparr> else p)"

definition saveProfile :: "io \<Rightarrow> bytes \<Rightarrow> string \<Rightarrow> ProfileData \<Rightarrow> store \<Rightarrow> store_error option \<times> store" where
  "saveProfile io draw name p s =
     (if isRO name then (Some ReadOnly, s)
      else
        let (p1, s1) = (if pDeviceID p = []
                        then (case getOrCreateDeviceID io draw s of (did, s') \<Rightarrow> (p\<lparr>pDeviceID := did\<rparr>, s'))
                        else (p, s));
            p2 = withGroup p1
        in if io (WriteFile (ProfileP name)) then (Some WriteFailed, s1)
           else (None, s1\<lparr>profFiles := AList.update name (Good p2) (profFiles s1)\<rparr>))"

definition removeProfile :: "io \<Rightarrow> string \<Rightarrow> store \<Rightarrow> store_error option \<times> store" where
  "removeProfile io name s =
     (if map_of (profFiles s) name = None then (Some NotFound, s)
      else if io (RemoveFile (ProfileP name)) then (Some RemoveFailed, s)
      else (None, s\<lparr>profFiles := AList.delete name (profFiles s)\<rparr>))"

definition profileExists :: "store \<Rightarrow> string \<Rightarrow> bool" where
  "profileExists s name \<longleftrightarrow> map_of (profFiles s) name \<noteq> None"

definition maskPassword :: "string \<Rightarrow> string" where
  "maskPassword pwd =
     (if length pwd \<le> 6 then ''****'' else take 3 pwd @ ''****'' @ drop (length pwd - 3) pwd)"

definition moveStatus :: "io \<Rightarrow> string \<Rightarrow> string \<Rightarrow> store \<Rightarrow> store" where
  "moveStatus io oldName newName s =
     (case loadStatuses io s of
        Inl _ \<Rightarrow> s
      | Inr m \<Rightarrow>
          (case map_of m oldName of
             None \<Rightarrow> s
           | Some enabled \<Rightarrow> snd (saveStatuses io (AList.delete oldName (AList.update newName enabled m)) s)))"

definition movePointers :: "io \<Rightarrow> string \<Rightarrow> string \<Rightarrow> store \<Rightarrow> store" where
  "movePointers io oldName newName s =
     (let s1 = (if getActiveProfile io s = oldName then setActiveProfile io newName s else s)
      in if getAutoswitchCurrentProfile io s1 = oldName then setAutoswitchCurrentProfile io newName s1 else s1)"

definition renameProfile :: "io \<Rightarrow> bytes \<Rightarrow> string \<Rightarrow> string \<Rightarrow> store \<Rightarrow> store_error option \<times> store" where
  "renameProfile io draw oldName newName s =
     (if isRO oldName \<or> isRO newName then (Some ReadOnly, s)
      else case loadProfile io s oldName of
        Inl e \<Rightarrow> (Some e, s)
      | Inr prof \<Rightarrow>
          if profileExists s newName then (Some AlreadyExists, s)
          else case saveProfile io draw newName prof s of
            (Some e, s1) \<Rightarrow> (Some e, s1)
          | (None, s1) \<Rightarrow>
              (case removeProfile io oldName s1 of
                 (Some e, _) \<Rightarrow> (Some RemoveFailed, snd (removeProfile io newName s1))
               | (None, s2) \<Rightarrow> (None, movePointers io oldName newName (moveStatus io oldName newName s2))))"

section \<open>Name lists and masks\<close>

definition dirNames :: "bool \<Rightarrow> store \<Rightarrow> string list" where
  "dirNames ro s = sort_key (\<lambda>n. n @ ''.json'') (filter (\<lambda>n. isRO n = ro) (map fst (profFiles s)))"

definition listAllProfileNames :: "store \<Rightarrow> string list" where
  "listAllProfileNames s = dirNames False s @ dirNames True s"

definition listReadOnlyProfileNames :: "store \<Rightarrow> string list" where
  "listReadOnlyProfileNames s = dirNames True s"

definition listDisabledProfileNames :: "io \<Rightarrow> store \<Rightarrow> string list" where
  "listDisabledProfileNames io s = filter (\<lambda>n. \<not> isProfileEnabled io s n) (listAllProfileNames s)"

definition profilePriority :: "io \<Rightarrow> store \<Rightarrow> string \<Rightarrow> int" where
  "profilePriority io s n = (case loadProfile io s n of Inr p \<Rightarrow> pPriority p | Inl _ \<Rightarrow> 0)"

definition listProfileNames :: "io \<Rightarrow> store \<Rightarrow> string list" where
  "listProfileNames io s =
     (let ok = filter (\<lambda>n. (case loadProfile io s n of Inr _ \<Rightarrow> True | Inl _ \<Rightarrow> False) \<and> isProfileEnabled io s n)
                 (listAllProfileNames s)
      in sort_key (\<lambda>n. - profilePriority io s n) (sort ok))"

definition profilesInGroup :: "io \<Rightarrow> store \<Rightarrow> string \<Rightarrow> string list" where
  "profilesInGroup io s grp =
     sort (filter (\<lambda>n. case loadProfile io s n of Inr p \<Rightarrow> grp \<in> set (pGroups p) | Inl _ \<Rightarrow> False) (listAllProfileNames s))"

text \<open>
  Glob patterns of \<open>filepath.Match\<close> over code points: \<open>GStar\<close>, \<open>GAny\<close>, a literal, or a class with its ranges.  \<open>None\<close> is
  \<open>ErrBadPattern\<close>.
\<close>

datatype glob = GStar | GAny | GLit string | GClass bool "(string \<times> string) list"

definition class_char :: "string list \<Rightarrow> (string \<times> string list) option" where
  "class_char rs =
     (case rs of
        [] \<Rightarrow> None
      | r # rest \<Rightarrow>
          if r = ''-'' \<or> r = '']'' then None
          else if r = [CHR 0x5C] then (case rest of [] \<Rightarrow> None | c # rest' \<Rightarrow> if rest' = [] then None else Some (c, rest'))
          else if rest = [] then None else Some (r, rest))"

function class_ranges :: "bool \<Rightarrow> string list \<Rightarrow> ((string \<times> string) list \<times> string list) option" where
  "class_ranges first rs =
     (if \<not> first \<and> rs \<noteq> [] \<and> hd rs = '']'' then Some ([], tl rs)
      else case class_char rs of
        None \<Rightarrow> None
      | Some (lo, rest) \<Rightarrow>
          (case (if rest \<noteq> [] \<and> hd rest = ''-'' then class_char (tl rest) else Some (lo, rest)) of
             None \<Rightarrow> None
           | Some (hi, rest') \<Rightarrow>
               if length rest' < length rs
               then map_option (\<lambda>(ps, r). ((lo, hi) # ps, r)) (class_ranges False rest') else None))"
  by auto
termination
  by (relation "measure (\<lambda>(_, rs). length rs)") auto

declare class_ranges.simps [simp del]

function parseGlob :: "string list \<Rightarrow> glob list option" where
  "parseGlob rs =
     (case rs of
        [] \<Rightarrow> Some []
      | r # rest \<Rightarrow>
          if r = ''*'' then map_option (Cons GStar) (parseGlob rest)
          else if r = ''?'' then map_option (Cons GAny) (parseGlob rest)
          else if r = [CHR 0x5C] then
            (case rest of [] \<Rightarrow> None | c # rest' \<Rightarrow> map_option (Cons (GLit c)) (parseGlob rest'))
          else if r = ''['' then
            (let neg = (rest \<noteq> [] \<and> hd rest = ''^'');
                 body = (if neg then tl rest else rest)
             in case class_ranges True body of
                  None \<Rightarrow> None
                | Some (ps, rest') \<Rightarrow>
                    if length rest' < length rs then map_option (Cons (GClass neg ps)) (parseGlob rest') else None)
          else map_option (Cons (GLit r)) (parseGlob rest))"
  by auto
termination
  by (relation "measure length") auto

declare parseGlob.simps [simp del]

fun matchGlob :: "glob list \<Rightarrow> string list \<Rightarrow> bool" where
  "matchGlob [] s = (s = [])"
| "matchGlob (GStar # g) [] = matchGlob g []"
| "matchGlob (GStar # g) (r # s) = (matchGlob g (r # s) \<or> (r \<noteq> ''/'' \<and> matchGlob (GStar # g) s))"
| "matchGlob (GAny # g) (r # s) = (r \<noteq> ''/'' \<and> matchGlob g s)"
| "matchGlob (GLit c # g) (r # s) = (c = r \<and> matchGlob g s)"
| "matchGlob (GClass neg ps # g) (r # s) =
     (((\<exists>(lo, hi) \<in> set ps. lo \<le> r \<and> r \<le> hi) \<noteq> neg) \<and> matchGlob g s)"
| "matchGlob (_ # g) [] = False"

definition Match :: "string \<Rightarrow> string \<Rightarrow> bool" where
  "Match pat name = (case parseGlob (runes pat) of None \<Rightarrow> False | Some g \<Rightarrow> matchGlob g (runes name))"

definition isMask :: "string \<Rightarrow> bool" where
  "isMask n \<longleftrightarrow> (\<exists>c \<in> set n. c \<in> set ''*?['')"

definition expandOne :: "store \<Rightarrow> string \<Rightarrow> string list" where
  "expandOne s n =
     (if HasPrefix n ''wdtt://'' \<or> HasPrefix n ''qwdtt://'' then [n]
      else if isMask n then filter (Match n) (listAllProfileNames s)
      else [n])"

definition expandProfileMasks :: "store \<Rightarrow> string list \<Rightarrow> string list" where
  "expandProfileMasks s names = collect_unique (\<lambda>n. n \<noteq> []) (concat (map (expandOne s) names))"

definition collectTargets :: "io \<Rightarrow> store \<Rightarrow> string \<Rightarrow> string list \<Rightarrow> string list" where
  "collectTargets io s grp explicit =
     collect_unique (\<lambda>n. n \<noteq> []) ((if grp \<noteq> [] then profilesInGroup io s grp else []) @ expandProfileMasks s explicit)"

section \<open>Commands\<close>

text \<open>
  Flags may stand anywhere among the arguments; \<open>isBool\<close> says which flags take no value.  The remaining arguments of the
  commands are the values that the \<open>flag\<close> package parsed.
\<close>

fun splitFlagsAndArgs :: "(string \<Rightarrow> bool) \<Rightarrow> string list \<Rightarrow> string list \<times> string list" where
  "splitFlagsAndArgs isBool [] = ([], [])"
| "splitFlagsAndArgs isBool (a # args) =
     (if HasPrefix a ''-'' \<and> a \<noteq> ''-'' then
        (let name = dropWhile (\<lambda>c. c = CHR ''-'') a in
         if CHR ''='' \<in> set a \<or> isBool name \<or> name = ''h'' \<or> name = ''help'' then
           (case splitFlagsAndArgs isBool args of (fl, ps) \<Rightarrow> (a # fl, ps))
         else
           (case args of
              [] \<Rightarrow> ([a], [])
            | v # rest \<Rightarrow> (case splitFlagsAndArgs isBool rest of (fl, ps) \<Rightarrow> (a # v # fl, ps))))
      else (case splitFlagsAndArgs isBool args of (fl, ps) \<Rightarrow> (fl, a # ps)))"

text \<open>\<open>os.Args[2:]\<close>, and what \<open>fs.Parse(os.Args[3:])\<close> leaves: the device id and the first positional argument.\<close>

definition addName :: "string list \<Rightarrow> string \<Rightarrow> store_error + (string \<times> string)" where
  "addName args arg0 =
     (if args \<noteq> [] \<and> (HasPrefix (hd args) ''wdtt://'' \<or> HasPrefix (hd args) ''qwdtt://'') then Inr ([], hd args)
      else if length args < 2 then Inl Usage
      else if arg0 = [] then Inl Usage else Inr (hd args, arg0))"

definition addedProfile :: "WdttLink \<Rightarrow> string \<Rightarrow> string list \<Rightarrow> ProfileData" where
  "addedProfile link devID groups =
     \<lparr>pPeerAddr = IP link @ '':'' @ DTLSPort link, pPassword = Password link, pHashes = Hashes link,
      pListen = ''127.0.0.1:'' @ (if Port link \<noteq> [] then Port link else defaultListenPort), pTurnHost = [], pTurnPort = [],
      pWorkers = (if Workers link \<le> 0 then defaultWorkers else Workers link), pDeviceID = devID, pPriority = 0,
      pLinkFile = [], pGroups = groups, pSubscription = []\<rparr>"

definition addCmd :: "io \<Rightarrow> bytes \<Rightarrow> string list \<Rightarrow> string \<Rightarrow> string \<Rightarrow> store \<Rightarrow> store_error option \<times> store" where
  "addCmd io draw args deviceID arg0 s =
     (case addName args arg0 of
        Inl e \<Rightarrow> (Some e, s)
      | Inr (name0, rawURL) \<Rightarrow>
          (case parseLink rawURL of
             Inl e \<Rightarrow> (Some (LinkInvalid e), s)
           | Inr link \<Rightarrow>
               if name0 = [] \<and> (Name link = [] \<or> Name link = ''Server'') then (Some Usage, s)
               else
                 let name = transliterateCyrillic (if name0 = [] then Name link else name0);
                     (devID, s1) = (if deviceID = [] then getOrCreateDeviceID io draw s else (deviceID, s));
                     groups = (case loadProfile io s1 name of Inr existing \<Rightarrow> pGroups existing | Inl _ \<Rightarrow> [])
                 in saveProfile io draw name (addedProfile link devID groups) s1))"

record editFlags =
  eAny :: bool
  ePeer :: string
  ePassword :: string
  eHashes :: string
  eDeviceID :: string
  eListen :: string
  ePriority :: int
  eWorkers :: int
  eGroupsSet :: bool
  eGroups :: string

definition isSubscriptionName :: "store \<Rightarrow> string \<Rightarrow> bool" where
  "isSubscriptionName s name \<longleftrightarrow> map_of (subFiles s) name \<noteq> None"

definition editedFields :: "editFlags \<Rightarrow> ProfileData \<Rightarrow> ProfileData" where
  "editedFields f p0 =
     (let p1 = (if ePeer f \<noteq> [] then p0\<lparr>pPeerAddr := ePeer f\<rparr> else p0);
          p2 = (if ePassword f \<noteq> [] then p1\<lparr>pPassword := ePassword f\<rparr> else p1);
          p3 = (if eHashes f \<noteq> [] then p2\<lparr>pHashes := splitHashes (eHashes f)\<rparr> else p2);
          p4 = (if eDeviceID f \<noteq> [] then p3\<lparr>pDeviceID := eDeviceID f\<rparr> else p3);
          p5 = (if eListen f \<noteq> [] then p4\<lparr>pListen := eListen f\<rparr> else p4)
      in if ePriority f \<noteq> -1 then p5\<lparr>pPriority := ePriority f\<rparr> else p5)"

definition editWorkers :: "editFlags \<Rightarrow> ProfileData \<Rightarrow> store_error + ProfileData" where
  "editWorkers f p =
     (if eWorkers f = -1 then Inr p
      else case validateWorkers (eWorkers f) of
        Some e \<Rightarrow> Inl (BadWorkers e)
      | None \<Rightarrow> Inr (p\<lparr>pWorkers := eWorkers f\<rparr>))"

definition editGroups :: "store \<Rightarrow> editFlags \<Rightarrow> ProfileData \<Rightarrow> store_error + ProfileData" where
  "editGroups s f p =
     (if \<not> eGroupsSet f then Inr p
      else if pSubscription p \<noteq> [] then Inl (Managed (pSubscription p))
      else
        let val = TrimSpace (eGroups f) in
        if val = [] \<or> val = ''none'' then Inr (p\<lparr>pGroups := []\<rparr>)
        else
          let gs = filter (\<lambda>g. g \<noteq> ''none'') (splitHashes val);
              blocked = filter (isSubscriptionName s) gs
          in if blocked \<noteq> [] then Inl (BlockedGroups blocked) else Inr (p\<lparr>pGroups := gs\<rparr>))"

definition editChanged :: "editFlags \<Rightarrow> bool" where
  "editChanged f \<longleftrightarrow>
     ePeer f \<noteq> [] \<or> ePassword f \<noteq> [] \<or> eHashes f \<noteq> [] \<or> eDeviceID f \<noteq> [] \<or> eListen f \<noteq> [] \<or> ePriority f \<noteq> -1 \<or>
     eWorkers f \<noteq> -1 \<or> eGroupsSet f"

definition editOne :: "io \<Rightarrow> bytes \<Rightarrow> editFlags \<Rightarrow> string \<Rightarrow> store \<Rightarrow> store_error option \<times> store" where
  "editOne io draw f name s =
     (if isRO name then (Some ReadOnly, s)
      else case loadProfile io s name of
        Inl e \<Rightarrow> (Some e, s)
      | Inr p \<Rightarrow>
          (case editWorkers f (editedFields f p) of
             Inl e \<Rightarrow> (Some e, s)
           | Inr p1 \<Rightarrow>
               (case editGroups s f p1 of
                  Inl e \<Rightarrow> (Some e, s)
                | Inr p2 \<Rightarrow> if editChanged f then saveProfile io draw name p2 s else (None, s))))"

text \<open>A command that runs over its targets collects the errors and goes on; it exits with 1 if there were any.\<close>

fun eachTarget :: "(bytes \<Rightarrow> string \<Rightarrow> store \<Rightarrow> store_error option \<times> store) \<Rightarrow> (nat \<Rightarrow> bytes) \<Rightarrow> string list \<Rightarrow> store
    \<Rightarrow> (string \<times> store_error) list \<times> store" where
  "eachTarget op draw [] s = ([], s)"
| "eachTarget op draw (n # ns) s =
     (case op (draw 0) n s of
        (e, s1) \<Rightarrow>
          (case eachTarget op (\<lambda>k. draw (Suc k)) ns s1 of
             (es, s2) \<Rightarrow> ((case e of None \<Rightarrow> es | Some x \<Rightarrow> (n, x) # es), s2)))"

definition editCmd :: "io \<Rightarrow> (nat \<Rightarrow> bytes) \<Rightarrow> editFlags \<Rightarrow> string \<Rightarrow> string list \<Rightarrow> store
    \<Rightarrow> (string \<times> store_error) list \<times> store" where
  "editCmd io draw f grp names0 s =
     (let names = collectTargets io s grp names0 in
      if names = [] \<or> \<not> eAny f then ([([], Usage)], s)
      else eachTarget (\<lambda>d n. editOne io d f n) draw names s)"

definition removable :: "io \<Rightarrow> store \<Rightarrow> string \<Rightarrow> bool" where
  "removable io s name \<longleftrightarrow>
     \<not> isRO name \<and> (case loadProfile io s name of Inr p \<Rightarrow> pSubscription p = [] | Inl _ \<Rightarrow> True)"

definition confirmed :: "bool \<Rightarrow> string \<Rightarrow> bool" where
  "confirmed yes answer \<longleftrightarrow> yes \<or> lower_view (TrimSpace answer) \<in> {''y'', ''yes''}"

definition removeCmd :: "io \<Rightarrow> string \<Rightarrow> bool \<Rightarrow> string \<Rightarrow> string list \<Rightarrow> store \<Rightarrow> (string \<times> store_error) list \<times> store" where
  "removeCmd io grp yes answer names0 s =
     (let names = filter (removable io s) (collectTargets io s grp names0) in
      if names = [] then ([([], NotFound)], s)
      else if \<not> confirmed yes answer then ([], s)
      else eachTarget (\<lambda>_ n. removeProfile io n) (\<lambda>_. []) names s)"

definition moveCmd :: "io \<Rightarrow> bytes \<Rightarrow> (string \<Rightarrow> bool) \<Rightarrow> string list \<Rightarrow> store \<Rightarrow> store_error option \<times> store" where
  "moveCmd io draw isDaemonRunning positional s =
     (case positional of
        [oldName, newName] \<Rightarrow>
          if oldName = newName then (Some SameName, s)
          else if isRO oldName \<or> isRO newName then (Some ReadOnly, s)
          else (case loadProfile io s oldName of
                  Inr p \<Rightarrow>
                    if pSubscription p \<noteq> [] then (Some (Managed (pSubscription p)), s)
                    else if profileExists s newName then (Some AlreadyExists, s)
                    else if isDaemonRunning oldName then (Some Running, s)
                    else renameProfile io draw oldName newName s
                | Inl e \<Rightarrow>
                    if \<not> profileExists s oldName then (Some NotFound, s)
                    else if profileExists s newName then (Some AlreadyExists, s)
                    else if isDaemonRunning oldName then (Some Running, s)
                    else renameProfile io draw oldName newName s)
      | _ \<Rightarrow> (Some Usage, s))"

definition loadSubscription :: "io \<Rightarrow> store \<Rightarrow> string \<Rightarrow> store_error + SubscriptionConfig" where
  "loadSubscription io s name =
     (if io (ReadFile (SubP name)) then Inl ReadFailed
      else case map_of (subFiles s) name of
        None \<Rightarrow> Inl NotFound
      | Some Garbage \<Rightarrow> Inl ParseFailed
      | Some (Good c) \<Rightarrow> Inr c)"

definition listSubscriptions :: "store \<Rightarrow> string list" where
  "listSubscriptions s = sort_key (\<lambda>n. n @ ''.json'') (map fst (subFiles s))"

definition profilesInSubscription :: "io \<Rightarrow> store \<Rightarrow> string \<Rightarrow> string list" where
  "profilesInSubscription io s subName = (case loadSubscription io s subName of Inl _ \<Rightarrow> [] | Inr c \<Rightarrow> sProfiles c)"

definition profilesInAllSubscriptions :: "io \<Rightarrow> store \<Rightarrow> string list" where
  "profilesInAllSubscriptions io s = concat (map (profilesInSubscription io s) (listSubscriptions s))"

text \<open>The targets of \<open>enable\<close> and \<open>disable\<close>, with the checks that \<open>-ro\<close> and \<open>-sub\<close> ask for.\<close>

definition toggleTargets :: "io \<Rightarrow> string \<Rightarrow> bool \<Rightarrow> bool \<Rightarrow> string list \<Rightarrow> store \<Rightarrow> store_error + string list" where
  "toggleTargets io grp ro sub names0 s =
     (let names1 = (if ro \<and> names0 = [] \<and> grp = [] \<and> \<not> sub then listReadOnlyProfileNames s else names0);
          all = sub \<and> names1 = [] \<and> grp = [];
          names2 = (if all then profilesInAllSubscriptions io s else names1)
      in if all \<and> names2 = [] then Inl NotManaged
         else
           let names = collectTargets io s grp names2 in
           if ro \<and> (\<exists>n \<in> set names. \<not> isRO n) then Inl NotReadOnly
           else if sub \<and> (\<exists>n \<in> set names. case loadProfile io s n of Inl _ \<Rightarrow> True | Inr p \<Rightarrow> pSubscription p = [])
           then Inl NotManaged
           else if names = [] then Inl Usage else Inr names)"

definition toggleOne :: "bool \<Rightarrow> io \<Rightarrow> string \<Rightarrow> store \<Rightarrow> store_error option \<times> store" where
  "toggleOne enabled io name s =
     (case loadProfile io s name of
        Inl e \<Rightarrow> (Some e, s)
      | Inr _ \<Rightarrow> if isProfileEnabled io s name = enabled then (None, s) else setProfileEnabled io name enabled s)"

definition enableCmd :: "io \<Rightarrow> string \<Rightarrow> bool \<Rightarrow> bool \<Rightarrow> string list \<Rightarrow> store \<Rightarrow> (string \<times> store_error) list \<times> store" where
  "enableCmd io grp ro sub names0 s =
     (case toggleTargets io grp ro sub names0 s of
        Inl e \<Rightarrow> ([([], e)], s)
      | Inr names \<Rightarrow> eachTarget (\<lambda>_. toggleOne True io) (\<lambda>_. []) names s)"

definition disableCmd :: "io \<Rightarrow> string \<Rightarrow> bool \<Rightarrow> bool \<Rightarrow> string list \<Rightarrow> store \<Rightarrow> (string \<times> store_error) list \<times> store" where
  "disableCmd io grp ro sub names0 s =
     (case toggleTargets io grp ro sub names0 s of
        Inl e \<Rightarrow> ([([], e)], s)
      | Inr names \<Rightarrow> eachTarget (\<lambda>_. toggleOne False io) (\<lambda>_. []) names s)"

definition is_hex :: "char \<Rightarrow> bool" where
  "is_hex c \<longleftrightarrow> c \<in> set ''0123456789abcdefABCDEF''"

text \<open>\<open>device-id\<close>: with no argument it prints the stored id, which is the left result.\<close>

definition deviceIDCmd :: "io \<Rightarrow> string list \<Rightarrow> store \<Rightarrow> (store_error + string) \<times> store" where
  "deviceIDCmd io args s =
     (case args of
        [] \<Rightarrow>
          (case (if io (ReadFile DeviceP) then None else deviceFile s) of
             Some data \<Rightarrow> (if TrimSpace data \<noteq> [] then Inr (TrimSpace data) else Inl NotFound, s)
           | None \<Rightarrow> (Inl NotFound, s))
      | a # _ \<Rightarrow>
          (let newID = TrimSpace a in
           if length newID \<noteq> 16 \<or> \<not> list_all is_hex newID then (Inl BadDeviceID, s)
           else if io (WriteFile DeviceP) then (Inl WriteFailed, s)
           else (Inr (map ascii_lower newID), s\<lparr>deviceFile := Some (map ascii_lower newID)\<rparr>)))"

text \<open>
  \<open>share\<close> for one name: the \<open>qwdtt://\<close> link of the profile, or with \<open>qwdttFlag\<close> off the content of its link file or the
  classic link.
\<close>

definition displayName :: "string \<Rightarrow> string" where
  "displayName name = (if isRO name then drop 3 name else name)"

definition sharePort :: "ProfileData \<Rightarrow> string" where
  "sharePort p =
     (if pListen p = [] then defaultListenPort
      else case LastIndexByte (pListen p) CHR '':'' of Some i \<Rightarrow> drop (i + 1) (pListen p) | None \<Rightarrow> pListen p)"

definition shareOutput :: "io \<Rightarrow> store \<Rightarrow> bool \<Rightarrow> string \<Rightarrow> store_error + string" where
  "shareOutput io s qwdttFlag name =
     (case loadProfile io s name of
        Inl e \<Rightarrow> Inl e
      | Inr p \<Rightarrow>
          (let (ip, dtlsPort) = splitPeer (pPeerAddr p) in
           if qwdttFlag then
             Inr (buildQwdttConfigURL
               \<lparr>IP = ip, DTLSPort = dtlsPort, Password = pPassword p, Hashes = pHashes p, Name = displayName name,
                Workers = (if pWorkers p \<le> 0 then defaultWorkers else pWorkers p), Port = sharePort p\<rparr>)
           else
             let link = (if pLinkFile p = [] \<or> io (ReadFile (LinkP (pLinkFile p))) then []
                         else case map_of (linkFiles s) (pLinkFile p) of Some d \<Rightarrow> TrimSpace d | None \<Rightarrow> [])
             in Inr (if link = [] then shareWdttURL ip dtlsPort (pPassword p) (pHashes p) (displayName name) else link)))"

section \<open>Files by name\<close>

text \<open>What the operations rely on of a directory of named files: lookup, write and removal.\<close>

locale keyed_store =
  fixes get :: "'s \<Rightarrow> string \<Rightarrow> 'v option"
    and put :: "string \<Rightarrow> 'v \<Rightarrow> 's \<Rightarrow> 's"
    and del :: "string \<Rightarrow> 's \<Rightarrow> 's"
  assumes get_put: "get (put n v s) m = (if m = n then Some v else get s m)"
    and get_del: "get (del n s) m = (if m = n then None else get s m)"
begin

definition same_off :: "string set \<Rightarrow> 's \<Rightarrow> 's \<Rightarrow> bool" where
  "same_off N s t \<longleftrightarrow> (\<forall>m. m \<notin> N \<longrightarrow> get t m = get s m)"

lemma same_offD: "same_off N s t \<Longrightarrow> m \<notin> N \<Longrightarrow> get t m = get s m"
  by (simp add: same_off_def)

lemma same_off_refl: "same_off N s s"
  by (simp add: same_off_def)

lemma same_off_trans: "same_off N s t \<Longrightarrow> same_off M t u \<Longrightarrow> same_off (N \<union> M) s u"
  by (simp add: same_off_def)

lemma same_off_mono: "same_off N s t \<Longrightarrow> N \<subseteq> M \<Longrightarrow> same_off M s t"
  by (auto simp: same_off_def)

lemma same_off_put: "same_off {n} s (put n v s)"
  by (simp add: same_off_def get_put)

lemma same_off_del: "same_off {n} s (del n s)"
  by (simp add: same_off_def get_del)

lemma put_del_same: "get s n = None \<Longrightarrow> get (del n (put n v s)) m = get s m"
  by (simp add: get_put get_del)

end

definition putProfile :: "string \<Rightarrow> ProfileData stored \<Rightarrow> store \<Rightarrow> store" where
  "putProfile n v s = s\<lparr>profFiles := AList.update n v (profFiles s)\<rparr>"

definition delProfile :: "string \<Rightarrow> store \<Rightarrow> store" where
  "delProfile n s = s\<lparr>profFiles := AList.delete n (profFiles s)\<rparr>"

definition putSub :: "string \<Rightarrow> SubscriptionConfig stored \<Rightarrow> store \<Rightarrow> store" where
  "putSub n v s = s\<lparr>subFiles := AList.update n v (subFiles s)\<rparr>"

definition delSub :: "string \<Rightarrow> store \<Rightarrow> store" where
  "delSub n s = s\<lparr>subFiles := AList.delete n (subFiles s)\<rparr>"

interpretation pf: keyed_store "\<lambda>s. map_of (profFiles s)" putProfile delProfile
  by unfold_locales (auto simp: putProfile_def delProfile_def update_conv delete_conv)

interpretation sf: keyed_store "\<lambda>s. map_of (subFiles s)" putSub delSub
  by unfold_locales (auto simp: putSub_def delSub_def update_conv delete_conv)

interpretation st: keyed_store map_of AList.update AList.delete
  by unfold_locales (auto simp: update_conv delete_conv)

text \<open>The parts of the store that loading a profile does not read.\<close>

lemma fromLinkFile_cong: "linkFiles t = linkFiles s \<Longrightarrow> fromLinkFile io t = fromLinkFile io s"
  by (rule ext) (simp add: fromLinkFile_def)

lemma loadProfile_cong:
  "map_of (profFiles t) n = map_of (profFiles s) n \<Longrightarrow> linkFiles t = linkFiles s \<Longrightarrow> loadProfile io t n = loadProfile io s n"
  unfolding loadProfile_def by (simp only: fromLinkFile_cong [of t s])

lemma isProfileEnabled_cong: "statusFile t = statusFile s \<Longrightarrow> isProfileEnabled io t n = isProfileEnabled io s n"
  by (simp add: isProfileEnabled_def loadStatuses_def)

text \<open>Everything but the profile files and the device id.\<close>

definition same_rest :: "store \<Rightarrow> store \<Rightarrow> bool" where
  "same_rest s t \<longleftrightarrow>
     subFiles t = subFiles s \<and> statusFile t = statusFile s \<and> activeFile t = activeFile s \<and>
     autoswitchFile t = autoswitchFile s \<and> linkFiles t = linkFiles s"

lemma same_rest_refl [simp]: "same_rest s s"
  by (simp add: same_rest_def)

lemma same_rest_trans: "same_rest s t \<Longrightarrow> same_rest t u \<Longrightarrow> same_rest s u"
  by (simp add: same_rest_def)

lemma same_rest_putProfile [simp]: "same_rest s (putProfile n v t) = same_rest s t"
  by (simp add: same_rest_def putProfile_def)

lemma same_rest_delProfile [simp]: "same_rest s (delProfile n t) = same_rest s t"
  by (simp add: same_rest_def delProfile_def)

lemma loadProfile_same:
  "same_rest s t \<Longrightarrow> map_of (profFiles t) n = map_of (profFiles s) n \<Longrightarrow> loadProfile io t n = loadProfile io s n"
  by (rule loadProfile_cong) (auto simp: same_rest_def)

lemma getOrCreateDeviceID_keeps:
  "same_rest s (snd (getOrCreateDeviceID io draw s))" "profFiles (snd (getOrCreateDeviceID io draw s)) = profFiles s"
  by (auto simp: getOrCreateDeviceID_def same_rest_def Let_def split: option.split)

text \<open>What \<open>saveProfile\<close> writes.\<close>

definition savedAs :: "io \<Rightarrow> bytes \<Rightarrow> store \<Rightarrow> ProfileData \<Rightarrow> ProfileData" where
  "savedAs io draw s p =
     withGroup (if pDeviceID p = [] then p\<lparr>pDeviceID := fst (getOrCreateDeviceID io draw s)\<rparr> else p)"

lemma savedAs_fields [simp]:
  "pPeerAddr (savedAs io draw s p) = pPeerAddr p" "pPassword (savedAs io draw s p) = pPassword p"
  "pLinkFile (savedAs io draw s p) = pLinkFile p" "pSubscription (savedAs io draw s p) = pSubscription p"
  by (simp_all add: savedAs_def withGroup_def)

lemma saveProfile_RO: "isRO n \<Longrightarrow> saveProfile io draw n p s = (Some ReadOnly, s)"
  by (simp add: saveProfile_def)

lemma saveProfile_outcome:
  assumes "saveProfile io draw n p s = (r, t)"
  obtains (unwritten) e where "r = Some e" "same_rest s t" "profFiles t = profFiles s"
  | (written) s1 where "r = None" "\<not> isRO n" "\<not> io (WriteFile (ProfileP n))" "same_rest s s1" "profFiles s1 = profFiles s"
      "t = putProfile n (Good (savedAs io draw s p)) s1"
proof -
  let ?s1 = "if pDeviceID p = [] then snd (getOrCreateDeviceID io draw s) else s"
  have keeps: "same_rest s ?s1" "profFiles ?s1 = profFiles s" by (simp_all add: getOrCreateDeviceID_keeps)
  have eq: "saveProfile io draw n p s =
      (if isRO n then (Some ReadOnly, s)
       else if io (WriteFile (ProfileP n)) then (Some WriteFailed, ?s1)
       else (None, putProfile n (Good (savedAs io draw s p)) ?s1))"
    by (simp add: saveProfile_def savedAs_def putProfile_def split_beta Let_def)
  show thesis
  proof (cases "isRO n \<or> io (WriteFile (ProfileP n))")
    case True
    with assms eq keeps show thesis 
      by (intro unwritten [of "if isRO n then ReadOnly else WriteFailed"]) (auto split: if_splits)
  next
    case False
    with assms eq keeps show thesis by (intro written [of ?s1]) auto
  qed
qed

lemma saveProfile_same_off:
  assumes "saveProfile io draw n p s = (r, t)"
  shows "pf.same_off {n} s t" "same_rest s t" "isRO n \<Longrightarrow> t = s"
proof -
  show "pf.same_off {n} s t"
    using assms by (rule saveProfile_outcome) (auto simp: pf.same_off_def pf.get_put)
  show "same_rest s t"
    using assms by (rule saveProfile_outcome) simp_all
  show "isRO n \<Longrightarrow> t = s" using assms by (simp add: saveProfile_RO)
qed

lemma removeProfile_outcome:
  assumes "removeProfile io n s = (r, t)"
  obtains (kept) e where "r = Some e" "t = s"
  | (gone) "r = None" "map_of (profFiles s) n \<noteq> None" "t = delProfile n s"
  using assms by (auto simp: removeProfile_def delProfile_def split: if_splits)

lemma removeProfile_same_off:
  assumes "removeProfile io n s = (r, t)"
  shows "pf.same_off {n} s t" "same_rest s t"
  using assms by (auto elim!: removeProfile_outcome intro: pf.same_off_refl pf.same_off_del)

section \<open>Loading what was saved\<close>

text \<open>A profile whose own fields decide what loading it gives.\<close>

definition self_contained :: "ProfileData \<Rightarrow> bool" where
  "self_contained p \<longleftrightarrow>
     cleanPassword (pPassword p) = pPassword p \<and> (pPeerAddr p \<noteq> [] \<and> pPassword p \<noteq> [] \<or> pLinkFile p = [])"

lemma loadProfile_put:
  "self_contained p \<Longrightarrow> \<not> io (ReadFile (ProfileP n)) \<Longrightarrow> map_of (profFiles s) n = Some (Good p) \<Longrightarrow> loadProfile io s n = Inr p"
  by (auto simp: loadProfile_def self_contained_def Let_def)

lemma parseLink_password: "parseLink raw = Inr l \<Longrightarrow> Password l \<noteq> []"
  by (auto simp: parseLink_def parseWdttURL_def parseQwdttConfigURL_def Let_def
           split: if_splits sum.splits option.splits prod.splits)

lemma loadProfile_complete:
  "loadProfile io s n = Inr p \<Longrightarrow> pPeerAddr p \<noteq> [] \<and> pPassword p \<noteq> [] \<or> pLinkFile p = []"
  using parseLink_password
  by (auto simp: loadProfile_def fromLinkFile_def Let_def split: if_splits option.splits stored.splits sum.splits)

lemma loadProfile_exists: "loadProfile io s n = Inr p \<Longrightarrow> profileExists s n"
  by (auto simp: loadProfile_def profileExists_def split: if_splits option.splits)

lemma withGroup_fields:
  "withGroup p = p\<lparr>pGroups := if pSubscription p \<noteq> [] \<and> pSubscription p \<notin> set (pGroups p) then pGroups p @ [pSubscription p] else pGroups p\<rparr>"
  by (simp add: withGroup_def)

lemma saved_loads:
  assumes "saveProfile io draw n p s = (None, t)" and "self_contained p" and "\<not> io (ReadFile (ProfileP n))"
  shows "loadProfile io t n =
           Inr (p\<lparr>pDeviceID := if pDeviceID p = [] then fst (getOrCreateDeviceID io draw s) else pDeviceID p,
                  pGroups := if pSubscription p \<noteq> [] \<and> pSubscription p \<notin> set (pGroups p) then pGroups p @ [pSubscription p] else pGroups p\<rparr>) \<and>
         (\<forall>m. m \<noteq> n \<longrightarrow> loadProfile io t m = loadProfile io s m)"
proof (intro conjI)
  have saved: "savedAs io draw s p =
      p\<lparr>pDeviceID := if pDeviceID p = [] then fst (getOrCreateDeviceID io draw s) else pDeviceID p,
        pGroups := if pSubscription p \<noteq> [] \<and> pSubscription p \<notin> set (pGroups p) then pGroups p @ [pSubscription p] else pGroups p\<rparr>"
    by (simp add: savedAs_def withGroup_fields)
  from assms(1) obtain s1 where "t = putProfile n (Good (savedAs io draw s p)) s1"
    by (rule saveProfile_outcome) auto
  then have "map_of (profFiles t) n = Some (Good (savedAs io draw s p))" by (simp add: pf.get_put)
  moreover have "self_contained (savedAs io draw s p)" using assms(2) by (simp add: self_contained_def)
  ultimately have "loadProfile io t n = Inr (savedAs io draw s p)" by (intro loadProfile_put assms(3))
  then show "loadProfile io t n = Inr (p\<lparr>pDeviceID := if pDeviceID p = [] then fst (getOrCreateDeviceID io draw s) else pDeviceID p,
        pGroups := if pSubscription p \<noteq> [] \<and> pSubscription p \<notin> set (pGroups p) then pGroups p @ [pSubscription p] else pGroups p\<rparr>)"
    by (simp only: saved)
  show "\<forall>m. m \<noteq> n \<longrightarrow> loadProfile io t m = loadProfile io s m"
    using saveProfile_same_off [OF assms(1)] by (auto simp: pf.same_off_def intro: loadProfile_same)
qed


text \<open>Values for the concrete runs.\<close>

definition sampleProfile :: ProfileData where
  "sampleProfile =
     \<lparr>pPeerAddr = ''10.0.0.1:5000'', pPassword = ''secret'', pHashes = [''h1''], pListen = [], pTurnHost = [], pTurnPort = [],
      pWorkers = 9, pDeviceID = [], pPriority = 0, pLinkFile = [], pGroups = [], pSubscription = []\<rparr>"

definition sampleStore :: store where
  "sampleStore =
     \<lparr>profFiles = [(''home'', Good sampleProfile), (''ro-work'', Good sampleProfile), (''bad'', Garbage)], subFiles = [],
      statusFile = Some (Good [(''home'', False)]), activeFile = Some ''home'', autoswitchFile = None,
      deviceFile = Some ''0123456789abcdef'', linkFiles = []\<rparr>"

definition all_ok :: io where
  "all_ok = (\<lambda>_. False)"

lemmas sample_simps = sampleProfile_def sampleStore_def all_ok_def

lemma sample_self_contained: "self_contained sampleProfile"
  by code_simp

lemma sample_saved:
  "sampleProfile\<lparr>pDeviceID := if pDeviceID sampleProfile = [] then fst (getOrCreateDeviceID all_ok [] sampleStore) else pDeviceID sampleProfile,
     pGroups := if pSubscription sampleProfile \<noteq> [] \<and> pSubscription sampleProfile \<notin> set (pGroups sampleProfile)
       then pGroups sampleProfile @ [pSubscription sampleProfile] else pGroups sampleProfile\<rparr>
   = sampleProfile\<lparr>pDeviceID := ''0123456789abcdef''\<rparr>"
  by code_simp


section \<open>Renaming\<close>

lemma map_of_moved:
  "map_of (AList.delete a (AList.update b v m)) = (map_of m)(b \<mapsto> v, a := None)"
  by (auto simp: fun_eq_iff update_conv delete_conv)

text \<open>Moving the status touches \<open>status.json\<close> only; moving the pointers touches the pointer files only.\<close>

lemma moveStatus_keeps:
  "profFiles (moveStatus io a b s) = profFiles s \<and> subFiles (moveStatus io a b s) = subFiles s
   \<and> linkFiles (moveStatus io a b s) = linkFiles s
   \<and> activeFile (moveStatus io a b s) = activeFile s \<and> autoswitchFile (moveStatus io a b s) = autoswitchFile s"
  by (auto simp: moveStatus_def saveStatuses_def split: sum.splits option.splits)

lemma movePointers_keeps:
  "profFiles (movePointers io a b s) = profFiles s \<and> subFiles (movePointers io a b s) = subFiles s
   \<and> linkFiles (movePointers io a b s) = linkFiles s \<and> statusFile (movePointers io a b s) = statusFile s"
  by (auto simp: movePointers_def setActiveProfile_def setAutoswitchCurrentProfile_def Let_def)

lemma moveStatus_enabled:
  assumes "statusFile s = Some (Good m)" "\<not> io (ReadFile StatusP)" "\<not> io (WriteFile StatusP)" "a \<noteq> b"
    and "map_of m a \<noteq> None \<or> map_of m b = None"
  shows "isProfileEnabled io (moveStatus io a b s) b = isProfileEnabled io s a"
  using assms
  by (cases "map_of m a")
     (auto simp: isProfileEnabled_def loadStatuses_def moveStatus_def saveStatuses_def map_of_moved)

lemma movePointers_active:
  assumes "getActiveProfile io s = a" "\<not> io (WriteFile ActiveP)" "a \<noteq> []"
  shows "getActiveProfile io (movePointers io a b s) = TrimSpace b"
proof -
  have "\<not> io (ReadFile ActiveP)" using assms(1,3) by (auto simp: getActiveProfile_def)
  with assms show ?thesis
    by (auto simp: movePointers_def setActiveProfile_def setAutoswitchCurrentProfile_def getActiveProfile_def Let_def)
qed

lemma renameProfile_outcome:
  assumes "renameProfile io draw a b s = (r, t)"
  obtains (refused) e where "r = Some e" "t = s"
  | (unsaved) e p where "r = Some e" "saveProfile io draw b p s = (r, t)" "map_of (profFiles s) b = None"
  | (restored) p s1 where "r = Some RemoveFailed" "saveProfile io draw b p s = (None, s1)"
      "t = snd (removeProfile io b s1)" "map_of (profFiles s) b = None"
  | (moved) p s1 where "r = None" "\<not> isRO a" "\<not> isRO b" "loadProfile io s a = Inr p" "map_of (profFiles s) b = None"
      "saveProfile io draw b p s = (None, s1)" "removeProfile io a s1 = (None, delProfile a s1)"
      "t = movePointers io a b (moveStatus io a b (delProfile a s1))"
proof (cases "isRO a \<or> isRO b")
  case True
  then show thesis using assms refused by (auto simp: renameProfile_def)
next
  case writable: False
  show thesis
  proof (cases "loadProfile io s a")
    case (Inl e)
    then show thesis using assms refused writable by (auto simp: renameProfile_def)
  next
    case (Inr p)
    show thesis
    proof (cases "profileExists s b")
      case True
      then show thesis using assms refused writable Inr by (auto simp: renameProfile_def)
    next
      case False
      then have free: "map_of (profFiles s) b = None" by (simp add: profileExists_def)
      obtain e s1 where sv: "saveProfile io draw b p s = (e, s1)" by (cases "saveProfile io draw b p s")
      obtain e2 s2 where rm: "removeProfile io a s1 = (e2, s2)" by (cases "removeProfile io a s1")
      have eq: "(r, t) = (case e of Some x \<Rightarrow> (Some x, s1)
          | None \<Rightarrow> (case e2 of Some x \<Rightarrow> (Some RemoveFailed, snd (removeProfile io b s1))
                     | None \<Rightarrow> (None, movePointers io a b (moveStatus io a b s2))))"
        using assms writable Inr False sv rm by (cases e; cases e2) (auto simp: renameProfile_def)
      show thesis
      proof (cases e)
        case (Some x)
        with eq sv free show thesis by (intro unsaved) auto
      next
        case None
        note saved = this
        show thesis
        proof (cases e2)
          case (Some y)
          with eq saved sv free show thesis by (intro restored) auto
        next
          case None
          with rm have "s2 = delProfile a s1" by (auto elim: removeProfile_outcome)
          with eq saved sv free None rm writable Inr show thesis by (intro moved) auto
        qed
      qed
    qed
  qed
qed





section \<open>Commands over several targets\<close>

lemma eachTarget_rel:
  assumes step: "\<And>d n s. n \<in> set ns \<Longrightarrow> R s (snd (op d n s))"
    and refl: "\<And>s. R s s" and trans: "\<And>s t u. R s t \<Longrightarrow> R t u \<Longrightarrow> R s u"
  shows "R s (snd (eachTarget op draw ns s))"
  using step
proof (induction ns arbitrary: draw s)
  case (Cons n ns)
  have "R s (snd (op (draw 0) n s))" using Cons.prems by simp
  moreover have "R (snd (op (draw 0) n s)) (snd (eachTarget op (\<lambda>k. draw (Suc k)) ns (snd (op (draw 0) n s))))"
    using Cons by simp
  ultimately show ?case by (auto simp: split_beta intro: trans)
qed (simp add: refl)

lemma eachTarget_errors: "fst ` set (fst (eachTarget op draw ns s)) \<subseteq> set ns"
proof (induction ns arbitrary: draw s)
  case (Cons n ns)
  from Cons [of "\<lambda>k. draw (Suc k)" "snd (op (draw 0) n s)"] show ?case
    by (auto simp: split_beta split: option.splits)
qed simp

lemma collectTargets_distinct: "distinct (collectTargets io s grp names)" "[] \<notin> set (collectTargets io s grp names)"
  by (simp_all add: collectTargets_def uq.collect_distinct uq.collect_set)

lemma collectTargets_group:
  "n \<in> set (collectTargets io s grp []) \<longleftrightarrow> grp \<noteq> [] \<and> n \<noteq> [] \<and> n \<in> set (profilesInGroup io s grp)"
  by (auto simp: collectTargets_def expandProfileMasks_def uq.collect_set)

lemma loadProfile_file:
  "loadProfile io s n = Inr q \<Longrightarrow> \<exists>p. map_of (profFiles s) n = Some (Good p) \<and> pSubscription q = pSubscription p \<and>
     pGroups q = pGroups p"
  by (auto simp: loadProfile_def fromLinkFile_def Let_def split: if_splits option.splits stored.splits sum.splits)

text \<open>A step that changes only the profiles of \<open>T\<close> that are not read-only and keeps who manages each profile.\<close>

definition edits_only :: "string set \<Rightarrow> store \<Rightarrow> store \<Rightarrow> bool" where
  "edits_only T s t \<longleftrightarrow>
     same_rest s t \<and> (\<forall>m. m \<notin> T \<or> isRO m \<longrightarrow> map_of (profFiles t) m = map_of (profFiles s) m) \<and>
     (\<forall>m p. map_of (profFiles s) m = Some (Good p) \<longrightarrow>
        (\<exists>q. map_of (profFiles t) m = Some (Good q) \<and> pSubscription q = pSubscription p))"

lemma edits_only_refl: "edits_only T s s"
  by (simp add: edits_only_def)

lemma edits_only_trans: "edits_only T s t \<Longrightarrow> edits_only T t u \<Longrightarrow> edits_only T s u"
  unfolding edits_only_def by (intro conjI) (blast intro: same_rest_trans, simp, fastforce)

lemma editWorkers_sub: "editWorkers f p = Inr q \<Longrightarrow> pSubscription q = pSubscription p"
  by (auto simp: editWorkers_def split: if_splits option.splits)

lemma editGroups_sub: "editGroups s f p = Inr q \<Longrightarrow> pSubscription q = pSubscription p"
  by (auto simp: editGroups_def Let_def split: if_splits)

lemma editedFields_sub [simp]: "pSubscription (editedFields f p) = pSubscription p"
  by (simp add: editedFields_def)

lemma saveProfile_edits_only:
  assumes sv: "saveProfile io draw n p s = (r, t)" and "n \<in> T"
    and sub: "\<And>q. map_of (profFiles s) n = Some (Good q) \<Longrightarrow> pSubscription p = pSubscription q"
  shows "edits_only T s t"
  using sv
proof (rule saveProfile_outcome)
  fix s1
  assume "r = None" "\<not> isRO n" and s1: "same_rest s s1" "profFiles s1 = profFiles s"
    and t: "t = putProfile n (Good (savedAs io draw s p)) s1"
  then show ?thesis using assms(2) sub by (auto simp: edits_only_def pf.get_put)
qed (simp add: edits_only_def)

lemma editOne_edits_only:
  assumes "n \<in> T" shows "edits_only T s (snd (editOne io draw f n s))"
proof -
  have "edits_only T s (snd (saveProfile io draw n p2 s))"
    if "loadProfile io s n = Inr p" "editWorkers f (editedFields f p) = Inr p1" "editGroups s f p1 = Inr p2" for p p1 p2
    using loadProfile_file [OF that(1)] editWorkers_sub [OF that(2)] editGroups_sub [OF that(3)]
    by (intro saveProfile_edits_only [OF prod.collapse [symmetric] assms]) auto
  then show ?thesis by (auto simp: editOne_def edits_only_refl split: sum.splits)
qed


definition sampleFlags :: editFlags where
  "sampleFlags =
     \<lparr>eAny = True, ePeer = [], ePassword = [], eHashes = [], eDeviceID = [], eListen = [], ePriority = 5, eWorkers = -1,
      eGroupsSet = False, eGroups = []\<rparr>"


end
