(* ===== verification/Subscription.thy ===== *)
theory Subscription
  imports Profiles
begin

text \<open>
  Subscriptions and imports: \<open>subscription.go\<close>, the \<open>subscription\<close> commands and \<open>importCmd\<close> of
  \<open>commands.go\<close>.

  The server is a function from a URL to a response; decoding a JSON document is a function \<open>unmarshal\<close>; the random bytes
  of each new device id and the time stamp are arguments.  The search for a free name may in principle not end, so it is a
  partial function and the commands are option valued; that they return is proved.
\<close>

section \<open>Data\<close>

record SubscriptionEntry =
  eName :: string
  ePeerAddr :: string
  eHashList :: string
  eVKHashes :: string
  eWorkersPerHash :: int
  eWorkerCount :: int
  ePort :: int
  eListenPort :: int
  ePasswordField :: string
  ePassField :: string

record SubscriptionJSON =
  jName :: string
  jGroupName :: string
  jDescription :: string
  jTrafficUsedMb :: rat
  jTrafficLimitMb :: rat
  jUpdatedAt :: string
  jVersion :: int
  jProfiles :: "SubscriptionEntry list"
  jServers :: "SubscriptionEntry list"

text \<open>The response to a request: its status and its body, if it can be read.  \<open>None\<close> is a failed request.\<close>

type_synonym http = "string \<Rightarrow> (int \<times> string option) option"
type_synonym unmarshal = "string \<Rightarrow> SubscriptionJSON option"

section \<open>Names\<close>

definition TrimByte :: "char \<Rightarrow> string \<Rightarrow> string" where
  "TrimByte c s = rev (dropWhile (\<lambda>x. x = c) (rev (dropWhile (\<lambda>x. x = c) s)))"

definition import_rune :: "string \<Rightarrow> string" where
  "import_rune r =
     (case r of
        [c] \<Rightarrow> if c \<in> set ''abcdefghijklmnopqrstuvwxyz0123456789-_'' then [c] else if c = CHR '' '' then ''_'' else []
      | _ \<Rightarrow> [])"

definition normalizeImportName :: "string \<Rightarrow> string" where
  "normalizeImportName name =
     TrimByte CHR ''_'' (concat (map import_rune (runes (lower_view (transliterateCyrillic (TrimSpace name))))))"

text \<open>The first number from \<open>c\<close> on whose name is free.\<close>

partial_function (option) firstFree :: "(string \<Rightarrow> bool) \<Rightarrow> (int \<Rightarrow> string) \<Rightarrow> int \<Rightarrow> int option" where
  "firstFree taken mk c = (if taken (mk c) then firstFree taken mk (c + 1) else Some c)"

declare firstFree.simps [code]

definition importCandidate :: "string \<Rightarrow> int \<Rightarrow> string" where
  "importCandidate name k = (if k = 0 then name else name @ ''('' @ Itoa k @ '')'')"

definition subCandidate :: "string \<Rightarrow> int \<Rightarrow> string" where
  "subCandidate baseName k = baseName @ ''_sub'' @ Itoa k"

section \<open>Fetching and decoding a subscription\<close>

definition base64_value :: "bool \<Rightarrow> char \<Rightarrow> nat option" where
  "base64_value url c =
     (let n = (of_char c :: nat) in
      if 65 \<le> n \<and> n \<le> 90 then Some (n - 65)
      else if 97 \<le> n \<and> n \<le> 122 then Some (n - 71)
      else if 48 \<le> n \<and> n \<le> 57 then Some (n + 4)
      else if c = (if url then CHR ''-'' else CHR ''+'') then Some 62
      else if c = (if url then CHR ''_'' else CHR ''/'') then Some 63
      else None)"

definition base64_quantum :: "nat \<Rightarrow> nat \<Rightarrow> nat \<Rightarrow> nat \<Rightarrow> string" where
  "base64_quantum a b c d =
     [char_of (a * 4 + b div 16), char_of ((b mod 16) * 16 + c div 4), char_of ((c mod 4) * 64 + d)]"

fun base64_groups :: "bool \<Rightarrow> string \<Rightarrow> string option" where
  "base64_groups url [] = Some []"
| "base64_groups url (a # b # c # d # rest) =
     (case (base64_value url a, base64_value url b) of
        (Some va, Some vb) \<Rightarrow>
          if c = CHR ''='' then
            (if d = CHR ''='' \<and> rest = [] then Some (take 1 (base64_quantum va vb 0 0)) else None)
          else (case base64_value url c of
                  None \<Rightarrow> None
                | Some vc \<Rightarrow>
                    if d = CHR ''='' then (if rest = [] then Some (take 2 (base64_quantum va vb vc 0)) else None)
                    else (case base64_value url d of
                            None \<Rightarrow> None
                          | Some vd \<Rightarrow> map_option (\<lambda>t. base64_quantum va vb vc vd @ t) (base64_groups url rest)))
      | _ \<Rightarrow> None)"
| "base64_groups url _ = None"

definition base64_decode :: "bool \<Rightarrow> string \<Rightarrow> string option" where
  "base64_decode url s = base64_groups url (filter (\<lambda>c. c \<noteq> CHR 0x0A \<and> c \<noteq> CHR 0x0D) s)"

definition bodyLimit :: nat where "bodyLimit = 2097152"

definition fetchSubscriptionJSON :: "http \<Rightarrow> string \<Rightarrow> string option" where
  "fetchSubscriptionJSON http url =
     (if \<not> HasPrefix url ''http://'' \<and> \<not> HasPrefix url ''https://'' then None
      else case http url of
        None \<Rightarrow> None
      | Some (status, body) \<Rightarrow>
          if status < 200 \<or> 300 \<le> status then None
          else (case body of
                  None \<Rightarrow> None
                | Some b \<Rightarrow>
                    (let trimmed = TrimSpace (take bodyLimit b) in
                     if trimmed = [] then None
                     else if HasPrefix trimmed ''{'' then Some trimmed
                     else (case base64_decode False trimmed of
                             Some d \<Rightarrow> Some d
                           | None \<Rightarrow> base64_decode True trimmed))))"

definition parseSubscriptionJSON :: "unmarshal \<Rightarrow> string \<Rightarrow> store_error + SubscriptionJSON" where
  "parseSubscriptionJSON unmarshal data =
     (case unmarshal data of
        None \<Rightarrow> Inl BadJSON
      | Some sub0 \<Rightarrow>
          (let sub1 = (if jName sub0 = [] then sub0\<lparr>jName := jGroupName sub0\<rparr> else sub0) in
           if jName sub1 = [] then Inl (MissingField ''subscriptionName'')
           else
             let sub2 = (if jProfiles sub1 = [] \<and> jServers sub1 \<noteq> [] then sub1\<lparr>jProfiles := jServers sub1\<rparr> else sub1)
             in if jProfiles sub2 = [] then Inl NoProfiles else Inr sub2))"

text \<open>Products of two 64-bit integers wrap around.\<close>

definition wrap64 :: "int \<Rightarrow> int" where
  "wrap64 i = (i + 2 ^ 63) mod 2 ^ 64 - 2 ^ 63"

definition entryWorkers :: "SubscriptionEntry \<Rightarrow> string list \<Rightarrow> int" where
  "entryWorkers e hashes =
     (let w = (if eWorkerCount e \<le> 0 \<and> eWorkersPerHash e > 0 then wrap64 (eWorkersPerHash e * int (length hashes))
               else eWorkerCount e)
      in if w \<le> 0 then defaultWorkers else w)"

definition entryListen :: "SubscriptionEntry \<Rightarrow> string" where
  "entryListen e =
     (let p = (if eListenPort e \<le> 0 then ePort e else eListenPort e)
      in ''127.0.0.1:'' @ Itoa (if p \<le> 0 then 9000 else p))"

definition subscriptionEntryToProfile :: "io \<Rightarrow> bytes \<Rightarrow> SubscriptionEntry \<Rightarrow> string \<Rightarrow> store
    \<Rightarrow> (store_error + ProfileData) \<times> store" where
  "subscriptionEntryToProfile io draw e subName s =
     (if ePeerAddr e = [] then (Inl (MissingField ''peer''), s)
      else
        let password = (if ePasswordField e = [] then ePassField e else ePasswordField e) in
        if password = [] then (Inl (MissingField ''password''), s)
        else
          let hashes = splitHashes (if eHashList e = [] then eVKHashes e else eHashList e) in
          if hashes = [] then (Inl (MissingField ''hashes''), s)
          else
            let (did, s1) = getOrCreateDeviceID io draw s
            in (Inr \<lparr>pPeerAddr = ePeerAddr e, pPassword = password, pHashes = hashes, pListen = entryListen e, pTurnHost = [],
                     pTurnPort = [], pWorkers = entryWorkers e hashes, pDeviceID = did, pPriority = 0, pLinkFile = [],
                     pGroups = [], pSubscription = subName\<rparr>, s1))"

section \<open>Applying a subscription\<close>

definition saveSubscription :: "io \<Rightarrow> string \<Rightarrow> SubscriptionConfig \<Rightarrow> store \<Rightarrow> store_error option \<times> store" where
  "saveSubscription io name c s =
     (if io (WriteFile (SubP name)) then (Some WriteFailed, s) else (None, putSub name (Good c) s))"

definition removeOld :: "io \<Rightarrow> string \<Rightarrow> string \<Rightarrow> string list \<times> store \<Rightarrow> string list \<times> store" where
  "removeOld io subName oldName acc =
     (case acc of (removed, s) \<Rightarrow>
        if (case loadProfile io s oldName of Inr p \<Rightarrow> pSubscription p = subName | Inl _ \<Rightarrow> False)
        then (case removeProfile io oldName s of (None, s1) \<Rightarrow> (removed @ [oldName], s1) | (Some _, _) \<Rightarrow> (removed, s))
        else (case removeProfile io oldName s of (None, s1) \<Rightarrow> (removed @ [oldName], s1) | (Some _, _) \<Rightarrow> (removed, s)))"

definition loads :: "io \<Rightarrow> store \<Rightarrow> string \<Rightarrow> bool" where
  "loads io s n \<longleftrightarrow> is_ok (loadProfile io s n)"

definition counter_of :: "(string \<times> int) list \<Rightarrow> string \<Rightarrow> int" where
  "counter_of m n = (case map_of m n of Some c \<Rightarrow> c | None \<Rightarrow> 0)"

text \<open>The name an entry is saved under: its own, or a numbered one when another owner has that.\<close>

definition entryName :: "io \<Rightarrow> store \<Rightarrow> string \<Rightarrow> (string \<times> int) list \<Rightarrow> SubscriptionEntry
    \<Rightarrow> (string \<times> (string \<times> int) list) option" where
  "entryName io s subName counters e =
     (let b0 = normalizeImportName (eName e);
          baseName = (if b0 = [] then subName else b0)
      in if (case loadProfile io s baseName of Inr p \<Rightarrow> pSubscription p \<noteq> subName | Inl _ \<Rightarrow> False)
         then map_option (\<lambda>c. (subCandidate baseName c, AList.update baseName (c + 1) counters))
                (firstFree (loads io s) (subCandidate baseName) (counter_of counters baseName))
         else Some (baseName, counters))"

text \<open>One entry: the created names, the counters and the store after it.\<close>

type_synonym progress = "string list \<times> (string \<times> int) list \<times> store"

definition applyEntry :: "io \<Rightarrow> bytes \<Rightarrow> string \<Rightarrow> SubscriptionEntry \<Rightarrow> progress \<Rightarrow> progress option" where
  "applyEntry io draw subName e acc =
     (case acc of (created, counters, s) \<Rightarrow>
        (case subscriptionEntryToProfile io draw e subName s of
           (Inl _, s1) \<Rightarrow> Some (created, counters, s1)
         | (Inr prof, s1) \<Rightarrow>
             (case entryName io s1 subName counters e of
                None \<Rightarrow> None
              | Some (finalName, counters1) \<Rightarrow>
                  (case saveProfile io draw finalName prof s1 of
                     (Some _, s2) \<Rightarrow> Some (created, counters1, s2)
                   | (None, s2) \<Rightarrow> Some (created @ [finalName], counters1, s2)))))"

fun applyEntries :: "io \<Rightarrow> (nat \<Rightarrow> bytes) \<Rightarrow> string \<Rightarrow> SubscriptionEntry list \<Rightarrow> progress \<Rightarrow> progress option" where
  "applyEntries io draw subName [] acc = Some acc"
| "applyEntries io draw subName (e # es) acc =
     (case applyEntry io (draw 0) subName e acc of
        None \<Rightarrow> None
      | Some acc1 \<Rightarrow> applyEntries io (\<lambda>k. draw (Suc k)) subName es acc1)"

definition subscriptionFor :: "io \<Rightarrow> store \<Rightarrow> string \<Rightarrow> string \<Rightarrow> SubscriptionConfig" where
  "subscriptionFor io s subName url =
     (case loadSubscription io s subName of
        Inl _ \<Rightarrow> \<lparr>sURL = url, sName = subName, sDescription = [], sTrafficUsedMb = 0, sTrafficLimitMb = 0, sUpdatedAt = [],
                  sVersion = 0, sProfiles = [], sLastFetch = []\<rparr>
      | Inr c \<Rightarrow> if url \<noteq> [] then c\<lparr>sURL := url\<rparr> else c)"

definition refreshed :: "SubscriptionConfig \<Rightarrow> SubscriptionJSON \<Rightarrow> string \<Rightarrow> string list \<Rightarrow> SubscriptionConfig" where
  "refreshed sub parsed now names =
     sub\<lparr>sDescription := jDescription parsed, sTrafficUsedMb := jTrafficUsedMb parsed, sTrafficLimitMb := jTrafficLimitMb parsed,
         sUpdatedAt := jUpdatedAt parsed, sVersion := jVersion parsed, sLastFetch := now, sProfiles := names\<rparr>"

record applied =
  aError :: "store_error option"
  aCreated :: "string list"
  aRemoved :: "string list"
  aStore :: store

definition applySubscription :: "io \<Rightarrow> http \<Rightarrow> unmarshal \<Rightarrow> (nat \<Rightarrow> bytes) \<Rightarrow> string \<Rightarrow> string \<Rightarrow> string \<Rightarrow> store
    \<Rightarrow> applied option" where
  "applySubscription io http unmarshal draw now subName0 url s =
     (let sub = subscriptionFor io s subName0 url in
      case fetchSubscriptionJSON http (sURL sub) of
        None \<Rightarrow> Some \<lparr>aError = Some Fetch, aCreated = [], aRemoved = [], aStore = s\<rparr>
      | Some data \<Rightarrow>
          (case parseSubscriptionJSON unmarshal data of
             Inl e \<Rightarrow> Some \<lparr>aError = Some e, aCreated = [], aRemoved = [], aStore = s\<rparr>
           | Inr parsed \<Rightarrow>
               (let subName = sName sub;
                    (removed, s1) = fold (removeOld io subName) (sProfiles sub) ([], s)
                in case applyEntries io draw subName (jProfiles parsed) ([], [], s1) of
                     None \<Rightarrow> None
                   | Some (created, _, s2) \<Rightarrow>
                       (case saveSubscription io subName (refreshed sub parsed now created) s2 of
                          (e, s3) \<Rightarrow> Some \<lparr>aError = e, aCreated = created, aRemoved = removed, aStore = s3\<rparr>))))"

section \<open>The subscription commands\<close>

text \<open>
  \<open>parseSubCmdFlags\<close> leaves the positional arguments without the sub-command.  A command returns its errors and the store;
  \<open>answer\<close> is what the user typed, \<open>http0\<close> answers the request that looks up the name.
\<close>

definition parseSubCmdFlags :: "(string \<Rightarrow> bool) \<Rightarrow> string list \<Rightarrow> string list \<times> string list" where
  "parseSubCmdFlags isBool args = (case splitFlagsAndArgs isBool args of (fl, ps) \<Rightarrow> (fl, drop 1 ps))"

definition outcome :: "applied option \<Rightarrow> (store_error option \<times> store) option" where
  "outcome r = map_option (\<lambda>a. (aError a, aStore a)) r"

definition subscriptionAddByURL :: "io \<Rightarrow> http \<Rightarrow> http \<Rightarrow> unmarshal \<Rightarrow> (nat \<Rightarrow> bytes) \<Rightarrow> string \<Rightarrow> bool \<Rightarrow> string \<Rightarrow> string
    \<Rightarrow> store \<Rightarrow> (store_error option \<times> store) option" where
  "subscriptionAddByURL io http0 http unmarshal draw now yes answer url s =
     (case fetchSubscriptionJSON http0 url of
        None \<Rightarrow> Some (Some Fetch, s)
      | Some data \<Rightarrow>
          (case parseSubscriptionJSON unmarshal data of
             Inl e \<Rightarrow> Some (Some e, s)
           | Inr parsed \<Rightarrow>
               if \<not> confirmed yes answer then Some (None, s)
               else outcome (applySubscription io http unmarshal draw now (jName parsed) url s)))"

definition subscriptionAddCmd :: "io \<Rightarrow> http \<Rightarrow> http \<Rightarrow> unmarshal \<Rightarrow> (nat \<Rightarrow> bytes) \<Rightarrow> string \<Rightarrow> bool \<Rightarrow> string \<Rightarrow> string list
    \<Rightarrow> store \<Rightarrow> (store_error option \<times> store) option" where
  "subscriptionAddCmd io http0 http unmarshal draw now yes answer args s =
     (case args of
        [] \<Rightarrow> Some (Some Usage, s)
      | [a] \<Rightarrow> subscriptionAddByURL io http0 http unmarshal draw now yes answer a s
      | a # url # _ \<Rightarrow>
          if a = [] then subscriptionAddByURL io http0 http unmarshal draw now yes answer url s
          else if is_ok (loadSubscription io s a) \<and> \<not> confirmed yes answer then Some (None, s)
          else outcome (applySubscription io http unmarshal draw now a url s))"

definition subscriptionRemoveCmd :: "io \<Rightarrow> bool \<Rightarrow> string \<Rightarrow> string list \<Rightarrow> store \<Rightarrow> store_error option \<times> store" where
  "subscriptionRemoveCmd io yes answer args s =
     (case args of
        [] \<Rightarrow> (Some Usage, s)
      | name # _ \<Rightarrow>
          (case loadSubscription io s name of
             Inl _ \<Rightarrow> (Some NotFound, s)
           | Inr sub \<Rightarrow>
               if \<not> confirmed yes answer then (None, s)
               else
                 let s1 = fold (\<lambda>p s. snd (removeProfile io p s)) (sProfiles sub) s
                 in if map_of (subFiles s1) name = None \<or> io (RemoveFile (SubP name)) then (Some RemoveFailed, s1)
                    else (None, delSub name s1)))"

definition movedProfile :: "string \<Rightarrow> string \<Rightarrow> ProfileData \<Rightarrow> ProfileData" where
  "movedProfile oldName newName p =
     p\<lparr>pSubscription := newName, pGroups := map (\<lambda>g. if g = oldName then newName else g) (pGroups p)\<rparr>"

fun moveProfiles :: "io \<Rightarrow> (nat \<Rightarrow> bytes) \<Rightarrow> string \<Rightarrow> string \<Rightarrow> string list \<Rightarrow> store \<Rightarrow> store" where
  "moveProfiles io draw oldName newName [] s = s"
| "moveProfiles io draw oldName newName (n # ns) s =
     (case loadProfile io s n of
        Inl _ \<Rightarrow> moveProfiles io (\<lambda>k. draw (Suc k)) oldName newName ns s
      | Inr p \<Rightarrow>
          moveProfiles io (\<lambda>k. draw (Suc k)) oldName newName ns
            (snd (saveProfile io (draw 0) n (movedProfile oldName newName p) s)))"

definition subscriptionMoveCmd :: "io \<Rightarrow> (nat \<Rightarrow> bytes) \<Rightarrow> string list \<Rightarrow> store \<Rightarrow> store_error option \<times> store" where
  "subscriptionMoveCmd io draw args s =
     (case args of
        [oldName, newName] \<Rightarrow>
          if oldName = newName then (Some SameName, s)
          else if \<not> isSubscriptionName s oldName then (Some NotFound, s)
          else if isSubscriptionName s newName then (Some AlreadyExists, s)
          else (case loadSubscription io s oldName of
                  Inl e \<Rightarrow> (Some e, s)
                | Inr sub \<Rightarrow>
                    (case saveSubscription io newName (sub\<lparr>sName := newName\<rparr>) s of
                       (Some e, s1) \<Rightarrow> (Some e, s1)
                     | (None, s1) \<Rightarrow>
                         if io (RemoveFile (SubP oldName)) then (Some RemoveFailed, s1)
                         else (None, moveProfiles io draw oldName newName (sProfiles sub) (delSub oldName s1))))
      | _ \<Rightarrow> (Some Usage, s))"

text \<open>\<open>update\<close>: each subscription has its own answer, response, random bytes and time stamp.\<close>

fun updateEach :: "io \<Rightarrow> (nat \<Rightarrow> http) \<Rightarrow> unmarshal \<Rightarrow> (nat \<Rightarrow> nat \<Rightarrow> bytes) \<Rightarrow> (nat \<Rightarrow> string) \<Rightarrow> bool \<Rightarrow> (nat \<Rightarrow> string)
    \<Rightarrow> string list \<Rightarrow> store \<Rightarrow> store option" where
  "updateEach io http unmarshal draw now yes answer [] s = Some s"
| "updateEach io http unmarshal draw now yes answer (n # ns) s =
     (case loadSubscription io s n of
        Inl _ \<Rightarrow>
          updateEach io (\<lambda>k. http (Suc k)) unmarshal (\<lambda>k. draw (Suc k)) (\<lambda>k. now (Suc k)) yes (\<lambda>k. answer (Suc k)) ns s
      | Inr sub \<Rightarrow>
          (case (if confirmed yes (answer 0) then outcome (applySubscription io (http 0) unmarshal (draw 0) (now 0) n (sURL sub) s)
                 else Some (None, s)) of
             None \<Rightarrow> None
           | Some (_, s1) \<Rightarrow>
               updateEach io (\<lambda>k. http (Suc k)) unmarshal (\<lambda>k. draw (Suc k)) (\<lambda>k. now (Suc k)) yes (\<lambda>k. answer (Suc k)) ns s1))"

definition subscriptionUpdateCmd :: "io \<Rightarrow> (nat \<Rightarrow> http) \<Rightarrow> unmarshal \<Rightarrow> (nat \<Rightarrow> nat \<Rightarrow> bytes) \<Rightarrow> (nat \<Rightarrow> string) \<Rightarrow> bool
    \<Rightarrow> (nat \<Rightarrow> string) \<Rightarrow> string list \<Rightarrow> store \<Rightarrow> store option" where
  "subscriptionUpdateCmd io http unmarshal draw now yes answer args s =
     updateEach io http unmarshal draw now yes answer (if args = [] then listSubscriptions s else args) s"

section \<open>Import\<close>

record importProfile =
  iName :: string
  iPeer :: string
  iVKHashes :: string
  iWorkersPerHash :: int
  iListenPort :: int
  iPassword :: string
  iGroupName :: string

definition importedProfile :: "importProfile \<Rightarrow> ProfileData" where
  "importedProfile e =
     \<lparr>pPeerAddr = iPeer e, pPassword = iPassword e, pHashes = [iVKHashes e],
      pListen = (if iListenPort e > 0 then ''127.0.0.1:'' @ Itoa (iListenPort e) else []), pTurnHost = [], pTurnPort = [],
      pWorkers = 0, pDeviceID = [], pPriority = 0, pLinkFile = [],
      pGroups = (if iGroupName e \<noteq> [] then [iGroupName e] else []), pSubscription = []\<rparr>"

definition importEntry :: "io \<Rightarrow> bytes \<Rightarrow> bool \<Rightarrow> importProfile \<Rightarrow> string list \<times> store \<Rightarrow> (string list \<times> store) option" where
  "importEntry io draw dryRun e acc =
     (case acc of (saved, s) \<Rightarrow>
        (let name = normalizeImportName (iName e) in
         if name = [] then Some (saved, s)
         else case firstFree (loads io s) (importCandidate name) 0 of
           None \<Rightarrow> None
         | Some k \<Rightarrow>
             (let finalName = importCandidate name k in
              if dryRun then Some (saved @ [finalName], s)
              else case saveProfile io draw finalName (importedProfile e) s of
                (Some _, s1) \<Rightarrow> Some (saved, s1)
              | (None, s1) \<Rightarrow> Some (saved @ [finalName], s1))))"

fun importEntries :: "io \<Rightarrow> (nat \<Rightarrow> bytes) \<Rightarrow> bool \<Rightarrow> importProfile list \<Rightarrow> string list \<times> store
    \<Rightarrow> (string list \<times> store) option" where
  "importEntries io draw dryRun [] acc = Some acc"
| "importEntries io draw dryRun (e # es) acc =
     (case importEntry io (draw 0) dryRun e acc of
        None \<Rightarrow> None
      | Some acc1 \<Rightarrow> importEntries io (\<lambda>k. draw (Suc k)) dryRun es acc1)"

text \<open>\<open>filepath.Base\<close>, and the members of an archive: name, whether it is a directory, its content if it can be read.\<close>

definition Base :: "string \<Rightarrow> string" where
  "Base path =
     (let p = rev (dropWhile (\<lambda>c. c = CHR ''/'') (rev path))
      in if path = [] then ''.'' else if p = [] then ''/''
         else rev (takeWhile (\<lambda>c. c \<noteq> CHR ''/'') (rev p)))"

type_synonym archive = "(string \<times> bool \<times> string option) list"
type_synonym unmarshal_import = "string \<Rightarrow> importProfile list option"

definition is_json :: "string \<Rightarrow> bool" where
  "is_json name \<longleftrightarrow> HasSuffix (lower_view name) ''.json''"

definition loadImportFromZip :: "unmarshal_import \<Rightarrow> archive option \<Rightarrow> importProfile list option" where
  "loadImportFromZip unmarshal ar =
     (case ar of
        None \<Rightarrow> None
      | Some members \<Rightarrow>
          (let jsons = filter (\<lambda>(name, dir, _). \<not> dir \<and> is_json (Base name)) members
           in if jsons = [] then None
              else Some (concat (map (\<lambda>(_, _, content).
                     case Option.bind content unmarshal of Some es \<Rightarrow> es | None \<Rightarrow> []) jsons))))"

definition loadImportFromJSONFile :: "unmarshal_import \<Rightarrow> string option \<Rightarrow> importProfile list option" where
  "loadImportFromJSONFile unmarshal data = Option.bind data unmarshal"

text \<open>The file at the expanded path: its content, if it can be opened, and how the \<open>zip\<close> package reads it.\<close>

definition loadImportEntries :: "unmarshal_import \<Rightarrow> string \<Rightarrow> string option \<Rightarrow> archive option \<Rightarrow> importProfile list option" where
  "loadImportEntries unmarshal path data ar =
     (if HasSuffix (lower_view path) ''.zip'' then loadImportFromZip unmarshal ar
      else if is_json path then loadImportFromJSONFile unmarshal data
      else case data of
        None \<Rightarrow> None
      | Some d \<Rightarrow>
          if HasPrefix d ''PK'' then loadImportFromZip unmarshal ar else loadImportFromJSONFile unmarshal data)"

definition importCmd :: "io \<Rightarrow> (nat \<Rightarrow> bytes) \<Rightarrow> unmarshal_import \<Rightarrow> bool \<Rightarrow> string \<Rightarrow> string option \<Rightarrow> archive option \<Rightarrow> store
    \<Rightarrow> (store_error option \<times> string list \<times> store) option" where
  "importCmd io draw unmarshal dryRun path data ar s =
     (case loadImportEntries unmarshal path data ar of
        None \<Rightarrow> Some (Some ReadFailed, [], s)
      | Some entries \<Rightarrow>
          map_option (\<lambda>(saved, t). (None, saved, t)) (importEntries io draw dryRun entries ([], s)))"

section \<open>The search for a free name ends\<close>

text \<open>Numbered names: what the search relies on is that different numbers give different names.\<close>

locale numbered_names =
  fixes mk :: "int \<Rightarrow> string"
  assumes mk_inj: "0 \<le> i \<Longrightarrow> 0 \<le> j \<Longrightarrow> mk i = mk j \<Longrightarrow> i = j"
begin

lemma some_free:
  assumes "finite {n. taken n}" "0 \<le> c"
  shows "\<exists>k \<ge> c. \<not> taken (mk k)"
proof (rule ccontr)
  assume "\<not> ?thesis"
  then have "mk ` {c..} \<subseteq> {n. taken n}" by auto
  then have "finite (mk ` {c..})" using assms(1) finite_subset by blast
  moreover have "inj_on mk {c..}" using mk_inj assms(2) by (intro inj_onI) simp
  ultimately have "finite {c..}" by (rule finite_imageD)
  then show False using infinite_Ici by blast
qed

lemma firstFree_to:
  assumes "\<not> taken (mk (c + int d))" "\<And>k. k < d \<Longrightarrow> taken (mk (c + int k))"
  shows "firstFree taken mk c = Some (c + int d)"
  using assms
proof (induction d arbitrary: c)
  case (Suc d)
  have "taken (mk c)" using Suc.prems(2) [of 0] by simp
  moreover have "firstFree taken mk (c + 1) = Some (c + 1 + int d)"
    using Suc.prems(1) Suc.prems(2) [of "Suc _"] by (intro Suc.IH) (simp_all add: algebra_simps)
  ultimately show ?case by (simp add: firstFree.simps [of taken mk c])
qed (simp add: firstFree.simps)

text \<open>The search returns the smallest free number.\<close>

lemma firstFree_total:
  assumes fin: "finite {n. taken n}" and "0 \<le> c"
  shows "\<exists>k \<ge> c. firstFree taken mk c = Some k \<and> \<not> taken (mk k) \<and> (\<forall>j. c \<le> j \<and> j < k \<longrightarrow> taken (mk j))"
proof -
  from some_free [OF assms] obtain k where k: "k \<ge> c" "\<not> taken (mk k)" by blast
  from k have "\<not> taken (mk (c + int (nat (k - c))))" by simp
  then obtain d where free: "\<not> taken (mk (c + int d))" and before: "\<And>e. e < d \<Longrightarrow> taken (mk (c + int e))"
    using exists_least_iff [of "\<lambda>d. \<not> taken (mk (c + int d))"] by blast
  have "taken (mk j)" if "c \<le> j" "j < c + int d" for j
    using before [of "nat (j - c)"] that by simp
  moreover have "firstFree taken mk c = Some (c + int d)" using free before by (rule firstFree_to)
  ultimately show ?thesis using free by (intro exI [of _ "c + int d"]) simp
qed

end

lemma nat_digits_inj: "nat_digits m = nat_digits n \<Longrightarrow> m = n"
  by (metis nat_digits_val)

lemma Itoa_inj: "0 \<le> i \<Longrightarrow> 0 \<le> j \<Longrightarrow> Itoa i = Itoa j \<Longrightarrow> i = j"
  using nat_digits_inj [of "nat i" "nat j"] by (simp add: Itoa_def split: if_splits)

interpretation sub_names: numbered_names "subCandidate baseName" for baseName
  by unfold_locales (simp add: subCandidate_def Itoa_inj)

interpretation import_names: numbered_names "importCandidate name" for name
  by unfold_locales (simp add: importCandidate_def Itoa_inj split: if_splits)

lemma finite_loads: "finite {n. loads io s n}"
proof (rule finite_subset)
  show "{n. loads io s n} \<subseteq> fst ` set (profFiles s)"
    by (auto simp: loads_def loadProfile_def split: if_splits option.splits dest: map_of_SomeD intro: rev_image_eqI)
  show "finite (fst ` set (profFiles s))" by simp
qed

section \<open>What an update leaves alone\<close>

text \<open>A step that keeps every file but the profiles, and the profiles that \<open>keep\<close> holds of.\<close>

definition profile_step :: "(string \<Rightarrow> bool) \<Rightarrow> store \<Rightarrow> store \<Rightarrow> bool" where
  "profile_step keep s t \<longleftrightarrow>
     same_rest s t \<and> (\<forall>m. keep m \<longrightarrow> map_of (profFiles t) m = map_of (profFiles s) m)"

lemma profile_step_refl [simp]: "profile_step keep s s"
  by (simp add: profile_step_def)

lemma profile_step_trans: "profile_step keep s t \<Longrightarrow> profile_step keep t u \<Longrightarrow> profile_step keep s u"
  by (auto simp: profile_step_def intro: same_rest_trans)

lemma profile_step_mono: "profile_step keep s t \<Longrightarrow> (\<And>m. keep' m \<Longrightarrow> keep m) \<Longrightarrow> profile_step keep' s t"
  by (simp add: profile_step_def)

lemma profile_step_load: "profile_step keep s t \<Longrightarrow> keep m \<Longrightarrow> loadProfile io t m = loadProfile io s m"
  by (rule loadProfile_same) (auto simp: profile_step_def)

lemma saveProfile_step:
  "saveProfile io draw n p s = (r, t) \<Longrightarrow> (keep n \<Longrightarrow> isRO n) \<Longrightarrow> profile_step keep s t"
  by (erule saveProfile_outcome) (auto simp: profile_step_def pf.get_put)

lemma removeProfile_step: "removeProfile io n s = (r, t) \<Longrightarrow> \<not> keep n \<Longrightarrow> profile_step keep s t"
  by (erule removeProfile_outcome) (auto simp: profile_step_def pf.get_del)

lemma getOrCreate_step: "profile_step keep s (snd (getOrCreateDeviceID io draw s))"
  by (simp add: profile_step_def getOrCreateDeviceID_keeps)

text \<open>Both branches of the removal do the same.\<close>

lemma removeOld_eq:
  "removeOld io subName n (removed, s) =
     (case removeProfile io n s of (None, t) \<Rightarrow> (removed @ [n], t) | (Some _, _) \<Rightarrow> (removed, s))"
  by (simp add: removeOld_def)

lemma removeOld_step: "\<not> keep n \<Longrightarrow> profile_step keep s (snd (removeOld io subName n (removed, s)))"
  by (auto simp: removeOld_eq split: prod.splits option.splits intro: removeProfile_step)

lemma removeOlds_step:
  "(\<And>n. n \<in> set ns \<Longrightarrow> \<not> keep n) \<Longrightarrow> profile_step keep s (snd (fold (removeOld io subName) ns (removed, s)))"
proof (induction ns arbitrary: removed s)
  case (Cons n ns)
  obtain r1 s1 where eq: "removeOld io subName n (removed, s) = (r1, s1)" by fastforce
  have "profile_step keep s s1" using removeOld_step [of keep n s io subName removed] Cons.prems eq by simp
  then show ?case using Cons eq by (auto intro: profile_step_trans)
qed simp

lemma entryToProfile_step: "profile_step keep s (snd (subscriptionEntryToProfile io draw e subName s))"
  using getOrCreate_step [of keep s io draw]
  by (cases "getOrCreateDeviceID io draw s") (auto simp: subscriptionEntryToProfile_def Let_def)

lemma entryToProfile_fields:
  "subscriptionEntryToProfile io draw e subName s = (Inr p, t) \<Longrightarrow>
     pSubscription p = subName \<and> pLinkFile p = [] \<and> pHashes p \<noteq> [] \<and> pPeerAddr p \<noteq> []"
  by (auto simp: subscriptionEntryToProfile_def Let_def split: if_splits prod.splits)

text \<open>A name an entry takes is free or already owned by the subscription.\<close>

definition nonneg_counters :: "(string \<times> int) list \<Rightarrow> bool" where
  "nonneg_counters m \<longleftrightarrow> (\<forall>n. 0 \<le> counter_of m n)"

lemma nonneg_counters_Nil [simp]: "nonneg_counters []"
  by (simp add: nonneg_counters_def counter_of_def)

lemma entryName_some:
  assumes "nonneg_counters counters"
  shows "\<exists>n counters1. entryName io s subName counters e = Some (n, counters1) \<and> nonneg_counters counters1 \<and>
           (\<forall>p. loadProfile io s n = Inr p \<longrightarrow> pSubscription p = subName)"
proof -
  define b where "b = (if normalizeImportName (eName e) = [] then subName else normalizeImportName (eName e))"
  show ?thesis
  proof (cases "case loadProfile io s b of Inr p \<Rightarrow> pSubscription p \<noteq> subName | Inl _ \<Rightarrow> False")
    case True
    have "0 \<le> counter_of counters b" using assms by (simp add: nonneg_counters_def)
    from sub_names.firstFree_total [OF finite_loads this, of io s b]
    obtain k where k: "counter_of counters b \<le> k" "firstFree (loads io s) (subCandidate b) (counter_of counters b) = Some k"
      "\<not> loads io s (subCandidate b k)" by blast
    have "nonneg_counters (AList.update b (k + 1) counters)"
      using assms order_trans [OF \<open>0 \<le> counter_of counters b\<close> k(1)]
      by (auto simp: nonneg_counters_def counter_of_def update_conv)
    with True k show ?thesis
      by (auto simp: entryName_def b_def [symmetric] Let_def loads_def)
  next
    case False
    with assms show ?thesis by (auto simp: entryName_def b_def [symmetric] Let_def split: sum.splits)
  qed
qed

text \<open>A profile file that a subscription has written.\<close>

definition owned_file :: "store \<Rightarrow> string \<Rightarrow> string \<Rightarrow> bool" where
  "owned_file s subName n \<longleftrightarrow>
     \<not> isRO n \<and>
     (case map_of (profFiles s) n of
        Some (Good p) \<Rightarrow> pSubscription p = subName \<and> pLinkFile p = [] \<and> (subName \<noteq> [] \<longrightarrow> subName \<in> set (pGroups p))
      | _ \<Rightarrow> False)"

lemma owned_file_load:
  assumes "owned_file s subName n" "\<not> io (ReadFile (ProfileP n))"
  shows "\<exists>p. loadProfile io s n = Inr p \<and> pSubscription p = subName \<and> (subName \<noteq> [] \<longrightarrow> subName \<in> set (pGroups p))"
  using assms by (auto simp: owned_file_def loadProfile_def Let_def split: option.splits stored.splits)

lemma owned_file_cong: "profFiles t = profFiles s \<Longrightarrow> owned_file t subName n = owned_file s subName n"
  by (simp add: owned_file_def)

lemma withGroup_member: "pSubscription p \<noteq> [] \<Longrightarrow> pSubscription p \<in> set (pGroups (withGroup p))"
  by (simp add: withGroup_def)

lemma owned_file_saved:
  assumes "\<not> isRO n" "pSubscription p = subName" "pLinkFile p = []"
  shows "owned_file (putProfile n (Good (savedAs io draw s p)) t) subName n"
  using assms withGroup_member [of "if pDeviceID p = [] then p\<lparr>pDeviceID := fst (getOrCreateDeviceID io draw s)\<rparr> else p"]
  by (auto simp: owned_file_def pf.get_put savedAs_def[symmetric]) (auto simp: savedAs_def split: if_splits)

lemma owned_file_put: "owned_file t subName m \<Longrightarrow> n \<noteq> m \<Longrightarrow> owned_file (putProfile n v t) subName m"
  by (simp add: owned_file_def pf.get_put)

lemma owned_file_put_saved:
  "owned_file t subName m \<Longrightarrow> \<not> isRO n \<Longrightarrow> pSubscription p = subName \<Longrightarrow> pLinkFile p = [] \<Longrightarrow>
     owned_file (putProfile n (Good (savedAs io draw s p)) t) subName m"
  by (cases "n = m") (simp_all add: owned_file_saved owned_file_put)

definition foreign :: "io \<Rightarrow> store \<Rightarrow> string \<Rightarrow> string \<Rightarrow> bool" where
  "foreign io s subName m \<longleftrightarrow> isRO m \<or> (\<exists>p. loadProfile io s m = Inr p \<and> pSubscription p \<noteq> subName)"

definition apply_inv :: "io \<Rightarrow> store \<Rightarrow> string \<Rightarrow> progress \<Rightarrow> bool" where
  "apply_inv io s0 subName acc \<longleftrightarrow>
     (case acc of (created, counters, s) \<Rightarrow>
        nonneg_counters counters \<and> profile_step (foreign io s0 subName) s0 s \<and> (\<forall>n \<in> set created. owned_file s subName n))"

lemma applyEntry_inv:
  assumes "apply_inv io s0 subName acc"
  shows "\<exists>acc1. applyEntry io draw subName e acc = Some acc1 \<and> apply_inv io s0 subName acc1"
proof -
  obtain created counters s where acc: "acc = (created, counters, s)" by (cases acc)
  obtain r s1 where ep: "subscriptionEntryToProfile io draw e subName s = (r, s1)" by fastforce
  have step1: "profile_step (\<lambda>_. True) s s1" using entryToProfile_step [of "\<lambda>_. True" s io draw e subName] ep by simp
  have files1: "map_of (profFiles s1) = map_of (profFiles s)" using step1 by (auto simp: profile_step_def)
  have inv: "nonneg_counters counters" "profile_step (foreign io s0 subName) s0 s1"
    "\<forall>n \<in> set created. owned_file s1 subName n"
    using assms profile_step_trans [OF _ profile_step_mono [OF step1], of "foreign io s0 subName" s0]
    by (simp_all add: acc apply_inv_def owned_file_def files1)
  show ?thesis
  proof (cases r)
    case (Inl x)
    with ep inv show ?thesis by (simp add: acc applyEntry_def apply_inv_def)
  next
    case (Inr prof)
    with ep have prof: "pSubscription prof = subName" "pLinkFile prof = []" using entryToProfile_fields by blast+
    from entryName_some [OF inv(1)] obtain n counters1
      where name: "entryName io s1 subName counters e = Some (n, counters1)" "nonneg_counters counters1"
        and own: "\<And>p. loadProfile io s1 n = Inr p \<Longrightarrow> pSubscription p = subName" by blast
    obtain x s2 where sv: "saveProfile io draw n prof s1 = (x, s2)" by fastforce
    have "foreign io s0 subName n \<Longrightarrow> isRO n"
      using own profile_step_load [OF inv(2), of n] by (auto simp: foreign_def)
    then have step2: "profile_step (foreign io s0 subName) s0 s2"
      using inv(2) saveProfile_step [OF sv] by (blast intro: profile_step_trans)
    have res: "applyEntry io draw subName e acc =
        Some ((case x of None \<Rightarrow> created @ [n] | Some _ \<Rightarrow> created), counters1, s2)"
      using ep Inr name sv by (simp add: acc applyEntry_def split: option.split)
    have "\<forall>m \<in> set (case x of None \<Rightarrow> created @ [n] | Some _ \<Rightarrow> created). owned_file s2 subName m"
      using sv
    proof (rule saveProfile_outcome)
      fix y assume "x = Some y" "profFiles s2 = profFiles s1"
      then show ?thesis using inv(3) owned_file_cong [of s2 s1] by simp
    next
      fix u assume "x = None" "\<not> isRO n" "profFiles u = profFiles s1" "s2 = putProfile n (Good (savedAs io draw s1 prof)) u"
      then show ?thesis
        using inv(3) owned_file_saved [OF _ prof] owned_file_put_saved [OF _ _ prof] owned_file_cong [of u s1] by simp
    qed
    with res name(2) step2 show ?thesis by (simp add: apply_inv_def)
  qed
qed

lemma applyEntries_inv:
  "apply_inv io s0 subName acc \<Longrightarrow> \<exists>acc1. applyEntries io draw subName es acc = Some acc1 \<and> apply_inv io s0 subName acc1"
proof (induction es arbitrary: draw acc)
  case (Cons e es)
  from applyEntry_inv [OF Cons.prems, of "draw 0" e]
  obtain acc1 where "applyEntry io (draw 0) subName e acc = Some acc1" "apply_inv io s0 subName acc1" by blast
  with Cons.IH [of acc1] show ?case by simp
qed simp

lemma saveSubscription_keeps:
  "profFiles (snd (saveSubscription io n c s)) = profFiles s" "linkFiles (snd (saveSubscription io n c s)) = linkFiles s"
  by (simp_all add: saveSubscription_def putSub_def)

text \<open>What applying a subscription amounts to once the document is there.\<close>

lemma applySubscription_runs:
  assumes "fetchSubscriptionJSON http (sURL (subscriptionFor io s name url)) = Some data"
    and "parseSubscriptionJSON unmarshal data = Inr parsed" and sub: "sub = subscriptionFor io s name url"
  obtains created removed t where
    "applySubscription io http unmarshal draw now name url s =
       Some \<lparr>aError = fst (saveSubscription io (sName sub) (refreshed sub parsed now created) t), aCreated = created,
             aRemoved = removed, aStore = snd (saveSubscription io (sName sub) (refreshed sub parsed now created) t)\<rparr>"
    "profile_step (\<lambda>m. foreign io s (sName sub) m \<and> m \<notin> set (sProfiles sub)) s t"
    "\<forall>n \<in> set created. owned_file t (sName sub) n"
proof -
  let ?keep = "\<lambda>m. foreign io s (sName sub) m \<and> m \<notin> set (sProfiles sub)"
  obtain removed s1 where rm: "fold (removeOld io (sName sub)) (sProfiles sub) ([], s) = (removed, s1)" by fastforce
  have gone: "profile_step (\<lambda>m. m \<notin> set (sProfiles sub)) s s1"
    using removeOlds_step [where keep = "\<lambda>m. m \<notin> set (sProfiles sub)" and ns = "sProfiles sub" and io = io and
        subName = "sName sub" and removed = "[]" and s = s] rm by simp
  have "apply_inv io s1 (sName sub) ([], [], s1)" by (simp add: apply_inv_def)
  from applyEntries_inv [OF this, of draw "jProfiles parsed"] obtain created counters t
    where ae: "applyEntries io draw (sName sub) (jProfiles parsed) ([], [], s1) = Some (created, counters, t)"
      and inv: "profile_step (foreign io s1 (sName sub)) s1 t" "\<forall>n \<in> set created. owned_file t (sName sub) n"
    by (auto simp: apply_inv_def)
  have "?keep m \<Longrightarrow> foreign io s1 (sName sub) m" for m
    using profile_step_load [OF gone, of m io] by (simp add: foreign_def)
  then have "profile_step ?keep s t"
    using gone inv(1) by (blast intro: profile_step_trans profile_step_mono)
  moreover have "applySubscription io http unmarshal draw now name url s =
      Some \<lparr>aError = fst (saveSubscription io (sName sub) (refreshed sub parsed now created) t), aCreated = created,
            aRemoved = removed, aStore = snd (saveSubscription io (sName sub) (refreshed sub parsed now created) t)\<rparr>"
    using assms rm ae by (simp add: applySubscription_def Let_def split_beta)
  ultimately show thesis using inv(2) that by blast
qed

lemma applySubscription_fails:
  assumes "fetchSubscriptionJSON http (sURL (subscriptionFor io s name url)) = None \<or>
     fetchSubscriptionJSON http (sURL (subscriptionFor io s name url)) = Some data \<and> parseSubscriptionJSON unmarshal data = Inl e"
  shows "\<exists>e. applySubscription io http unmarshal draw now name url s =
           Some \<lparr>aError = Some e, aCreated = [], aRemoved = [], aStore = s\<rparr>"
  using assms by (auto simp: applySubscription_def Let_def)

lemma applySubscription_cases:
  obtains (failed) e where "applySubscription io http unmarshal draw now name url s =
      Some \<lparr>aError = Some e, aCreated = [], aRemoved = [], aStore = s\<rparr>"
  | (ran) data parsed where "fetchSubscriptionJSON http (sURL (subscriptionFor io s name url)) = Some data"
      "parseSubscriptionJSON unmarshal data = Inr parsed"
proof (cases "fetchSubscriptionJSON http (sURL (subscriptionFor io s name url))")
  case None
  then show thesis using applySubscription_fails failed by metis
next
  case (Some data)
  then show thesis
    using applySubscription_fails [where data = data and http = http and io = io and s = s and name = name and url = url
        and unmarshal = unmarshal and draw = draw and now = now] failed ran
    by (cases "parseSubscriptionJSON unmarshal data") auto
qed


text \<open>
  C25. When applying a subscription succeeds, its configuration lists the created profiles, and each of them loads, is marked
  as managed by the subscription and carries its group; when the document cannot be fetched or decoded, nothing changes.
\<close>

theorem apply_subscription_owns:
  assumes run: "applySubscription io http unmarshal draw now name url s = Some r"
    and sub: "sub = subscriptionFor io s name url" and "\<not> io (ReadFile (SubP (sName sub)))"
  shows "(aError r = None \<longrightarrow>
            (\<exists>c. loadSubscription io (aStore r) (sName sub) = Inr c \<and> sProfiles c = aCreated r \<and> sURL c = sURL sub)) \<and>
         (\<forall>n \<in> set (aCreated r). \<not> io (ReadFile (ProfileP n)) \<longrightarrow>
            (\<exists>p. loadProfile io (aStore r) n = Inr p \<and> pSubscription p = sName sub \<and>
                 (sName sub \<noteq> [] \<longrightarrow> sName sub \<in> set (pGroups p)))) \<and>
         (fetchSubscriptionJSON http (sURL sub) = None \<longrightarrow> aStore r = s \<and> aError r = Some Fetch)"
proof (cases rule: applySubscription_cases [of io http unmarshal draw now name url s])
  case (failed e)
  then have "r = \<lparr>aError = Some e, aCreated = [], aRemoved = [], aStore = s\<rparr>" using run by simp
  moreover have "fetchSubscriptionJSON http (sURL sub) = None \<longrightarrow> aError r = Some Fetch"
    using run sub by (auto simp: applySubscription_def Let_def)
  ultimately show ?thesis by simp
next
  case (ran data parsed)
  from applySubscription_runs [OF ran sub, of draw now] obtain created removed t
    where r: "r = \<lparr>aError = fst (saveSubscription io (sName sub) (refreshed sub parsed now created) t), aCreated = created,
              aRemoved = removed, aStore = snd (saveSubscription io (sName sub) (refreshed sub parsed now created) t)\<rparr>"
      and own: "\<forall>n \<in> set created. owned_file t (sName sub) n"
    unfolding run option.inject .
  let ?c = "refreshed sub parsed now created"
  have fetched: "fetchSubscriptionJSON http (sURL sub) \<noteq> None" using ran sub by simp
  have "loadSubscription io (aStore r) (sName sub) = Inr ?c" if "aError r = None"
    using that assms(3) by (auto simp: r saveSubscription_def loadSubscription_def sf.get_put split: if_splits)
  moreover have "sProfiles ?c = created" "sURL ?c = sURL sub" by (simp_all add: refreshed_def)
  moreover have "owned_file (aStore r) (sName sub) n" if "n \<in> set created" for n
    using own that owned_file_cong [of "aStore r" t] by (simp add: r saveSubscription_keeps)
  then have "\<forall>n \<in> set created. \<not> io (ReadFile (ProfileP n)) \<longrightarrow>
      (\<exists>p. loadProfile io (aStore r) n = Inr p \<and> pSubscription p = sName sub \<and> (sName sub \<noteq> [] \<longrightarrow> sName sub \<in> set (pGroups p)))"
    using owned_file_load by blast
  ultimately show ?thesis using fetched by (auto simp: r)
qed

section \<open>What an import leaves alone\<close>

lemma importEntry_step:
  "\<exists>saved1 t. importEntry io draw dryRun e (saved, s) = Some (saved1, t) \<and>
     profile_step (\<lambda>m. isRO m \<or> loads io s m) s t \<and> (dryRun \<longrightarrow> t = s) \<and>
     (saved1 = saved \<or> (\<exists>n. saved1 = saved @ [n] \<and> \<not> loads io s n \<and>
        (\<not> dryRun \<longrightarrow> \<not> isRO n \<and> map_of (profFiles t) n \<noteq> None)))"
proof (cases "normalizeImportName (iName e) = []")
  case False
  let ?mk = "importCandidate (normalizeImportName (iName e))"
  from import_names.firstFree_total [where taken = "loads io s" and c = 0 and name = "normalizeImportName (iName e)",
      OF finite_loads order_refl]
  obtain k where k: "firstFree (loads io s) ?mk 0 = Some k" "\<not> loads io s (?mk k)" by blast
  obtain x t where sv: "saveProfile io draw (?mk k) (importedProfile e) s = (x, t)" by fastforce
  have step: "profile_step (\<lambda>m. isRO m \<or> loads io s m) s t"
    using k(2) by (auto intro: saveProfile_step [OF sv])
  have "x = None \<Longrightarrow> \<not> isRO (?mk k) \<and> map_of (profFiles t) (?mk k) \<noteq> None"
    using sv by (auto elim!: saveProfile_outcome simp: pf.get_put)
  moreover have "importEntry io draw dryRun e (saved, s) =
      Some (if dryRun then (saved @ [?mk k], s) else case x of Some _ \<Rightarrow> (saved, t) | None \<Rightarrow> (saved @ [?mk k], t))"
    using False k(1) sv by (cases x) (simp_all add: importEntry_def)
  ultimately show ?thesis
    using step k(2) by (cases dryRun; cases x) simp_all
qed (simp add: importEntry_def)

lemma importEntries_step:
  "\<exists>saved1 t. importEntries io draw dryRun es (saved, s) = Some (saved1, t) \<and>
     profile_step (\<lambda>m. isRO m \<or> loads io s m) s t \<and> (dryRun \<longrightarrow> t = s) \<and>
     (\<exists>new. saved1 = saved @ new \<and> length new \<le> length es \<and> (\<forall>n \<in> set new. \<not> loads io s n))"
proof (induction es arbitrary: draw saved s)
  case (Cons e es)
  obtain saved1 s1 where e: "importEntry io (draw 0) dryRun e (saved, s) = Some (saved1, s1)"
      and st: "profile_step (\<lambda>m. isRO m \<or> loads io s m) s s1" "dryRun \<longrightarrow> s1 = s"
      and sv: "saved1 = saved \<or> (\<exists>n. saved1 = saved @ [n] \<and> \<not> loads io s n)"
    using importEntry_step [of io "draw 0" dryRun e saved s] by blast
  obtain saved2 t new where es: "importEntries io (\<lambda>k. draw (Suc k)) dryRun es (saved1, s1) = Some (saved2, t)"
      and st2: "profile_step (\<lambda>m. isRO m \<or> loads io s1 m) s1 t" "dryRun \<longrightarrow> t = s1"
      and sv2: "saved2 = saved1 @ new" "length new \<le> length es" "\<forall>n \<in> set new. \<not> loads io s1 n"
    using Cons.IH [of "\<lambda>k. draw (Suc k)" saved1 s1] by blast
  have later: "loads io s m \<Longrightarrow> loads io s1 m" for m
    using profile_step_load [OF st(1), of m io] by (simp add: loads_def)
  have "profile_step (\<lambda>m. isRO m \<or> loads io s m) s t"
    by (rule profile_step_trans [OF st(1) profile_step_mono [OF st2(1)]]) (use later in blast)
  moreover have "\<exists>new'. saved2 = saved @ new' \<and> length new' \<le> length (e # es) \<and> (\<forall>n \<in> set new'. \<not> loads io s n)"
    using sv
  proof
    assume "saved1 = saved"
    then show ?thesis using sv2 later by (intro exI [of _ new]) auto
  next
    assume "\<exists>n. saved1 = saved @ [n] \<and> \<not> loads io s n"
    then obtain n where "saved1 = saved @ [n]" "\<not> loads io s n" by blast
    then show ?thesis using sv2 later by (intro exI [of _ "n # new"]) auto
  qed
  ultimately show ?case using e es st(2) st2(2) by simp
qed simp

text \<open>
  C26. An import always returns and overwrites no profile that loads: every one of them loads as before, the saved names are
  names that did not load, there is at most one per entry, and a dry run changes nothing.
\<close>

theorem import_preserves:
  assumes "loadImportEntries unmarshal path data ar = Some entries"
  shows "\<exists>saved t. importCmd io draw unmarshal dryRun path data ar s = Some (None, saved, t) \<and>
           length saved \<le> length entries \<and> (\<forall>n \<in> set saved. \<not> loads io s n) \<and>
           (\<forall>n. loads io s n \<or> isRO n \<longrightarrow> loadProfile io t n = loadProfile io s n) \<and> (dryRun \<longrightarrow> t = s)"
proof -
  from importEntries_step [of io draw dryRun entries "[]" s] obtain saved t
    where run: "importEntries io draw dryRun entries ([], s) = Some (saved, t)"
      and st: "profile_step (\<lambda>m. isRO m \<or> loads io s m) s t" "dryRun \<longrightarrow> t = s"
      and sv: "length saved \<le> length entries" "\<forall>n \<in> set saved. \<not> loads io s n"
    by auto
  have "loads io s n \<or> isRO n \<longrightarrow> loadProfile io t n = loadProfile io s n" for n
    using profile_step_load [OF st(1), of n io] by blast
  with run st(2) sv assms show ?thesis by (auto simp: importCmd_def)
qed

section \<open>All commands that change the configuration\<close>

text \<open>Each run of the program is one command on the store; what the outside world answers may differ from run to run.\<close>

inductive command :: "store \<Rightarrow> store \<Rightarrow> bool" where
  c_add: "addCmd io draw args deviceID arg0 s = (e, t) \<Longrightarrow> command s t"
| c_edit: "editCmd io draws f grp names s = (es, t) \<Longrightarrow> command s t"
| c_remove: "removeCmd io grp yes answer names s = (es, t) \<Longrightarrow> command s t"
| c_move: "moveCmd io draw running args s = (e, t) \<Longrightarrow> command s t"
| c_enable: "enableCmd io grp ro sub names s = (es, t) \<Longrightarrow> command s t"
| c_disable: "disableCmd io grp ro sub names s = (es, t) \<Longrightarrow> command s t"
| c_device: "deviceIDCmd io args s = (x, t) \<Longrightarrow> command s t"
| c_import: "importCmd io draws unmarshal_import dryRun path data ar s = Some (e, saved, t) \<Longrightarrow> command s t"
| c_sub_add: "subscriptionAddCmd io http0 http unmarshal draws now yes answer args s = Some (e, t) \<Longrightarrow> command s t"
| c_sub_remove: "subscriptionRemoveCmd io yes answer args s = (e, t) \<Longrightarrow> command s t"
| c_sub_move: "subscriptionMoveCmd io draws args s = (e, t) \<Longrightarrow> command s t"
| c_sub_update: "subscriptionUpdateCmd io https unmarshal drawss nows yes answers args s = Some t \<Longrightarrow> command s t"

text \<open>Subscriptions list no read-only profiles, and a step that keeps this and the read-only profiles.\<close>

definition subs_ok :: "store \<Rightarrow> bool" where
  "subs_ok s \<longleftrightarrow> (\<forall>name c. map_of (subFiles s) name = Some (Good c) \<longrightarrow> list_all (\<lambda>n. \<not> isRO n) (sProfiles c))"

definition ro_step :: "store \<Rightarrow> store \<Rightarrow> bool" where
  "ro_step s t \<longleftrightarrow>
     linkFiles t = linkFiles s \<and> (\<forall>n. isRO n \<longrightarrow> map_of (profFiles t) n = map_of (profFiles s) n) \<and> (subs_ok s \<longrightarrow> subs_ok t)"

lemma ro_step_refl [simp]: "ro_step s s"
  by (simp add: ro_step_def)

lemma ro_step_trans: "ro_step s t \<Longrightarrow> ro_step t u \<Longrightarrow> ro_step s u"
  by (simp add: ro_step_def)

lemma ro_stepI:
  "same_rest s t \<Longrightarrow> (\<And>n. isRO n \<Longrightarrow> map_of (profFiles t) n = map_of (profFiles s) n) \<Longrightarrow> ro_step s t"
  by (simp add: ro_step_def same_rest_def subs_ok_def)

lemma ro_step_files:
  "profFiles t = profFiles s \<Longrightarrow> subFiles t = subFiles s \<Longrightarrow> linkFiles t = linkFiles s \<Longrightarrow> ro_step s t"
  by (simp add: ro_step_def subs_ok_def)

lemma profile_step_ro: "profile_step keep s t \<Longrightarrow> (\<And>n. isRO n \<Longrightarrow> keep n) \<Longrightarrow> ro_step s t"
  by (rule ro_stepI) (simp_all add: profile_step_def)

lemma saveProfile_ro: "ro_step s (snd (saveProfile io draw n p s))"
  using saveProfile_step [of io draw n p s _ _ isRO] by (intro profile_step_ro [of isRO]) (auto simp: prod_eq_iff)

lemma removeProfile_ro: "\<not> isRO n \<Longrightarrow> ro_step s (snd (removeProfile io n s))"
  using removeProfile_step [of io n s _ _ isRO] by (intro profile_step_ro [of isRO]) (auto simp: prod_eq_iff)

lemma getOrCreate_ro: "ro_step s (snd (getOrCreateDeviceID io draw s))"
  using getOrCreate_step by (rule profile_step_ro) simp

lemma putSub_ro: "(subs_ok s \<Longrightarrow> list_all (\<lambda>n. \<not> isRO n) (sProfiles c)) \<Longrightarrow> ro_step s (putSub n (Good c) s)"
  using sf.get_put [of n "Good c" s] by (auto simp: ro_step_def subs_ok_def putSub_def)

lemma delSub_ro: "ro_step s (delSub n s)"
  using sf.get_del [of n s] by (auto simp: ro_step_def subs_ok_def delSub_def split: if_splits)

lemma loadSubscription_ro: "subs_ok s \<Longrightarrow> loadSubscription io s n = Inr c \<Longrightarrow> list_all (\<lambda>n. \<not> isRO n) (sProfiles c)"
  by (auto simp: loadSubscription_def subs_ok_def split: if_splits option.splits stored.splits)

lemma eachTarget_ro: "(\<And>d n s. n \<in> set ns \<Longrightarrow> ro_step s (snd (op d n s))) \<Longrightarrow> ro_step s (snd (eachTarget op draw ns s))"
  by (rule eachTarget_rel) (auto intro: ro_step_trans)

lemma addCmd_ro: "ro_step s (snd (addCmd io draw args deviceID arg0 s))"
proof (cases "addName args arg0")
  case (Inr x)
  obtain n u where x: "x = (n, u)" by fastforce
  have dev: "ro_step s (snd (if deviceID = [] then getOrCreateDeviceID io draw s else (deviceID, s)))"
    using getOrCreate_ro by simp
  show ?thesis
    using Inr x dev saveProfile_ro
    by (auto simp: addCmd_def Let_def split_beta split: sum.split intro: ro_step_trans)
qed (simp add: addCmd_def)

lemma editCmd_ro: "ro_step s (snd (editCmd io draws f grp names s))"
proof -
  have "ro_step s (snd (eachTarget (\<lambda>d n. editOne io d f n) draws ns s))" for ns
  proof (rule eachTarget_ro)
    fix d n s
    have "edits_only {n} s (snd (editOne io d f n s))" by (rule editOne_edits_only) simp
    then show "ro_step s (snd (editOne io d f n s))" unfolding edits_only_def by (intro ro_stepI) blast+
  qed
  then show ?thesis by (simp add: editCmd_def Let_def)
qed

lemma removeCmd_ro: "ro_step s (snd (removeCmd io grp yes answer names s))"
proof -
  have "ro_step s (snd (eachTarget (\<lambda>_ n. removeProfile io n) (\<lambda>_. []) (filter (removable io s) ns) s))" for ns
    by (rule eachTarget_ro) (auto simp: removable_def intro: removeProfile_ro)
  then show ?thesis by (simp add: removeCmd_def Let_def)
qed

lemma renameProfile_ro: "ro_step s (snd (renameProfile io draw a b s))"
proof -
  obtain r t where run: "renameProfile io draw a b s = (r, t)" by fastforce
  then have "ro_step s t"
  proof (rule renameProfile_outcome)
    fix e p assume "saveProfile io draw b p s = (r, t)"
    then show ?thesis using saveProfile_ro [of s io draw b p] by simp
  next
    fix p s1 assume sv: "saveProfile io draw b p s = (None, s1)" and "t = snd (removeProfile io b s1)"
    moreover from sv have "\<not> isRO b" by (auto elim: saveProfile_outcome)
    ultimately show ?thesis
      using saveProfile_ro [of s io draw b p] removeProfile_ro [of b s1 io] by (auto intro: ro_step_trans)
  next
    fix p s1
    assume "\<not> isRO a" "saveProfile io draw b p s = (None, s1)" "removeProfile io a s1 = (None, delProfile a s1)"
      and t: "t = movePointers io a b (moveStatus io a b (delProfile a s1))"
    then have "ro_step s (delProfile a s1)"
      using saveProfile_ro [of s io draw b p] removeProfile_ro [of a s1 io] by (auto intro: ro_step_trans)
    moreover have "ro_step (delProfile a s1) t"
      unfolding t using movePointers_keeps moveStatus_keeps by (intro ro_step_files) simp_all
    ultimately show ?thesis by (rule ro_step_trans)
  qed simp
  with run show ?thesis by simp
qed

lemma moveCmd_ro: "ro_step s (snd (moveCmd io draw running args s))"
  using renameProfile_ro by (auto simp: moveCmd_def split: list.split sum.split)

lemma toggleOne_ro: "ro_step s (snd (toggleOne b io n s))"
  by (rule ro_step_files)
     (auto simp: toggleOne_def setProfileEnabled_def saveStatuses_def Let_def split: sum.split)

lemma enableCmd_ro: "ro_step s (snd (enableCmd io grp ro sub names s))"
  by (auto simp: enableCmd_def split: sum.split intro: eachTarget_ro toggleOne_ro)

lemma disableCmd_ro: "ro_step s (snd (disableCmd io grp ro sub names s))"
  by (auto simp: disableCmd_def split: sum.split intro: eachTarget_ro toggleOne_ro)

lemma deviceIDCmd_ro: "ro_step s (snd (deviceIDCmd io args s))"
  by (rule ro_step_files) (auto simp: deviceIDCmd_def Let_def split: list.split option.split)

lemma importCmd_ro: "importCmd io draws unmarshal dryRun path data ar s = Some (e, saved, t) \<Longrightarrow> ro_step s t"
proof (cases "loadImportEntries unmarshal path data ar")
  case (Some entries)
  assume run: "importCmd io draws unmarshal dryRun path data ar s = Some (e, saved, t)"
  obtain sv u where "importEntries io draws dryRun entries ([], s) = Some (sv, u)"
    and step: "profile_step (\<lambda>m. isRO m \<or> loads io s m) s u"
    using importEntries_step [of io draws dryRun entries "[]" s] by blast
  with run Some have "t = u" by (simp add: importCmd_def)
  with profile_step_ro [OF step] show ?thesis by simp
qed (simp add: importCmd_def)

lemma saveSubscription_ro:
  "(subs_ok s \<Longrightarrow> list_all (\<lambda>n. \<not> isRO n) (sProfiles c)) \<Longrightarrow> ro_step s (snd (saveSubscription io n c s))"
  by (simp add: saveSubscription_def putSub_ro)

lemma subscriptionFor_ro: "subs_ok s \<Longrightarrow> list_all (\<lambda>n. \<not> isRO n) (sProfiles (subscriptionFor io s n url))"
  using loadSubscription_ro by (auto simp: subscriptionFor_def split: sum.split)

lemma applySubscription_ro:
  assumes ok: "subs_ok s" and run: "applySubscription io http unmarshal draws now name url s = Some r"
  shows "ro_step s (aStore r)"
proof (cases rule: applySubscription_cases [of io http unmarshal draws now name url s])
  case (failed e)
  then show ?thesis using run by simp
next
  case (ran data parsed)
  let ?sub = "subscriptionFor io s name url"
  from applySubscription_runs [OF ran refl, of draws now] obtain created removed t
    where r: "r = \<lparr>aError = fst (saveSubscription io (sName ?sub) (refreshed ?sub parsed now created) t), aCreated = created,
              aRemoved = removed, aStore = snd (saveSubscription io (sName ?sub) (refreshed ?sub parsed now created) t)\<rparr>"
      and step: "profile_step (\<lambda>m. foreign io s (sName ?sub) m \<and> m \<notin> set (sProfiles ?sub)) s t"
      and own: "\<forall>n \<in> set created. owned_file t (sName ?sub) n"
    unfolding run option.inject .
  have "ro_step s t"
    using step by (rule profile_step_ro) (use subscriptionFor_ro [OF ok] in \<open>auto simp: foreign_def list_all_iff\<close>)
  moreover have "ro_step t (aStore r)"
    using own by (simp add: r, intro saveSubscription_ro) (simp add: refreshed_def list_all_iff owned_file_def)
  ultimately show ?thesis by (rule ro_step_trans)
qed

lemma subscriptionAddCmd_ro:
  assumes "subs_ok s" "subscriptionAddCmd io http0 http unmarshal draws now yes answer args s = Some (e, t)"
  shows "ro_step s t"
proof -
  have app: "outcome (applySubscription io http unmarshal draws now name url s) = Some (e, t) \<Longrightarrow> ro_step s t" for name url
    using applySubscription_ro [OF assms(1)] by (auto simp: outcome_def)
  then have "subscriptionAddByURL io http0 http unmarshal draws now yes answer url s = Some (e, t) \<Longrightarrow> ro_step s t" for url
    by (auto simp: subscriptionAddByURL_def split: option.splits sum.splits if_splits)
  then show ?thesis
    using assms(2) app by (auto simp: subscriptionAddCmd_def split: list.splits if_splits)
qed

lemma subscriptionRemoveCmd_ro:
  assumes ok: "subs_ok s" shows "ro_step s (snd (subscriptionRemoveCmd io yes answer args s))"
proof -
  have removes: "list_all (\<lambda>n. \<not> isRO n) ns \<Longrightarrow> ro_step s (fold (\<lambda>p s. snd (removeProfile io p s)) ns s)" for ns s
  proof (induction ns arbitrary: s)
    case (Cons n ns)
    then show ?case using removeProfile_ro [of n s io] by (auto intro: ro_step_trans)
  qed simp
  have "ro_step s (delSub n (fold (\<lambda>p s. snd (removeProfile io p s)) ns s))" if "list_all (\<lambda>n. \<not> isRO n) ns" for n ns
    using removes [OF that] delSub_ro by (rule ro_step_trans)
  with removes loadSubscription_ro [OF ok] show ?thesis
    by (auto simp: subscriptionRemoveCmd_def Let_def split: list.split sum.split)
qed

lemma moveProfiles_ro: "ro_step s (moveProfiles io draws a b ns s)"
proof (induction ns arbitrary: draws s)
  case (Cons n ns)
  then show ?case by (auto split: sum.split intro: ro_step_trans [OF saveProfile_ro])
qed simp

lemma subscriptionMoveCmd_ro:
  assumes ok: "subs_ok s" shows "ro_step s (snd (subscriptionMoveCmd io draws args s))"
proof -
  have save: "ro_step s u"
    if "saveSubscription io b (sub\<lparr>sName := b\<rparr>) s = (r, u)" "loadSubscription io s a = Inr sub" for a b sub r u
    using loadSubscription_ro [OF ok that(2)] saveSubscription_ro [of s "sub\<lparr>sName := b\<rparr>" io b] that(1) by simp
  have rest: "ro_step s u \<Longrightarrow> ro_step s (moveProfiles io draws a b ns (delSub a u))" for u a b ns
    using ro_step_trans [OF delSub_ro moveProfiles_ro] by (blast intro: ro_step_trans)
  show ?thesis
    by (auto simp: subscriptionMoveCmd_def split: list.split sum.split prod.split option.split dest: save intro: rest)
qed

lemma updateEach_ro:
  "subs_ok s \<Longrightarrow> updateEach io https unmarshal drawss nows yes answers ns s = Some t \<Longrightarrow> ro_step s t"
proof (induction ns arbitrary: https drawss nows answers s)
  case (Cons n ns)
  show ?case
  proof (cases "loadSubscription io s n")
    case (Inl e)
    then show ?thesis using Cons by auto
  next
    case (Inr sub)
    let ?r = "if confirmed yes (answers 0) then outcome (applySubscription io (https 0) unmarshal (drawss 0) (nows 0) n (sURL sub) s)
              else Some (None, s)"
    from Cons.prems(2) Inr obtain e s1 where r: "?r = Some (e, s1)" by (auto split: option.splits)
    have "ro_step s s1"
      using r applySubscription_ro [OF Cons.prems(1)] by (auto simp: outcome_def split: if_splits)
    moreover from this have "subs_ok s1" using Cons.prems(1) by (simp add: ro_step_def)
    then have "ro_step s1 t" by (rule Cons.IH) (use Cons.prems(2) Inr r in auto)
    ultimately show ?thesis by (rule ro_step_trans)
  qed
qed simp

lemma command_ro:
  assumes "command s t" "subs_ok s"
  shows "ro_step s t"
  using assms
proof induction
  case (c_add io draw args deviceID arg0 s e t) then show ?case using addCmd_ro [of s io draw args deviceID arg0] by simp
next
  case (c_edit io draws f grp names s es t) then show ?case using editCmd_ro [of s io draws f grp names] by simp
next
  case (c_remove io grp yes answer names s es t) then show ?case using removeCmd_ro [of s io grp yes answer names] by simp
next
  case (c_move io draw running args s e t) then show ?case using moveCmd_ro [of s io draw running args] by simp
next
  case (c_enable io grp ro sub names s es t) then show ?case using enableCmd_ro [of s io grp ro sub names] by simp
next
  case (c_disable io grp ro sub names s es t) then show ?case using disableCmd_ro [of s io grp ro sub names] by simp
next
  case (c_device io args s x t) then show ?case using deviceIDCmd_ro [of s io args] by simp
next
  case c_import show ?case by (rule importCmd_ro [OF c_import(1)])
next
  case c_sub_add then show ?case by (rule subscriptionAddCmd_ro [rotated])
next
  case (c_sub_remove io yes answer args s e t)
  then show ?case using subscriptionRemoveCmd_ro [of s io yes answer args] by simp
next
  case (c_sub_move io draws args s e t)
  then show ?case using subscriptionMoveCmd_ro [of s io draws args] by simp
next
  case c_sub_update then show ?case unfolding subscriptionUpdateCmd_def by (rule updateEach_ro [rotated])
qed


section \<open>Concrete runs\<close>

definition sampleEntry :: SubscriptionEntry where
  "sampleEntry =
     \<lparr>eName = ''Home'', ePeerAddr = ''1.2.3.4:5'', eHashList = ''a, b'', eVKHashes = [], eWorkersPerHash = 9, eWorkerCount = 0,
      ePort = 0, eListenPort = 7, ePasswordField = ''pw'', ePassField = []\<rparr>"

definition sampleDocument :: SubscriptionJSON where
  "sampleDocument =
     \<lparr>jName = ''vpn'', jGroupName = [], jDescription = [], jTrafficUsedMb = 0, jTrafficLimitMb = 0, jUpdatedAt = [], jVersion = 1,
      jProfiles = [sampleEntry], jServers = []\<rparr>"

definition sampleHttp :: http where
  "sampleHttp = (\<lambda>_. Some (200, Some ''{}''))"

lemma sample_fetch: "fetchSubscriptionJSON sampleHttp ''http://s'' = Some ''{}''"
proof -
  have "take bodyLimit ''{}'' = ''{}''" by (simp add: bodyLimit_def)
  moreover have "TrimSpace ''{}'' = ''{}''" by code_simp
  ultimately show ?thesis by (simp add: fetchSubscriptionJSON_def sampleHttp_def HasPrefix_def)
qed

definition sampleApplied :: "applied option" where
  "sampleApplied = applySubscription all_ok sampleHttp (\<lambda>_. Some sampleDocument) (\<lambda>_. []) ''now'' ''vpn'' ''http://s'' sampleStore"

text \<open>The name is taken by a profile of the user, so the entry is saved under a numbered name.\<close>

lemma sample_name: "normalizeImportName ''Home'' = ''home''"
proof -
  have "TrimSpace ''Home'' = ''Home''" by code_simp
  moreover have "transliterateCyrillic ''Home'' = ''Home''" by (rule transliterate_ascii) simp
  moreover have "map ascii_lower ''Home'' = ''home''" by code_simp
  then have "lower_view ''Home'' = ''home''" by (subst lower_view_ascii) simp_all
  ultimately show ?thesis
    by (simp add: normalizeImportName_def runes_ascii_string import_rune_def TrimByte_def)
qed

lemma sample_entry_name:
  "entryName all_ok sampleStore ''vpn'' [] sampleEntry = Some (''home_sub0'', [(''home'', 1)])"
proof -
  have "loadProfile all_ok sampleStore ''home'' = Inr sampleProfile" by code_simp
  moreover have "subCandidate ''home'' 0 = ''home_sub0''" by code_simp
  moreover have "\<not> loads all_ok sampleStore ''home_sub0''" by code_simp
  ultimately show ?thesis
    by (simp add: entryName_def sample_name sampleEntry_def sampleProfile_def counter_of_def firstFree.simps)
qed

definition sampleOwned :: ProfileData where
  "sampleOwned = fst (the (Some (case subscriptionEntryToProfile all_ok [] sampleEntry ''vpn'' sampleStore of
     (Inr p, s) \<Rightarrow> (p, s) | (Inl _, s) \<Rightarrow> (sampleProfile, s))))"

lemma sample_entry_profile:
  "subscriptionEntryToProfile all_ok [] sampleEntry ''vpn'' sampleStore = (Inr sampleOwned, sampleStore)"
  by code_simp

lemma sample_apply:
  "\<exists>r. sampleApplied = Some r \<and> aError r = None \<and> aCreated r = [''home_sub0'']"
proof -
  have ok: "all_ok op = False" for op by (simp add: all_ok_def)
  have sub: "subscriptionFor all_ok sampleStore ''vpn'' ''http://s'' =
      \<lparr>sURL = ''http://s'', sName = ''vpn'', sDescription = [], sTrafficUsedMb = 0, sTrafficLimitMb = 0, sUpdatedAt = [],
       sVersion = 0, sProfiles = [], sLastFetch = []\<rparr>"
    by (simp add: subscriptionFor_def loadSubscription_def sampleStore_def all_ok_def)
  have parse: "parseSubscriptionJSON (\<lambda>_. Some sampleDocument) ''{}'' = Inr sampleDocument" by code_simp
  obtain s2 where save: "saveProfile all_ok [] ''home_sub0'' sampleOwned sampleStore = (None, s2)"
  proof -
    have "fst (saveProfile all_ok [] ''home_sub0'' sampleOwned sampleStore) = None" by code_simp
    then show ?thesis using that by (metis prod.collapse)
  qed
  have "applyEntry all_ok [] ''vpn'' sampleEntry ([], [], sampleStore) = Some ([''home_sub0''], [(''home'', 1)], s2)"
    by (simp add: applyEntry_def sample_entry_profile sample_entry_name save)
  then have "applyEntries all_ok (\<lambda>_. []) ''vpn'' (jProfiles sampleDocument) ([], [], sampleStore) =
      Some ([''home_sub0''], [(''home'', 1)], s2)"
    by (simp add: sampleDocument_def)
  then show ?thesis
    using ok by (simp add: sampleApplied_def applySubscription_def sub sample_fetch parse saveSubscription_def Let_def)
qed


theorem apply_subscription_owns_witness:
  "\<exists>p. loadProfile all_ok (aStore (the sampleApplied)) ''home_sub0'' = Inr p \<and> pSubscription p = ''vpn'' \<and> ''vpn'' \<in> set (pGroups p)"
proof -
  let ?sub = "subscriptionFor all_ok sampleStore ''vpn'' ''http://s''"
  have run: "applySubscription all_ok sampleHttp (\<lambda>_. Some sampleDocument) (\<lambda>_. []) ''now'' ''vpn'' ''http://s'' sampleStore =
      Some (the sampleApplied)"
    using sample_apply by (auto simp: sampleApplied_def)
  have "\<not> all_ok op" for op by (simp add: all_ok_def)
  moreover have "sName ?sub = ''vpn''" by code_simp
  moreover from sample_apply obtain r where "sampleApplied = Some r" "aCreated r = [''home_sub0'']" by blast
  then have created: "''home_sub0'' \<in> set (aCreated (the sampleApplied))" unfolding \<open>sampleApplied = Some r\<close> by simp
  ultimately show ?thesis
    using bspec [OF conjunct1 [OF conjunct2 [OF apply_subscription_owns [OF run refl]]], of "''home_sub0''"] created by simp
qed

definition sampleImport :: importProfile where
  "sampleImport =
     \<lparr>iName = ''Home'', iPeer = ''1.2.3.4:5'', iVKHashes = ''a'', iWorkersPerHash = 0, iListenPort = 0, iPassword = ''pw'',
      iGroupName = []\<rparr>"

theorem import_preserves_witness:
  "\<exists>saved t. importCmd all_ok (\<lambda>_. []) (\<lambda>_. Some [sampleImport]) False ''f.json'' (Some []) None sampleStore = Some (None, saved, t) \<and>
     length saved \<le> 1 \<and> ''home'' \<notin> set saved \<and> loadProfile all_ok t ''home'' = loadProfile all_ok sampleStore ''home''"
proof -
  have "loadImportEntries (\<lambda>_. Some [sampleImport]) ''f.json'' (Some []) None = Some [sampleImport]" by code_simp
  moreover have "loads all_ok sampleStore ''home''" by code_simp
  ultimately show ?thesis
    using import_preserves [where unmarshal = "\<lambda>_. Some [sampleImport]" and path = "''f.json''" and data = "Some []" and ar = None
        and entries = "[sampleImport]" and io = all_ok and draw = "\<lambda>_. []" and dryRun = False and s = sampleStore]
    by fastforce
qed


end
