(* ===== verification/Go_Net.thy ===== *)
theory Go_Net
  imports Go_Strings
begin

text \<open>
  Addresses of the package \<open>net\<close>: parsing of IPv4 and IPv6 literals and of networks, masks, and membership.  An address is a
  list of 4 or 16 bytes; \<open>ParseIP\<close> gives 16 bytes, an IPv4 address being mapped into ::ffff:0:0/96.
\<close>

unbundle bit_operations_syntax

section \<open>Parsing addresses\<close>

text \<open>A field of an IPv4 literal: one to three digits, no leading zero, at most 255.\<close>

definition parseOctet :: "string \<Rightarrow> byte option" where
  "parseOctet f =
     (if f = [] \<or> length f > 3 \<or> \<not> list_all is_digit f \<or> (length f > 1 \<and> hd f = CHR ''0'') \<or> digits_val f > 255 then None
      else Some (of_nat (digits_val f)))"

definition parseIPv4 :: "string \<Rightarrow> bytes option" where
  "parseIPv4 s =
     (case map parseOctet (SplitByte CHR ''.'' s) of
        [Some a, Some b, Some c, Some d] \<Rightarrow> Some [a, b, c, d]
      | _ \<Rightarrow> None)"

definition hexVal :: "char \<Rightarrow> nat option" where
  "hexVal c =
     (let n = of_char c :: nat in
      if 48 \<le> n \<and> n \<le> 57 then Some (n - 48)
      else if 97 \<le> n \<and> n \<le> 102 then Some (n - 97 + 10)
      else if 65 \<le> n \<and> n \<le> 70 then Some (n - 65 + 10)
      else None)"

definition isHex :: "char \<Rightarrow> bool" where
  "isHex c \<longleftrightarrow> hexVal c \<noteq> None"

definition hexGroup :: "string \<Rightarrow> int" where
  "hexGroup ds = foldl (\<lambda>a c. 16 * a + int (the (hexVal c))) 0 ds"

text \<open>
  The loop over the groups of an IPv6 literal: \<open>ip\<close> are the bytes so far, \<open>ell\<close> the position of the ellipsis.  The result is
  the pair of both and the rest of the string.
\<close>

function v6Groups :: "string \<Rightarrow> bytes \<Rightarrow> nat option \<Rightarrow> (bytes \<times> nat option \<times> string) option" where
  "v6Groups s ip ell =
     (if length ip \<ge> 16 then Some (ip, ell, s)
      else
        let ds = takeWhile isHex s; rest = dropWhile isHex s in
        if ds = [] \<or> length ds > 4 then None
        else if rest \<noteq> [] \<and> hd rest = CHR ''.'' then
          (if ell = None \<and> length ip \<noteq> 12 \<or> length ip + 4 > 16 then None
           else case parseIPv4 s of None \<Rightarrow> None | Some v4 \<Rightarrow> Some (ip @ v4, ell, []))
        else
          let g = hexGroup ds; ip1 = ip @ [of_int (g div 256), of_int (g mod 256)] in
          if rest = [] then Some (ip1, ell, [])
          else if hd rest \<noteq> CHR '':'' \<or> length rest = 1 then None
          else if rest ! 1 \<noteq> CHR '':'' then v6Groups (tl rest) ip1 ell
          else if ell \<noteq> None then None
          else if length rest = 2 then Some (ip1, Some (length ip1), [])
          else v6Groups (drop 2 rest) ip1 (Some (length ip1)))"
  by auto
termination
  by (relation "measure (\<lambda>(s, ip, ell). 16 - length ip)") auto

declare v6Groups.simps [simp del]

definition expandEllipsis :: "bytes \<times> nat option \<times> string \<Rightarrow> bytes option" where
  "expandEllipsis r =
     (case r of (ip, ell, s) \<Rightarrow>
        if s \<noteq> [] then None
        else if length ip < 16 then
          (case ell of
             None \<Rightarrow> None
           | Some e \<Rightarrow> Some (take e ip @ replicate (16 - length ip) 0 @ drop e ip))
        else if ell \<noteq> None then None
        else Some ip)"

definition parseIPv6 :: "string \<Rightarrow> bytes option" where
  "parseIPv6 s =
     (if CHR ''%'' \<in> set s then None
      else if s = ''::'' then Some (replicate 16 0)
      else case (if HasPrefix s ''::'' then v6Groups (drop 2 s) [] (Some 0) else v6Groups s [] None) of
        None \<Rightarrow> None
      | Some r \<Rightarrow> expandEllipsis r)"

text \<open>\<open>netip.ParseAddr\<close>, restricted to addresses without a zone: the first separator decides the family.\<close>

definition ParseAddr :: "string \<Rightarrow> bytes option" where
  "ParseAddr s =
     (case find (\<lambda>c. c \<in> set ''.:%'') s of
        Some c \<Rightarrow> if c = CHR ''.'' then parseIPv4 s else if c = CHR '':'' then parseIPv6 s else None
      | None \<Rightarrow> None)"

definition v4InV6Prefix :: bytes where
  "v4InV6Prefix = replicate 10 0 @ [0xFF, 0xFF]"

definition As16 :: "bytes \<Rightarrow> bytes" where
  "As16 a = (if length a = 4 then v4InV6Prefix @ a else a)"

definition ParseIP :: "string \<Rightarrow> bytes option" where
  "ParseIP s = map_option As16 (ParseAddr s)"

definition To4 :: "bytes \<Rightarrow> bytes option" where
  "To4 ip =
     (if length ip = 4 then Some ip
      else if length ip = 16 \<and> take 12 ip = v4InV6Prefix then Some (drop 12 ip)
      else None)"

text \<open>\<open>IP.String\<close> of an IPv4 address.\<close>

definition dotted :: "bytes \<Rightarrow> string" where
  "dotted ip = Join (map (\<lambda>b. nat_digits (unat b)) ip) ''.''"

section \<open>Masks and networks\<close>

text \<open>\<open>net.CIDRMask(ones, bits)\<close> for \<open>bits = 8 * k\<close>: the bytes of the mask.\<close>

fun CIDRMask :: "nat \<Rightarrow> nat \<Rightarrow> bytes" where
  "CIDRMask ones 0 = []"
| "CIDRMask ones (Suc k) = (if ones \<ge> 8 then 0xFF # CIDRMask (ones - 8) k else NOT (drop_bit ones 0xFF) # CIDRMask 0 k)"

definition Mask :: "bytes \<Rightarrow> bytes \<Rightarrow> bytes" where
  "Mask ip mk =
     (let mk1 = (if length mk = 16 \<and> length ip = 4 \<and> take 12 mk = replicate 12 0xFF then drop 12 mk else mk);
          ip1 = (if length mk1 = 4 \<and> length ip = 16 \<and> take 12 ip = v4InV6Prefix then drop 12 ip else ip)
      in if length ip1 \<noteq> length mk1 then [] else map2 (AND) ip1 mk1)"

text \<open>\<open>net.IPNet\<close>: the address of the network and its mask.\<close>

datatype ipnet = IPNet (netIP: bytes) (netMask: bytes)

text \<open>\<open>net.ParseCIDR\<close>: the address and its network.  \<open>dtoi\<close> reads a decimal number below 0xFFFFFF.\<close>

definition dtoi :: "string \<Rightarrow> nat option" where
  "dtoi s = (if s = [] \<or> \<not> list_all is_digit s \<or> int (digits_val s) \<ge> 0xFFFFFF then None else Some (digits_val s))"

definition ParseCIDR :: "string \<Rightarrow> (bytes \<times> ipnet) option" where
  "ParseCIDR s =
     (case Cut s ''/'' of
        None \<Rightarrow> None
      | Some (addr, len) \<Rightarrow>
          (case (ParseAddr addr, dtoi len) of
             (Some a, Some n) \<Rightarrow>
               (if n > 8 * length a then None
                else
                  let m = CIDRMask n (length a) in Some (As16 a, IPNet (Mask (As16 a) m) m))
           | _ \<Rightarrow> None))"

definition networkNumberAndMask :: "ipnet \<Rightarrow> (bytes \<times> bytes) option" where
  "networkNumberAndMask n =
     (case n of IPNet nip m \<Rightarrow>
        case (case To4 nip of Some x \<Rightarrow> Some x | None \<Rightarrow> if length nip = 16 then Some nip else None) of
          None \<Rightarrow> None
        | Some ip \<Rightarrow>
            if length m = 4 then (if length ip = 4 then Some (ip, m) else None)
            else if length m = 16 then Some (ip, if length ip = 4 then drop 12 m else m)
            else None)"

definition NetContains :: "ipnet \<Rightarrow> bytes \<Rightarrow> bool" where
  "NetContains n ip =
     (let ip1 = (case To4 ip of Some x \<Rightarrow> x | None \<Rightarrow> ip) in
      case networkNumberAndMask n of
        None \<Rightarrow> False
      | Some (nn, m) \<Rightarrow> length ip1 = length nn \<and> map2 (AND) nn m = map2 (AND) ip1 m)"

section \<open>Membership is agreement on the leading bits\<close>

text \<open>An address as a list of bits, most significant first.\<close>

definition byte_bits :: "byte \<Rightarrow> bool list" where
  "byte_bits b = map (bit b) [7, 6, 5, 4, 3, 2, 1, 0]"

definition ip_bits :: "bytes \<Rightarrow> bool list" where
  "ip_bits ip = concat (map byte_bits ip)"

lemma length_byte_bits [simp]: "length (byte_bits b) = 8"
  by (simp add: byte_bits_def)

lemma ip_bits_simps [simp]: "ip_bits [] = []" "ip_bits (b # bs) = byte_bits b @ ip_bits bs"
  by (simp_all add: ip_bits_def)

lemma length_ip_bits [simp]: "length (ip_bits ip) = 8 * length ip"
  by (induction ip) auto

lemma nth_byte_bits: "j < 8 \<Longrightarrow> byte_bits b ! j = bit b (7 - j)"
proof -
  assume "j < 8"
  moreover have "byte_bits b = map (\<lambda>j. bit b (7 - j)) [0..<8]" by (simp add: byte_bits_def upt_rec)
  ultimately show ?thesis by simp
qed

lemma byte_bits_inject: "byte_bits a = byte_bits b \<longleftrightarrow> a = b"
proof
  assume e: "byte_bits a = byte_bits b"
  show "a = b"
  proof (rule bit_word_eqI)
    fix n assume "n < LENGTH(8)"
    then have "n \<in> {0, 1, 2, 3, 4, 5, 6, 7}" by auto
    then show "bit a n = bit b n" using e by (auto simp: byte_bits_def)
  qed
qed simp

lemma length_CIDRMask [simp]: "length (CIDRMask n k) = k"
  by (induction n k rule: CIDRMask.induct) auto

lemma byte_FF: "(0xFF :: byte) = - 1"
  by simp

lemma bit_FF: "bit (0xFF :: byte) j \<longleftrightarrow> j < 8"
  unfolding byte_FF by (simp only: bit_minus_1_iff possible_bit_word) simp

lemma NOT_drop_FF:
  assumes "n < 8" "i < 8" shows "bit (NOT (drop_bit n 0xFF) :: byte) i \<longleftrightarrow> 8 \<le> n + i"
  using assms unfolding byte_FF by (auto simp: bit_simps)

lemma masked_byte:
  assumes "n < 8"
  shows "a AND NOT (drop_bit n 0xFF) = b AND NOT (drop_bit n (0xFF :: byte)) \<longleftrightarrow> take n (byte_bits a) = take n (byte_bits b)"
proof -
  have "a AND NOT (drop_bit n 0xFF) = b AND NOT (drop_bit n (0xFF :: byte)) \<longleftrightarrow> (\<forall>i < 8. 8 \<le> n + i \<longrightarrow> bit a i = bit b i)"
  proof
    assume e: "a AND NOT (drop_bit n 0xFF) = b AND NOT (drop_bit n (0xFF :: byte))"
    show "\<forall>i < 8. 8 \<le> n + i \<longrightarrow> bit a i = bit b i"
    proof (intro allI impI)
      fix i :: nat assume i: "i < 8" "8 \<le> n + i"
      have "bit (a AND NOT (drop_bit n 0xFF)) i = bit (b AND NOT (drop_bit n (0xFF :: byte))) i" using e by simp
      then show "bit a i = bit b i" using NOT_drop_FF [OF assms i(1)] i(2) by (simp only: bit_and_iff simp_thms)
    qed
  next
    assume e: "\<forall>i < 8. 8 \<le> n + i \<longrightarrow> bit a i = bit b i"
    show "a AND NOT (drop_bit n 0xFF) = b AND NOT (drop_bit n (0xFF :: byte))"
    proof (rule bit_word_eqI)
      fix i assume "i < LENGTH(8)"
      then show "bit (a AND NOT (drop_bit n 0xFF)) i = bit (b AND NOT (drop_bit n (0xFF :: byte))) i"
        using e NOT_drop_FF [OF assms, of i] by (simp only: bit_and_iff) auto
    qed
  qed
  also have "\<dots> \<longleftrightarrow> take n (byte_bits a) = take n (byte_bits b)"
  proof
    assume e: "\<forall>i < 8. 8 \<le> n + i \<longrightarrow> bit a i = bit b i"
    show "take n (byte_bits a) = take n (byte_bits b)"
      using e assms by (intro nth_equalityI) (auto simp: nth_byte_bits)
  next
    assume e: "take n (byte_bits a) = take n (byte_bits b)"
    show "\<forall>i < 8. 8 \<le> n + i \<longrightarrow> bit a i = bit b i"
    proof (intro allI impI)
      fix i :: nat assume i: "i < 8" "8 \<le> n + i"
      then have j: "7 - i < n" "7 - i < 8" "7 - (7 - i) = i" by arith+
      have "byte_bits a ! (7 - i) = byte_bits b ! (7 - i)" using e j(1) by (metis nth_take)
      then show "bit a i = bit b i" using j by (simp add: nth_byte_bits)
    qed
  qed
  finally show ?thesis .
qed

lemma masked_bytes:
  "length a = length b \<Longrightarrow> n \<le> 8 * length a \<Longrightarrow>
   map2 (AND) a (CIDRMask n (length a)) = map2 (AND) b (CIDRMask n (length a)) \<longleftrightarrow> take n (ip_bits a) = take n (ip_bits b)"
proof (induction a b arbitrary: n rule: list_induct2)
  case (Cons x xs y ys)
  show ?case
  proof (cases "8 \<le> n")
    case True
    have ff: "z AND 0xFF = z" for z :: byte
      unfolding byte_FF by simp
    have "take n (ip_bits (x # xs)) = byte_bits x @ take (n - 8) (ip_bits xs)" for x and xs
      using True by simp
    then show ?thesis
      using True Cons.IH [of "n - 8"] Cons.prems Cons.hyps by (simp add: ff byte_bits_inject)
  next
    case False
    have rest: "map2 (AND) xs (CIDRMask 0 (length xs)) = map2 (AND) ys (CIDRMask 0 (length xs))"
      using Cons.IH [of 0] by simp
    have "take n (ip_bits (x # xs)) = take n (byte_bits x)" for x and xs using False by simp
    then show ?thesis using False rest masked_byte [of n x y] by simp
  qed
qed simp

lemma To4_v4: "length ip = 4 \<Longrightarrow> To4 ip = Some ip"
  by (simp add: To4_def)

lemma mask_idem: "length m = length a \<Longrightarrow> map2 (AND) (map2 (AND) a m) m = map2 (AND) a (m :: bytes)"
  by (induction m a rule: list_induct2) auto

lemma Mask_same: "length ip = length m \<Longrightarrow> Mask ip m = map2 (AND) ip m"
  by (auto simp: Mask_def Let_def)

text \<open>The canonical form of an address: the four bytes of IPv4, the sixteen of IPv6.\<close>

definition canon :: "bytes \<Rightarrow> bytes" where
  "canon ip = (case To4 ip of Some x \<Rightarrow> x | None \<Rightarrow> ip)"

lemma length_canon: "length ip = 4 \<or> length ip = 16 \<Longrightarrow> length (canon ip) = 4 \<or> length (canon ip) = 16"
  by (auto simp: canon_def To4_def)

lemma length_v4prefix [simp]: "length v4InV6Prefix = 12"
  by (simp add: v4InV6Prefix_def)

lemma canon_v4: "length a = 4 \<Longrightarrow> canon (v4InV6Prefix @ a) = a" "length a = 4 \<Longrightarrow> canon a = a"
  by (simp_all add: canon_def To4_def)

lemma ip_bits_append: "ip_bits (xs @ ys) = ip_bits xs @ ip_bits ys"
  by (simp add: ip_bits_def)

lemma ip_bits_take: "take (8 * k) (ip_bits x) = ip_bits (take k x)"
proof (induction x arbitrary: k)
  case (Cons b x)
  then show ?case by (cases k) auto
qed simp

lemma ip_bits_inject: "length x = length y \<Longrightarrow> ip_bits x = ip_bits y \<longleftrightarrow> x = y"
  by (induction x y rule: list_induct2) (auto simp: byte_bits_inject)

lemma CIDRMask_bit: "i < k \<Longrightarrow> j < 8 \<Longrightarrow> bit (CIDRMask n k ! i) j \<longleftrightarrow> 8 * i + 7 < n + j"
proof (induction n k arbitrary: i rule: CIDRMask.induct)
  case (2 n k)
  show ?case
  proof (cases i)
    case 0
    show ?thesis
    proof (cases "8 \<le> n")
      case True
      then show ?thesis using bit_FF [of j] 2(4) 0 by simp
    next
      case False
      then show ?thesis using NOT_drop_FF [of n j] 2(4) 0 by simp arith
    qed
  next
    case (Suc i')
    show ?thesis
    proof (cases "8 \<le> n")
      case True
      then show ?thesis using 2(1) [OF True, of i'] 2(3,4) Suc by simp arith
    next
      case False
      then show ?thesis using 2(2) [OF False, of i'] 2(3,4) Suc by simp
    qed
  qed
qed simp

text \<open>An IPv4 address, in its sixteen byte form.\<close>

definition mapped :: "bytes \<Rightarrow> bool" where
  "mapped ip \<longleftrightarrow> take 12 ip = v4InV6Prefix"

text \<open>
  The block of addresses that \<open>a/n\<close> stands for: agreement on the leading bits, and an IPv4 address is only in a block that
  fixes the 96 bits of the prefix.
\<close>

definition inBlock :: "bytes \<Rightarrow> nat \<Rightarrow> bytes \<Rightarrow> bool" where
  "inBlock a n ip \<longleftrightarrow>
     (let k = (if length a = 4 then 96 + n else n) in
      take k (ip_bits (As16 a)) = take k (ip_bits ip) \<and> (mapped ip \<longrightarrow> 96 \<le> k))"

lemma agree_mapped:
  assumes "length a = 16" "length ip = 16" "96 \<le> k" "take k (ip_bits a) = take k (ip_bits ip)"
  shows "take 12 a = take 12 ip"
proof -
  have "take 96 (ip_bits a) = take 96 (ip_bits ip)"
    using assms(3,4) by (metis min.absorb1 take_take)
  then have "ip_bits (take 12 a) = ip_bits (take 12 ip)"
    using ip_bits_take [of 12 a] ip_bits_take [of 12 ip] by simp
  then show ?thesis using assms(1,2) by (simp add: ip_bits_inject)
qed

lemma split_mapped: "length ip = 16 \<Longrightarrow> mapped ip \<Longrightarrow> ip = v4InV6Prefix @ drop 12 ip"
  by (metis append_take_drop_id mapped_def)

lemma canon_mapped: "length ip = 16 \<Longrightarrow> canon ip = (if mapped ip then drop 12 ip else ip)"
  by (auto simp: canon_def To4_def mapped_def)

lemma masked_prefix:
  assumes "length a = 16" "n \<le> 128"
  shows "take 12 (map2 (AND) a (CIDRMask n 16)) = v4InV6Prefix \<longleftrightarrow> 96 \<le> n \<and> mapped a"
proof (cases "96 \<le> n")
  case True
  have "take 12 (map2 (AND) a (CIDRMask n 16)) = take 12 a"
  proof (rule nth_equalityI)
    fix i assume "i < length (take 12 (map2 (AND) a (CIDRMask n 16)))"
    then have i: "i < 12" using assms(1) by simp
    have "CIDRMask n 16 ! i = - 1"
      using CIDRMask_bit [of i 16 _ n] i True by (intro bit_word_eqI) auto
    then show "take 12 (map2 (AND) a (CIDRMask n 16)) ! i = take 12 a ! i" using i assms(1) by simp
  qed (simp add: assms(1))
  then show ?thesis using True by (simp add: mapped_def)
next
  case False
  have "\<not> bit (map2 (AND) a (CIDRMask n 16) ! 11) 0"
    using CIDRMask_bit [of 11 16 0 n] False assms(1) by (simp add: bit_and_iff)
  moreover have "bit (v4InV6Prefix ! 11) 0" by (simp add: v4InV6Prefix_def nth_append)
  moreover have "take 12 xs ! 11 = xs ! (11 :: nat)" for xs :: bytes by simp
  ultimately show ?thesis using False by metis
qed

lemma mask_tail:
  assumes "length a = 16" "length b = 16" "take 12 a = take 12 b"
  shows "map2 (AND) (drop 12 a) (drop 12 m) = map2 (AND) (drop 12 b) (drop 12 m) \<longleftrightarrow> map2 (AND) a m = map2 (AND) b (m :: bytes)"
proof -
  have "map2 (AND) x m = map2 (AND) (take 12 x) (take 12 m) @ map2 (AND) (drop 12 x) (drop 12 m)" for x
    by (metis append_take_drop_id drop_map drop_zip take_map take_zip)
  then show ?thesis using assms(3) by (metis same_append_eq)
qed

lemma Contains_v4:
  assumes "length a = 4" "n \<le> 32" "length ip = 16"
  shows "NetContains (IPNet (Mask (As16 a) (CIDRMask n 4)) (CIDRMask n 4)) ip \<longleftrightarrow> inBlock a n ip"
proof -
  have m: "Mask (As16 a) (CIDRMask n 4) = map2 (AND) a (CIDRMask n 4)"
    using assms(1) by (simp add: Mask_def As16_def)
  have "networkNumberAndMask (IPNet (map2 (AND) a (CIDRMask n 4)) (CIDRMask n 4)) = Some (map2 (AND) a (CIDRMask n 4), CIDRMask n 4)"
    using assms(1) by (simp add: networkNumberAndMask_def To4_def)
  then have "NetContains (IPNet (Mask (As16 a) (CIDRMask n 4)) (CIDRMask n 4)) ip \<longleftrightarrow>
      length (canon ip) = 4 \<and> take n (ip_bits a) = take n (ip_bits (canon ip))"
    using assms masked_bytes [of a "canon ip" n] mask_idem [of "CIDRMask n 4" a]
    by (auto simp: NetContains_def m canon_def [symmetric] Let_def)
  also have "\<dots> \<longleftrightarrow> inBlock a n ip"
  proof (cases "mapped ip")
    case True
    have "take (96 + n) (ip_bits (v4InV6Prefix @ x)) = ip_bits v4InV6Prefix @ take n (ip_bits x)" for x
      by (simp add: ip_bits_append)
    then show ?thesis
      using assms True split_mapped [OF assms(3) True]
      by (simp add: inBlock_def As16_def canon_mapped) (metis same_append_eq)
  next
    case False
    then have "take (96 + n) (ip_bits (As16 a)) \<noteq> take (96 + n) (ip_bits ip)"
      using agree_mapped [of "As16 a" ip "96 + n"] assms by (auto simp: As16_def mapped_def)
    then show ?thesis using False assms by (simp add: inBlock_def canon_mapped)
  qed
  finally show ?thesis .
qed

lemma Contains_v6:
  assumes "length a = 16" "n \<le> 128" "length ip = 16"
  shows "NetContains (IPNet (Mask (As16 a) (CIDRMask n 16)) (CIDRMask n 16)) ip \<longleftrightarrow> inBlock a n ip"
proof -
  let ?m = "CIDRMask n 16" let ?nn = "map2 (AND) a ?m"
  have net: "Mask (As16 a) ?m = ?nn" using assms(1) by (simp add: Mask_def As16_def)
  have agree: "?nn = map2 (AND) ip ?m \<longleftrightarrow> take n (ip_bits a) = take n (ip_bits ip)"
    using masked_bytes [of a ip n] assms by simp
  have idem: "map2 (AND) ?nn ?m = ?nn" using mask_idem [of ?m a] assms(1) by simp
  have To4_nn: "To4 ?nn = (if 96 \<le> n \<and> mapped a then Some (drop 12 ?nn) else None)"
    using masked_prefix [OF assms(1,2)] assms(1) by (simp add: To4_def)
  show ?thesis
  proof (cases "96 \<le> n \<and> mapped a")
    case True
    then have "NetContains (IPNet ?nn ?m) ip \<longleftrightarrow> mapped ip \<and> map2 (AND) (drop 12 ?nn) (drop 12 ?m) = map2 (AND) (drop 12 ip) (drop 12 ?m)"
      using To4_nn assms by (auto simp: NetContains_def networkNumberAndMask_def canon_def [symmetric] canon_mapped)
    also have "\<dots> \<longleftrightarrow> mapped ip \<and> ?nn = map2 (AND) ip ?m"
    proof (cases "mapped ip")
      case m: True
      have "take 12 ?nn = take 12 ip" using masked_prefix [OF assms(1,2)] True m by (simp add: mapped_def)
      then show ?thesis using mask_tail [of ?nn ip ?m] assms idem by simp
    qed simp
    also have "\<dots> \<longleftrightarrow> inBlock a n ip"
      using agree agree_mapped [OF assms(1,3), of n] True assms(1) by (auto simp: inBlock_def As16_def mapped_def)
    finally show ?thesis by (simp add: net)
  next
    case False
    then have "NetContains (IPNet ?nn ?m) ip \<longleftrightarrow> \<not> mapped ip \<and> ?nn = map2 (AND) ip ?m"
      using To4_nn assms idem by (auto simp: NetContains_def networkNumberAndMask_def canon_def [symmetric] canon_mapped)
    also have "\<dots> \<longleftrightarrow> inBlock a n ip"
      using agree agree_mapped [OF assms(1,3), of n] False assms(1) by (auto simp: inBlock_def As16_def mapped_def)
    finally show ?thesis by (simp add: net)
  qed
qed

lemmas network_contains = Contains_v4 Contains_v6

section \<open>Lengths\<close>

lemma parseIPv4_length: "parseIPv4 s = Some a \<Longrightarrow> length a = 4"
  by (auto simp: parseIPv4_def split: list.splits option.splits)

lemma v6Groups_length:
  "v6Groups s ip ell = Some (ip', ell', r) \<Longrightarrow> length ip \<le> 16 \<Longrightarrow> even (length ip) \<Longrightarrow> length ip' \<le> 16"
proof (induction s ip ell arbitrary: ip' ell' r rule: v6Groups.induct)
  case (1 s ip ell)
  show ?case
  proof (cases "length ip \<ge> 16")
    case True
    then show ?thesis using 1(3,4) by (simp add: v6Groups.simps [of s])
  next
    case False
    let ?ds = "takeWhile isHex s" let ?rest = "dropWhile isHex s"
    let ?ip1 = "ip @ [of_int (hexGroup ?ds div 256), of_int (hexGroup ?ds mod 256)]"
    have "length ip + 2 \<le> 16" using 1(5) False by presburger
    then have len: "length ?ip1 \<le> 16" "even (length ?ip1)" using 1(5) by simp_all
    note IH = 1(1) [OF False refl refl _ _ refl refl] 1(2) [OF False refl refl _ _ refl refl]
    show ?thesis
      using 1(3) False len IH by (auto simp: v6Groups.simps [of s] Let_def dest: parseIPv4_length split: if_splits option.splits)
  qed
qed

lemma parseIPv6_length: "parseIPv6 s = Some a \<Longrightarrow> length a = 16"
  by (auto simp: parseIPv6_def expandEllipsis_def dest!: v6Groups_length split: if_splits option.splits)

lemma ParseAddr_length: "ParseAddr s = Some a \<Longrightarrow> length a = 4 \<or> length a = 16"
  by (auto simp: ParseAddr_def dest: parseIPv4_length parseIPv6_length split: option.splits if_splits)

lemma As16_length: "length a = 4 \<or> length a = 16 \<Longrightarrow> length (As16 a) = 16"
  by (auto simp: As16_def)

lemma ParseIP_length: "ParseIP s = Some ip \<Longrightarrow> length ip = 16"
  by (auto simp: ParseIP_def dest!: ParseAddr_length As16_length)

end
