(* ===== verification/Protocol.thy ===== *)
theory Protocol
  imports Go_Utf8 Go_Net
begin

text \<open>
  The messages between client and server and the WireGuard configuration they carry: \<open>internal/core/protocol.go\<close>,
  \<open>internal/core/wgconfig.go\<close> and \<open>parseWGConfig\<close> of \<open>wireguard_linux.go\<close>.

  A connection is what it does with one request: \<open>writeOk\<close> and \<open>deadlineOk\<close> say whether writing and setting the deadline
  succeed, \<open>reply\<close> is what one read returns.  Parsing of keys (package \<open>wgtypes\<close>) and resolution of endpoints
  are arguments.
\<close>

section \<open>Requests and replies\<close>

datatype deny_reason = WrongPassword | Expired | DeviceMismatch | OtherReason string

datatype proto_error =
    SendFailed | DeadlineFailed | ReplyFailed | FATAL_AUTH deny_reason | UnexpectedReply string | BadFormat string | BadMTU string

definition getconfPayload :: "string \<Rightarrow> string \<Rightarrow> string \<Rightarrow> string" where
  "getconfPayload localPort deviceID password = ''GETCONF:'' @ localPort @ ''|'' @ deviceID @ ''|'' @ password"

definition authPayload :: "string \<Rightarrow> string \<Rightarrow> string" where
  "authPayload deviceID password = ''AUTH:'' @ deviceID @ ''|'' @ password"

definition getrawPayload :: "string \<Rightarrow> string \<Rightarrow> string" where
  "getrawPayload deviceID password = ''GETCONF_RAW:'' @ deviceID @ ''|'' @ password"

definition denied :: "string \<Rightarrow> deny_reason" where
  "denied reason =
     (if reason = ''wrong_password'' then WrongPassword
      else if reason = ''expired'' then Expired
      else if reason = ''device_mismatch'' then DeviceMismatch
      else OtherReason reason)"

definition readBuffer :: nat where "readBuffer = 4096"

text \<open>One exchange: the bytes sent, if any, and the reply or the error.\<close>

definition exchange :: "bool \<Rightarrow> bool \<Rightarrow> string option \<Rightarrow> string \<Rightarrow> string option \<times> (proto_error + string)" where
  "exchange writeOk deadlineOk reply payload =
     (if \<not> writeOk then (None, Inl SendFailed)
      else if \<not> deadlineOk then (Some payload, Inl DeadlineFailed)
      else (Some payload, case reply of None \<Rightarrow> Inl ReplyFailed | Some b \<Rightarrow> Inr (take readBuffer b)))"

text \<open>The empty configuration stands for \<open>NOCONF\<close>, as in the code.\<close>

definition configReply :: "string \<Rightarrow> proto_error + string" where
  "configReply resp =
     (if resp = ''NOCONF'' then Inr []
      else if HasPrefix resp ''DENIED:'' then Inl (FATAL_AUTH (denied (TrimPrefix resp ''DENIED:'')))
      else Inr resp)"

definition RequestConfig :: "bool \<Rightarrow> bool \<Rightarrow> string option \<Rightarrow> string \<Rightarrow> string \<Rightarrow> string \<Rightarrow> string option \<times> (proto_error + string)" where
  "RequestConfig writeOk deadlineOk reply localPort deviceID password =
     (case exchange writeOk deadlineOk reply (getconfPayload localPort deviceID password) of
        (sent, Inl e) \<Rightarrow> (sent, Inl e)
      | (sent, Inr resp) \<Rightarrow> (sent, configReply resp))"

definition SendAuth :: "bool \<Rightarrow> string \<Rightarrow> string \<Rightarrow> string option \<times> proto_error option" where
  "SendAuth writeOk deviceID password =
     (if writeOk then (Some (authPayload deviceID password), None) else (None, Some SendFailed))"

definition rawReply :: "string \<Rightarrow> proto_error + (string \<times> string \<times> int)" where
  "rawReply resp =
     (if resp = ''NOCONF'' then Inr ([], [], 0)
      else if HasPrefix resp ''DENIED:'' then Inl (FATAL_AUTH (denied (TrimPrefix resp ''DENIED:'')))
      else if \<not> HasPrefix resp ''RAWCONF:'' then Inl (UnexpectedReply resp)
      else case SplitByte CHR ''|'' (TrimPrefix resp ''RAWCONF:'') of
        [ip, dns, mtu] \<Rightarrow>
          (case Atoi (TrimSpace mtu) of
             None \<Rightarrow> Inl (BadMTU (TrimSpace mtu))
           | Some m \<Rightarrow> Inr (TrimSpace ip, TrimSpace dns, m))
      | _ \<Rightarrow> Inl (BadFormat resp))"

definition RequestRawConfig :: "bool \<Rightarrow> bool \<Rightarrow> string option \<Rightarrow> string \<Rightarrow> string
    \<Rightarrow> string option \<times> (proto_error + (string \<times> string \<times> int))" where
  "RequestRawConfig writeOk deadlineOk reply deviceID password =
     (case exchange writeOk deadlineOk reply (getrawPayload deviceID password) of
        (sent, Inl e) \<Rightarrow> (sent, Inl e)
      | (sent, Inr resp) \<Rightarrow> (sent, rawReply resp))"

section \<open>Patching the configuration\<close>

definition mtuLine :: "int \<Rightarrow> string" where
  "mtuLine mtu = ''MTU = '' @ Itoa (if mtu \<le> 0 then 1380 else mtu)"

definition halves :: string where
  "halves = ''AllowedIPs = 0.0.0.0/1, 128.0.0.0/1''"

definition fullRoute :: "string \<Rightarrow> bool" where
  "fullRoute trimmed \<longleftrightarrow>
     HasPrefix trimmed ''AllowedIPs'' \<and>
     (case Cut trimmed ''='' of
        None \<Rightarrow> False
      | Some (_, v) \<Rightarrow> TrimSpace v \<in> {''0.0.0.0/0'', ''0.0.0.0/0, ::/0'', ''0.0.0.0/0,::/0''})"

definition inInterface :: "bool \<Rightarrow> string \<Rightarrow> bool" where
  "inInterface b trimmed = (if trimmed = ''[Interface]'' then True else if HasPrefix trimmed ''['' then False else b)"

text \<open>The lines that one line of the input becomes.\<close>

definition emitLine :: "int \<Rightarrow> bool \<Rightarrow> string \<Rightarrow> string list" where
  "emitLine mtu inIf line =
     (let trimmed = TrimSpace line in
      if inIf \<and> HasPrefix trimmed ''DNS'' then []
      else if fullRoute trimmed then [halves]
      else if trimmed = ''[Interface]'' then [line, mtuLine mtu]
      else if inIf \<and> HasPrefix trimmed ''MTU'' then []
      else [line])"

fun patchLines :: "int \<Rightarrow> bool \<Rightarrow> string list \<Rightarrow> string list" where
  "patchLines mtu b [] = []"
| "patchLines mtu b (line # rest) =
     (let inIf = inInterface b (TrimSpace line) in emitLine mtu inIf line @ patchLines mtu inIf rest)"

definition newline :: char where "newline = CHR 0x0A"

definition patchWGConfig :: "string \<Rightarrow> int \<Rightarrow> string" where
  "patchWGConfig raw mtu = Join (patchLines mtu False (SplitByte newline raw)) [newline]"

section \<open>Parsing the configuration\<close>

record wgPeer =
  publicKey :: "string option"
  presharedKey :: "string option"
  endpoint :: "string option"
  allowedIPs :: "ipnet list"
  keepalive :: "int option"

record wgConfig =
  wgAddr :: string
  wgMtu :: string
  privateKey :: "string option"
  listenPort :: "int option"
  peers :: "wgPeer list"
  inPeer :: bool

datatype wg_error = BadKey string | BadPort string | BadAllowedIPs string | BadEndpoint string | BadKeepalive string | LineTooLong

record wgParsers =
  ParseKey :: "string \<Rightarrow> string option"
  ResolveUDPAddr :: "string \<Rightarrow> string option"

definition emptyPeer :: wgPeer where
  "emptyPeer = \<lparr>publicKey = None, presharedKey = None, endpoint = None, allowedIPs = [], keepalive = None\<rparr>"

definition emptyConfig :: wgConfig where
  "emptyConfig = \<lparr>wgAddr = [], wgMtu = [], privateKey = None, listenPort = None, peers = [], inPeer = False\<rparr>"

text \<open>\<open>cur\<close> is the last peer while its section lasts.\<close>

definition onPeer :: "(wgPeer \<Rightarrow> wgPeer) \<Rightarrow> wgConfig \<Rightarrow> wgConfig" where
  "onPeer f c = (if inPeer c \<and> peers c \<noteq> [] then c\<lparr>peers := butlast (peers c) @ [f (last (peers c))]\<rparr> else c)"

fun parseCIDRs :: "string list \<Rightarrow> wg_error + ipnet list" where
  "parseCIDRs [] = Inr []"
| "parseCIDRs (s # ss) =
     (case ParseCIDR s of
        None \<Rightarrow> Inl (BadAllowedIPs s)
      | Some (_, n) \<Rightarrow> (case parseCIDRs ss of Inl e \<Rightarrow> Inl e | Inr ns \<Rightarrow> Inr (n # ns)))"

definition trimBrackets :: "string \<Rightarrow> string" where
  "trimBrackets s = rev (dropWhile (\<lambda>c. c \<in> set ''[]'') (rev (dropWhile (\<lambda>c. c \<in> set ''[]'') s)))"

definition wgKeyValue :: "wgParsers \<Rightarrow> string \<Rightarrow> string \<Rightarrow> wgConfig \<Rightarrow> wg_error + wgConfig" where
  "wgKeyValue ps key val c =
     (if key = ''address'' then Inr (c\<lparr>wgAddr := val\<rparr>)
      else if key = ''mtu'' then Inr (c\<lparr>wgMtu := val\<rparr>)
      else if key = ''privatekey'' then
        (case ParseKey ps val of None \<Rightarrow> Inl (BadKey key) | Some k \<Rightarrow> Inr (c\<lparr>privateKey := Some k\<rparr>))
      else if key = ''presharedkey'' then
        (case ParseKey ps val of None \<Rightarrow> Inl (BadKey key) | Some k \<Rightarrow> Inr (onPeer (\<lambda>p. p\<lparr>presharedKey := Some k\<rparr>) c))
      else if key = ''listenport'' then
        (case Atoi val of None \<Rightarrow> Inl (BadPort val) | Some n \<Rightarrow> Inr (c\<lparr>listenPort := Some n\<rparr>))
      else if key = ''publickey'' then
        (case ParseKey ps val of None \<Rightarrow> Inl (BadKey key) | Some k \<Rightarrow> Inr (onPeer (\<lambda>p. p\<lparr>publicKey := Some k\<rparr>) c))
      else if key = ''allowedips'' then
        (if \<not> inPeer c then Inr c
         else case parseCIDRs (filter (\<lambda>s. s \<noteq> []) (map TrimSpace (SplitByte CHR '','' val))) of
           Inl e \<Rightarrow> Inl e
         | Inr ns \<Rightarrow> Inr (onPeer (\<lambda>p. p\<lparr>allowedIPs := allowedIPs p @ ns\<rparr>) c))
      else if key = ''endpoint'' then
        (if \<not> inPeer c then Inr c
         else case ResolveUDPAddr ps val of
           None \<Rightarrow> Inl (BadEndpoint val) | Some a \<Rightarrow> Inr (onPeer (\<lambda>p. p\<lparr>endpoint := Some a\<rparr>) c))
      else if key = ''persistentkeepalive'' then
        (if \<not> inPeer c then Inr c
         else case Atoi val of
           None \<Rightarrow> Inl (BadKeepalive val) | Some n \<Rightarrow> Inr (onPeer (\<lambda>p. p\<lparr>keepalive := Some n\<rparr>) c))
      else Inr c)"

definition wgSection :: "string \<Rightarrow> wgConfig \<Rightarrow> wgConfig" where
  "wgSection name c =
     (if name = ''Peer'' then c\<lparr>peers := peers c @ [emptyPeer], inPeer := True\<rparr> else c\<lparr>inPeer := False\<rparr>)"

definition wgLine :: "wgParsers \<Rightarrow> string \<Rightarrow> wgConfig \<Rightarrow> wg_error + wgConfig" where
  "wgLine ps raw c =
     (let line = TrimSpace raw in
      if line = [] \<or> HasPrefix line ''#'' \<or> HasPrefix line '';'' then Inr c
      else if HasPrefix line ''['' \<and> HasSuffix line '']'' then Inr (wgSection (TrimSpace (trimBrackets line)) c)
      else case Cut line ''='' of
        None \<Rightarrow> Inr c
      | Some (k, v) \<Rightarrow> wgKeyValue ps (lower_view (TrimSpace k)) (TrimSpace v) c)"

text \<open>
  \<open>bufio.Scanner\<close> with its default split: a final empty line is none, and a line that does not fit the buffer of 64 KiB ends
  the scan with an error.  The carriage return that the scanner drops at the end of a line falls to \<open>TrimSpace\<close>.
\<close>

definition scanLines :: "string \<Rightarrow> string list" where
  "scanLines conf = (let ls = SplitByte newline conf in if last ls = [] then butlast ls else ls)"

definition maxTokenSize :: int where "maxTokenSize = 65536"

fun wgLines :: "wgParsers \<Rightarrow> string list \<Rightarrow> wgConfig \<Rightarrow> wg_error + wgConfig" where
  "wgLines ps [] c = Inr c"
| "wgLines ps (l # ls) c =
     (if int (length l) \<ge> maxTokenSize then Inl LineTooLong
      else case wgLine ps l c of
        Inl e \<Rightarrow> Inl e
      | Inr c1 \<Rightarrow> wgLines ps ls c1)"

definition parseWGConfig :: "wgParsers \<Rightarrow> string \<Rightarrow> wg_error + wgConfig" where
  "parseWGConfig ps conf = wgLines ps (scanLines conf) emptyConfig"

section \<open>White space at the end of text that begins visibly\<close>

lemma trimRightSpace_keeps:
  assumes "p \<noteq> []" "graphic p"
  shows "\<exists>r'. trimRightSpace (p @ r) = p @ r'"
proof (induction "length r" arbitrary: r rule: less_induct)
  case less
  let ?s = "p @ r" let ?w = "space_width_last ?s"
  show ?case
  proof (cases "?w = 0")
    case False
    then obtain e where f: "find (HasSuffix ?s) space_encodings = Some e" and w: "?w = length e"
      by (auto simp: space_width_last_def split: option.splits)
    then have e: "e \<in> set space_encodings" "HasSuffix ?s e" "?w = length e"
      by (auto simp: find_Some_iff)
    have len: "length e \<le> length r"
    proof (rule ccontr)
      assume "\<not> ?thesis"
      moreover obtain q where q: "p @ r = q @ e" using e(2) by (auto simp: HasSuffix_iff)
      ultimately obtain u where "p = q @ u" "u @ r = e" "u \<noteq> []"
        by (auto simp: append_eq_append_conv2)
      then have "hd e \<in> set p" by (metis hd_append2 hd_in_set in_set_conv_decomp set_append UnCI)
      then show False using space_encoding_not_graphic [OF e(1)] graphic_single [OF assms(2)] by blast
    qed
    have "0 < length e" using space_encoding_not_graphic [OF e(1)] by simp
    then have "length r - length e < length r" using len by linarith
    then have "length (take (length r - length e) r) < length r" by simp
    moreover have "take (length ?s - ?w) ?s = p @ take (length r - length e) r"
      using e(3) len by simp
    moreover note less.hyps [of "take (length r - length e) r"]
    ultimately show ?thesis using False by (simp add: trimRightSpace.simps [of ?s])
  qed (simp add: trimRightSpace.simps)
qed

lemma TrimSpace_keeps:
  assumes "p \<noteq> []" "graphic p"
  shows "\<exists>r'. TrimSpace (p @ r) = p @ r'"
proof -
  have "space_width (p @ r) = 0"
    using assms graphic_single [OF assms(2), of "hd p"] by (intro space_width_graphic) simp
  then show ?thesis
    using trimRightSpace_keeps [OF assms] by (simp add: TrimSpace_def trimLeftSpace.simps)
qed

section \<open>Requests and replies are read back\<close>

lemma nat_digits_no_bar: "c \<in> set (nat_digits n) \<Longrightarrow> is_digit c"
  using nat_digits_digit [of n] by (simp add: list_all_iff)

lemma Itoa_chars: "c \<in> set (Itoa i) \<Longrightarrow> is_digit c \<or> c = CHR ''-''"
  using nat_digits_no_bar by (auto simp: Itoa_def split: if_splits)

lemma Itoa_graphic: "graphic (Itoa i)"
  using Itoa_chars [of _ i] by (fastforce simp: graphic_def is_digit_def)

lemma TrimSpace_Itoa: "TrimSpace (Itoa i) = Itoa i"
  by (rule TrimSpace_graphic) (rule Itoa_graphic)

text \<open>
  C28. The configuration a server sends for the raw mode is read back as it was sent, whatever device and password asked for it.
\<close>

theorem raw_config_roundtrip:
  assumes "CHR ''|'' \<notin> set ip" "CHR ''|'' \<notin> set dns" "TrimSpace ip = ip" "TrimSpace dns = dns" "- (2 ^ 63) \<le> mtu" "mtu < 2 ^ 63"
    and "length (''RAWCONF:'' @ ip @ ''|'' @ dns @ ''|'' @ Itoa mtu) \<le> readBuffer"
  shows "RequestRawConfig True True (Some (''RAWCONF:'' @ ip @ ''|'' @ dns @ ''|'' @ Itoa mtu)) deviceID password =
           (Some (getrawPayload deviceID password), Inr (ip, dns, mtu))"
proof -
  have bar: "CHR ''|'' \<notin> set (Itoa mtu)" using Itoa_chars [of _ mtu] by (fastforce simp: is_digit_def)
  have "SplitByte CHR ''|'' (ip @ CHR ''|'' # dns @ CHR ''|'' # Itoa mtu) = [ip, dns, Itoa mtu]"
    using assms(1,2) bar by (simp add: SplitByte_append SplitByte_single)
  then have "rawReply (''RAWCONF:'' @ ip @ ''|'' @ dns @ ''|'' @ Itoa mtu) = Inr (ip, dns, mtu)"
    using assms(3-6) by (simp add: rawReply_def HasPrefix_def TrimPrefix_def TrimSpace_Itoa Atoi_Itoa)
  then show ?thesis
    using assms(7) by (simp add: RequestRawConfig_def exchange_def)
qed

theorem raw_config_roundtrip_witness:
  "RequestRawConfig True True (Some (''RAWCONF:'' @ ''10.0.0.2'' @ ''|'' @ ''1.1.1.1,8.8.8.8'' @ ''|'' @ Itoa 1300)) ''d'' ''p'' =
     (Some ''GETCONF_RAW:d|p'', Inr (''10.0.0.2'', ''1.1.1.1,8.8.8.8'', 1300))"
proof -
  have "length (Itoa 1300) \<le> 4"
    by (simp add: Itoa_def nat_digits.simps [of 1300] nat_digits.simps [of 130] nat_digits.simps [of 13] nat_digits.simps [of "Suc 0"])
  moreover have "TrimSpace ''10.0.0.2'' = ''10.0.0.2''" "TrimSpace ''1.1.1.1,8.8.8.8'' = ''1.1.1.1,8.8.8.8''" by code_simp+
  ultimately have "RequestRawConfig True True (Some (''RAWCONF:'' @ ''10.0.0.2'' @ ''|'' @ ''1.1.1.1,8.8.8.8'' @ ''|'' @ Itoa 1300)) ''d'' ''p'' =
      (Some (getrawPayload ''d'' ''p''), Inr (''10.0.0.2'', ''1.1.1.1,8.8.8.8'', 1300))"
    by (intro raw_config_roundtrip) (simp_all add: readBuffer_def)
  then show ?thesis by (simp add: getrawPayload_def)
qed

lemma bar_split:
  "CHR ''|'' \<notin> set x \<Longrightarrow> CHR ''|'' \<notin> set y \<Longrightarrow> x @ CHR ''|'' # r = y @ CHR ''|'' # t \<Longrightarrow> x = y \<and> r = t"
  by (metis SplitByte_append list.inject append_same_eq append_eq_append_conv list.sel(1))

text \<open>
  Two requests with the same bytes are the same request, as long as port and device id have no vertical bar: kind,
  fields and password can be read off the bytes.  A denial always ends in an authentication error.
\<close>

lemma requests_unambiguous:
  assumes "CHR ''|'' \<notin> set port \<union> set dev \<union> set port' \<union> set dev'"
  shows "(getconfPayload port dev pw = getconfPayload port' dev' pw' \<longleftrightarrow> port = port' \<and> dev = dev' \<and> pw = pw') \<and>
         (authPayload dev pw = authPayload dev' pw' \<longleftrightarrow> dev = dev' \<and> pw = pw') \<and>
         (getrawPayload dev pw = getrawPayload dev' pw' \<longleftrightarrow> dev = dev' \<and> pw = pw') \<and>
         getconfPayload port dev pw \<noteq> getrawPayload dev' pw' \<and> getconfPayload port dev pw \<noteq> authPayload dev' pw' \<and>
         authPayload dev pw \<noteq> getrawPayload dev' pw' \<and>
         snd (RequestConfig True True (Some (''DENIED:'' @ reason)) port dev pw) =
           Inl (FATAL_AUTH (denied (take (readBuffer - 7) reason)))"
proof -
  have "dev @ CHR ''|'' # pw = dev' @ CHR ''|'' # pw' \<longleftrightarrow> dev = dev' \<and> pw = pw'"
    using assms bar_split [of dev dev' pw pw'] by auto
  moreover have "port @ CHR ''|'' # dev @ CHR ''|'' # pw = port' @ CHR ''|'' # dev' @ CHR ''|'' # pw'
      \<longleftrightarrow> port = port' \<and> dev = dev' \<and> pw = pw'"
    using assms bar_split [of dev dev' pw pw'] bar_split [of port port' "dev @ CHR ''|'' # pw" "dev' @ CHR ''|'' # pw'"] by auto
  moreover have "take readBuffer (''DENIED:'' @ reason) = ''DENIED:'' @ take (readBuffer - 7) reason"
    by (simp add: readBuffer_def take_Cons')
  then have "snd (RequestConfig True True (Some (''DENIED:'' @ reason)) port dev pw) =
      Inl (FATAL_AUTH (denied (take (readBuffer - 7) reason)))"
    by (simp add: RequestConfig_def exchange_def configReply_def HasPrefix_def TrimPrefix_def)
  ultimately show ?thesis
    by (simp add: getconfPayload_def authPayload_def getrawPayload_def)
qed

lemma requests_unambiguous_example:
  "getconfPayload ''1'' ''d'' ''a|b'' \<noteq> getconfPayload ''1'' ''d'' ''a'' \<and>
   snd (RequestConfig True True (Some (''DENIED:'' @ ''expired'')) ''1'' ''d'' ''a|b'') = Inl (FATAL_AUTH Expired)"
proof -
  have "denied (take (readBuffer - 7) ''expired'') = Expired" by (simp add: readBuffer_def denied_def)
  with requests_unambiguous [of "''1''" "''d''" "''1''" "''d''" "''a|b''" "''a''" "''expired''"] show ?thesis by simp
qed

section \<open>Patching twice\<close>

lemma lines_no_newline: "l \<in> set (SplitByte newline raw) \<Longrightarrow> newline \<notin> set l"
  by (rule SplitByte_no_sep)

lemma fixed_lines:
  "TrimSpace halves = halves" "\<not> fullRoute halves" "\<not> HasPrefix halves ''[''" "\<not> HasPrefix halves ''DNS''"
  "\<not> HasPrefix halves ''MTU''" "halves \<noteq> ''[Interface]''" "newline \<notin> set halves"
  by code_simp+

lemma TrimSpace_mtuLine: "TrimSpace (mtuLine mtu) = mtuLine mtu"
proof (rule TrimSpace_ends)
  have "Itoa i \<noteq> []" for i using nat_digits_ne by (simp add: Itoa_def)
  then show "graphic [last (mtuLine mtu)]"
    using graphic_single [OF Itoa_graphic last_in_set] by (simp add: mtuLine_def)
  show "graphic [hd (mtuLine mtu)]" by (simp add: mtuLine_def graphic_def)
qed

lemma mtu_line:
  "HasPrefix (mtuLine mtu) ''MTU''" "\<not> HasPrefix (mtuLine mtu) ''DNS''" "\<not> HasPrefix (mtuLine mtu) ''[''" "mtuLine mtu \<noteq> ''[Interface]''"
  "\<not> HasPrefix (mtuLine mtu) ''AllowedIPs''" "newline \<notin> set (mtuLine mtu)"
  using Itoa_chars [of newline] by (auto simp: mtuLine_def HasPrefix_def newline_def is_digit_def)

lemma interface_line: "\<not> HasPrefix ''[Interface]'' ''DNS''" "\<not> fullRoute ''[Interface]''"
  by code_simp+

lemma emit_no_newline: "newline \<notin> set line \<Longrightarrow> l \<in> set (emitLine mtu b line) \<Longrightarrow> newline \<notin> set l"
  using fixed_lines(7) mtu_line(6) by (auto simp: emitLine_def Let_def split: if_splits)

lemma patch_no_newline:
  "(\<forall>l \<in> set ls. newline \<notin> set l) \<Longrightarrow> l \<in> set (patchLines mtu b ls) \<Longrightarrow> newline \<notin> set l"
  by (induction mtu b ls rule: patchLines.induct) (auto simp: Let_def dest: emit_no_newline)

lemma dropped_not_header: "HasPrefix t ''DNS'' \<or> HasPrefix t ''MTU'' \<or> fullRoute t \<Longrightarrow> inInterface b t = b"
  by (auto simp: inInterface_def fullRoute_def HasPrefix_iff)

lemma patchLines_emitted:
  "patchLines mtu b (emitLine mtu (inInterface b (TrimSpace line)) line @ rest) =
     emitLine mtu (inInterface b (TrimSpace line)) line @ patchLines mtu (inInterface b (TrimSpace line)) rest"
proof -
  let ?t = "TrimSpace line" let ?b = "inInterface b ?t"
  consider (dns) "?b" "HasPrefix ?t ''DNS''" | (full) "\<not> (?b \<and> HasPrefix ?t ''DNS'')" "fullRoute ?t"
    | (iface) "?t = ''[Interface]''"
    | (mtu) "\<not> fullRoute ?t" "?t \<noteq> ''[Interface]''" "?b" "HasPrefix ?t ''MTU''"
    | (same) "\<not> (?b \<and> HasPrefix ?t ''DNS'')" "\<not> fullRoute ?t" "?t \<noteq> ''[Interface]''" "\<not> (?b \<and> HasPrefix ?t ''MTU'')"
    by blast
  then show ?thesis
  proof cases
    case dns
    then show ?thesis using dropped_not_header [of ?t b] by (simp add: emitLine_def)
  next
    case full
    then have em: "emitLine mtu ?b line = [halves]" and b: "?b = b"
      using dropped_not_header [of ?t b] by (auto simp: emitLine_def Let_def)
    have "patchLines mtu b (halves # rest) = halves # patchLines mtu b rest"
      using fixed_lines by (simp add: emitLine_def inInterface_def)
    then show ?thesis unfolding em unfolding b by simp
  next
    case iface
    then show ?thesis
      using mtu_line [of mtu] interface_line
      by (simp add: emitLine_def inInterface_def TrimSpace_mtuLine fullRoute_def [of "mtuLine mtu"])
  next
    case mtu
    have "\<not> HasPrefix ?t ''DNS''" using mtu(4) by (auto simp: HasPrefix_def)
    then show ?thesis using mtu dropped_not_header [of ?t b] by (simp add: emitLine_def)
  next
    case same
    then have em: "emitLine mtu ?b line = [line]" by (auto simp: emitLine_def Let_def)
    show ?thesis by (simp add: em Let_def)
  qed
qed

lemma patchLines_idem: "patchLines mtu b (patchLines mtu b ls) = patchLines mtu b ls"
  by (induction ls arbitrary: b) (simp_all add: Let_def patchLines_emitted)

lemma Split_patched:
  "SplitByte newline (patchWGConfig raw mtu) =
     (if patchLines mtu False (SplitByte newline raw) = [] then [[]] else patchLines mtu False (SplitByte newline raw))"
  using SplitByte_Join patch_no_newline [of "SplitByte newline raw" _ mtu False] lines_no_newline
  by (simp add: patchWGConfig_def)

text \<open>Patching a patched configuration changes nothing: the second pass drops and inserts exactly what the first did.\<close>

lemma patch_idempotent: "patchWGConfig (patchWGConfig raw mtu) mtu = patchWGConfig raw mtu"
proof (cases "patchLines mtu False (SplitByte newline raw) = []")
  case True
  then have "patchWGConfig raw mtu = []" by (simp add: patchWGConfig_def)
  moreover have "patchWGConfig [] mtu = []"
    by (simp add: patchWGConfig_def emitLine_def inInterface_def fullRoute_def HasPrefix_def)
  ultimately show ?thesis by simp
next
  case False
  then show ?thesis
    using Split_patched [of raw mtu] by (simp add: patchWGConfig_def [of "patchWGConfig raw mtu"] patchLines_idem)
      (simp add: patchWGConfig_def)
qed

section \<open>The parser on a patched configuration\<close>

text \<open>What the patch may change: the MTU and the allowed addresses of the peers.\<close>

definition erase :: "wgConfig \<Rightarrow> wgConfig" where
  "erase c = c\<lparr>wgMtu := [], peers := map (\<lambda>p. p\<lparr>allowedIPs := []\<rparr>) (peers c)\<rparr>"

lemma erase_fields [simp]:
  "wgAddr (erase c) = wgAddr c" "privateKey (erase c) = privateKey c" "listenPort (erase c) = listenPort c"
  "inPeer (erase c) = inPeer c" "wgMtu (erase c) = []" "peers (erase c) = map (\<lambda>p. p\<lparr>allowedIPs := []\<rparr>) (peers c)"
  by (simp_all add: erase_def)

lemma erase_eqD:
  assumes "erase c = erase d"
  shows "wgAddr c = wgAddr d" "privateKey c = privateKey d" "listenPort c = listenPort d" "inPeer c = inPeer d"
    "map (\<lambda>p. p\<lparr>allowedIPs := []\<rparr>) (peers c) = map (\<lambda>p. p\<lparr>allowedIPs := []\<rparr>) (peers d)"
  using assms erase_fields by metis+

lemma erase_onPeer:
  assumes "\<And>p. (f p)\<lparr>allowedIPs := []\<rparr> = f (p\<lparr>allowedIPs := []\<rparr>)"
  shows "erase (onPeer f c) = onPeer f (erase c)"
  using assms by (simp add: onPeer_def erase_def map_butlast last_map)

lemma erase_onPeer_allowed: "erase (onPeer (\<lambda>p. p\<lparr>allowedIPs := g p\<rparr>) c) = erase c"
proof (cases "inPeer c \<and> peers c \<noteq> []")
  case True
  then obtain ps p where "peers c = ps @ [p]" by (metis rev_exhaust)
  with True show ?thesis by (simp add: onPeer_def erase_def)
qed (simp add: onPeer_def)

lemma erase_updates:
  "erase (c\<lparr>wgAddr := a\<rparr>) = erase c\<lparr>wgAddr := a\<rparr>" "erase (c\<lparr>wgMtu := m\<rparr>) = erase c"
  "erase (c\<lparr>privateKey := k\<rparr>) = erase c\<lparr>privateKey := k\<rparr>" "erase (c\<lparr>listenPort := p\<rparr>) = erase c\<lparr>listenPort := p\<rparr>"
  "erase (wgSection n c) = wgSection n (erase c)"
  by (simp_all add: erase_def wgSection_def emptyPeer_def)

lemma onPeer_inPeer [simp]: "inPeer (onPeer f c) = inPeer c" "wgMtu (onPeer f c) = wgMtu c"
  by (simp_all add: onPeer_def)

text \<open>A line has the same effect on two configurations that differ in the MTU and the allowed addresses only.\<close>

lemma wgKeyValue_erase:
  assumes "erase c = erase d" "wgKeyValue ps key val c = Inr c1"
  shows "\<exists>d1. wgKeyValue ps key val d = Inr d1 \<and> erase d1 = erase c1"
proof -
  obtain e where "erase c = e" "erase d = e" using assms(1) by metis
  then show ?thesis
    using assms(2) erase_eqD(4) [OF assms(1)]
    by (auto simp: wgKeyValue_def erase_updates erase_onPeer erase_onPeer_allowed split: if_splits option.splits sum.splits)
qed

lemma wgLine_erase:
  assumes "erase c = erase d" "wgLine ps l c = Inr c1"
  shows "\<exists>d1. wgLine ps l d = Inr d1 \<and> erase d1 = erase c1"
  using assms(2) wgKeyValue_erase [OF assms(1)] assms(1) [symmetric]
  by (auto simp: wgLine_def Let_def erase_updates split: if_splits option.splits prod.splits)

text \<open>Keys by their first letters.\<close>

lemma lower_view_Cons: "(of_char c :: nat) < 128 \<Longrightarrow> lower_view (c # s) = ascii_lower c # lower_view s"
  by (subst lower_view.simps) (auto simp: HasPrefix_def)

lemma Cut_key:
  assumes "Cut (p @ r) ''='' = Some (k, v)" "CHR ''='' \<notin> set p"
  shows "\<exists>r'. k = p @ r'"
proof -
  obtain i where i: "Index (p @ r) ''='' = Some i" "k = take i (p @ r)"
    using assms(1) by (auto simp: Cut_def)
  have "length p \<le> i"
  proof (rule ccontr)
    assume "\<not> length p \<le> i"
    then have "(p @ r) ! i \<in> set p" by (simp add: nth_append)
    moreover have "(p @ r) ! i = CHR ''=''"
      using Index_Some_take_drop [OF i(1)] \<open>\<not> length p \<le> i\<close>
      by (metis append_Cons length_take less_imp_le linorder_not_le min.absorb2 nth_append_length trans_le_add1 length_append)
    ultimately show False using assms(2) by simp
  qed
  then have "k = p @ take (i - length p) r" using i(2) by simp
  then show ?thesis by blast
qed

lemma trimmed_key:
  assumes "HasPrefix line p" "Cut line ''='' = Some (k, v)" "CHR ''='' \<notin> set p" "p \<noteq> []" "graphic p"
  shows "\<exists>r. TrimSpace k = p @ r"
proof -
  obtain r where "line = p @ r" using assms(1) by (auto simp: HasPrefix_iff)
  with assms(2,3) obtain r' where "k = p @ r'" using Cut_key by blast
  then show ?thesis using TrimSpace_keeps [OF assms(4,5)] by blast
qed

lemma wgLine_keyed:
  assumes "HasPrefix (TrimSpace l) p" "CHR ''='' \<notin> set p" "p \<noteq> []" "graphic p" "hd p \<notin> set ''[;#''"
    and "\<And>r v. wgKeyValue ps (lower_view (p @ r)) v c = Inr c1 \<Longrightarrow> erase c1 = erase c"
    and "wgLine ps l c = Inr c1"
  shows "erase c1 = erase c"
proof -
  obtain q where "TrimSpace l = p @ q" using assms(1) by (auto simp: HasPrefix_iff)
  then have "TrimSpace l \<noteq> []" "\<not> HasPrefix (TrimSpace l) ''#''" "\<not> HasPrefix (TrimSpace l) '';''" "\<not> HasPrefix (TrimSpace l) ''[''"
    using assms(3,5) by (cases p; auto simp: HasPrefix_def)+
  then show ?thesis
    using assms(6,7) trimmed_key [OF assms(1) _ assms(2,3,4)]
    by (fastforce simp: wgLine_def Let_def split: option.splits)
qed

lemma key_effects:
  "wgKeyValue ps (CHR ''d'' # r) v c = Inr c"
  "wgKeyValue ps (CHR ''m'' # r) v c = Inr c1 \<Longrightarrow> erase c1 = erase c"
  "wgKeyValue ps (CHR ''a'' # CHR ''l'' # r) v c = Inr c1 \<Longrightarrow> erase c1 = erase c"
  by (auto simp: wgKeyValue_def erase_updates erase_onPeer_allowed split: if_splits option.splits sum.splits)

lemma ascii_lowers:
  "ascii_lower CHR ''D'' = CHR ''d''" "ascii_lower CHR ''M'' = CHR ''m''" "ascii_lower CHR ''A'' = CHR ''a''"
  "ascii_lower CHR ''l'' = CHR ''l''"
  by code_simp+

lemma prefixed_effects:
  "wgKeyValue ps (lower_view (''DNS'' @ r)) v c = Inr c1 \<Longrightarrow> erase c1 = erase c"
  "wgKeyValue ps (lower_view (''MTU'' @ r)) v c = Inr c1 \<Longrightarrow> erase c1 = erase c"
  "wgKeyValue ps (lower_view (''AllowedIPs'' @ r)) v c = Inr c1 \<Longrightarrow> erase c1 = erase c"
proof -
  assume "wgKeyValue ps (lower_view (''DNS'' @ r)) v c = Inr c1"
  then show "erase c1 = erase c" by (simp add: lower_view_Cons ascii_lowers key_effects(1))
next
  assume "wgKeyValue ps (lower_view (''MTU'' @ r)) v c = Inr c1"
  then have "wgKeyValue ps (CHR ''m'' # lower_view (''TU'' @ r)) v c = Inr c1" by (simp add: lower_view_Cons ascii_lowers)
  then show "erase c1 = erase c" by (rule key_effects(2))
next
  assume "wgKeyValue ps (lower_view (''AllowedIPs'' @ r)) v c = Inr c1"
  then have "wgKeyValue ps (CHR ''a'' # CHR ''l'' # lower_view (''lowedIPs'' @ r)) v c = Inr c1"
    by (simp add: lower_view_Cons ascii_lowers)
  then show "erase c1 = erase c" by (rule key_effects(3))
qed

lemma dropped_line_neutral:
  assumes "HasPrefix (TrimSpace l) ''DNS'' \<or> HasPrefix (TrimSpace l) ''MTU'' \<or> HasPrefix (TrimSpace l) ''AllowedIPs''"
    and "wgLine ps l c = Inr c1"
  shows "erase c1 = erase c"
  using assms(1)
proof (elim disjE)
  assume "HasPrefix (TrimSpace l) ''DNS''"
  then show ?thesis
    by - (rule wgLine_keyed [where p = "''DNS''", OF _ _ _ _ _ _ assms(2)], (assumption | erule prefixed_effects(1) | simp add: graphic_def)+)
next
  assume "HasPrefix (TrimSpace l) ''MTU''"
  then show ?thesis
    by - (rule wgLine_keyed [where p = "''MTU''", OF _ _ _ _ _ _ assms(2)], (assumption | erule prefixed_effects(2) | simp add: graphic_def)+)
next
  assume "HasPrefix (TrimSpace l) ''AllowedIPs''"
  then show ?thesis
    by - (rule wgLine_keyed [where p = "''AllowedIPs''", OF _ _ _ _ _ _ assms(2)], (assumption | erule prefixed_effects(3) | simp add: graphic_def)+)
qed

definition mtuKeyed :: "string \<Rightarrow> bool" where
  "mtuKeyed l \<longleftrightarrow>
     (case Cut (TrimSpace l) ''='' of None \<Rightarrow> False | Some (k, _) \<Rightarrow> lower_view (TrimSpace k) = ''mtu'')"

definition usedMtu :: "int \<Rightarrow> string" where
  "usedMtu mtu = Itoa (if mtu \<le> 0 then 1380 else mtu)"

lemma wgLine_keeps_mtu: "\<not> mtuKeyed l \<Longrightarrow> wgLine ps l c = Inr c1 \<Longrightarrow> wgMtu c1 = wgMtu c"
  by (auto simp: wgLine_def Let_def mtuKeyed_def wgKeyValue_def wgSection_def split: if_splits option.splits sum.splits)

lemma wgLine_mtuLine: "wgLine ps (mtuLine mtu) c = Inr (c\<lparr>wgMtu := usedMtu mtu\<rparr>)"
proof -
  have "Cut (mtuLine mtu) ''='' = Some (''MTU '', CHR '' '' # usedMtu mtu)"
    using Index_byte_append [of "CHR ''=''" "''MTU ''" "CHR '' '' # usedMtu mtu"]
    by (simp add: Cut_def mtuLine_def usedMtu_def)
  moreover have "TrimSpace (CHR '' '' # usedMtu mtu) = usedMtu mtu"
    using TrimSpace_Itoa by (subst TrimSpace_def, subst trimLeftSpace.simps)
      (simp add: usedMtu_def space_width_def space_encodings_def HasPrefix_def TrimSpace_def)
  moreover have "lower_view (TrimSpace ''MTU '') = ''mtu''" by code_simp
  moreover have "mtuLine mtu \<noteq> []" "\<not> HasPrefix (mtuLine mtu) ''#''" "\<not> HasPrefix (mtuLine mtu) '';''"
    by (simp_all add: mtuLine_def HasPrefix_def)
  ultimately show ?thesis
    using mtu_line(3) by (simp add: wgLine_def TrimSpace_mtuLine wgKeyValue_def)
qed

lemma halves_keyed: "Cut halves ''='' = Some (''AllowedIPs '', '' 0.0.0.0/1, 128.0.0.0/1'')" "lower_view (TrimSpace ''AllowedIPs '') = ''allowedips''"
  "filter (\<lambda>s. s \<noteq> []) (map TrimSpace (SplitByte CHR '','' (TrimSpace '' 0.0.0.0/1, 128.0.0.0/1''))) = [''0.0.0.0/1'', ''128.0.0.0/1'']"
  "halves \<noteq> []" "\<not> HasPrefix halves ''#''" "\<not> HasPrefix halves '';''" "length halves = 35"
  by code_simp+

lemma halves_networks:
  "parseCIDRs [''0.0.0.0/1'', ''128.0.0.0/1''] = Inr [IPNet [0, 0, 0, 0] [0x80, 0, 0, 0], IPNet [0x80, 0, 0, 0] [0x80, 0, 0, 0]]"
  by code_simp

lemma wgKeyValue_allowed:
  "parseCIDRs (filter (\<lambda>s. s \<noteq> []) (map TrimSpace (SplitByte CHR '','' val))) = Inr ns \<Longrightarrow>
   \<exists>c1. wgKeyValue ps ''allowedips'' val c = Inr c1 \<and> erase c1 = erase c \<and> wgMtu c1 = wgMtu c"
  by (simp add: wgKeyValue_def erase_onPeer_allowed)

lemma wgLine_halves:
  "\<exists>c1. wgLine ps halves c = Inr c1 \<and> erase c1 = erase c \<and> wgMtu c1 = wgMtu c"
proof -
  have "wgLine ps halves c = wgKeyValue ps ''allowedips'' (TrimSpace '' 0.0.0.0/1, 128.0.0.0/1'') c"
    using fixed_lines(1,3) halves_keyed(1,2,4,5,6) by (simp add: wgLine_def Let_def)
  then show ?thesis
    using wgKeyValue_allowed [OF halves_networks [folded halves_keyed(3)]] by simp
qed

lemma wgLines_append:
  "wgLines ps (xs @ ys) c = (case wgLines ps xs c of Inl e \<Rightarrow> Inl e | Inr c1 \<Rightarrow> wgLines ps ys c1)"
  by (induction xs arbitrary: c) (auto split: sum.splits)

lemma wgLine_blank: "wgLine ps [] c = Inr c"
  by (simp add: wgLine_def)

lemma parse_all_lines: "parseWGConfig ps conf = wgLines ps (SplitByte newline conf) emptyConfig"
proof -
  let ?ls = "SplitByte newline conf"
  have "wgLines ps ?ls c = wgLines ps (butlast ?ls) c" if "last ?ls = []" for c
  proof -
    have "?ls = butlast ?ls @ [[]]" using that by (metis SplitByte_not_Nil append_butlast_last_id)
    then show ?thesis
      using wgLines_append [of ps "butlast ?ls" "[[]]" c]
      by (simp add: wgLine_blank maxTokenSize_def split: sum.splits)
  qed
  then show ?thesis by (simp add: parseWGConfig_def scanLines_def Let_def)
qed

lemma emitLine_parsed:
  assumes same: "erase c = erase d" and len: "int (length l) < maxTokenSize" and run: "wgLine ps l c = Inr c1"
    and short: "int (length (mtuLine mtu)) < maxTokenSize"
  shows "\<exists>d1. wgLines ps (emitLine mtu b l) d = Inr d1 \<and> erase d1 = erase c1 \<and>
           (\<not> mtuKeyed l \<longrightarrow> wgMtu d1 = (if TrimSpace l = ''[Interface]'' then usedMtu mtu else wgMtu d))"
proof -
  let ?t = "TrimSpace l"
  obtain d1 where d1: "wgLine ps l d = Inr d1" "erase d1 = erase c1" using wgLine_erase [OF same run] by blast
  have keep: "\<not> mtuKeyed l \<Longrightarrow> wgMtu d1 = wgMtu d" using wgLine_keeps_mtu d1(1) by blast
  have heads: "HasPrefix ?t ''DNS'' \<or> HasPrefix ?t ''MTU'' \<or> fullRoute ?t \<Longrightarrow> ?t \<noteq> ''[Interface]''"
    using interface_line by (auto simp: HasPrefix_def)
  have allowed: "fullRoute ?t \<Longrightarrow> HasPrefix ?t ''AllowedIPs''" by (simp add: fullRoute_def)
  consider (drop) "emitLine mtu b l = []" "?t \<noteq> ''[Interface]''" "HasPrefix ?t ''DNS'' \<or> HasPrefix ?t ''MTU''"
    | (full) "emitLine mtu b l = [halves]" "?t \<noteq> ''[Interface]''" "HasPrefix ?t ''AllowedIPs''"
    | (iface) "emitLine mtu b l = [l, mtuLine mtu]" "?t = ''[Interface]''"
    | (same_line) "emitLine mtu b l = [l]" "?t \<noteq> ''[Interface]''"
    using heads allowed unfolding emitLine_def Let_def by (metis (full_types))
  then show ?thesis
  proof cases
    case drop
    then have "erase c1 = erase c" using dropped_line_neutral run by blast
    then show ?thesis using drop same by auto
  next
    case full
    then have "erase c1 = erase c" using dropped_line_neutral run by blast
    moreover have "\<not> maxTokenSize \<le> int (length halves)" using halves_keyed(7) by (simp add: maxTokenSize_def)
    ultimately show ?thesis using full same wgLine_halves [of ps d] by auto
  next
    case iface
    then show ?thesis using d1 len short by (simp add: wgLine_mtuLine erase_updates)
  next
    case same_line
    then show ?thesis using d1 len keep by auto
  qed
qed

lemma patched_lines_parsed:
  assumes short: "int (length (mtuLine mtu)) < maxTokenSize"
  shows "erase c = erase d \<Longrightarrow> wgLines ps ls c = Inr c1 \<Longrightarrow>
    \<exists>d1. wgLines ps (patchLines mtu b ls) d = Inr d1 \<and> erase d1 = erase c1 \<and>
      ((\<forall>l \<in> set ls. \<not> mtuKeyed l) \<longrightarrow>
         wgMtu d1 = (if \<exists>l \<in> set ls. TrimSpace l = ''[Interface]'' then usedMtu mtu else wgMtu d))"
proof (induction ls arbitrary: b c d)
  case (Cons l ls)
  then obtain c2 where l: "int (length l) < maxTokenSize" "wgLine ps l c = Inr c2" "wgLines ps ls c2 = Inr c1"
    by (auto split: if_splits sum.splits)
  let ?b = "inInterface b (TrimSpace l)"
  obtain d2 where d2: "wgLines ps (emitLine mtu ?b l) d = Inr d2" "erase d2 = erase c2"
      "\<not> mtuKeyed l \<longrightarrow> wgMtu d2 = (if TrimSpace l = ''[Interface]'' then usedMtu mtu else wgMtu d)"
    using emitLine_parsed [OF Cons.prems(1) l(1,2) short] by blast
  obtain d1 where "wgLines ps (patchLines mtu ?b ls) d2 = Inr d1" "erase d1 = erase c1"
      "(\<forall>l \<in> set ls. \<not> mtuKeyed l) \<longrightarrow>
         wgMtu d1 = (if \<exists>l \<in> set ls. TrimSpace l = ''[Interface]'' then usedMtu mtu else wgMtu d2)"
    using Cons.IH [OF d2(2) [symmetric] l(3)] by blast
  with d2 show ?case by (auto simp: Let_def wgLines_append)
qed simp


definition sampleConf :: string where
  "sampleConf =
     Join [''[Interface]'', ''PrivateKey = k'', ''Address = 10.0.0.2/24'', ''DNS = 1.1.1.1'', ''[Peer]'', ''PublicKey = q'',
           ''AllowedIPs = 0.0.0.0/0''] [newline]"

definition sampleParsers :: wgParsers where
  "sampleParsers = \<lparr>ParseKey = Some, ResolveUDPAddr = Some\<rparr>"

definition sampleWg :: wgConfig where
  "sampleWg =
     \<lparr>wgAddr = ''10.0.0.2/24'', wgMtu = [], privateKey = Some ''k'', listenPort = None,
      peers = [emptyPeer\<lparr>publicKey := Some ''q'', allowedIPs := [IPNet [0, 0, 0, 0] [0, 0, 0, 0]]\<rparr>], inPeer = True\<rparr>"

lemma sample_parse: "parseWGConfig sampleParsers sampleConf = Inr sampleWg"
proof -
  have "int (length l) < maxTokenSize" if "l \<in> set (scanLines sampleConf)" for l
  proof -
    have "\<forall>l \<in> set (scanLines sampleConf). int (length l) < 100" by code_simp
    then show ?thesis using that by (fastforce simp: maxTokenSize_def)
  qed
  then have "wgLines sampleParsers ls c =
      foldl (\<lambda>r l. case r of Inl e \<Rightarrow> Inl e | Inr c \<Rightarrow> wgLine sampleParsers l c) (Inr c) ls"
    if "set ls \<subseteq> set (scanLines sampleConf)" for ls c
    using that
  proof (induction ls arbitrary: c)
    case (Cons l ls)
    have stuck: "foldl (\<lambda>r l. case r of Inl e \<Rightarrow> Inl e | Inr c \<Rightarrow> wgLine sampleParsers l c) (Inl e) xs = Inl e" for e xs
      by (induction xs) auto
    from Cons show ?case by (fastforce simp: stuck split: sum.splits)
  qed simp
  then have "parseWGConfig sampleParsers sampleConf =
      foldl (\<lambda>r l. case r of Inl e \<Rightarrow> Inl e | Inr c \<Rightarrow> wgLine sampleParsers l c) (Inr emptyConfig) (scanLines sampleConf)"
    unfolding parseWGConfig_def by blast
  also have "\<dots> = Inr sampleWg" by code_simp
  finally show ?thesis .
qed

lemma length_mtuLine_1280: "int (length (mtuLine 1280)) < maxTokenSize"
  by (simp add: mtuLine_def maxTokenSize_def Itoa_def nat_digits.simps [of 1280] nat_digits.simps [of 128] nat_digits.simps [of 12]
      nat_digits.simps [of "Suc 0"])


text \<open>
  The patch drops lines that begin with upper case \<open>MTU\<close>, the parser reads the key in any case: another spelling of the key
  in the original configuration wins over the requested value.
\<close>

lemma lower_case_mtu_wins:
  "wgLines sampleParsers (patchLines 1280 False [''[Interface]'', ''mtu = 9000'']) emptyConfig =
     Inr (emptyConfig\<lparr>wgMtu := ''9000''\<rparr>)"
proof -
  have "wgLine sampleParsers ''[Interface]'' emptyConfig = Inr emptyConfig" by code_simp
  moreover have "wgLine sampleParsers ''mtu = 9000'' (emptyConfig\<lparr>wgMtu := usedMtu 1280\<rparr>) = Inr (emptyConfig\<lparr>wgMtu := ''9000''\<rparr>)"
  proof -
    have "Cut ''mtu = 9000'' ''='' = Some (''mtu '', '' 9000'')" "TrimSpace ''mtu = 9000'' = ''mtu = 9000''"
      "lower_view (TrimSpace ''mtu '') = ''mtu''" "TrimSpace '' 9000'' = ''9000''" by code_simp+
    then show ?thesis by (simp add: wgLine_def wgKeyValue_def HasPrefix_def)
  qed
  moreover have "patchLines 1280 False [''[Interface]'', ''mtu = 9000''] = [''[Interface]'', mtuLine 1280, ''mtu = 9000'']"
  proof -
    have "TrimSpace ''mtu = 9000'' = ''mtu = 9000''" "TrimSpace ''[Interface]'' = ''[Interface]''" "\<not> fullRoute ''mtu = 9000''"
      by code_simp+
    then show ?thesis using interface_line by (simp add: emitLine_def inInterface_def HasPrefix_def)
  qed
  ultimately show ?thesis
    using length_mtuLine_1280 by (simp add: wgLine_mtuLine maxTokenSize_def)
qed

end
