(* ===== verification/Router.thy ===== *)
theory Router
  imports Go_Net Protocol
begin

text \<open>
  The bypass router of the SOCKS5 mode (\<open>internal/core/socks_router.go\<close>) and the control socket that publishes its domains
  (\<open>captcha_socket.go\<close> and \<open>querySocksBypass\<close> of \<open>wireguard_linux.go\<close>).  \<open>lower\<close> is \<open>strings.ToLower\<close>.
\<close>

section \<open>The router\<close>

record Router =
  domains :: "string list"
  ipMatchers :: "ipnet list"

datatype upstream = Direct | Tun

text \<open>A network, or a bare address as the network of its own.\<close>

definition parseIPNetEntry :: "string \<Rightarrow> ipnet option" where
  "parseIPNetEntry s =
     (case ParseCIDR s of
        Some (_, n) \<Rightarrow> Some n
      | None \<Rightarrow>
          (case ParseIP (TrimSpace s) of
             None \<Rightarrow> None
           | Some ip \<Rightarrow>
               let m = (if To4 ip = None then CIDRMask 128 16 else CIDRMask 32 4) in Some (IPNet (Mask ip m) m)))"

definition Update :: "(string \<Rightarrow> string) \<Rightarrow> string list \<Rightarrow> string list \<Rightarrow> Router \<Rightarrow> Router" where
  "Update lower ds ips r =
     r\<lparr>domains := map (\<lambda>d. lower (TrimSpace d)) ds, ipMatchers := List.map_filter parseIPNetEntry ips\<rparr>"

definition NewRouter :: "(string \<Rightarrow> string) \<Rightarrow> string list \<Rightarrow> string list \<Rightarrow> Router" where
  "NewRouter lower ds ips = Update lower ds ips \<lparr>domains = [], ipMatchers = []\<rparr>"

definition Resolve :: "(string \<Rightarrow> string) \<Rightarrow> Router \<Rightarrow> string \<Rightarrow> upstream \<times> bool" where
  "Resolve lower r host =
     (if host = [] then (Tun, False)
      else case ParseIP host of
        Some ip \<Rightarrow> if list_ex (\<lambda>n. NetContains n ip) (ipMatchers r) then (Direct, True) else (Tun, False)
      | None \<Rightarrow>
          let h = lower (TrimSuffix host ''.'') in
          if list_ex (\<lambda>d. h = d \<or> HasSuffix h (''.'' @ d)) (domains r) then (Direct, True) else (Tun, False))"

definition SnapshotDomains :: "Router \<Rightarrow> string list" where
  "SnapshotDomains r = domains r"

text \<open>The host of a SOCKS5 request: the name the client sent, otherwise the address; \<open>show_ip\<close> prints an address.\<close>

definition dialHost :: "(bytes \<Rightarrow> string) \<Rightarrow> string option \<Rightarrow> bytes option \<Rightarrow> string" where
  "dialHost show_ip fqdn ip =
     (case fqdn of
        Some (c # f) \<Rightarrow> c # f
      | _ \<Rightarrow> (case ip of Some (b # bs) \<Rightarrow> show_ip (b # bs) | _ \<Rightarrow> []))"

section \<open>What the router promises\<close>

text \<open>The block of addresses that an entry of the list names.\<close>

definition entryBlock :: "string \<Rightarrow> (bytes \<times> nat) option" where
  "entryBlock s =
     (case ParseCIDR s of
        Some _ \<Rightarrow>
          (case Cut s ''/'' of
             Some (addr, len) \<Rightarrow> (case (ParseAddr addr, dtoi len) of (Some a, Some n) \<Rightarrow> Some (a, n) | _ \<Rightarrow> None)
           | None \<Rightarrow> None)
      | None \<Rightarrow> map_option (\<lambda>a. (a, 8 * length a)) (ParseAddr (TrimSpace s)))"

definition underDomain :: "string \<Rightarrow> string \<Rightarrow> bool" where
  "underDomain h d \<longleftrightarrow> h = d \<or> (\<exists>sub. h = sub @ ''.'' @ d)"

lemma host_entry:
  assumes "length ip = 16" "length x = 16" "m = (if To4 ip = None then CIDRMask 128 16 else CIDRMask 32 4)"
  shows "NetContains (IPNet (Mask ip m) m) x \<longleftrightarrow> x = ip"
proof (cases "mapped ip")
  case True
  then have ip: "As16 (drop 12 ip) = ip" "To4 ip \<noteq> None"
    using split_mapped [OF assms(1)] assms(1) by (auto simp: As16_def To4_def mapped_def)
  have m: "m = CIDRMask 32 4" using assms(3) ip(2) by simp
  have "NetContains (IPNet (Mask ip m) m) x \<longleftrightarrow> inBlock (drop 12 ip) 32 x"
    using network_contains(1) [of "drop 12 ip" 32 x] ip(1) assms(1,2) unfolding m by simp
  then show ?thesis using ip assms by (auto simp: inBlock_def ip_bits_inject)
next
  case False
  then have "To4 ip = None" using assms(1) by (simp add: To4_def mapped_def)
  then have "NetContains (IPNet (Mask ip m) m) x \<longleftrightarrow> inBlock ip 128 x"
    using network_contains(2) [of ip 128 x] assms by (simp add: As16_def)
  then show ?thesis using False assms by (auto simp: inBlock_def As16_def ip_bits_inject)
qed

lemma inBlock_self: "length a = 4 \<or> length a = 16 \<Longrightarrow> length x = 16 \<Longrightarrow> inBlock a (8 * length a) x \<longleftrightarrow> x = As16 a"
  by (auto simp: inBlock_def As16_def ip_bits_inject)

text \<open>A parsed entry contains exactly the addresses of its block, and entries that do not parse have none.\<close>

lemma entry_contains:
  assumes "length x = 16"
  shows "(\<exists>n. parseIPNetEntry e = Some n \<and> NetContains n x) \<longleftrightarrow> (\<exists>a n. entryBlock e = Some (a, n) \<and> inBlock a n x)"
proof (cases "ParseCIDR e")
  case None
  show ?thesis
  proof (cases "ParseAddr (TrimSpace e)")
    case (Some a)
    then have len: "length a = 4 \<or> length a = 16" by (rule ParseAddr_length)
    have "(\<exists>n. parseIPNetEntry e = Some n \<and> NetContains n x) \<longleftrightarrow> x = As16 a"
      using host_entry [OF As16_length [OF len] assms refl] None Some by (simp add: parseIPNetEntry_def ParseIP_def Let_def)
    then show ?thesis using inBlock_self [OF len assms] None Some by (simp add: entryBlock_def)
  qed (simp add: None parseIPNetEntry_def ParseIP_def entryBlock_def)
next
  case (Some r)
  then obtain addr len a n where cut: "Cut e ''/'' = Some (addr, len)" "ParseAddr addr = Some a" "dtoi len = Some n" "n \<le> 8 * length a"
      and r: "r = (As16 a, IPNet (Mask (As16 a) (CIDRMask n (length a))) (CIDRMask n (length a)))"
    by (auto simp: ParseCIDR_def Let_def split: option.splits if_splits)
  have "NetContains (IPNet (Mask (As16 a) (CIDRMask n (length a))) (CIDRMask n (length a))) x \<longleftrightarrow> inBlock a n x"
    using network_contains [OF _ _ assms] ParseAddr_length [OF cut(2)] cut(4) by auto
  then show ?thesis using Some cut r by (simp add: parseIPNetEntry_def entryBlock_def)
qed

text \<open>
  C31. The router refines its specification: a host that is an address goes direct exactly if it lies in the block of some
  entry, that is, agrees with it on the leading bits of the prefix length, and a name goes direct exactly if it is one of the
  domains or a subdomain of one.  Entries that do not parse have no effect, and the answer depends only on the lists of the
  last update.
\<close>

theorem resolve_refines:
  "Resolve lower (Update lower ds ips r) host =
     (if host \<noteq> [] \<and>
         (case ParseIP host of
            Some x \<Rightarrow> \<exists>e \<in> set ips. \<exists>a n. entryBlock e = Some (a, n) \<and> inBlock a n x
          | None \<Rightarrow> \<exists>d \<in> set ds. underDomain (lower (TrimSuffix host ''.'')) (lower (TrimSpace d)))
      then (Direct, True) else (Tun, False))"
proof (cases "ParseIP host")
  case None
  have "list_ex (\<lambda>d. h = d \<or> HasSuffix h (''.'' @ d)) (map (\<lambda>d. lower (TrimSpace d)) ds) \<longleftrightarrow>
      (\<exists>d \<in> set ds. underDomain h (lower (TrimSpace d)))" for h
    by (auto simp: list_ex_iff underDomain_def HasSuffix_iff)
  then show ?thesis by (auto simp: Resolve_def Update_def None Let_def)
next
  case (Some x)
  have "list_ex (\<lambda>n. NetContains n x) (List.map_filter parseIPNetEntry ips) \<longleftrightarrow>
      (\<exists>e \<in> set ips. \<exists>n. parseIPNetEntry e = Some n \<and> NetContains n x)"
    by (induction ips) (auto simp: List.map_filter_def)
  also have "\<dots> \<longleftrightarrow> (\<exists>e \<in> set ips. \<exists>a n. entryBlock e = Some (a, n) \<and> inBlock a n x)"
    using entry_contains [OF ParseIP_length [OF Some]] by simp
  finally show ?thesis by (auto simp: Resolve_def Update_def Some)
qed

section \<open>The control socket\<close>

record CaptchaSocket =
  solveCh :: "string list"
  sockRouter :: "Router option"

definition solveCap :: nat where "solveCap = 1"

definition println :: "string \<Rightarrow> string" where
  "println s = s @ [newline]"

text \<open>
  One connection: the lines the scanner yields, what the handler writes, and the socket afterwards.  \<open>reload\<close> is
  \<open>handleBlReload\<close>.  A send on the full channel is dropped.
\<close>

fun handleConn :: "(string \<Rightarrow> string) \<Rightarrow> string list \<Rightarrow> CaptchaSocket \<Rightarrow> string \<times> CaptchaSocket" where
  "handleConn reload [] cs = ([], cs)"
| "handleConn reload (l # ls) cs =
     (let line = TrimSpace l in
      if HasPrefix line ''CAPTCHA_RESULT|'' then
        ([], if length (solveCh cs) < solveCap then cs\<lparr>solveCh := solveCh cs @ [TrimPrefix line ''CAPTCHA_RESULT|'']\<rparr> else cs)
      else if HasPrefix line ''BL_RELOAD|'' then (println (reload (TrimPrefix line ''BL_RELOAD|'')), cs)
      else if line = ''GET_BL'' then
        (case sockRouter cs of
           None \<Rightarrow> (println ''NOT_READY'', cs)
         | Some r \<Rightarrow> (concat (map println (SnapshotDomains r)) @ println ''END_BL'', cs))
      else handleConn reload ls cs)"

definition SetRouter :: "Router \<Rightarrow> CaptchaSocket \<Rightarrow> CaptchaSocket" where
  "SetRouter r cs = cs\<lparr>sockRouter := Some r\<rparr>"

text \<open>The lines a scanner yields before it stops at one that is too long, and whether it stopped there.\<close>

definition scanned :: "string \<Rightarrow> string list \<times> bool" where
  "scanned s = (let ls = scanLines s; ok = (\<lambda>l. int (length l) < maxTokenSize) in (takeWhile ok ls, \<not> list_all ok ls))"

datatype query_error = NotReady | UnexpectedEOF | ScanFailed

fun readDomains :: "bool \<Rightarrow> string list \<Rightarrow> string list \<Rightarrow> query_error + string list" where
  "readDomains tooLong [] acc = Inl (if tooLong then ScanFailed else UnexpectedEOF)"
| "readDomains tooLong (l # ls) acc =
     (let line = TrimSpace l in
      if line = ''END_BL'' then Inr acc
      else if line = ''NOT_READY'' then Inl NotReady
      else if line = [] then readDomains tooLong ls acc
      else readDomains tooLong ls (acc @ [line]))"

text \<open>The answer of the daemon as the client reads it.\<close>

definition querySocksBypass :: "string \<Rightarrow> query_error + string list" where
  "querySocksBypass reply = (case scanned reply of (ls, tooLong) \<Rightarrow> readDomains tooLong ls [])"

definition sendCaptchaResult :: "string \<Rightarrow> string" where
  "sendCaptchaResult result = println (''CAPTCHA_RESULT|'' @ result)"

definition sendBlReload :: "string \<Rightarrow> string" where
  "sendBlReload abspath = println (''BL_RELOAD|'' @ abspath)"

definition printable_entry :: "string \<Rightarrow> bool" where
  "printable_entry d \<longleftrightarrow>
     d \<noteq> [] \<and> TrimSpace d = d \<and> newline \<notin> set d \<and> int (length d) < maxTokenSize \<and> d \<noteq> ''END_BL'' \<and> d \<noteq> ''NOT_READY''"

lemma SplitByte_lines:
  "\<forall>d \<in> set ds. newline \<notin> set d \<Longrightarrow> SplitByte newline (concat (map println ds)) = ds @ [[]]"
  by (induction ds) (simp_all add: println_def SplitByte_append)

lemma readDomains_clean:
  "\<forall>d \<in> set ds. printable_entry d \<Longrightarrow> readDomains b (ds @ ''END_BL'' # rest) acc = Inr (acc @ ds)"
proof (induction ds arbitrary: acc)
  case Nil
  have "TrimSpace ''END_BL'' = ''END_BL''" by (rule TrimSpace_graphic) (simp add: graphic_def)
  then show ?case by simp
qed (simp add: printable_entry_def)

lemma scanned_println:
  assumes "\<forall>d \<in> set ds. newline \<notin> set d \<and> int (length d) < maxTokenSize"
  shows "scanned (concat (map println ds)) = (ds, False)"
proof -
  have "scanLines (concat (map println ds)) = ds"
    using assms by (simp add: scanLines_def SplitByte_lines)
  moreover have "takeWhile (\<lambda>l. int (length l) < maxTokenSize) ds = ds" using assms by (simp add: takeWhile_eq_all_conv)
  ultimately show ?thesis using assms by (simp add: scanned_def Let_def list_all_iff)
qed

text \<open>
  C32. A kernel daemon that asks a SOCKS daemon for its bypass list gets exactly the domains of the router it runs with, in
  order, as long as they are plain entries; before a router is attached it is told to try again, and the question changes nothing
  in the daemon.
\<close>

theorem get_bl_roundtrip:
  assumes "\<forall>d \<in> set (SnapshotDomains r). printable_entry d" "sockRouter cs = Some r"
  shows "querySocksBypass (fst (handleConn reload (fst (scanned (println ''GET_BL''))) cs)) = Inr (SnapshotDomains r)
       \<and> querySocksBypass (fst (handleConn reload (fst (scanned (println ''GET_BL''))) (cs\<lparr>sockRouter := None\<rparr>))) = Inl NotReady
       \<and> snd (handleConn reload (fst (scanned (println ''GET_BL''))) cs) = cs"
proof -
  have ask: "scanned (println ''GET_BL'') = ([''GET_BL''], False)"
    using scanned_println [of "[''GET_BL'']"] by (simp add: newline_def maxTokenSize_def)
  have words: "TrimSpace ''GET_BL'' = ''GET_BL''" "TrimSpace ''NOT_READY'' = ''NOT_READY''"
    by (rule TrimSpace_graphic, simp add: graphic_def)+
  have serve: "handleConn reload [''GET_BL''] cs = (concat (map println (SnapshotDomains r @ [''END_BL''])), cs)"
    "handleConn reload [''GET_BL''] (cs\<lparr>sockRouter := None\<rparr>) = (concat (map println [''NOT_READY'']), cs\<lparr>sockRouter := None\<rparr>)"
    using assms(2) by (simp_all add: words HasPrefix_def)
  have "scanned (concat (map println (SnapshotDomains r @ [''END_BL'']))) = (SnapshotDomains r @ [''END_BL''], False)"
    using assms(1) by (intro scanned_println) (auto simp: printable_entry_def newline_def maxTokenSize_def)
  moreover have "scanned (concat (map println [''NOT_READY''])) = ([''NOT_READY''], False)"
    by (intro scanned_println) (auto simp: newline_def maxTokenSize_def)
  ultimately show ?thesis
    unfolding ask fst_conv serve snd_conv querySocksBypass_def
    using readDomains_clean [OF assms(1), of False "[]" "[]"] by (simp add: words)
qed

definition demoRouter :: Router where
  "demoRouter = NewRouter lower_view [''Example.org '', ''vk.com''] [''10.0.0.0/8'']"

theorem get_bl_roundtrip_witness:
  "querySocksBypass (fst (handleConn (\<lambda>_. []) (fst (scanned (println ''GET_BL''))) (SetRouter demoRouter \<lparr>solveCh = [], sockRouter = None\<rparr>)))
     = Inr [''example.org'', ''vk.com'']"
proof -
  have d: "SnapshotDomains demoRouter = [''example.org'', ''vk.com'']" by code_simp
  have "TrimSpace ''example.org'' = ''example.org''" "TrimSpace ''vk.com'' = ''vk.com''"
    by (rule TrimSpace_graphic, simp add: graphic_def)+
  then have "\<forall>e \<in> set (SnapshotDomains demoRouter). printable_entry e"
    by (simp add: d printable_entry_def newline_def maxTokenSize_def)
  from get_bl_roundtrip [OF this, of "SetRouter demoRouter \<lparr>solveCh = [], sockRouter = None\<rparr>" "\<lambda>_. []"] d
  show ?thesis by (simp add: SetRouter_def)
qed


end
