(* ===== verification/Bypass.thy ===== *)
theory Bypass
  imports Creds Subscription Protocol
begin

text \<open>
  Bypass lists: the file formats and the \<open>bl\<close> commands of \<open>commands.go\<close>.

  The file system is a map from expanded paths to contents.  The JSON codec, \<open>strings.ToLower\<close>, the IDNA tables, the environment
  and the zip reader are the arguments in \<open>bl_env\<close>.  \<open>log.Fatalf\<close> and \<open>os.Exit\<close> are outcomes.
\<close>

section \<open>Environment and errors\<close>

datatype go_err =
    NotExist
  | Denied
  | Wrapf string go_err
  | Errorf string

text \<open>\<open>os.IsNotExist\<close> looks at the error itself and does not unwrap errors made by \<open>fmt.Errorf\<close>.\<close>

fun os_IsNotExist :: "go_err \<Rightarrow> bool" where
  "os_IsNotExist NotExist = True"
| "os_IsNotExist _ = False"

record bl_env =
  decode :: "string \<Rightarrow> json option"
  encode :: "json \<Rightarrow> string"
  openZip :: "string \<Rightarrow> archive option"
  ExpandEnv :: "string \<Rightarrow> string"
  homeDir :: "string option"
  ToLower :: "string \<Rightarrow> string"
  ToUnicode :: "string \<Rightarrow> string option"
  appVersion :: string
  writable :: "string \<Rightarrow> bool"

type_synonym files = "string \<Rightarrow> string option"

text \<open>\<open>filepath.Join(home, rest)\<close> for a home without trailing slash, up to \<open>filepath.Clean\<close>.\<close>

definition expandPath :: "bl_env \<Rightarrow> string \<Rightarrow> go_err + string" where
  "expandPath env path =
     (if HasPrefix path ''~'' then
        (case homeDir env of
           None \<Rightarrow> Inl (Errorf ''home'')
         | Some h \<Rightarrow> Inr (h @ ''/'' @ dropWhile (\<lambda>c. c = CHR ''/'') (tl path)))
      else Inr (ExpandEnv env path))"

section \<open>Splitting domain lists\<close>

text \<open>\<open>strings.Fields\<close>.\<close>

function fieldEnd :: "string \<Rightarrow> nat" where
  "fieldEnd s = (if s = [] \<or> space_width s > 0 then 0 else Suc (fieldEnd (tl s)))"
  by auto
termination by (relation "measure length") auto

declare fieldEnd.simps [simp del]

lemma trimLeftSpace_length: "length (trimLeftSpace s) \<le> length s"
  using trimLeftSpace_suffix [of s] by (metis length_append le_add2)

function Fields :: "string \<Rightarrow> string list" where
  "Fields s =
     (let t = trimLeftSpace s in
      if t = [] then [] else take (fieldEnd t) t # Fields (drop (fieldEnd t) t))"
  by auto
termination
proof (relation "measure length", goal_cases)
  case (2 s t)
  have "fieldEnd t > 0"
    using 2 trimLeftSpace_width [of s] by (subst fieldEnd.simps) auto
  moreover have "length t \<le> length s" "0 < length t" using 2 trimLeftSpace_length [of s] by simp_all
  ultimately have "length t - fieldEnd t < length s" by linarith
  then show ?case by simp
qed simp

declare Fields.simps [simp del]

definition splitDomains :: "string \<Rightarrow> string + string list" where
  "splitDomains raw =
     (case find (\<lambda>p. CHR '','' \<in> set p) (Fields raw) of
        Some p \<Rightarrow> Inl p
      | None \<Rightarrow> Inr (collect_unique (\<lambda>_. True) (Fields raw)))"

definition dedupKeepOrder :: "string list \<Rightarrow> string list" where
  "dedupKeepOrder src = collect_unique (\<lambda>_. True) src"

definition mergeBypassDomains :: "string list \<Rightarrow> string list list \<Rightarrow> string list" where
  "mergeBypassDomains own others = dedupKeepOrder (own @ concat others)"

section \<open>Reading\<close>

text \<open>A document as the Go map that \<open>json.Unmarshal\<close> fills: a later key replaces an earlier one; \<open>null\<close> leaves the map nil.\<close>

definition rawMap :: "(string \<times> json) list \<Rightarrow> (string \<times> json) list" where
  "rawMap kvs = foldl (\<lambda>m (k, v). AList.update k v m) [] kvs"

fun asDocument :: "json \<Rightarrow> (string \<times> json) list option option" where
  "asDocument (JObj kvs) = Some (Some (rawMap kvs))"
| "asDocument JNull = Some None"
| "asDocument _ = None"

definition bypassKey :: string where "bypassKey = ''bypassRoutes''"

text \<open>Decoding into \<open>[]string\<close> and into \<open>string\<close>; \<open>null\<close> is the zero value.\<close>

fun asStringElem :: "json \<Rightarrow> string option" where
  "asStringElem (JStr s) = Some s"
| "asStringElem JNull = Some []"
| "asStringElem _ = None"

fun asStrings :: "json \<Rightarrow> string list option" where
  "asStrings (JArr js) = (if list_all (\<lambda>j. asStringElem j \<noteq> None) js then Some (map (\<lambda>j. the (asStringElem j)) js) else None)"
| "asStrings JNull = Some []"
| "asStrings _ = None"

definition loadBypassFromZip :: "bl_env \<Rightarrow> string \<Rightarrow> go_err + (string \<times> string)" where
  "loadBypassFromZip env path =
     (case openZip env path of
        None \<Rightarrow> Inl (Wrapf path NotExist)
      | Some members \<Rightarrow>
          (let hit = (\<lambda>(name, dir, content). \<not> dir \<and> is_json (Base name) \<and>
                 (case Option.bind (Option.bind content (decode env)) asDocument of
                    Some (Some m) \<Rightarrow> map_of m bypassKey \<noteq> None
                  | _ \<Rightarrow> False))
           in case find hit members of
                Some (name, _, content) \<Rightarrow> Inr (the content, path @ ''/'' @ name)
              | None \<Rightarrow> Inl (Errorf path)))"

definition readBypassFile :: "bl_env \<Rightarrow> files \<Rightarrow> string \<Rightarrow> go_err + (string \<times> string)" where
  "readBypassFile env fs path =
     (case expandPath env path of
        Inl e \<Rightarrow> Inl e
      | Inr expanded \<Rightarrow>
          if HasSuffix (lower_view expanded) ''.zip'' then loadBypassFromZip env expanded
          else case fs expanded of
            None \<Rightarrow> Inl (Wrapf expanded NotExist)
          | Some data \<Rightarrow> if HasPrefix data ''PK'' then loadBypassFromZip env expanded else Inr (data, expanded))"

definition nonEmptyLines :: "string \<Rightarrow> string list" where
  "nonEmptyLines s = filter (\<lambda>d. d \<noteq> []) (map TrimSpace (SplitByte newline s))"

text \<open>
  A struct field is matched by name without regard to case, and the last match counts.
\<close>

definition structField :: "(string \<times> json) list \<Rightarrow> string \<Rightarrow> json option" where
  "structField kvs name = map_option snd (find (\<lambda>(k, _). EqualFold k name) (rev kvs))"

definition loadBypassRoutesFile :: "bl_env \<Rightarrow> files \<Rightarrow> string \<Rightarrow> go_err + string list" where
  "loadBypassRoutesFile env fs path =
     (case readBypassFile env fs path of
        Inl e \<Rightarrow> Inl e
      | Inr (data, expanded) \<Rightarrow>
          (let parsed = (case decode env data of Some (JObj kvs) \<Rightarrow> Some kvs | Some JNull \<Rightarrow> Some [] | _ \<Rightarrow> None) in
           case parsed of
             None \<Rightarrow> Inl (Wrapf expanded (Errorf ''json''))
           | Some kvs \<Rightarrow>
               (case structField kvs bypassKey of
                  None \<Rightarrow> Inl (Errorf expanded)
                | Some br \<Rightarrow>
                    (case (case asStrings br of Some ds \<Rightarrow> Some ds | None \<Rightarrow> map_option nonEmptyLines (asStringElem br)) of
                       None \<Rightarrow> Inl (Errorf expanded)
                     | Some ds \<Rightarrow> Inr (collect_unique (\<lambda>d. d \<noteq> []) (map TrimSpace ds))))))"

definition parseBypassRawRoutes :: "json \<Rightarrow> string list \<times> bool" where
  "parseBypassRawRoutes raw =
     (case asStrings raw of
        Some ds \<Rightarrow> (ds, True)
      | None \<Rightarrow> (case asStringElem raw of Some s \<Rightarrow> (nonEmptyLines s, False) | None \<Rightarrow> ([], False)))"

text \<open>The document, the domains and whether they were an array; the document is \<open>None\<close> for a nil map.\<close>

definition loadBypassForEdit :: "bl_env \<Rightarrow> files \<Rightarrow> string \<Rightarrow> go_err + ((string \<times> json) list option \<times> string list \<times> bool)" where
  "loadBypassForEdit env fs path =
     (case readBypassFile env fs path of
        Inl e \<Rightarrow> Inl e
      | Inr (data, expanded) \<Rightarrow>
          (case Option.bind (decode env data) asDocument of
             None \<Rightarrow> Inl (Wrapf expanded (Errorf ''json''))
           | Some r \<Rightarrow>
               (case Option.bind r (\<lambda>m. map_of m bypassKey) of
                  Some br \<Rightarrow> Inr (r, parseBypassRawRoutes br)
                | None \<Rightarrow> Inr (r, [], False))))"

section \<open>Writing\<close>

datatype bl_outcome =
    Fatal go_err
  | Exit string
  | Panic
  | Nothing
  | Saved nat

text \<open>\<open>json.MarshalIndent\<close> of a map writes the keys in sorted order.  A nil slice is \<open>null\<close>; \<open>nilSlice\<close> says that an empty list is one.\<close>

definition listValue :: "bool \<Rightarrow> bool \<Rightarrow> string list \<Rightarrow> json" where
  "listValue isArray nilSlice ds =
     (if isArray then (if ds = [] \<and> nilSlice then JNull else JArr (map JStr ds)) else JStr (Join ds [newline]))"

definition savedDoc :: "bool \<Rightarrow> bool \<Rightarrow> string list \<Rightarrow> (string \<times> json) list \<Rightarrow> (string \<times> json) list" where
  "savedDoc isArray nilSlice ds raw = sort_key fst (AList.update bypassKey (listValue isArray nilSlice ds) raw)"

definition saveBypassFile :: "bl_env \<Rightarrow> string \<Rightarrow> (string \<times> json) list \<Rightarrow> string list \<Rightarrow> bool \<Rightarrow> bool \<Rightarrow> bool \<Rightarrow> files
    \<Rightarrow> go_err option \<times> files" where
  "saveBypassFile env path raw ds nilSlice isArray createNew fs =
     (let raw1 = (if createNew \<and> raw = []
                  then [(''format'', JStr ''qwdtt-bypass''), (''formatVersion'', JNum 1), (''appVersion'', JStr (appVersion env))]
                  else raw)
      in case expandPath env path of
           Inl e \<Rightarrow> (Some e, fs)
         | Inr expanded \<Rightarrow>
             if HasSuffix (lower_view expanded) ''.zip'' then (Some (Errorf path), fs)
             else if \<not> writable env expanded then (Some Denied, fs)
             else (None, fs(expanded \<mapsto> encode env (JObj (savedDoc isArray nilSlice ds raw1)))))"

section \<open>The commands\<close>

definition validateBlDomains :: "string list \<Rightarrow> string option" where
  "validateBlDomains ds = find (\<lambda>d. CHR '','' \<in> set d) (map TrimSpace ds)"

text \<open>The loop of \<open>blAdd\<close>: the keys seen and the domains to append.\<close>

fun addLoop :: "(string \<Rightarrow> string) \<Rightarrow> string list \<Rightarrow> string list \<Rightarrow> string list" where
  "addLoop lower seen [] = []"
| "addLoop lower seen (d0 # ds) =
     (let d = TrimSpace d0; key = lower d in
      if d = [] then addLoop lower seen ds
      else if key \<in> set seen then addLoop lower seen ds
      else d # addLoop lower (key # seen) ds)"

definition blAdd :: "bl_env \<Rightarrow> string list \<Rightarrow> string \<Rightarrow> files \<Rightarrow> bl_outcome \<times> files" where
  "blAdd env ds path fs =
     (case validateBlDomains ds of
        Some d \<Rightarrow> (Exit d, fs)
      | None \<Rightarrow>
          (case (case loadBypassForEdit env fs path of
                   Inl e \<Rightarrow> if os_IsNotExist e then Inr (Some [], [], False, True) else Inl e
                 | Inr (raw, existing, isArray) \<Rightarrow> Inr (raw, existing, isArray, False)) of
             Inl e \<Rightarrow> (Fatal e, fs)
           | Inr (raw, existing, isArray, createNew) \<Rightarrow>
               (let new = addLoop (ToLower env) (map (ToLower env) existing) ds in
                if new = [] then (Nothing, fs)
                else case raw of
                  None \<Rightarrow> (Panic, fs)
                | Some m \<Rightarrow>
                    (case saveBypassFile env path m (existing @ new) False isArray createNew fs of
                       (Some e, fs1) \<Rightarrow> (Fatal e, fs1)
                     | (None, fs1) \<Rightarrow> (Saved (length (existing @ new)), fs1)))))"

definition removeKeys :: "(string \<Rightarrow> string) \<Rightarrow> string list \<Rightarrow> string list \<Rightarrow> string list" where
  "removeKeys lower existing ds =
     filter (\<lambda>k. k \<in> set (map lower existing)) (map lower (filter (\<lambda>d. d \<noteq> []) (map TrimSpace ds)))"

text \<open>\<open>yes\<close>: \<open>-y\<close>, or the answer to the prompt.\<close>

definition blRemove :: "bl_env \<Rightarrow> string list \<Rightarrow> string \<Rightarrow> bool \<Rightarrow> files \<Rightarrow> bl_outcome \<times> files" where
  "blRemove env ds path yes fs =
     (case validateBlDomains ds of
        Some d \<Rightarrow> (Exit d, fs)
      | None \<Rightarrow>
          if \<not> yes then (Nothing, fs)
          else case loadBypassForEdit env fs path of
            Inl e \<Rightarrow> (Fatal e, fs)
          | Inr (raw, existing, isArray) \<Rightarrow>
              (let removeSet = removeKeys (ToLower env) existing ds in
               if removeSet = [] then (Nothing, fs)
               else
                 let out = filter (\<lambda>d. ToLower env d \<notin> set removeSet) existing in
                 case raw of
                   None \<Rightarrow> (Panic, fs)
                 | Some m \<Rightarrow>
                     (case saveBypassFile env path m out True isArray False fs of
                        (Some e, fs1) \<Rightarrow> (Fatal e, fs1)
                      | (None, fs1) \<Rightarrow> (Saved (length out), fs1))))"

definition blInit :: "bl_env \<Rightarrow> string \<Rightarrow> files \<Rightarrow> bl_outcome \<times> files" where
  "blInit env path fs =
     (if fs path \<noteq> None then (Exit path, fs)
      else case saveBypassFile env path [] [] True False True fs of
        (Some e, fs1) \<Rightarrow> (Fatal e, fs1)
      | (None, fs1) \<Rightarrow> (Saved 0, fs1))"

definition displayDomain :: "bl_env \<Rightarrow> string \<Rightarrow> string" where
  "displayDomain env d =
     (if \<not> Contains d ''xn--'' then d
      else case ToUnicode env d of Some u \<Rightarrow> if u \<noteq> [] then u else d | None \<Rightarrow> d)"

definition domainKey :: "bl_env \<Rightarrow> string \<Rightarrow> string" where
  "domainKey env d = ToLower env (transliterateCyrillic (displayDomain env d))"

text \<open>The exact and the partial matches of each query.\<close>

definition blFindOne :: "bl_env \<Rightarrow> string list \<Rightarrow> string \<Rightarrow> string list \<times> string list" where
  "blFindOne env existing q =
     (let ql = ToLower env q;
          forms = (\<lambda>d. let dl = ToLower env d; du = ToLower env (displayDomain env d)
                       in [dl, du, ToLower env (transliterateCyrillic du)]);
          isExact = (\<lambda>d. ql \<in> set (forms d));
          isMatch = (\<lambda>d. \<not> isExact d \<and> list_ex (\<lambda>f. Contains f ql) (forms d))
      in (filter isExact existing, filter isMatch existing))"

definition blFind :: "bl_env \<Rightarrow> string list \<Rightarrow> string \<Rightarrow> files \<Rightarrow> bl_outcome + (string \<times> string list \<times> string list) list" where
  "blFind env queries path fs =
     (case validateBlDomains queries of
        Some d \<Rightarrow> Inl (Exit d)
      | None \<Rightarrow>
          (case loadBypassForEdit env fs path of
             Inl e \<Rightarrow> Inl (Fatal e)
           | Inr (_, existing, _) \<Rightarrow>
               Inr (map (\<lambda>q. (q, blFindOne env existing q)) (filter (\<lambda>q. q \<noteq> []) (map TrimSpace queries)))))"

section \<open>The column layout\<close>

definition padRight :: "nat \<Rightarrow> string \<Rightarrow> string" where
  "padRight n s = s @ replicate (n - length (runes s)) CHR '' ''"

definition maxLen :: "string list \<Rightarrow> nat" where
  "maxLen ds = foldl (\<lambda>m d. max m (length d)) 0 ds"

definition gridRows :: "nat \<Rightarrow> nat \<Rightarrow> nat" where
  "gridRows n cols = (n + cols - 1) div cols"

text \<open>The indices in row \<open>r\<close>, column by column.\<close>

definition rowCells :: "nat \<Rightarrow> nat \<Rightarrow> nat \<Rightarrow> nat list" where
  "rowCells n cols r = takeWhile (\<lambda>i. i < n) (map (\<lambda>c. r + c * gridRows n cols) [0..<cols])"

definition trimRightSpaces :: "string \<Rightarrow> string" where
  "trimRightSpaces s = rev (dropWhile (\<lambda>c. c = CHR '' '') (rev s))"

definition rowLine :: "string list \<Rightarrow> string \<Rightarrow> string \<Rightarrow> nat \<Rightarrow> nat \<Rightarrow> string" where
  "rowLine ds lead sep cols r =
     trimRightSpaces (lead @ concat (map (\<lambda>(c, i). padRight (maxLen ds) (ds ! i) @ (if c < cols - 1 then sep else []))
       (enumerate 0 (rowCells (length ds) cols r)))) @ [newline]"

definition formatDomainsInColumns :: "string list \<Rightarrow> string \<Rightarrow> string \<Rightarrow> nat \<Rightarrow> string" where
  "formatDomainsInColumns ds indent sep cols0 =
     (let cols = max 1 cols0 in
      if ds = [] then []
      else concat (map (rowLine ds indent sep cols) [0..<gridRows (length ds) cols]))"

definition rowMarker :: "(string \<times> string) list \<Rightarrow> nat list \<Rightarrow> string" where
  "rowMarker tags cells =
     (if list_ex (\<lambda>i. fst (tags ! i) = ''[!]'') cells then ''[!]''
      else if list_ex (\<lambda>i. fst (tags ! i) = ''[-]'') cells then ''[-]'' else [])"

definition formatTaggedDomains :: "(string \<times> string) list \<Rightarrow> string \<Rightarrow> string \<Rightarrow> nat \<Rightarrow> string" where
  "formatTaggedDomains tags indent sep cols0 =
     (let cols = max 1 cols0; n = length tags in
      if tags = [] then []
      else concat (map (\<lambda>r. rowLine (map snd tags) (indent @ padRight 4 (rowMarker tags (filter (\<lambda>i. i < n) (map (\<lambda>c. r + c * gridRows n cols) [0..<cols])))) sep cols r)
             [0..<gridRows n cols]))"

section \<open>What is saved is loaded\<close>

text \<open>The JSON codec reads back what it wrote for a document; the text begins with a brace, not like an archive.\<close>

definition codec_ok :: "bl_env \<Rightarrow> (string \<times> json) list \<Rightarrow> bool" where
  "codec_ok env doc \<longleftrightarrow>
     decode env (encode env (JObj doc)) = Some (JObj doc) \<and> \<not> HasPrefix (encode env (JObj doc)) ''PK''"

text \<open>A plain, writable file.\<close>

definition plainFile :: "bl_env \<Rightarrow> files \<Rightarrow> string \<Rightarrow> string \<Rightarrow> bool" where
  "plainFile env fs path f \<longleftrightarrow>
     expandPath env path = Inr f \<and> \<not> HasSuffix (lower_view f) ''.zip'' \<and> writable env f \<and>
     (\<exists>data. fs f = Some data \<and> \<not> HasPrefix data ''PK'')"

lemma rawMap_append: "distinct (map fst m @ map fst kvs) \<Longrightarrow> foldl (\<lambda>m (k, v). AList.update k v m) m kvs = m @ kvs"
proof (induction kvs arbitrary: m)
  case (Cons kv kvs)
  have "AList.update k v m = m @ [(k, v)]" if "k \<notin> fst ` set m" for k v m
    using that by (induction m) auto
  then have "AList.update (fst kv) (snd kv) m = m @ [kv]" using Cons.prems by (cases kv) auto
  then show ?case using Cons.IH [of "m @ [kv]"] Cons.prems by (cases kv) auto
qed simp

lemma rawMap_id: "distinct (map fst kvs) \<Longrightarrow> rawMap kvs = kvs"
  using rawMap_append [of "[]" kvs] by (simp add: rawMap_def)

lemma rawMap_distinct: "distinct (map fst (rawMap kvs))"
proof -
  have "distinct (map fst m) \<Longrightarrow> distinct (map fst (foldl (\<lambda>m (k, v). AList.update k v m) m kvs))" for m :: "(string \<times> json) list"
    by (induction kvs arbitrary: m) (auto simp: distinct_update)
  then show ?thesis by (simp add: rawMap_def)
qed

lemma loaded_distinct: "loadBypassForEdit env fs path = Inr (Some m, es, arr) \<Longrightarrow> distinct (map fst m)"
proof -
  assume "loadBypassForEdit env fs path = Inr (Some m, es, arr)"
  then obtain j where "asDocument j = Some (Some m)"
    by (auto simp: loadBypassForEdit_def split: sum.splits option.splits bind_splits)
  then show ?thesis using rawMap_distinct by (cases j) auto
qed

text \<open>Domains that the string form of the list can hold.\<close>

definition lineDomains :: "string list \<Rightarrow> bool" where
  "lineDomains ds \<longleftrightarrow> (\<forall>d \<in> set ds. d \<noteq> [] \<and> TrimSpace d = d \<and> newline \<notin> set d)"

lemma nonEmptyLines_Join: "lineDomains ds \<Longrightarrow> nonEmptyLines (Join ds [newline]) = ds"
proof (cases "ds = []")
  case False
  assume ok: "lineDomains ds"
  then have "SplitByte newline (Join ds [newline]) = ds" using False by (intro SplitByte_Join) (auto simp: lineDomains_def)
  moreover have "map TrimSpace ds = ds" "filter (\<lambda>d. d \<noteq> []) ds = ds"
    using ok by (auto simp: lineDomains_def intro!: map_idI)
  ultimately show ?thesis by (simp add: nonEmptyLines_def)
qed (simp add: nonEmptyLines_def)

lemma nonEmptyLines_lines: "lineDomains (nonEmptyLines s)"
proof -
  have "newline \<notin> set d" if "d \<in> set (SplitByte newline s)" for d using SplitByte_no_sep [OF that] .
  then show ?thesis using set_TrimSpace by (fastforce simp: lineDomains_def nonEmptyLines_def)
qed

lemma lineDomains_Nil: "lineDomains []"
  by (simp add: lineDomains_def)

lemma loaded_lines: "loadBypassForEdit env fs path = Inr (r, es, False) \<Longrightarrow> lineDomains es"
  using nonEmptyLines_lines lineDomains_Nil
  by (auto simp: loadBypassForEdit_def parseBypassRawRoutes_def split: sum.splits option.splits)

lemma asStrings_map: "asStrings (JArr (map JStr ds)) = Some ds"
  by (simp add: list_all_iff comp_def)

lemma savedDoc_props:
  assumes "distinct (map fst m)"
  shows "distinct (map fst (savedDoc arr nilS ds m))"
    and "map_of (savedDoc arr nilS ds m) k = (if k = bypassKey then Some (listValue arr nilS ds) else map_of m k)"
proof -
  let ?u = "AList.update bypassKey (listValue arr nilS ds) m"
  have d: "distinct (map fst ?u)" using assms by (simp add: distinct_update)
  then show d1: "distinct (map fst (savedDoc arr nilS ds m))"
    unfolding savedDoc_def by (metis distinct_map distinct_sort inj_on_def set_sort)
  have "map_of (savedDoc arr nilS ds m) = map_of ?u"
    using d d1 map_of_inject_set [of "savedDoc arr nilS ds m" ?u] by (simp add: savedDoc_def)
  then show "map_of (savedDoc arr nilS ds m) k = (if k = bypassKey then Some (listValue arr nilS ds) else map_of m k)"
    by (simp add: update_conv')
qed

lemma parse_listValue: "arr \<or> lineDomains ds \<Longrightarrow> parseBypassRawRoutes (listValue arr nilS ds) = (ds, arr)"
  using asStrings_map [of ds] nonEmptyLines_Join [of ds] by (cases arr) (simp_all add: listValue_def parseBypassRawRoutes_def)

lemma save_load:
  assumes codec: "codec_ok env (savedDoc arr nilS ds m)" and f: "plainFile env fs path f" and m: "distinct (map fst m)"
    and ds: "arr \<or> lineDomains ds" and fs1: "fs1 = fs(f \<mapsto> encode env (JObj (savedDoc arr nilS ds m)))"
  shows "saveBypassFile env path m ds nilS arr False fs = (None, fs1) \<and> plainFile env fs1 path f
       \<and> loadBypassForEdit env fs1 path = Inr (Some (savedDoc arr nilS ds m), ds, arr)"
proof (intro conjI)
  show "saveBypassFile env path m ds nilS arr False fs = (None, fs1)"
    using f by (simp add: saveBypassFile_def plainFile_def fs1)
  show "plainFile env fs1 path f" using f codec by (simp add: plainFile_def fs1 codec_ok_def)
  show "loadBypassForEdit env fs1 path = Inr (Some (savedDoc arr nilS ds m), ds, arr)"
    using f codec parse_listValue [OF ds] savedDoc_props [OF m]
    by (simp add: loadBypassForEdit_def readBypassFile_def plainFile_def fs1 codec_ok_def rawMap_id)
qed

lemma addLoop_new:
  "d \<in> set (addLoop lower seen ds) \<Longrightarrow> d \<noteq> [] \<and> TrimSpace d = d \<and> d \<in> TrimSpace ` set ds \<and> lower d \<notin> set seen"
proof (induction ds arbitrary: seen)
  case (Cons x ds)
  from Cons.prems consider "d = TrimSpace x" "d \<noteq> []" "lower d \<notin> set seen" | "d \<in> set (addLoop lower seen ds)"
    | "d \<in> set (addLoop lower (lower (TrimSpace x) # seen) ds)"
    by (auto simp: Let_def split: if_splits)
  then show ?case using Cons.IH by cases fastforce+
qed simp

lemma addLoop_distinct: "distinct (map lower (addLoop lower seen ds))"
  using addLoop_new by (induction ds arbitrary: seen) (fastforce simp: Let_def)+

lemma addLoop_covers: "d \<in> set ds \<Longrightarrow> TrimSpace d \<noteq> [] \<Longrightarrow> lower (TrimSpace d) \<in> set seen \<union> lower ` set (addLoop lower seen ds)"
proof (induction ds arbitrary: seen)
  case (Cons x ds)
  show ?case
  proof (cases "d = x")
    case True
    with Cons.prems show ?thesis by (auto simp: Let_def)
  next
    case False
    then have "d \<in> set ds" using Cons.prems by simp
    then have "lower (TrimSpace d) \<in> set seen' \<union> lower ` set (addLoop lower seen' ds)" for seen' by (rule Cons.IH) (rule Cons.prems(2))
    from this [of seen] this [of "lower (TrimSpace x) # seen"] show ?thesis by (auto simp: Let_def)
  qed
qed simp

lemma removeKeys_new:
  assumes "\<And>d. d \<in> set new \<Longrightarrow> d \<noteq> [] \<and> TrimSpace d = d"
  shows "removeKeys lower (es @ new) new = map lower new"
proof -
  have "map TrimSpace new = new" "filter (\<lambda>d. d \<noteq> []) new = new" using assms by (auto intro: map_idI)
  then show ?thesis by (auto simp: removeKeys_def filter_id_conv)
qed

text \<open>
  C37. Adding domains to a bypass file and removing them again restores the list.  The addition appends exactly the trimmed,
  non-empty domains that are not there yet, compared without case, each once; every given domain is present afterwards; the
  other fields of the document, the form of the list (array or lines) and all other files stay as they are.
\<close>

theorem bl_add_remove:
  assumes load: "loadBypassForEdit env fs path = Inr (Some m, es, arr)" and f: "plainFile env fs path f"
    and m1: "m1 = savedDoc arr False (es @ new) m" and m2: "m2 = savedDoc arr True es m1"
    and codec: "codec_ok env m1" "codec_ok env m2"
    and commas: "validateBlDomains ds = None" and lines: "arr \<or> (\<forall>d \<in> set ds. newline \<notin> set d)"
    and new: "new = addLoop (ToLower env) (map (ToLower env) es) ds" "new \<noteq> []"
  shows "\<exists>fs1 fs2.
      blAdd env ds path fs = (Saved (length es + length new), fs1) \<and>
      loadBypassForEdit env fs1 path = Inr (Some m1, es @ new, arr) \<and>
      blRemove env new path True fs1 = (Saved (length es), fs2) \<and>
      loadBypassForEdit env fs2 path = Inr (Some m2, es, arr) \<and>
      (\<forall>k. k \<noteq> bypassKey \<longrightarrow> map_of m1 k = map_of m k \<and> map_of m2 k = map_of m k) \<and>
      (\<forall>g. g \<noteq> f \<longrightarrow> fs1 g = fs g \<and> fs2 g = fs g) \<and>
      distinct (map (ToLower env) new) \<and> (\<forall>d \<in> set new. ToLower env d \<notin> ToLower env ` set es) \<and>
      (\<forall>d \<in> set ds. TrimSpace d \<noteq> [] \<longrightarrow> ToLower env (TrimSpace d) \<in> ToLower env ` set (es @ new))"
proof -
  let ?L = "ToLower env"
  have props: "d \<noteq> [] \<and> TrimSpace d = d \<and> d \<in> TrimSpace ` set ds \<and> ?L d \<notin> ?L ` set es" if "d \<in> set new" for d
    using addLoop_new [of d ?L "map ?L es" ds] that new(1) by simp
  have nl: "arr \<or> lineDomains (es @ new)"
  proof (cases arr)
    case False
    have "lineDomains es" using loaded_lines load False by simp
    moreover have "newline \<notin> set d" if "d \<in> set new" for d
      using props [OF that] lines False set_TrimSpace by fastforce
    ultimately show ?thesis using props by (auto simp: lineDomains_def)
  qed simp
  then have nl0: "arr \<or> lineDomains es" by (auto simp: lineDomains_def)
  define fs1 where "fs1 = fs(f \<mapsto> encode env (JObj m1))"
  define fs2 where "fs2 = fs1(f \<mapsto> encode env (JObj m2))"
  note d = loaded_distinct [OF load]
  have s1: "saveBypassFile env path m (es @ new) False arr False fs = (None, fs1)" "plainFile env fs1 path f"
      "loadBypassForEdit env fs1 path = Inr (Some m1, es @ new, arr)"
    using save_load [OF codec(1) [unfolded m1] f d nl] by (simp_all add: fs1_def m1)
  have s2: "saveBypassFile env path m1 es True arr False fs1 = (None, fs2)"
      "loadBypassForEdit env fs2 path = Inr (Some m2, es, arr)"
    using save_load [OF codec(2) [unfolded m2] s1(2) loaded_distinct [OF s1(3)] nl0] by (simp_all add: fs2_def m2)
  have kept: "map_of m1 k = map_of m k \<and> map_of m2 k = map_of m k" if "k \<noteq> bypassKey" for k
    using that savedDoc_props(2) [OF d] savedDoc_props(2) [OF loaded_distinct [OF s1(3)]] by (simp add: m1 m2)
  have added: "blAdd env ds path fs = (Saved (length es + length new), fs1)"
    using commas load new s1(1) by (simp add: blAdd_def Let_def)
  have valid: "validateBlDomains new = None"
  proof -
    have "CHR '','' \<notin> set (TrimSpace d)" if "d \<in> set new" for d
      using commas props [OF that] by (auto simp: validateBlDomains_def find_None_iff)
    then show ?thesis by (simp add: validateBlDomains_def find_None_iff)
  qed
  have keys: "removeKeys ?L (es @ new) new = map ?L new" by (rule removeKeys_new) (use props in blast)
  have disj: "?L d \<notin> ?L ` set new" if "d \<in> set es" for d
  proof
    assume "?L d \<in> ?L ` set new"
    then obtain x where "x \<in> set new" "?L x = ?L d" by (metis imageE)
    with props [of x] that show False by (metis imageI)
  qed
  then have out: "filter (\<lambda>d. ?L d \<notin> set (map ?L new)) (es @ new) = es"
    by (simp add: filter_id_conv filter_empty_conv)
  have removed: "blRemove env new path True fs1 = (Saved (length es), fs2)"
    using valid s1(3) s2(1) keys out new(2) by (simp add: blRemove_def Let_def del: filter_append)
  have "distinct (map ?L new)" unfolding new(1) by (rule addLoop_distinct)
  moreover have "?L (TrimSpace d) \<in> ?L ` set (es @ new)" if "d \<in> set ds" "TrimSpace d \<noteq> []" for d
    using addLoop_covers [OF that, of ?L "map ?L es"] new(1) by auto
  ultimately show ?thesis
    using added removed s1 s2 props kept by (intro exI [of _ fs1] exI [of _ fs2]) (simp add: fs1_def fs2_def)
qed

definition demoDocs :: "(string \<times> json) list list" where
  "demoDocs =
     [[(''bypassRoutes'', JStr ''vk.com''), (''format'', JStr ''qwdtt-bypass'')],
      [(''bypassRoutes'', JStr (Join [''vk.com'', ''ya.ru''] [newline])), (''format'', JStr ''qwdtt-bypass'')]]"

text \<open>An environment whose codec knows the documents of the example.\<close>

definition demoEnv :: bl_env where
  "demoEnv =
     \<lparr>decode = (\<lambda>s. if s = ''{0}'' then Some (JObj (demoDocs ! 0)) else if s = ''{1}'' then Some (JObj (demoDocs ! 1)) else None),
      encode = (\<lambda>j. if j = JObj (demoDocs ! 0) then ''{0}'' else ''{1}''),
      openZip = (\<lambda>_. None), ExpandEnv = (\<lambda>p. p), homeDir = None, ToLower = lower_view, ToUnicode = Some,
      appVersion = ''1'', writable = (\<lambda>_. True)\<rparr>"

theorem bl_add_remove_witness:
  "\<exists>fs1 fs2. blAdd demoEnv ['' ya.ru'', ''VK.com''] ''bl.json'' [''bl.json'' \<mapsto> ''{0}''] = (Saved 2, fs1) \<and>
     blRemove demoEnv [''ya.ru''] ''bl.json'' True fs1 = (Saved 1, fs2) \<and>
     loadBypassForEdit demoEnv fs2 ''bl.json'' = Inr (Some (demoDocs ! 0), [''vk.com''], False)"
proof -
  have new: "[''ya.ru''] = addLoop (ToLower demoEnv) (map (ToLower demoEnv) [''vk.com'']) ['' ya.ru'', ''VK.com'']" by code_simp
  have docs: "demoDocs ! 1 = savedDoc False False ([''vk.com''] @ [''ya.ru'']) (demoDocs ! 0)"
    "demoDocs ! 0 = savedDoc False True [''vk.com''] (demoDocs ! 1)" by code_simp+
  have codec: "codec_ok demoEnv (demoDocs ! 1)" "codec_ok demoEnv (demoDocs ! 0)" by code_simp+
  have load: "loadBypassForEdit demoEnv [''bl.json'' \<mapsto> ''{0}''] ''bl.json'' = Inr (Some (demoDocs ! 0), [''vk.com''], False)"
    by code_simp
  have f: "plainFile demoEnv [''bl.json'' \<mapsto> ''{0}''] ''bl.json'' ''bl.json''"
  proof -
    have "expandPath demoEnv ''bl.json'' = Inr ''bl.json''" "\<not> HasSuffix (lower_view ''bl.json'') ''.zip''"
      "writable demoEnv ''bl.json''" "\<not> HasPrefix ''{0}'' ''PK''" by code_simp+
    then show ?thesis by (simp add: plainFile_def)
  qed
  have "validateBlDomains ['' ya.ru'', ''VK.com''] = None" "\<forall>d \<in> set ['' ya.ru'', ''VK.com'']. newline \<notin> set d" by code_simp+
  from bl_add_remove [OF load f docs codec this(1) disjI2 [OF this(2)] new] show ?thesis by auto
qed

text \<open>A missing file is never created: the error that \<open>readBypassFile\<close> returns is wrapped, so \<open>os.IsNotExist\<close> is false.\<close>

lemma add_to_missing_file_fails:
  assumes "expandPath env path = Inr f" "fs f = None" "validateBlDomains ds = None" "\<not> HasSuffix (lower_view f) ''.zip''"
  shows "blAdd env ds path fs = (Fatal (Wrapf f NotExist), fs)"
  using assms by (simp add: blAdd_def loadBypassForEdit_def readBypassFile_def)

section \<open>Every domain is printed once\<close>

lemma gridRows_bound: "0 < cols \<Longrightarrow> n \<le> gridRows n cols * cols"
proof -
  assume c: "0 < cols"
  have "n + cols - 1 < (n + cols - 1) div cols * cols + cols"
    using c by (metis div_mult_mod_eq mod_less_divisor nat_add_left_cancel_less)
  then show ?thesis using c by (simp add: gridRows_def)
qed

lemma rowCells_set:
  assumes "r < gridRows n cols"
  shows "set (rowCells n cols r) = {i. i < n \<and> i mod gridRows n cols = r}" "distinct (rowCells n cols r)"
proof -
  let ?R = "gridRows n cols"
  have R: "0 < ?R" using assms by simp
  have cols: "0 < cols" using assms by (cases cols) (auto simp: gridRows_def)
  have "rowCells n cols r = filter (\<lambda>i. i < n) (map (\<lambda>c. r + c * ?R) [0..<cols])"
  proof -
    have "takeWhile (\<lambda>i. i < n) (map f [a..<b]) = filter (\<lambda>i. i < n) (map f [a..<b])"
      if "\<And>x y. x \<le> y \<Longrightarrow> f x \<le> f y" for f :: "nat \<Rightarrow> nat" and a b
    proof (induction "b - a" arbitrary: a)
      case (Suc k)
      then have ab: "[a..<b] = a # [Suc a..<b]" by (simp add: upt_conv_Cons)
      show ?case
      proof (cases "f a < n")
        case True
        then show ?thesis using Suc(1) [of "Suc a"] Suc(2) ab by simp
      next
        case False
        then have "\<not> f x < n" if "a \<le> x" for x using \<open>\<And>x y. x \<le> y \<Longrightarrow> f x \<le> f y\<close> [OF that] by simp
        then show ?thesis using False ab by (auto simp: filter_empty_conv)
      qed
    qed simp
    then show ?thesis by (simp add: rowCells_def)
  qed
  moreover have "set (filter (\<lambda>i. i < n) (map (\<lambda>c. r + c * ?R) [0..<cols])) = {i. i < n \<and> i mod ?R = r}"
  proof (intro set_eqI iffI)
    fix i assume "i \<in> {i. i < n \<and> i mod ?R = r}"
    then have i: "i < n" "i mod ?R = r" by auto
    have "i = r + i div ?R * ?R" using i(2) by (metis add.commute div_mult_mod_eq)
    moreover have "i div ?R < cols"
      using gridRows_bound [OF cols, of n] i(1) R by (simp add: less_mult_imp_div_less mult.commute)
    ultimately show "i \<in> set (filter (\<lambda>i. i < n) (map (\<lambda>c. r + c * ?R) [0..<cols]))" using i(1) by force
  qed (use assms in auto)
  moreover have "distinct (map (\<lambda>c. r + c * ?R) [0..<cols])" using R by (auto simp: distinct_map inj_on_def)
  ultimately show "set (rowCells n cols r) = {i. i < n \<and> i mod ?R = r}" "distinct (rowCells n cols r)" by simp_all
qed

lemma distinct_concat_map:
  "distinct xs \<Longrightarrow> (\<And>x. x \<in> set xs \<Longrightarrow> distinct (f x)) \<Longrightarrow>
   (\<And>x y. x \<in> set xs \<Longrightarrow> y \<in> set xs \<Longrightarrow> x \<noteq> y \<Longrightarrow> set (f x) \<inter> set (f y) = {}) \<Longrightarrow> distinct (concat (map f xs))"
  by (induction xs) auto

lemma columns_print_once:
  assumes "0 < cols"
  shows "distinct (concat (map (rowCells n cols) [0..<gridRows n cols]))
       \<and> set (concat (map (rowCells n cols) [0..<gridRows n cols])) = {0..<n}"
proof
  let ?R = "gridRows n cols"
  show "distinct (concat (map (rowCells n cols) [0..<?R]))"
    using rowCells_set by (intro distinct_concat_map) auto
  have "i mod ?R < ?R" if "i < n" for i
    using that gridRows_bound [OF assms, of n] by (cases "?R = 0") auto
  then show "set (concat (map (rowCells n cols) [0..<?R])) = {0..<n}" using rowCells_set(1) by auto
qed

end
