(* ===== verification/Routes.thy ===== *)
theory Routes
  imports Router Bypass
begin

text \<open>
  Kernel routes: the routing half of \<open>wireguard_linux.go\<close> and \<open>internal/core/bypass_routes_linux.go\<close>.

  The kernel is reached through the operations of \<open>netlink\<close> and \<open>wgctrl\<close>, which are the fields of the record \<open>netlink\<close> over an
  abstract kernel state; \<open>netlink_laws\<close> states what the code relies on.  Each operation returns whether it succeeded.
\<close>

section \<open>The kernel interface\<close>

datatype hop = Via bytes | OnLink nat

record 'k netlink =
  RouteReplace :: "ipnet \<Rightarrow> bytes \<Rightarrow> 'k \<Rightarrow> bool \<times> 'k"
  RouteAdd :: "ipnet \<Rightarrow> nat \<Rightarrow> 'k \<Rightarrow> bool \<times> 'k"
  RouteDel :: "ipnet \<Rightarrow> 'k \<Rightarrow> bool \<times> 'k"
  RouteList :: "'k \<Rightarrow> (ipnet option \<times> bytes option) list option"
  LinkByName :: "string \<Rightarrow> 'k \<Rightarrow> nat option"
  LinkAdd :: "string \<Rightarrow> 'k \<Rightarrow> bool \<times> 'k"
  LinkDel :: "nat \<Rightarrow> 'k \<Rightarrow> bool \<times> 'k"
  LinkSetUp :: "nat \<Rightarrow> 'k \<Rightarrow> bool \<times> 'k"
  LinkSetMTU :: "nat \<Rightarrow> int \<Rightarrow> 'k \<Rightarrow> bool \<times> 'k"
  AddrAdd :: "nat \<Rightarrow> ipnet \<Rightarrow> 'k \<Rightarrow> bool \<times> 'k"
  ConfigureDevice :: "string \<Rightarrow> wgConfig \<Rightarrow> 'k \<Rightarrow> bool \<times> 'k"

definition wgIface :: string where "wgIface = ''wg-qwdtt''"
definition RawIfaceName :: string where "RawIfaceName = ''raw-qwdtt''"

text \<open>
  The laws, over the routing table \<open>tbl\<close> and the links: a process with CAP_NET_ADMIN replaces, adds and deletes routes;
  a route that is deleted is gone afterwards; deleting a link takes its routes along; addresses and flags only add routes on
  their own link.
\<close>

definition same_links :: "'k netlink \<Rightarrow> 'k \<Rightarrow> 'k \<Rightarrow> bool" where
  "same_links nl k k' \<longleftrightarrow> (\<forall>name. LinkByName nl name k' = LinkByName nl name k)"

definition grows_on :: "'k netlink \<Rightarrow> ('k \<Rightarrow> ipnet \<Rightarrow> hop option) \<Rightarrow> nat \<Rightarrow> 'k \<Rightarrow> 'k \<Rightarrow> bool" where
  "grows_on nl tbl idx k k' \<longleftrightarrow>
     same_links nl k k' \<and> (\<forall>n. tbl k' n = tbl k n \<or> tbl k' n = Some (OnLink idx))"

definition replace_law :: "'k netlink \<Rightarrow> ('k \<Rightarrow> ipnet \<Rightarrow> hop option) \<Rightarrow> bool" where
  "replace_law nl tbl \<longleftrightarrow>
     (\<forall>n g k. same_links nl k (snd (RouteReplace nl n g k)) \<and>
        tbl (snd (RouteReplace nl n g k)) = (if fst (RouteReplace nl n g k) then (tbl k)(n \<mapsto> Via g) else tbl k))"

definition add_law :: "'k netlink \<Rightarrow> ('k \<Rightarrow> ipnet \<Rightarrow> hop option) \<Rightarrow> bool" where
  "add_law nl tbl \<longleftrightarrow>
     (\<forall>n idx k. same_links nl k (snd (RouteAdd nl n idx k)) \<and>
        tbl (snd (RouteAdd nl n idx k)) = (if fst (RouteAdd nl n idx k) then (tbl k)(n \<mapsto> OnLink idx) else tbl k))"

definition del_law :: "'k netlink \<Rightarrow> ('k \<Rightarrow> ipnet \<Rightarrow> hop option) \<Rightarrow> bool" where
  "del_law nl tbl \<longleftrightarrow>
     (\<forall>n k. same_links nl k (snd (RouteDel nl n k)) \<and> tbl (snd (RouteDel nl n k)) = (tbl k)(n := None))"

definition link_add_law :: "'k netlink \<Rightarrow> ('k \<Rightarrow> ipnet \<Rightarrow> hop option) \<Rightarrow> bool" where
  "link_add_law nl tbl \<longleftrightarrow>
     (\<forall>name k. tbl (snd (LinkAdd nl name k)) = tbl k \<and>
        (\<forall>other. other \<noteq> name \<or> \<not> fst (LinkAdd nl name k) \<longrightarrow>
           LinkByName nl other (snd (LinkAdd nl name k)) = LinkByName nl other k))"

definition link_del_law :: "'k netlink \<Rightarrow> ('k \<Rightarrow> ipnet \<Rightarrow> hop option) \<Rightarrow> bool" where
  "link_del_law nl tbl \<longleftrightarrow>
     (\<forall>idx k. tbl (snd (LinkDel nl idx k)) = (\<lambda>n. if tbl k n = Some (OnLink idx) then None else tbl k n) \<and>
        (\<forall>name. LinkByName nl name (snd (LinkDel nl idx k)) = (if LinkByName nl name k = Some idx then None else LinkByName nl name k)))"

definition device_law :: "'k netlink \<Rightarrow> ('k \<Rightarrow> ipnet \<Rightarrow> hop option) \<Rightarrow> bool" where
  "device_law nl tbl \<longleftrightarrow>
     (\<forall>idx k. grows_on nl tbl idx k (snd (LinkSetUp nl idx k))) \<and>
     (\<forall>idx m k. grows_on nl tbl idx k (snd (LinkSetMTU nl idx m k))) \<and>
     (\<forall>idx a k. grows_on nl tbl idx k (snd (AddrAdd nl idx a k))) \<and>
     (\<forall>idx name c k. grows_on nl tbl idx k (snd (ConfigureDevice nl name c k)))"

definition netlink_laws :: "'k netlink \<Rightarrow> ('k \<Rightarrow> ipnet \<Rightarrow> hop option) \<Rightarrow> bool" where
  "netlink_laws nl tbl \<longleftrightarrow>
     replace_law nl tbl \<and> add_law nl tbl \<and> del_law nl tbl \<and> link_add_law nl tbl \<and> link_del_law nl tbl \<and> device_law nl tbl"

section \<open>State of the process\<close>

record splitCacheEntry =
  ceKey :: string
  ceDomains :: "string list"
  ceIPv4s :: "string list"
  ceExpires :: int

record 'k proc =
  kern :: 'k
  routedTurnIPs :: "string list"
  splitRoutes :: "string list"
  memCache :: splitCacheEntry
  fileCache :: "splitCacheEntry option"
  activeWireproxy :: "Router option"

record splitTunnelConfig =
  scMode :: string
  scDomains :: "string list"
  scRawBl :: string
  scRawFile :: string

section \<open>Resolving bypass domains\<close>

text \<open>The resolver and the clock at the time of the call; \<open>sha\<close> is the hexadecimal SHA-256.\<close>

record resolver =
  lookupIP :: "string \<Rightarrow> bytes list option"
  now :: int
  sha :: "string \<Rightarrow> string"
  cacheWritable :: bool

definition splitCacheTTL :: int where "splitCacheTTL = 3600"

definition cacheKey :: "resolver \<Rightarrow> string list \<Rightarrow> string" where
  "cacheKey rs ds = sha rs (Join (sort ds) '','')"

definition loadSplitCache :: "resolver \<Rightarrow> string \<Rightarrow> 'k proc \<Rightarrow> splitCacheEntry option" where
  "loadSplitCache rs key p =
     (case fileCache p of
        None \<Rightarrow> None
      | Some e \<Rightarrow> if ceKey e \<noteq> key \<or> now rs > ceExpires e then None else Some e)"

definition saveSplitCache :: "resolver \<Rightarrow> splitCacheEntry \<Rightarrow> 'k proc \<Rightarrow> 'k proc" where
  "saveSplitCache rs e p = (if cacheWritable rs then p\<lparr>fileCache := Some e\<rparr> else p)"

text \<open>What one entry contributes: an IPv4 literal, a network as written, or the IPv4 addresses of a name.\<close>

definition resolveOne :: "resolver \<Rightarrow> string \<Rightarrow> string list" where
  "resolveOne rs d =
     (case ParseIP d of
        Some ip \<Rightarrow> (case To4 ip of Some ip4 \<Rightarrow> [dotted ip4] | None \<Rightarrow> [])
      | None \<Rightarrow>
          if ParseCIDR d \<noteq> None then [d]
          else case lookupIP rs d of
            None \<Rightarrow> []
          | Some addrs \<Rightarrow> map dotted (List.map_filter To4 addrs))"

definition resolveDomainIPs :: "resolver \<Rightarrow> string list \<Rightarrow> 'k proc \<Rightarrow> string list option \<times> 'k proc" where
  "resolveDomainIPs rs ds p =
     (if ds = [] then (None, p)
      else
        let key = cacheKey rs ds; m = memCache p in
        if ceKey m = key \<and> now rs < ceExpires m \<and> ceIPv4s m \<noteq> [] then (Some (ceIPv4s m), p)
        else case loadSplitCache rs key p of
          Some e \<Rightarrow> (Some (ceIPv4s e), p\<lparr>memCache := e\<rparr>)
        | None \<Rightarrow>
            (let ips = collect_unique (\<lambda>_. True) (concat (map (resolveOne rs) ds)) in
             if ips = [] then (None, p)
             else
               let e = \<lparr>ceKey = key, ceDomains = ds, ceIPv4s = ips, ceExpires = now rs + splitCacheTTL\<rparr>
               in (Some ips, saveSplitCache rs e (p\<lparr>memCache := e\<rparr>))))"

section \<open>Networks of routes\<close>

definition toCIDRRoute :: "string \<Rightarrow> string" where
  "toCIDRRoute ip = (if Contains ip ''/'' then ip else ip @ ''/32'')"

definition cidrNet :: "string \<Rightarrow> ipnet" where
  "cidrNet s =
     (case ParseCIDR s of
        Some (_, n) \<Rightarrow> n
      | None \<Rightarrow> IPNet (case ParseIP s of Some ip \<Rightarrow> ip | None \<Rightarrow> []) (CIDRMask 32 4))"

definition parseIPNet :: "string \<Rightarrow> ipnet option" where
  "parseIPNet s =
     (case ParseCIDR s of
        Some (_, n) \<Rightarrow> Some n
      | None \<Rightarrow>
          (case ParseIP (TrimSpace s) of
             None \<Rightarrow> None
           | Some bare \<Rightarrow> Some (IPNet bare (if To4 bare = None then CIDRMask 128 16 else CIDRMask 32 4))))"

definition parseRouteDst :: "string \<Rightarrow> ipnet option" where
  "parseRouteDst s =
     (case ParseCIDR s of
        Some (_, n) \<Rightarrow> Some n
      | None \<Rightarrow> map_option (\<lambda>ip. IPNet ip (CIDRMask 32 4)) (ParseIP s))"

text \<open>\<open>ClearBypassRoutes\<close> also reports the last error that is not about a missing route; \<open>missing\<close> recognises those.\<close>

fun ClearBypassRoutes :: "'k netlink \<Rightarrow> (ipnet \<Rightarrow> 'k \<Rightarrow> bool) \<Rightarrow> string list \<Rightarrow> bool \<times> 'k \<Rightarrow> bool \<times> 'k" where
  "ClearBypassRoutes nl missing [] (good, k) = (good, k)"
| "ClearBypassRoutes nl missing (c # cs) (good, k) =
     (case parseRouteDst c of
        None \<Rightarrow> ClearBypassRoutes nl missing cs (good, k)
      | Some n \<Rightarrow>
          (case RouteDel nl n k of
             (True, k1) \<Rightarrow> ClearBypassRoutes nl missing cs (good, k1)
           | (False, k1) \<Rightarrow> ClearBypassRoutes nl missing cs (good \<and> missing n k, k1)))"

section \<open>Installing and removing routes\<close>

definition isDefaultRoute :: "ipnet option \<Rightarrow> bool" where
  "isDefaultRoute dst =
     (case dst of
        None \<Rightarrow> True
      | Some (IPNet ip m) \<Rightarrow> ip = [] \<or> (m \<noteq> [] \<and> list_all (\<lambda>b. b = 0) m))"

definition defaultGateway :: "'k netlink \<Rightarrow> 'k \<Rightarrow> bytes option" where
  "defaultGateway nl k =
     (case RouteList nl k of
        None \<Rightarrow> None
      | Some rts \<Rightarrow> (case find (\<lambda>(dst, gw). isDefaultRoute dst \<and> gw \<noteq> None) rts of Some (_, gw) \<Rightarrow> gw | None \<Rightarrow> None))"

text \<open>Routes through the gateway, one by one; those that could be set are returned.\<close>

fun routeAll :: "'k netlink \<Rightarrow> bytes \<Rightarrow> string list \<Rightarrow> 'k \<Rightarrow> string list \<times> 'k" where
  "routeAll nl gw [] k = ([], k)"
| "routeAll nl gw (c # cs) k =
     (case RouteReplace nl (cidrNet c) gw k of
        (b, k1) \<Rightarrow> (case routeAll nl gw cs k1 of (rs, k2) \<Rightarrow> ((if b then c # rs else rs), k2)))"

definition applyTurnIPsBypass :: "'k netlink \<Rightarrow> string list \<Rightarrow> bytes \<Rightarrow> 'k proc \<Rightarrow> 'k proc" where
  "applyTurnIPsBypass nl turnIPs gw p =
     (case routeAll nl gw (map toCIDRRoute (filter (\<lambda>ip. ip \<noteq> []) turnIPs)) (kern p) of
        (routed, k) \<Rightarrow> p\<lparr>kern := k, routedTurnIPs := routed\<rparr>)"

definition addKernelBypassRoutes :: "'k netlink \<Rightarrow> resolver \<Rightarrow> string list \<Rightarrow> 'k proc \<Rightarrow> string list \<times> 'k proc" where
  "addKernelBypassRoutes nl rs ds p =
     (if ds = [] then ([], p)
      else case resolveDomainIPs rs ds p of
        (None, p1) \<Rightarrow> ([], p1)
      | (Some ips, p1) \<Rightarrow>
          if ips = [] then ([], p1)
          else case defaultGateway nl (kern p1) of
            None \<Rightarrow> ([], p1)
          | Some gw \<Rightarrow>
              (case routeAll nl gw (map toCIDRRoute ips) (kern p1) of
                 (routes, k) \<Rightarrow> (routes, p1\<lparr>kern := k, splitRoutes := splitRoutes p1 @ routes\<rparr>)))"

fun delAll :: "'k netlink \<Rightarrow> ipnet list \<Rightarrow> 'k \<Rightarrow> 'k" where
  "delAll nl [] k = k"
| "delAll nl (n # ns) k = delAll nl ns (snd (RouteDel nl n k))"

definition clearSplitRoutes :: "'k netlink \<Rightarrow> 'k proc \<Rightarrow> 'k proc" where
  "clearSplitRoutes nl p = p\<lparr>kern := delAll nl (map cidrNet (splitRoutes p)) (kern p), splitRoutes := []\<rparr>"

definition halfNets :: "ipnet list" where
  "halfNets = map cidrNet [''0.0.0.0/1'', ''128.0.0.0/1'']"

definition teardownTunnelRoutes :: "'k netlink \<Rightarrow> 'k proc \<Rightarrow> 'k proc" where
  "teardownTunnelRoutes nl p =
     (let p1 = clearSplitRoutes nl p;
          k2 = delAll nl (map (\<lambda>ip. cidrNet (toCIDRRoute ip)) (routedTurnIPs p1)) (kern p1)
      in p1\<lparr>kern := delAll nl halfNets k2, routedTurnIPs := []\<rparr>)"

definition teardownWG :: "'k netlink \<Rightarrow> 'k proc \<Rightarrow> bool \<times> 'k proc" where
  "teardownWG nl p =
     (let p1 = teardownTunnelRoutes nl p in
      case LinkByName nl wgIface (kern p1) of
        None \<Rightarrow> (True, p1)
      | Some idx \<Rightarrow> (case LinkDel nl idx (kern p1) of (b, k) \<Rightarrow> (b, p1\<lparr>kern := k\<rparr>)))"

section \<open>The WireGuard interface\<close>

datatype apply_error =
    ConfigInvalid wg_error | NoAddress | RemoveExisting | CreateFailed | LookupFailed | ConfigureFailed | UpFailed
  | BadAddress string | AssignFailed string

fun assignAddrs :: "'k netlink \<Rightarrow> nat \<Rightarrow> string list \<Rightarrow> 'k \<Rightarrow> apply_error option \<times> 'k" where
  "assignAddrs nl idx [] k = (None, k)"
| "assignAddrs nl idx (a0 # addrs) k =
     (let a = TrimSpace a0 in
      if a = [] then assignAddrs nl idx addrs k
      else case parseIPNet a of
        None \<Rightarrow> (Some (BadAddress a), k)
      | Some n \<Rightarrow>
          (case AddrAdd nl idx n k of
             (False, k1) \<Rightarrow> (Some (AssignFailed a), k1)
           | (True, k1) \<Rightarrow> assignAddrs nl idx addrs k1))"

definition failWG :: "'k netlink \<Rightarrow> apply_error \<Rightarrow> 'k proc \<Rightarrow> apply_error option \<times> 'k proc" where
  "failWG nl e p = (Some e, snd (teardownWG nl p))"

text \<open>The part after the link exists.\<close>

definition setupLink :: "'k netlink \<Rightarrow> resolver \<Rightarrow> wgConfig \<Rightarrow> nat \<Rightarrow> string list \<Rightarrow> string list \<Rightarrow> 'k proc
    \<Rightarrow> apply_error option \<times> 'k proc" where
  "setupLink nl rs wg idx turnIPs ds p =
     (case ConfigureDevice nl wgIface wg (kern p) of
        (False, k) \<Rightarrow> failWG nl ConfigureFailed (p\<lparr>kern := k\<rparr>)
      | (True, k) \<Rightarrow>
          (case LinkSetUp nl idx k of
             (False, k) \<Rightarrow> failWG nl UpFailed (p\<lparr>kern := k\<rparr>)
           | (True, k) \<Rightarrow>
               (case assignAddrs nl idx (SplitByte CHR '','' (wgAddr wg)) k of
                  (Some e, k) \<Rightarrow> failWG nl e (p\<lparr>kern := k\<rparr>)
                | (None, k) \<Rightarrow>
                    (let k1 = (if wgMtu wg = [] then k
                               else case Atoi (wgMtu wg) of None \<Rightarrow> k | Some m \<Rightarrow> snd (LinkSetMTU nl idx m k));
                         p1 = p\<lparr>kern := k1\<rparr>;
                         p2 = (case defaultGateway nl k1 of
                                 None \<Rightarrow> p1
                               | Some gw \<Rightarrow> snd (addKernelBypassRoutes nl rs ds (applyTurnIPsBypass nl turnIPs gw p1)))
                     in (None, p2\<lparr>kern := fold (\<lambda>n k. snd (RouteAdd nl n idx k)) halfNets (kern p2)\<rparr>)))))"

definition blacklisted :: "splitTunnelConfig option \<Rightarrow> string list" where
  "blacklisted sc = (case sc of Some c \<Rightarrow> if scMode c = ''blacklist'' then scDomains c else [] | None \<Rightarrow> [])"

definition applyWGConfig :: "'k netlink \<Rightarrow> wgParsers \<Rightarrow> resolver \<Rightarrow> string \<Rightarrow> string list \<Rightarrow> splitTunnelConfig option \<Rightarrow> 'k proc
    \<Rightarrow> apply_error option \<times> 'k proc" where
  "applyWGConfig nl ps rs config turnIPs sc p =
     (case parseWGConfig ps config of
        Inl e \<Rightarrow> (Some (ConfigInvalid e), p)
      | Inr wg \<Rightarrow>
          if wgAddr wg = [] then (Some NoAddress, p)
          else
            let (removed, p1) = (if LinkByName nl wgIface (kern p) \<noteq> None then teardownWG nl p else (True, p)) in
            if \<not> removed then (Some RemoveExisting, p1)
            else case LinkAdd nl wgIface (kern p1) of
              (False, k) \<Rightarrow> (Some CreateFailed, p1\<lparr>kern := k\<rparr>)
            | (True, k) \<Rightarrow>
                (case LinkByName nl wgIface k of
                   None \<Rightarrow> failWG nl LookupFailed (p1\<lparr>kern := k\<rparr>)
                 | Some idx \<Rightarrow> setupLink nl rs wg idx turnIPs (blacklisted sc) (p1\<lparr>kern := k\<rparr>)))"

section \<open>Reloading\<close>

datatype reload_result =
    ReloadErr string
  | ReloadExit string
  | ReloadOk string "string list" "string list"

definition kernelTunnelActive :: "'k netlink \<Rightarrow> 'k \<Rightarrow> bool" where
  "kernelTunnelActive nl k \<longleftrightarrow> LinkByName nl wgIface k \<noteq> None \<or> LinkByName nl RawIfaceName k \<noteq> None"

text \<open>The result names the profile whose state file is written, its domains and routes.\<close>

definition reloadSplitRoutes :: "'k netlink \<Rightarrow> resolver \<Rightarrow> bl_env \<Rightarrow> files \<Rightarrow> string \<Rightarrow> string \<Rightarrow> string \<Rightarrow> string \<Rightarrow> string \<Rightarrow> 'k proc
    \<Rightarrow> reload_result \<times> 'k proc" where
  "reloadSplitRoutes nl rs env fs current mode blRaw daemonProfile newFile p =
     (let profile = (if daemonProfile = ''autoswitch'' then current else daemonProfile) in
      if daemonProfile = ''autoswitch'' \<and> current = [] then (ReloadErr ''no profile'', p)
      else case splitDomains blRaw of
        Inl d \<Rightarrow> (ReloadExit d, p)
      | Inr ds0 \<Rightarrow>
          (case (if newFile = [] then Inr [] else loadBypassRoutesFile env fs newFile) of
             Inl _ \<Rightarrow> (ReloadErr ''bl-file'', p)
           | Inr fileDomains \<Rightarrow>
               (let ds = dedupKeepOrder (ds0 @ fileDomains) in
                if mode = ''socks'' then
                  (case activeWireproxy p of
                     None \<Rightarrow> (ReloadErr ''no runner'', p)
                   | Some r \<Rightarrow>
                       (let (ips, p1) = resolveDomainIPs rs ds p;
                            p2 = p1\<lparr>activeWireproxy := Some (Update (ToLower env) ds (case ips of Some xs \<Rightarrow> xs | None \<Rightarrow> []) r)\<rparr>
                        in if kernelTunnelActive nl (kern p2)
                           then (case addKernelBypassRoutes nl rs ds (clearSplitRoutes nl p2) of
                                   (routes, p3) \<Rightarrow> (ReloadOk profile ds routes, p3))
                           else (ReloadOk profile ds [], p2)))
                else if mode = ''tun'' \<or> mode = ''raw'' then
                  (case addKernelBypassRoutes nl rs ds (clearSplitRoutes nl p) of
                     (routes, p1) \<Rightarrow> (ReloadOk profile ds routes, p1))
                else (ReloadErr mode, p))))"

section \<open>What other processes publish\<close>

text \<open>
  The running SOCKS daemons in the order in which their answers arrive; \<open>None\<close> is a socket that could not be asked.
\<close>

record details =
  dProfile :: string
  dMode :: string
  dSocket :: string
  dReply :: "string option"

definition isUnderRuntimeDir :: "string \<Rightarrow> string \<Rightarrow> bool" where
  "isUnderRuntimeDir runtimeDir path =
     (if runtimeDir = [] then False
      else let rd = TrimSuffix runtimeDir ''/'' in path = rd \<or> HasPrefix path (rd @ ''/''))"

definition fetchActiveSocksBypassDomains :: "string \<Rightarrow> string \<Rightarrow> details list \<Rightarrow> string list" where
  "fetchActiveSocksBypassDomains runtimeDir ownProfile ds =
     concat (map (\<lambda>d.
       if dMode d \<noteq> ''socks'' \<or> dProfile d = ownProfile \<or> \<not> isUnderRuntimeDir runtimeDir (dSocket d) then []
       else case map_option querySocksBypass (dReply d) of Some (Inr xs) \<Rightarrow> xs | _ \<Rightarrow> []) ds)"

section \<open>Nothing is left behind\<close>

text \<open>
  A route is tracked if it was there at the beginning, if its destination is in one of the lists that the teardown works through,
  or if it goes with the WireGuard link.
\<close>

definition ownNets :: "'k proc \<Rightarrow> ipnet set" where
  "ownNets p = cidrNet ` set (splitRoutes p) \<union> (\<lambda>ip. cidrNet (toCIDRRoute ip)) ` set (routedTurnIPs p) \<union> set halfNets"

definition onTunnel :: "'k netlink \<Rightarrow> hop \<Rightarrow> 'k \<Rightarrow> bool" where
  "onTunnel nl h k \<longleftrightarrow> (\<exists>idx. h = OnLink idx \<and> LinkByName nl wgIface k = Some idx)"

definition trackedOf :: "'k netlink \<Rightarrow> ('k \<Rightarrow> ipnet \<Rightarrow> hop option) \<Rightarrow> 'k \<Rightarrow> ipnet set \<Rightarrow> 'k \<Rightarrow> bool" where
  "trackedOf nl tbl k0 own k \<longleftrightarrow>
     (\<forall>n h. tbl k n = Some h \<longrightarrow> tbl k0 n = Some h \<or> n \<in> own \<or> onTunnel nl h k)"

abbreviation tracked :: "'k netlink \<Rightarrow> ('k \<Rightarrow> ipnet \<Rightarrow> hop option) \<Rightarrow> 'k \<Rightarrow> 'k proc \<Rightarrow> bool" where
  "tracked nl tbl k0 p \<equiv> trackedOf nl tbl k0 (ownNets p) (kern p)"

lemma law_parts:
  assumes "netlink_laws nl tbl"
  shows "replace_law nl tbl" "add_law nl tbl" "del_law nl tbl" "link_add_law nl tbl" "link_del_law nl tbl" "device_law nl tbl"
  using assms unfolding netlink_laws_def by blast+

lemma RouteReplace_law:
  assumes "netlink_laws nl tbl"
  shows "tbl (snd (RouteReplace nl n g k)) = (if fst (RouteReplace nl n g k) then (tbl k)(n \<mapsto> Via g) else tbl k)"
    and "same_links nl k (snd (RouteReplace nl n g k))"
  using law_parts(1) [OF assms, unfolded replace_law_def, rule_format, of k n g] by (rule conjunct2, blast)

lemma RouteAdd_law:
  assumes "netlink_laws nl tbl"
  shows "tbl (snd (RouteAdd nl n idx k)) = (if fst (RouteAdd nl n idx k) then (tbl k)(n \<mapsto> OnLink idx) else tbl k)"
    and "same_links nl k (snd (RouteAdd nl n idx k))"
  using law_parts(2) [OF assms, unfolded add_law_def, rule_format, of k n idx] by (rule conjunct2, blast)

lemma RouteDel_law:
  assumes "netlink_laws nl tbl"
  shows "tbl (snd (RouteDel nl n k)) = (tbl k)(n := None)" and "same_links nl k (snd (RouteDel nl n k))"
  using law_parts(3) [OF assms, unfolded del_law_def, rule_format, of k n] by (rule conjunct2, blast)

lemma Link_laws:
  assumes "netlink_laws nl tbl"
  shows "tbl (snd (LinkAdd nl name k)) = tbl k"
    and "other \<noteq> name \<or> \<not> fst (LinkAdd nl name k) \<Longrightarrow> LinkByName nl other (snd (LinkAdd nl name k)) = LinkByName nl other k"
    and "tbl (snd (LinkDel nl idx k)) n = (if tbl k n = Some (OnLink idx) then None else tbl k n)"
    and "LinkByName nl name (snd (LinkDel nl idx k)) = (if LinkByName nl name k = Some idx then None else LinkByName nl name k)"
  using law_parts(4,5) [OF assms] unfolding link_add_law_def link_del_law_def by presburger+

lemma grow_laws:
  assumes "netlink_laws nl tbl"
  shows "grows_on nl tbl idx k (snd (LinkSetUp nl idx k))" "grows_on nl tbl idx k (snd (LinkSetMTU nl idx m k))"
    "grows_on nl tbl idx k (snd (AddrAdd nl idx a k))" "grows_on nl tbl idx k (snd (ConfigureDevice nl name c k))"
  using law_parts(6) [OF assms] unfolding device_law_def by blast+

lemma same_links_refl: "same_links nl k k"
  by (simp add: same_links_def)

lemma same_links_trans: "same_links nl a b \<Longrightarrow> same_links nl b c \<Longrightarrow> same_links nl a c"
  by (simp add: same_links_def)

lemma onTunnel_same: "same_links nl k k' \<Longrightarrow> onTunnel nl h k' = onTunnel nl h k"
  by (simp add: same_links_def onTunnel_def)

lemma grows_refl: "grows_on nl tbl idx k k"
  by (simp add: grows_on_def same_links_def)

lemma grows_trans: "grows_on nl tbl idx a b \<Longrightarrow> grows_on nl tbl idx b c \<Longrightarrow> grows_on nl tbl idx a c"
  unfolding grows_on_def using same_links_trans by metis

lemma trackedOf_grow:
  assumes "trackedOf nl tbl k0 own k" "grows_on nl tbl idx k k'" "LinkByName nl wgIface k = Some idx"
  shows "trackedOf nl tbl k0 own k' \<and> LinkByName nl wgIface k' = Some idx"
proof -
  have links: "same_links nl k k'" using assms(2) by (simp add: grows_on_def)
  have "tbl k0 n = Some h \<or> n \<in> own \<or> onTunnel nl h k'" if "tbl k' n = Some h" for n h
  proof (cases "tbl k' n = tbl k n")
    case True
    then have "tbl k n = Some h" using that by simp
    then show ?thesis using assms(1) onTunnel_same [OF links] by (auto simp: trackedOf_def)
  next
    case False
    then have "tbl k' n = Some (OnLink idx)" using assms(2) unfolding grows_on_def by metis
    then have "h = OnLink idx" using that by simp
    then show ?thesis using assms(3) links by (simp add: onTunnel_def same_links_def)
  qed
  then show ?thesis using assms(3) links by (simp add: trackedOf_def same_links_def)
qed

lemma trackedOf_mono: "trackedOf nl tbl k0 own k \<Longrightarrow> own \<subseteq> own' \<Longrightarrow> trackedOf nl tbl k0 own' k"
  by (auto simp: trackedOf_def)

lemma trackedOf_step:
  assumes "trackedOf nl tbl k0 own k" "same_links nl k k'" "own \<union> S \<subseteq> own'"
    and "\<And>n h. tbl k' n = Some h \<Longrightarrow> tbl k n = Some h \<or> n \<in> S"
  shows "trackedOf nl tbl k0 own' k'"
  unfolding trackedOf_def
proof (intro allI impI)
  fix n h assume "tbl k' n = Some h"
  from assms(4) [OF this] show "tbl k0 n = Some h \<or> n \<in> own' \<or> onTunnel nl h k'"
    using assms(1,3) onTunnel_same [OF assms(2), of h] unfolding trackedOf_def by auto
qed

lemma delAll_law:
  assumes "netlink_laws nl tbl"
  shows "tbl (delAll nl ns k) n = (if n \<in> set ns then None else tbl k n) \<and> same_links nl k (delAll nl ns k)"
proof (induction ns arbitrary: k)
  case (Cons m ns)
  then show ?case
    using same_links_trans [OF RouteDel_law(2) [OF assms]] by (auto simp: RouteDel_law(1) [OF assms])
qed (simp add: same_links_refl)

lemma routeAll_law:
  assumes "netlink_laws nl tbl" "routeAll nl gw cs k = (rs, k')"
  shows "(\<forall>n h. tbl k' n = Some h \<longrightarrow> tbl k n = Some h \<or> n \<in> cidrNet ` set rs) \<and> same_links nl k k' \<and> set rs \<subseteq> set cs"
  using assms(2)
proof (induction cs arbitrary: k rs k')
  case (Cons c cs)
  obtain b k1 where one: "RouteReplace nl (cidrNet c) gw k = (b, k1)" by fastforce
  obtain rs1 where rest: "routeAll nl gw cs k1 = (rs1, k')" "rs = (if b then c # rs1 else rs1)"
    using Cons.prems one by (auto split: prod.splits)
  have one_law: "tbl k1 = (if b then (tbl k)(cidrNet c \<mapsto> Via gw) else tbl k)" "same_links nl k k1"
    using RouteReplace_law [OF assms(1), where n = "cidrNet c" and g = gw and k = k] one by simp_all
  then show ?case using Cons.IH [OF rest(1)] rest(2) same_links_trans by (auto split: if_splits)
qed (simp add: same_links_refl)

lemma toCIDRRoute_idem: "toCIDRRoute (toCIDRRoute x) = toCIDRRoute x"
  by (simp add: toCIDRRoute_def Contains_byte_iff)

lemma tracked_clear:
  assumes "netlink_laws nl tbl" "tracked nl tbl k0 p"
  shows "tracked nl tbl k0 (clearSplitRoutes nl p) \<and> same_links nl (kern p) (kern (clearSplitRoutes nl p))"
proof -
  let ?k = "delAll nl (map cidrNet (splitRoutes p)) (kern p)"
  have "tbl ?k n = (if n \<in> cidrNet ` set (splitRoutes p) then None else tbl (kern p) n)" for n
    using delAll_law [OF assms(1)] by simp
  moreover have links: "same_links nl (kern p) ?k" using delAll_law [OF assms(1)] by blast
  ultimately show ?thesis
    using assms(2) onTunnel_same [OF links] by (auto simp: trackedOf_def clearSplitRoutes_def ownNets_def split: if_splits)
qed

lemma teardown_clean:
  assumes "netlink_laws nl tbl" "tracked nl tbl k0 p"
  shows "let q = teardownTunnelRoutes nl p in
     trackedOf nl tbl k0 {} (kern q) \<and> splitRoutes q = [] \<and> routedTurnIPs q = [] \<and> same_links nl (kern p) (kern q)"
proof -
  let ?q = "teardownTunnelRoutes nl p" let ?k1 = "delAll nl (map cidrNet (splitRoutes p)) (kern p)"
  let ?k2 = "delAll nl (map (\<lambda>ip. cidrNet (toCIDRRoute ip)) (routedTurnIPs p)) ?k1"
  note del = delAll_law [OF assms(1)]
  have q: "kern ?q = delAll nl halfNets ?k2" "splitRoutes ?q = []" "routedTurnIPs ?q = []"
    by (simp_all add: teardownTunnelRoutes_def clearSplitRoutes_def Let_def)
  have links: "same_links nl (kern p) (kern ?q)"
    unfolding q using del same_links_trans by metis
  have "tbl (kern ?q) n = (if n \<in> ownNets p then None else tbl (kern p) n)" for n
    using del by (auto simp: q ownNets_def)
  then have "trackedOf nl tbl k0 {} (kern ?q)"
    using assms(2) onTunnel_same [OF links] by (auto simp: trackedOf_def split: if_splits)
  then show ?thesis using q links by (simp add: Let_def)
qed

lemma teardown_WG:
  assumes "netlink_laws nl tbl" "tracked nl tbl k0 p"
  shows "let q = snd (teardownWG nl p) in
     (\<forall>n h. tbl (kern q) n = Some h \<longrightarrow> tbl k0 n = Some h) \<and> LinkByName nl wgIface (kern q) = None
     \<and> splitRoutes q = [] \<and> routedTurnIPs q = []"
proof -
  let ?p1 = "teardownTunnelRoutes nl p"
  have p1: "trackedOf nl tbl k0 {} (kern ?p1)" "splitRoutes ?p1 = []" "routedTurnIPs ?p1 = []"
    using teardown_clean [OF assms] by (simp_all add: Let_def)
  show ?thesis
  proof (cases "LinkByName nl wgIface (kern ?p1)")
    case None
    then show ?thesis using p1 by (simp add: teardownWG_def Let_def trackedOf_def onTunnel_def)
  next
    case (Some idx)
    obtain b k where d: "LinkDel nl idx (kern ?p1) = (b, k)" by fastforce
    then have "tbl k n = (if tbl (kern ?p1) n = Some (OnLink idx) then None else tbl (kern ?p1) n)"
      "LinkByName nl wgIface k = None" for n
      using Link_laws(3) [OF assms(1), where idx = idx and k = "kern ?p1" and n = n]
        Link_laws(4) [OF assms(1), where idx = idx and k = "kern ?p1" and name = wgIface] Some by simp_all
    then show ?thesis using p1 Some d by (auto simp: teardownWG_def Let_def trackedOf_def onTunnel_def split: if_splits)
  qed
qed

lemma resolve_kern: "resolveDomainIPs rs ds p = (r, q) \<Longrightarrow>
    kern q = kern p \<and> splitRoutes q = splitRoutes p \<and> routedTurnIPs q = routedTurnIPs p \<and> activeWireproxy q = activeWireproxy p"
  by (auto simp: resolveDomainIPs_def Let_def saveSplitCache_def split: if_splits option.splits)

lemma tracked_bypass:
  assumes "netlink_laws nl tbl" "tracked nl tbl k0 p"
  shows "tracked nl tbl k0 (snd (addKernelBypassRoutes nl rs ds p))
       \<and> same_links nl (kern p) (kern (snd (addKernelBypassRoutes nl rs ds p)))
       \<and> routedTurnIPs (snd (addKernelBypassRoutes nl rs ds p)) = routedTurnIPs p"
proof -
  obtain r p1 where res: "resolveDomainIPs rs ds p = (r, p1)" by fastforce
  note same = resolve_kern [OF res]
  then have t1: "tracked nl tbl k0 p1" using assms(2) by (simp add: ownNets_def)
  show ?thesis
  proof (cases "ds = [] \<or> r = None \<or> r = Some [] \<or> defaultGateway nl (kern p1) = None")
    case True
    then have "snd (addKernelBypassRoutes nl rs ds p) \<in> {p, p1}"
      using res by (auto simp: addKernelBypassRoutes_def split: option.splits)
    then show ?thesis using t1 assms(2) same same_links_refl by auto
  next
    case False
    then obtain ips gw where some: "r = Some ips" "ips \<noteq> []" "defaultGateway nl (kern p1) = Some gw" "ds \<noteq> []" by auto
    obtain routes k where ra: "routeAll nl gw (map toCIDRRoute ips) (kern p1) = (routes, k)" by fastforce
    note law = routeAll_law [OF assms(1) ra]
    have "trackedOf nl tbl k0 (ownNets p1 \<union> cidrNet ` set routes) k"
      using law by (intro trackedOf_step [OF t1, where S = "cidrNet ` set routes"]) auto
    then have "tracked nl tbl k0 (p1\<lparr>kern := k, splitRoutes := splitRoutes p1 @ routes\<rparr>)"
      by (auto simp: ownNets_def image_Un elim!: trackedOf_mono)
    then show ?thesis using some ra law same res by (simp add: addKernelBypassRoutes_def)
  qed
qed

lemma tracked_turn:
  assumes "netlink_laws nl tbl" "tracked nl tbl k0 p" "routedTurnIPs p = []"
  shows "tracked nl tbl k0 (applyTurnIPsBypass nl ips gw p) \<and> same_links nl (kern p) (kern (applyTurnIPsBypass nl ips gw p))"
proof -
  obtain routes k where ra: "routeAll nl gw (map toCIDRRoute (filter (\<lambda>ip. ip \<noteq> []) ips)) (kern p) = (routes, k)" by fastforce
  note law = routeAll_law [OF assms(1) ra]
  then have "toCIDRRoute c = c" if "c \<in> set routes" for c using that toCIDRRoute_idem by auto
  then have "cidrNet ` set routes = (\<lambda>ip. cidrNet (toCIDRRoute ip)) ` set routes" by simp
  moreover have "trackedOf nl tbl k0 (ownNets p \<union> cidrNet ` set routes) k"
    using law by (intro trackedOf_step [OF assms(2), where S = "cidrNet ` set routes"]) auto
  then have "trackedOf nl tbl k0 (cidrNet ` set (splitRoutes p) \<union> set halfNets \<union> cidrNet ` set routes) k"
    by (rule trackedOf_mono) (auto simp: ownNets_def assms(3))
  ultimately have "tracked nl tbl k0 (p\<lparr>kern := k, routedTurnIPs := routes\<rparr>)"
    by (auto simp: ownNets_def elim!: trackedOf_mono)
  then show ?thesis using law ra by (simp add: applyTurnIPsBypass_def)
qed

lemma assignAddrs_grows:
  assumes "netlink_laws nl tbl"
  shows "grows_on nl tbl idx k (snd (assignAddrs nl idx addrs k))"
proof (induction addrs arbitrary: k)
  case (Cons a0 addrs)
  show ?case
  proof (cases "TrimSpace a0 = []")
    case True
    then show ?thesis using Cons by (simp add: Let_def)
  next
    case False
    show ?thesis
    proof (cases "parseIPNet (TrimSpace a0)")
      case (Some n)
      obtain b k1 where add: "AddrAdd nl idx n k = (b, k1)" by fastforce
      have "grows_on nl tbl idx k k1" using grow_laws(3) [OF assms, where idx = idx and k = k and a = n] add by simp
      then show ?thesis using Cons [of k1] False Some add grows_trans by (cases b) (auto simp: Let_def)
    qed (simp add: False Let_def grows_refl)
  qed
qed (simp add: grows_refl)

lemma tracked_kern: "ownNets (p\<lparr>kern := k\<rparr>) = ownNets p" "routedTurnIPs (p\<lparr>kern := k\<rparr>) = routedTurnIPs p"
  by (simp_all add: ownNets_def)

lemma addHalves:
  assumes "netlink_laws nl tbl"
  shows "set ns \<subseteq> own \<Longrightarrow> trackedOf nl tbl k0 own k \<Longrightarrow> trackedOf nl tbl k0 own (fold (\<lambda>n k. snd (RouteAdd nl n idx k)) ns k)"
proof (induction ns arbitrary: k)
  case (Cons n ns)
  let ?k1 = "snd (RouteAdd nl n idx k)"
  have links: "same_links nl k ?k1" by (rule RouteAdd_law(2) [OF assms])
  have "trackedOf nl tbl k0 own ?k1"
    using Cons.prems onTunnel_same [OF links] RouteAdd_law(1) [OF assms, where n = n and idx = idx and k = k]
    by (auto simp: trackedOf_def split: if_splits)
  then show ?case using Cons by simp
qed simp

lemma failWG_kern: "snd (failWG nl e p) = snd (teardownWG nl p)"
  by (simp add: failWG_def)

lemma tracked_teardownWG: "netlink_laws nl tbl \<Longrightarrow> tracked nl tbl k0 p \<Longrightarrow> tracked nl tbl k0 (snd (teardownWG nl p))"
  using teardown_WG [of nl tbl k0 p] by (auto simp: Let_def trackedOf_def)

lemma tracked_failWG: "netlink_laws nl tbl \<Longrightarrow> tracked nl tbl k0 p \<Longrightarrow> tracked nl tbl k0 (snd (failWG nl e p))"
  by (simp add: failWG_kern tracked_teardownWG)

lemma tracked_setupLink:
  assumes laws: "netlink_laws nl tbl" and t: "tracked nl tbl k0 p" and idx: "LinkByName nl wgIface (kern p) = Some idx"
    and r: "routedTurnIPs p = []"
  shows "tracked nl tbl k0 (snd (setupLink nl rs wg idx turnIPs ds p))"
proof -
  let ?own = "ownNets p"
  have fail: "tracked nl tbl k0 (snd (failWG nl e (p\<lparr>kern := k\<rparr>)))" if "trackedOf nl tbl k0 ?own k" for e k
    using tracked_failWG [OF laws, of k0 "p\<lparr>kern := k\<rparr>" e] that by (simp add: tracked_kern)
  have grow: "trackedOf nl tbl k0 ?own k' \<and> LinkByName nl wgIface k' = Some idx"
    if "trackedOf nl tbl k0 ?own k \<and> LinkByName nl wgIface k = Some idx" "grows_on nl tbl idx k k'" for k k'
    using that by (elim conjE) (rule trackedOf_grow)
  obtain b1 k1 where s1: "ConfigureDevice nl wgIface wg (kern p) = (b1, k1)" by fastforce
  have g1: "trackedOf nl tbl k0 ?own k1 \<and> LinkByName nl wgIface k1 = Some idx"
    using grow [of "kern p" k1] t idx grow_laws(4) [OF laws, where name = wgIface and c = wg and k = "kern p" and idx = idx] s1 by simp
  obtain b2 k2 where s2: "LinkSetUp nl idx k1 = (b2, k2)" by fastforce
  have g2: "trackedOf nl tbl k0 ?own k2 \<and> LinkByName nl wgIface k2 = Some idx"
    using grow [OF g1, of k2] grow_laws(1) [OF laws, where idx = idx and k = k1] s2 by simp
  obtain e k3 where s3: "assignAddrs nl idx (SplitByte CHR '','' (wgAddr wg)) k2 = (e, k3)" by fastforce
  have g3: "trackedOf nl tbl k0 ?own k3 \<and> LinkByName nl wgIface k3 = Some idx"
    using grow [OF g2, of k3] assignAddrs_grows [OF laws, of idx k2 "SplitByte CHR '','' (wgAddr wg)"] s3 by simp
  define k4 where "k4 = (if wgMtu wg = [] then k3 else case Atoi (wgMtu wg) of None \<Rightarrow> k3 | Some m \<Rightarrow> snd (LinkSetMTU nl idx m k3))"
  have g4: "trackedOf nl tbl k0 ?own k4 \<and> LinkByName nl wgIface k4 = Some idx"
    using grow [OF g3, of k4] g3 grow_laws(2) [OF laws, where idx = idx and k = k3] by (auto simp: k4_def split: option.splits)
  define p1 where "p1 = p\<lparr>kern := k4\<rparr>"
  define p2 where "p2 = (case defaultGateway nl k4 of None \<Rightarrow> p1
      | Some gw \<Rightarrow> snd (addKernelBypassRoutes nl rs ds (applyTurnIPsBypass nl turnIPs gw p1)))"
  have t1: "tracked nl tbl k0 p1" "routedTurnIPs p1 = []" using g4 r by (simp_all add: p1_def tracked_kern)
  have t2: "tracked nl tbl k0 p2"
    using t1 tracked_bypass [OF laws] tracked_turn [OF laws t1] by (auto simp: p2_def split: option.splits)
  have "set halfNets \<subseteq> ownNets p2" by (simp add: ownNets_def)
  from addHalves [OF laws this t2, of idx]
  have "tracked nl tbl k0 (p2\<lparr>kern := fold (\<lambda>n k. snd (RouteAdd nl n idx k)) halfNets (kern p2)\<rparr>)"
    by (simp add: tracked_kern)
  moreover have "snd (setupLink nl rs wg idx turnIPs ds p) =
      (if \<not> b1 then snd (failWG nl ConfigureFailed (p\<lparr>kern := k1\<rparr>))
       else if \<not> b2 then snd (failWG nl UpFailed (p\<lparr>kern := k2\<rparr>))
       else case e of Some x \<Rightarrow> snd (failWG nl x (p\<lparr>kern := k3\<rparr>))
       | None \<Rightarrow> p2\<lparr>kern := fold (\<lambda>n k. snd (RouteAdd nl n idx k)) halfNets (kern p2)\<rparr>)"
    unfolding setupLink_def p2_def p1_def k4_def by (cases b1; cases b2; cases e) (simp_all add: s1 s2 s3 Let_def)
  ultimately show ?thesis using fail g1 g2 g3 by (simp split: option.split)
qed

lemma tracked_apply:
  assumes laws: "netlink_laws nl tbl" and t: "tracked nl tbl k0 p" and r: "routedTurnIPs p = []"
  shows "tracked nl tbl k0 (snd (applyWGConfig nl ps rs config turnIPs sc p))"
proof (cases "parseWGConfig ps config")
  case (Inr wg)
  obtain removed p1 where rem: "(if LinkByName nl wgIface (kern p) \<noteq> None then teardownWG nl p else (True, p)) = (removed, p1)" by fastforce
  have p1: "tracked nl tbl k0 p1" "routedTurnIPs p1 = []" "LinkByName nl wgIface (kern p1) = None"
    using rem t r tracked_teardownWG [OF laws t] teardown_WG [OF laws t] by (auto simp: Let_def split: if_splits)
  obtain b k where add: "LinkAdd nl wgIface (kern p1) = (b, k)" by fastforce
  have "tbl k = tbl (kern p1)" using Link_laws(1) [OF laws, where name = wgIface and k = "kern p1"] add by simp
  then have k: "tracked nl tbl k0 (p1\<lparr>kern := k\<rparr>)" using p1(1,3) by (auto simp: trackedOf_def tracked_kern onTunnel_def)
  have "tracked nl tbl k0 (snd (setupLink nl rs wg idx turnIPs ds (p1\<lparr>kern := k\<rparr>)))" if "LinkByName nl wgIface k = Some idx" for idx ds
    using tracked_setupLink [OF laws k] that p1(2) by simp
  then show ?thesis
    using Inr rem p1(1) add k t tracked_failWG [OF laws k]
    by (cases b; cases removed; cases "LinkByName nl wgIface k") (simp_all add: applyWGConfig_def Let_def)
qed (simp add: applyWGConfig_def t)

lemma tracked_clear_bypass:
  assumes "netlink_laws nl tbl" "tracked nl tbl k0 p"
  shows "tracked nl tbl k0 (snd (addKernelBypassRoutes nl rs ds (clearSplitRoutes nl p)))"
  using tracked_bypass [OF assms(1)] tracked_clear [OF assms] by blast

text \<open>What a reload does to the process: nothing, new kernel routes, or a new list for the runner and perhaps new routes.\<close>

lemma reload_cases:
  fixes nl :: "'k netlink" and p :: "'k proc" and rs env fs current mode blRaw daemonProfile newFile
  defines "R \<equiv> snd (reloadSplitRoutes nl rs env fs current mode blRaw daemonProfile newFile p)"
  obtains "R = p"
  | ds where "R = snd (addKernelBypassRoutes nl rs ds (clearSplitRoutes nl p))"
  | ds ips q r r' q1 where "activeWireproxy p = Some r" "resolveDomainIPs rs ds p = (ips, q)" "q1 = q\<lparr>activeWireproxy := Some r'\<rparr>"
      "R = q1 \<or> R = snd (addKernelBypassRoutes nl rs ds (clearSplitRoutes nl q1))"
proof -
  let ?files = "if newFile = [] then Inr [] else loadBypassRoutesFile env fs newFile"
  show thesis
  proof (cases "(daemonProfile = ''autoswitch'' \<and> current = []) \<or> (\<exists>d. splitDomains blRaw = Inl d) \<or> (\<exists>e. ?files = Inl e)")
    case True
    then consider "daemonProfile = ''autoswitch'' \<and> current = []" | d where "splitDomains blRaw = Inl d"
      | d e where "splitDomains blRaw = Inr d" "?files = Inl e" by (metis old.sum.exhaust)
    then have "R = p"
      by cases (simp_all add: R_def reloadSplitRoutes_def Let_def if_distrib [where f = snd])
    then show ?thesis by (rule that(1))
  next
    case False
    then obtain ds0 fds where in': "splitDomains blRaw = Inr ds0" "?files = Inr fds"
      by (metis old.sum.exhaust)
    define ds where "ds = dedupKeepOrder (ds0 @ fds)"
    obtain ips q where rp: "resolveDomainIPs rs ds p = (ips, q)" by fastforce
    consider "mode = ''socks''" "activeWireproxy p = None" | r where "mode = ''socks''" "activeWireproxy p = Some r"
      | "mode = ''tun'' \<or> mode = ''raw''" | "mode \<noteq> ''socks''" "mode \<noteq> ''tun''" "mode \<noteq> ''raw''" by fast
    then show ?thesis
    proof cases
      case (2 r)
      define r' where "r' = Update (ToLower env) ds (case ips of Some xs \<Rightarrow> xs | None \<Rightarrow> []) r"
      define q1 where "q1 = q\<lparr>activeWireproxy := Some r'\<rparr>"
      have k: "kern q = kern q1" by (simp add: q1_def)
      have "R = (if kernelTunnelActive nl (kern q1) then snd (addKernelBypassRoutes nl rs ds (clearSplitRoutes nl q1)) else q1)"
        using False in' 2 rp
        by (simp add: R_def reloadSplitRoutes_def Let_def ds_def [symmetric] r'_def [symmetric] q1_def [symmetric] k split: prod.split)
      then show ?thesis using that(3) [OF 2(2) rp q1_def] by (simp split: if_splits)
    next
      case 3
      then have "R = snd (addKernelBypassRoutes nl rs ds (clearSplitRoutes nl p))"
        using False in' by (auto simp: R_def reloadSplitRoutes_def Let_def ds_def [symmetric] split: prod.split)
      then show ?thesis by (rule that(2))
    qed (use False in' that(1) in \<open>auto simp: R_def reloadSplitRoutes_def Let_def\<close>)
  qed
qed

lemma tracked_reload:
  assumes laws: "netlink_laws nl tbl" and t: "tracked nl tbl k0 p"
  shows "tracked nl tbl k0 (snd (reloadSplitRoutes nl rs env fs current mode blRaw daemonProfile newFile p))"
proof (rule reload_cases [of nl rs env fs current mode blRaw daemonProfile newFile p])
  fix ds ips q r r' and q1 :: "'a proc"
  assume q: "resolveDomainIPs rs ds p = (ips, q)" "q1 = q\<lparr>activeWireproxy := Some r'\<rparr>"
    and R: "snd (reloadSplitRoutes nl rs env fs current mode blRaw daemonProfile newFile p) = q1 \<or>
      snd (reloadSplitRoutes nl rs env fs current mode blRaw daemonProfile newFile p) = snd (addKernelBypassRoutes nl rs ds (clearSplitRoutes nl q1))"
  have "tracked nl tbl k0 q1" using resolve_kern [OF q(1)] q(2) t by (simp add: ownNets_def)
  then show ?thesis using R tracked_clear_bypass [OF laws] by metis
qed (use t tracked_clear_bypass [OF laws t] in simp_all)

text \<open>What can happen in a daemon process between two teardowns.\<close>

inductive rstep :: "'k netlink \<Rightarrow> wgParsers \<Rightarrow> 'k proc \<Rightarrow> 'k proc \<Rightarrow> bool" for nl ps where
  turn: "routedTurnIPs p = [] \<Longrightarrow> rstep nl ps p (applyTurnIPsBypass nl ips gw p)"
| bypass: "rstep nl ps p (snd (addKernelBypassRoutes nl rs ds p))"
| apply_config: "routedTurnIPs p = [] \<Longrightarrow> rstep nl ps p (snd (applyWGConfig nl ps rs config ips sc p))"
| reload: "rstep nl ps p (snd (reloadSplitRoutes nl rs env fs current mode blRaw daemonProfile newFile p))"
| teardown_routes: "rstep nl ps p (teardownTunnelRoutes nl p)"
| teardown_wg: "rstep nl ps p (snd (teardownWG nl p))"

lemma tracked_rstep:
  assumes laws: "netlink_laws nl tbl" and t: "tracked nl tbl k0 p" and s: "rstep nl ps p q"
  shows "tracked nl tbl k0 q"
  using s
proof cases
  case turn then show ?thesis using tracked_turn [OF laws t] by simp
next
  case bypass then show ?thesis using tracked_bypass [OF laws t] by simp
next
  case apply_config then show ?thesis using tracked_apply [OF laws t] by simp
next
  case reload then show ?thesis using tracked_reload [OF laws t] by simp
next
  case teardown_routes
  then show ?thesis using teardown_clean [OF laws t] trackedOf_mono [of nl tbl k0 "{}"] by (auto simp: Let_def)
next
  case teardown_wg then show ?thesis using tracked_teardownWG [OF laws t] by simp
qed


text \<open>A kernel that is its routing table and its links, where every operation succeeds.\<close>

type_synonym demo_kernel = "(ipnet \<Rightarrow> hop option) \<times> (string \<Rightarrow> nat option)"

definition demoNl :: "demo_kernel netlink" where
  "demoNl =
     \<lparr>RouteReplace = (\<lambda>n g (t, l). (True, t(n \<mapsto> Via g), l)),
      RouteAdd = (\<lambda>n i (t, l). (True, t(n \<mapsto> OnLink i), l)),
      RouteDel = (\<lambda>n (t, l). (t n \<noteq> None, t(n := None), l)),
      RouteList = (\<lambda>_. Some [(None, Some [192, 168, 0, 1])]),
      LinkByName = (\<lambda>name (t, l). l name),
      LinkAdd = (\<lambda>name (t, l). if l name = None then (True, t, l(name \<mapsto> 7)) else (False, t, l)),
      LinkDel = (\<lambda>i (t, l). (True, (\<lambda>n. if t n = Some (OnLink i) then None else t n), (\<lambda>name. if l name = Some i then None else l name))),
      LinkSetUp = (\<lambda>_ k. (True, k)), LinkSetMTU = (\<lambda>_ _ k. (True, k)),
      AddrAdd = (\<lambda>i n (t, l). (True, t(n \<mapsto> OnLink i), l)),
      ConfigureDevice = (\<lambda>_ _ k. (True, k))\<rparr>"

lemma demoNl_laws: "netlink_laws demoNl fst"
  unfolding netlink_laws_def
  by (intro conjI)
     (auto simp: replace_law_def add_law_def del_law_def link_add_law_def link_del_law_def device_law_def grows_on_def same_links_def
       demoNl_def split: if_splits)

definition demoProc :: "demo_kernel proc" where
  "demoProc =
     \<lparr>kern = ([IPNet [] [] \<mapsto> Via [192, 168, 0, 1]], (\<lambda>_. None)), routedTurnIPs = [], splitRoutes = [],
      memCache = \<lparr>ceKey = [], ceDomains = [], ceIPv4s = [], ceExpires = 0\<rparr>, fileCache = None, activeWireproxy = None\<rparr>"

definition demoResolver :: resolver where
  "demoResolver = \<lparr>lookupIP = (\<lambda>_. None), now = 0, sha = (\<lambda>s. s), cacheWritable = False\<rparr>"

definition demoRouted :: "demo_kernel proc" where
  "demoRouted =
     snd (addKernelBypassRoutes demoNl demoResolver [''10.1.0.0/16''] (applyTurnIPsBypass demoNl [''1.2.3.4''] [192, 168, 0, 1] demoProc))"


text \<open>
  Two consequences of how networks are parsed: the address of the interface loses its host part when it is written with a prefix
  length, and the route to an IPv6 literal covers the whole /32.
\<close>

lemma interface_address_loses_host: "parseIPNet ''10.66.66.2/24'' = Some (IPNet [10, 66, 66, 0] [255, 255, 255, 0])"
  by code_simp

lemma ipv6_route_covers_block:
  "cidrNet (toCIDRRoute ''2001:db8::1'') =
     IPNet [0x20, 0x01, 0x0D, 0xB8, 0, 0, 0, 0, 0, 0, 0, 0, 0, 0, 0, 0] (replicate 4 255 @ replicate 12 0)"
  by code_simp

end
