(* ===== verification/Core_Runtime.thy ===== *)
theory Core_Runtime
  imports Obfs Protocol
begin

text \<open>
  The runtime controller (\<open>internal/core/core.go\<close>): construction and validation of the configuration, the plan of worker groups
  that \<open>Start\<close> launches, the event queue, the captcha channel, the list of TURN addresses and the handling of the configuration
  that the server sends.  Name resolution and sockets are arguments.
\<close>

section \<open>Configuration\<close>

record Config =
  PeerAddr :: string
  cfgPassword :: string
  cfgHashes :: "string list"
  Listen :: string
  TurnHost :: string
  TurnPort :: string
  DeviceID :: string
  cfgWorkers :: int
  CaptchaMode :: string
  MTU :: int
  DNS :: string
  Mode :: string
  SocksPort :: int
  SocksUser :: string
  SocksPass :: string
  SocksBindAddr :: string
  WGRawConfig :: string
  RawMode :: bool
  NoDTLS :: bool
  Transport :: string
  RawPort :: string

definition DefaultSocksPort :: int where "DefaultSocksPort = 9050"

datatype core_error =
    InvalidMode string | InvalidTransport string | PeerRequired | HashesRequired | PasswordRequired
  | ResolvePeer string | ResolveRawPeer string | WrapKeyError | TunError | ListenError string

definition normalizeCaptchaMode :: "string \<Rightarrow> string" where
  "normalizeCaptchaMode mode =
     (let m = lower_view (TrimSpace mode) in if m \<in> {''auto'', ''rjs'', ''wv''} then m else ''auto'')"

definition getCaptchaMode :: "string \<Rightarrow> string" where
  "getCaptchaMode stored = (if stored = [] then ''auto'' else stored)"

text \<open>The defaults, in the order of the code.\<close>

definition withDefaults :: "Config \<Rightarrow> Config" where
  "withDefaults c =
     c\<lparr>Listen := (if Listen c = [] then ''127.0.0.1:9000'' else Listen c),
       DeviceID := (if DeviceID c = [] then ''unknown'' else DeviceID c),
       cfgWorkers := (if cfgWorkers c \<le> 0 then 9 else cfgWorkers c),
       Mode := (if Mode c = [] then ''tun'' else Mode c),
       SocksPort := (if SocksPort c \<le> 0 then DefaultSocksPort else SocksPort c)\<rparr>"

definition New :: "Config \<Rightarrow> core_error + (Config \<times> string)" where
  "New c0 =
     (let c = withDefaults c0; t = lower_view (TrimSpace (Transport c)) in
      if Mode c \<notin> {''tun'', ''socks'', ''raw''} then Inl (InvalidMode (Mode c))
      else if t \<notin> {[], ''udp'', ''tcp''} then Inl (InvalidTransport (Transport c))
      else Inr (if t \<noteq> ''tcp'' then c\<lparr>Transport := ''udp''\<rparr> else c, normalizeCaptchaMode (CaptchaMode c)))"

section \<open>What Start launches\<close>

definition workersPerGroup :: int where "workersPerGroup = 9"
definition maxWorkers :: int where "maxWorkers = 108"

definition normalizeWorkers :: "int \<Rightarrow> int" where
  "normalizeWorkers w =
     (let n1 = (if w > maxWorkers then maxWorkers else w);
          n2 = (if n1 < workersPerGroup then workersPerGroup else n1)
      in (n2 div workersPerGroup) * workersPerGroup)"

record TurnParams =
  tpHost :: string
  tpPort :: string
  tpHashes :: "string list"
  WrapKey :: bytes
  ObfsMode :: string
  tpNoDTLS :: bool
  tpRawMode :: bool
  tpTransport :: string

text \<open>The addresses of peers: the bytes of the IP and the port; \<open>resolve\<close> is \<open>net.ResolveUDPAddr\<close>, \<open>show_ip\<close> is \<open>IP.String\<close>.\<close>

record net_env =
  resolve :: "string \<Rightarrow> (bytes \<times> nat) option"
  show_ip :: "bytes \<Rightarrow> string"

definition rawPeerAddr :: "net_env \<Rightarrow> bytes \<Rightarrow> string \<Rightarrow> string" where
  "rawPeerAddr ne ip rawPort =
     (let port = (if rawPort = [] then ''56003'' else rawPort);
          host = (if To4 ip = None then ''['' @ show_ip ne ip @ '']'' else show_ip ne ip)
      in JoinHostPort host port)"

record group_plan =
  gID :: nat
  gHashIndex :: nat
  gGetConfig :: bool
  gWorkerIDs :: "nat list"
  gWaits :: bool
  gSignals :: bool

definition groupPlan :: "nat \<Rightarrow> group_plan list" where
  "groupPlan numGroups =
     map (\<lambda>g. \<lparr>gID = g + 1, gHashIndex = g, gGetConfig = (g = 0), gWorkerIDs = [9 * g + 1..<9 * g + 10],
               gWaits = (g > 0), gSignals = (g < numGroups - 1)\<rparr>) [0..<numGroups]"

text \<open>\<open>hkdf\<close> is the key derivation of \<open>deriveWrapKey\<close>; \<open>socketOk\<close> says whether the TUN device or the UDP socket could be opened.\<close>

definition Start :: "net_env \<Rightarrow> (string \<Rightarrow> string \<Rightarrow> string \<Rightarrow> bytes) \<Rightarrow> bool \<Rightarrow> Config
    \<Rightarrow> core_error + ((bytes \<times> nat) \<times> TurnParams \<times> group_plan list)" where
  "Start ne hkdf socketOk c =
     (if PeerAddr c = [] then Inl PeerRequired
      else if cfgHashes c = [] then Inl HashesRequired
      else if cfgPassword c = [] then Inl PasswordRequired
      else case resolve ne (PeerAddr c) of
        None \<Rightarrow> Inl (ResolvePeer (PeerAddr c))
      | Some peer \<Rightarrow>
          (let rawAddr = rawPeerAddr ne (fst peer) (RawPort c) in
           case (if RawMode c \<or> NoDTLS c then resolve ne rawAddr else Some peer) of
             None \<Rightarrow> Inl (ResolveRawPeer rawAddr)
           | Some peer1 \<Rightarrow>
               (case deriveWrapKey hkdf (cfgPassword c) of
                  Inl _ \<Rightarrow> Inl WrapKeyError
                | Inr key \<Rightarrow>
                    if \<not> socketOk then Inl (if RawMode c then TunError else ListenError (Listen c))
                    else Inr (peer1,
                      \<lparr>tpHost = TurnHost c, tpPort = TurnPort c, tpHashes = cfgHashes c, WrapKey = key, ObfsMode = ''audio'',
                       tpNoDTLS = (NoDTLS c \<or> RawMode c), tpRawMode = RawMode c, tpTransport = Transport c\<rparr>,
                      groupPlan (nat (normalizeWorkers (cfgWorkers c) div workersPerGroup))))))"

section \<open>Queues\<close>

datatype event =
    EState string
  | ELog string string
  | EEvent string string
  | EError string
  | EStats int int int

definition isLog :: "event \<Rightarrow> bool" where
  "isLog ev \<longleftrightarrow> (case ev of ELog _ _ \<Rightarrow> True | _ \<Rightarrow> False)"

definition eventsCap :: nat where "eventsCap = 256"

text \<open>\<open>emit\<close> never blocks: on a full queue a log line is dropped, anything else replaces the oldest entry.\<close>

definition emit :: "event \<Rightarrow> event list \<Rightarrow> event list" where
  "emit ev q =
     (if length q < eventsCap then q @ [ev]
      else if isLog ev then q
      else
        let q1 = tl q in if length q1 < eventsCap then q1 @ [ev] else q1)"

definition SolveCaptcha :: "string \<Rightarrow> string list \<Rightarrow> string list" where
  "SolveCaptcha token ch = tl ch @ [token]"

section \<open>TURN addresses\<close>

definition turnIPHost :: "string \<Rightarrow> string" where
  "turnIPHost u =
     (let host = (case SplitHostPort (TrimPrefix u ''turn:'') of Some (h, _) \<Rightarrow> h | None \<Rightarrow> [])
      in if host = [] then u else host)"

definition AddTurnIPs :: "string list \<Rightarrow> string list \<Rightarrow> string list" where
  "AddTurnIPs urls ips = foldl (\<lambda>ips u. if turnIPHost u \<in> set ips then ips else ips @ [turnIPHost u]) ips urls"

section \<open>The configuration from the server\<close>

text \<open>What the receiver of the configuration channel emits; \<open>setupOk\<close> is the outcome of \<open>setupRawTUN\<close>, which only is logged.\<close>

definition onConfig :: "Config \<Rightarrow> string \<Rightarrow> event list" where
  "onConfig c rawConf =
     (if rawConf = [] then []
      else if HasPrefix rawConf ''RAWCONF:'' then
        (case SplitByte CHR ''|'' (TrimPrefix rawConf ''RAWCONF:'') of
           [ip, dns, mtu] \<Rightarrow>
             [EEvent ''raw_conf'' (ip @ ''|'' @ dns @ ''|'' @ Itoa (case Atoi mtu of Some m \<Rightarrow> m | None \<Rightarrow> 0)), EEvent ''raw_ready'' []]
         | _ \<Rightarrow> [])
      else [EEvent ''wg_config'' (patchWGConfig rawConf (MTU c))])"

section \<open>Properties\<close>

lemma isLog_simps [simp]: "isLog (ELog l m)" "\<not> isLog (EState s)" "\<not> isLog (EEvent n d)" "\<not> isLog (EError e)" "\<not> isLog (EStats a b c)"
  by (simp_all add: isLog_def)

text \<open>The queue stays bounded, keeps its order and never loses an event that is not a log line when it is emitted.\<close>

lemma emit_spec:
  assumes "length q \<le> eventsCap"
  shows "length (emit ev q) \<le> eventsCap \<and> (\<not> isLog ev \<longrightarrow> emit ev q \<noteq> [] \<and> last (emit ev q) = ev)
       \<and> (\<exists>n \<le> 1. emit ev q = drop n q @ [ev] \<or> isLog ev \<and> emit ev q = q)"
proof -
  have "0 < eventsCap" by (simp add: eventsCap_def)
  then show ?thesis using assms by (cases q) (auto simp: emit_def Let_def intro: exI [of _ 0] exI [of _ "1::nat"])
qed

lemma AddTurnIPs_unique: "AddTurnIPs urls ips = foldl (\<lambda>out x. if True \<and> x \<notin> set out then out @ [x] else out) ips (map turnIPHost urls)"
  unfolding AddTurnIPs_def by (induction urls arbitrary: ips) auto

lemma AddTurnIPs_props:
  assumes "distinct ips"
  shows "distinct (AddTurnIPs urls ips) \<and> set (AddTurnIPs urls ips) = set ips \<union> turnIPHost ` set urls"
proof -
  have "AddTurnIPs urls ips = collect_unique (\<lambda>_. True) (ips @ map turnIPHost urls)"
  proof -
    have "collect_unique (\<lambda>_. True) ips = ips" using assms by (intro uq.collect_id) (auto simp: list_all_iff)
    then show ?thesis by (simp add: AddTurnIPs_unique collect_unique_def)
  qed
  then show ?thesis by (auto simp: uq.collect_distinct uq.collect_set)
qed

text \<open>A configuration that the constructor made.\<close>

definition cfg_ok :: "Config \<Rightarrow> bool" where
  "cfg_ok c \<longleftrightarrow>
     Listen c \<noteq> [] \<and> DeviceID c \<noteq> [] \<and> 0 < cfgWorkers c \<and> 0 < SocksPort c \<and> Mode c \<in> {''tun'', ''socks'', ''raw''} \<and>
     (Transport c = ''udp'' \<or> lower_view (TrimSpace (Transport c)) = ''tcp'')"

lemma normalizeWorkers_bounds:
  "workersPerGroup dvd normalizeWorkers w \<and> 9 \<le> normalizeWorkers w \<and> normalizeWorkers w \<le> 108 \<and>
   (9 \<le> w \<and> w \<le> 108 \<longrightarrow> normalizeWorkers w \<le> w \<and> w < normalizeWorkers w + 9)"
  unfolding normalizeWorkers_def workersPerGroup_def maxWorkers_def Let_def by (simp split: if_split; presburger?)

lemma groupPlan_ids: "concat (map gWorkerIDs (groupPlan k)) = [1..<9 * k + 1]"
proof (induction k)
  case (Suc k)
  have "map gWorkerIDs (groupPlan (Suc k)) = map gWorkerIDs (groupPlan k) @ [[9 * k + 1..<9 * k + 10]]"
    by (simp add: groupPlan_def comp_def)
  then show ?case using Suc upt_add_eq_append [of 1 "9 * k + 1" 9] by (simp add: add.commute)
qed (simp add: groupPlan_def)

text \<open>
  C36. The constructor yields a configuration in normal form (every default filled in, a known mode and transport, positive worker
  and port numbers) and accepts its own result unchanged; and when the runtime starts with it, the groups it launches number their
  workers 1 to n without gap or overlap, nine per group, with n between 9 and 108, the first group alone asks for the
  configuration, and every group but the first waits for its predecessor, which signals it.
\<close>

theorem core_wellformed:
  assumes "New c0 = Inr (c, m)" "Start ne hkdf socketOk c = Inr (peer, tp, groups)"
  shows "cfg_ok c \<and> m \<in> {''auto'', ''rjs'', ''wv''} \<and> New c = Inr (c, m) \<and> deriveWrapKey hkdf (cfgPassword c) = Inr (WrapKey tp) \<and>
     (\<exists>k. 1 \<le> k \<and> k \<le> 12 \<and> length groups = k \<and> int (9 * k) = normalizeWorkers (cfgWorkers c) \<and>
          concat (map gWorkerIDs groups) = [1..<9 * k + 1] \<and>
          (\<forall>g < k. length (gWorkerIDs (groups ! g)) = 9 \<and> gGetConfig (groups ! g) = (g = 0) \<and> gWaits (groups ! g) = (g \<noteq> 0) \<and>
             gSignals (groups ! g) = (Suc g < k)))"
proof (intro conjI)
  let ?t = "lower_view (TrimSpace (Transport c0))"
  have new: "c = (if ?t \<noteq> ''tcp'' then withDefaults c0\<lparr>Transport := ''udp''\<rparr> else withDefaults c0)"
      "m = normalizeCaptchaMode (CaptchaMode c0)" "Mode c \<in> {''tun'', ''socks'', ''raw''}" "?t \<in> {[], ''udp'', ''tcp''}"
    using assms(1) by (auto simp: New_def Let_def withDefaults_def split: if_splits)
  show ok: "cfg_ok c" using new by (auto simp: cfg_ok_def withDefaults_def DefaultSocksPort_def)
  show m: "m \<in> {''auto'', ''rjs'', ''wv''}" by (auto simp: new(2) normalizeCaptchaMode_def Let_def)
  have "withDefaults c = c" using ok by (auto simp: withDefaults_def cfg_ok_def intro!: Config.equality)
  moreover have "CaptchaMode c = CaptchaMode c0" by (simp add: new(1) withDefaults_def)
  moreover have "lower_view (TrimSpace ''udp'') = ''udp''" by code_simp
  ultimately show "New c = Inr (c, m)"
    using ok new(2) by (auto simp: New_def Let_def cfg_ok_def)
  obtain key where run: "deriveWrapKey hkdf (cfgPassword c) = Inr key" "WrapKey tp = key"
      "groups = groupPlan (nat (normalizeWorkers (cfgWorkers c) div workersPerGroup))"
    using assms(2) by (auto simp: Start_def Let_def split: if_splits option.splits sum.splits)
  then show "deriveWrapKey hkdf (cfgPassword c) = Inr (WrapKey tp)" by simp
  define k where "k = nat (normalizeWorkers (cfgWorkers c) div 9)"
  note b = normalizeWorkers_bounds [of "cfgWorkers c", unfolded workersPerGroup_def]
  then have k: "int (9 * k) = normalizeWorkers (cfgWorkers c)" "1 \<le> k" "k \<le> 12" by (auto simp: k_def)
  have "groups = groupPlan k" using run(3) by (simp add: k_def workersPerGroup_def)
  then have "length groups = k \<and> concat (map gWorkerIDs groups) = [1..<9 * k + 1] \<and>
      (\<forall>g < k. length (gWorkerIDs (groups ! g)) = 9 \<and> gGetConfig (groups ! g) = (g = 0) \<and> gWaits (groups ! g) = (g \<noteq> 0) \<and>
         gSignals (groups ! g) = (Suc g < k))"
    using groupPlan_ids by (auto simp: groupPlan_def)
  with k show "\<exists>k. 1 \<le> k \<and> k \<le> 12 \<and> length groups = k \<and> int (9 * k) = normalizeWorkers (cfgWorkers c) \<and>
          concat (map gWorkerIDs groups) = [1..<9 * k + 1] \<and>
          (\<forall>g < k. length (gWorkerIDs (groups ! g)) = 9 \<and> gGetConfig (groups ! g) = (g = 0) \<and> gWaits (groups ! g) = (g \<noteq> 0) \<and>
             gSignals (groups ! g) = (Suc g < k))" by blast
qed

definition demoConfig :: Config where
  "demoConfig =
     \<lparr>PeerAddr = ''1.2.3.4:56000'', cfgPassword = ''pw'', cfgHashes = [''h''], Listen = [], TurnHost = [], TurnPort = [],
      DeviceID = [], cfgWorkers = 20, CaptchaMode = ''RJS'', MTU = 1280, DNS = [], Mode = [], SocksPort = 0, SocksUser = [],
      SocksPass = [], SocksBindAddr = [], WGRawConfig = [], RawMode = False, NoDTLS = False, Transport = [], RawPort = []\<rparr>"

definition demoNet :: net_env where
  "demoNet = \<lparr>resolve = (\<lambda>s. if s = ''1.2.3.4:56000'' then Some (v4InV6Prefix @ [1, 2, 3, 4], 56000) else None), show_ip = dotted\<rparr>"

theorem core_wellformed_witness:
  "\<exists>c. \<exists>groups :: group_plan list. New demoConfig = Inr (c, ''rjs'') \<and> length groups = 2 \<and> concat (map gWorkerIDs groups) = [1..<19]"
proof -
  define c where "c = demoConfig\<lparr>Listen := ''127.0.0.1:9000'', DeviceID := ''unknown'', Mode := ''tun'', SocksPort := 9050, Transport := ''udp''\<rparr>"
  have new: "New demoConfig = Inr (c, ''rjs'')"
  proof -
    have "normalizeCaptchaMode ''RJS'' = ''rjs''" by code_simp
    then show ?thesis by (simp add: New_def c_def demoConfig_def withDefaults_def DefaultSocksPort_def)
  qed
  obtain tp groups where "Start demoNet (\<lambda>_ _ _. replicate wrapKeyLen 0) True c = Inr ((v4InV6Prefix @ [1, 2, 3, 4], 56000), tp, groups)"
    by (simp add: Start_def c_def demoConfig_def demoNet_def deriveWrapKey_def)
  from core_wellformed [OF new this] obtain k where "length groups = k" "int (9 * k) = normalizeWorkers 20"
      "concat (map gWorkerIDs groups) = [1..<9 * k + 1]"
    by (auto simp: c_def demoConfig_def)
  moreover have "normalizeWorkers 20 = 18" by (simp add: normalizeWorkers_def workersPerGroup_def maxWorkers_def)
  ultimately have "k = 2" "concat (map gWorkerIDs groups) = [1..<19]" by simp_all
  with new \<open>length groups = k\<close> show ?thesis by blast
qed

text \<open>
  In raw mode an IPv6 peer is put in brackets twice, so its address never splits into host and port.
\<close>

lemma raw_ipv6_peer_unusable:
  assumes "To4 ip = None" "CHR '':'' \<in> set (show_ip ne ip)"
  shows "HasPrefix (rawPeerAddr ne ip rawPort) ''[[''"
  using assms by (simp add: rawPeerAddr_def JoinHostPort_def Let_def HasPrefix_def)

lemma double_bracket_no_host: "HasPrefix hp ''[['' \<Longrightarrow> SplitHostPort hp = None"
  by (auto simp: HasPrefix_iff SplitHostPort_def HasPrefix_def split: option.splits)

end
