(* ===== verification/Worker_Group.thy ===== *)
theory Worker_Group
  imports Creds Core_Runtime
begin

text \<open>
  Groups of workers (\<open>internal/core/group.go\<close>, \<open>errhint.go\<close>): the credential loop and the relay start of the groups, the request
  for the configuration that the workers of the first group share, the reaction to a failed session, and the parsing of call
  hashes.  \<open>lower\<close> is \<open>strings.ToLower\<close>.
\<close>

section \<open>Call hashes\<close>

text \<open>\<open>strings.FieldsFunc\<close> with the separators of the code, which are all ASCII.\<close>

definition hashSep :: "char \<Rightarrow> bool" where
  "hashSep c \<longleftrightarrow> c \<in> {CHR '','', CHR '';'', CHR 0x0A, CHR 0x0D, CHR 0x09, CHR '' ''}"

fun fieldsBy :: "(char \<Rightarrow> bool) \<Rightarrow> string \<Rightarrow> string \<Rightarrow> string list" where
  "fieldsBy sep cur [] = (if cur = [] then [] else [cur])"
| "fieldsBy sep cur (c # s) =
     (if sep c then (if cur = [] then fieldsBy sep [] s else cur # fieldsBy sep [] s) else fieldsBy sep (cur @ [c]) s)"

definition trimSet :: "string \<Rightarrow> string \<Rightarrow> string" where
  "trimSet cs s = rev (dropWhile (\<lambda>c. c \<in> set cs) (rev (dropWhile (\<lambda>c. c \<in> set cs) s)))"

definition joinPath :: string where "joinPath = ''/call/join/''"

text \<open>
  The hash of a link.  The position of the path is found in the lower case copy and used in the original: \<open>None\<close> is the
  panic of the slice expression when the copy is longer.
\<close>

definition normalizeVKJoinHash :: "(string \<Rightarrow> string) \<Rightarrow> string \<Rightarrow> string option" where
  "normalizeVKJoinHash lower input =
     (let s = trimSet [CHR ''<'', CHR ''>'', CHR 0x22, CHR 0x27] (TrimSpace input); low = lower s;
          finish = (\<lambda>s. trimSet ''/'' (TrimSpace (takeWhile (\<lambda>c. c \<notin> set ''?#/'') s)))
      in if s = [] then Some []
         else case Index low joinPath of
           Some i \<Rightarrow> if i + length joinPath > length s then None else Some (finish (drop (i + length joinPath) s))
         | None \<Rightarrow> if HasPrefix low ''http://'' \<or> HasPrefix low ''https://'' then Some [] else Some (finish s))"

definition ParseHashes :: "(string \<Rightarrow> string) \<Rightarrow> string \<Rightarrow> string list option" where
  "ParseHashes lower raw =
     (let hs = map (normalizeVKJoinHash lower) (fieldsBy hashSep [] raw)
      in if None \<in> set hs then None else Some (collect_unique (\<lambda>h. h \<noteq> []) (map the hs)))"

section \<open>Reaction to a failed session\<close>

definition hashDead :: string where
  "hashDead =
  [CHR 0xD1, CHR 0x85, CHR 0xD0, CHR 0xB5, CHR 0xD1, CHR 0x88, CHR 0x20, CHR 0xD0, CHR 0xBC, CHR 0xD1, CHR 0x91, CHR
   0xD1, CHR 0x80, CHR 0xD1, CHR 0x82, CHR 0xD0, CHR 0xB2]"

definition turnQuotaText :: string where
  "turnQuotaText =
  [CHR 0x74, CHR 0x75, CHR 0x72, CHR 0x6E, CHR 0x20, CHR 0xD0, CHR 0xBA, CHR 0xD0, CHR 0xB2, CHR 0xD0, CHR 0xBE, CHR
   0xD1, CHR 0x82, CHR 0xD0, CHR 0xB0]"

definition wrongPasswordText :: string where
  "wrongPasswordText =
  [CHR 0xD0, CHR 0xBD, CHR 0xD0, CHR 0xB5, CHR 0xD0, CHR 0xB2, CHR 0xD0, CHR 0xB5, CHR 0xD1, CHR 0x80, CHR 0xD0, CHR
   0xBD, CHR 0xD1, CHR 0x8B, CHR 0xD0, CHR 0xB9, CHR 0x20, CHR 0xD0, CHR 0xBF, CHR 0xD0, CHR 0xB0, CHR 0xD1, CHR 0x80,
   CHR 0xD0, CHR 0xBE, CHR 0xD0, CHR 0xBB, CHR 0xD1, CHR 0x8C]"

text \<open>The hints of \<open>errhint.go\<close>, one constructor per message.\<close>

datatype hint =
    HintNone | WrapTimeout | Interrupted | HandshakeTimeout | Timeout | Refused | Reset | NoRoute | DnsFailure | QuotaExhausted
  | RelayFailure | RateLimited | WrapMismatch | WrongPasswordHint | NoSocket

definition workerErrorHint :: "(string \<Rightarrow> string) \<Rightarrow> string \<Rightarrow> hint" where
  "workerErrorHint lower e =
     (let has = (\<lambda>p. Contains (lower e) p) in
      if has ''wrap_auth_timeout'' then WrapTimeout
      else if has ''context canceled'' then Interrupted
      else if has ''context deadline exceeded'' then HandshakeTimeout
      else if has ''deadline exceeded'' \<or> has ''timeout'' \<or> has ''i/o timeout'' then Timeout
      else if has ''connection refused'' then Refused
      else if has ''connection reset'' then Reset
      else if has ''no route'' \<or> has ''network is unreachable'' then NoRoute
      else if has ''lookup'' \<or> has ''no such host'' then DnsFailure
      else if has turnQuotaText \<or> has ''quota'' \<or> has ''486'' then QuotaExhausted
      else if has ''turn allocate'' then RelayFailure
      else if has ''rate limit'' \<or> has ''flood'' \<or> has ''error 29'' then RateLimited
      else if has ''rtp aead'' \<or> has ''auth failed'' \<or> has ''tag mismatch'' then WrapMismatch
      else if has ''fatal_auth'' \<or> has wrongPasswordText then WrongPasswordHint
      else if has ''cannot create socket'' then NoSocket
      else HintNone)"

datatype retry = Normal | QuotaWait | Fast

text \<open>The bounds of the random delay in seconds.\<close>

fun retryBounds :: "retry \<Rightarrow> nat \<times> nat" where
  "retryBounds Normal = (5, 15)"
| "retryBounds QuotaWait = (30, 60)"
| "retryBounds Fast = (1, 3)"

datatype decision = Retire | Retry retry

definition isTurnQuota :: "(string \<Rightarrow> string) \<Rightarrow> string \<Rightarrow> bool" where
  "isTurnQuota lower e \<longleftrightarrow> Contains (lower e) ''quota'' \<or> Contains e ''486''"

definition attrMissing :: "(string \<Rightarrow> string) \<Rightarrow> string \<Rightarrow> bool" where
  "attrMissing lower e \<longleftrightarrow> Contains (lower e) ''turn allocate'' \<and> Contains (lower e) ''attribute not found''"

definition needsRefresh :: "(string \<Rightarrow> string) \<Rightarrow> string \<Rightarrow> bool" where
  "needsRefresh lower e \<longleftrightarrow>
     \<not> isTurnQuota lower e \<and>
     (attrMissing lower e \<or>
      list_ex (Contains (lower e))
        [''turn allocate auth'', ''invalid credential'', ''stale nonce'', ''allocation mismatch'', ''error 508''])"

definition fatalSession :: "string \<Rightarrow> bool" where
  "fatalSession e \<longleftrightarrow> Contains e hashDead \<or> Contains e ''FATAL_AUTH''"

definition stunDeath :: "(string \<Rightarrow> string) \<Rightarrow> string \<Rightarrow> bool" where
  "stunDeath lower e \<longleftrightarrow> Contains (lower e) ''error 29'' \<or> Contains (lower e) ''cannot create socket''"

definition fastRetry :: "(string \<Rightarrow> string) \<Rightarrow> string \<Rightarrow> bool" where
  "fastRetry lower e \<longleftrightarrow> list_ex (Contains (lower e)) [''broken pipe'', ''connection reset by peer'', ''unexpected eof'']"

text \<open>
  After a session: whether the credentials are refreshed, and what the worker does.  \<open>None\<close> is a session that ended without
  error.  The annotation of the message by a hint adds none of the texts that are looked for.
\<close>

definition afterSession :: "(string \<Rightarrow> string) \<Rightarrow> string option \<Rightarrow> bool \<times> decision" where
  "afterSession lower r =
     (case r of
        None \<Rightarrow> (False, Retry Normal)
      | Some e \<Rightarrow>
          if fatalSession e then (False, Retire)
          else
            (needsRefresh lower e,
             if stunDeath lower e then Retire
             else if isTurnQuota lower e then Retry QuotaWait
             else if fastRetry lower e then Retry Fast
             else Retry Normal))"

section \<open>Refreshing the credentials of the group\<close>

record group_creds =
  gcreds :: creds
  lastCredRefresh :: int
  gcache :: cred_store

definition refreshInterval :: int where "refreshInterval = 15"

text \<open>
  The first component says whether a request went out.  \<open>now\<close> and \<open>now'\<close> are the times before and after it; the cache that
  the request itself fills is modelled in \<open>Creds\<close>.
\<close>

definition refreshCreds :: "nat \<Rightarrow> int \<Rightarrow> int \<Rightarrow> (vkerr + creds) \<Rightarrow> group_creds \<Rightarrow> bool \<times> bool \<times> group_creds" where
  "refreshCreds streamID now now' result g =
     (if lastCredRefresh g > 0 \<and> now - lastCredRefresh g < refreshInterval then (False, True, g)
      else
        let (c, st) = getStreamCache streamID (gcache g);
            g1 = g\<lparr>gcache := st(getCacheID streamID \<mapsto> invalidate c)\<rparr>
        in case result of
             Inl _ \<Rightarrow> (True, False, g1)
           | Inr cr \<Rightarrow> (True, True, g1\<lparr>gcreds := cr, lastCredRefresh := now'\<rparr>))"

section \<open>One request for the configuration\<close>

text \<open>
  The workers of a group share two atomic flags.  A worker first loads \<open>configSent\<close>, then tries to set \<open>inFlight\<close>, then runs
  its session; the result of a session that asked for the configuration sets one of the flags.
\<close>

datatype phase = Idle | Loaded bool | InSession bool | Gone

record group_state =
  configSent :: bool
  inFlight :: bool
  wphase :: "nat \<Rightarrow> phase"
  deliveries :: nat

definition initGroup :: "bool \<Rightarrow> group_state" where
  "initGroup getConfig = \<lparr>configSent = \<not> getConfig, inFlight = False, wphase = (\<lambda>_. Idle), deliveries = 0\<rparr>"

definition loadSent :: "bool \<Rightarrow> nat \<Rightarrow> group_state \<Rightarrow> group_state" where
  "loadSent getConfig w s = s\<lparr>wphase := (wphase s)(w := Loaded (getConfig \<and> \<not> configSent s))\<rparr>"

definition tryClaim :: "nat \<Rightarrow> bool \<Rightarrow> group_state \<Rightarrow> group_state" where
  "tryClaim w want s =
     (if want \<and> \<not> inFlight s then s\<lparr>inFlight := True, wphase := (wphase s)(w := InSession True)\<rparr>
      else s\<lparr>wphase := (wphase s)(w := InSession False)\<rparr>)"

definition endSession :: "nat \<Rightarrow> bool \<Rightarrow> bool \<Rightarrow> phase \<Rightarrow> group_state \<Rightarrow> group_state" where
  "endSession w getConf delivered next s =
     (let s1 = s\<lparr>wphase := (wphase s)(w := next)\<rparr> in
      if getConf then
        (if delivered then s1\<lparr>configSent := True, deliveries := deliveries s1 + 1\<rparr> else s1\<lparr>inFlight := False\<rparr>)
      else s1)"

inductive wstep :: "bool \<Rightarrow> group_state \<Rightarrow> group_state \<Rightarrow> bool" for getConfig where
  load: "wphase s w = Idle \<Longrightarrow> wstep getConfig s (loadSent getConfig w s)"
| claim: "wphase s w = Loaded want \<Longrightarrow> wstep getConfig s (tryClaim w want s)"
| finish: "wphase s w = InSession getConf \<Longrightarrow> next \<in> {Idle, Gone} \<Longrightarrow> wstep getConfig s (endSession w getConf delivered next s)"

inductive_cases wstepE: "wstep getConfig s t"

definition requesting :: "group_state \<Rightarrow> nat \<Rightarrow> bool" where
  "requesting s w \<longleftrightarrow> wphase s w = InSession True"

definition config_inv :: "bool \<Rightarrow> group_state \<Rightarrow> bool" where
  "config_inv getConfig s \<longleftrightarrow>
     (\<forall>v w. requesting s v \<longrightarrow> requesting s w \<longrightarrow> v = w) \<and>
     (inFlight s \<longleftrightarrow> deliveries s > 0 \<or> (\<exists>w. requesting s w)) \<and>
     (deliveries s > 0 \<longrightarrow> (\<forall>w. \<not> requesting s w) \<and> configSent s) \<and>
     (configSent s \<longleftrightarrow> deliveries s > 0 \<or> \<not> getConfig) \<and>
     deliveries s \<le> 1 \<and>
     (\<not> getConfig \<longrightarrow> (\<forall>w. wphase s w \<noteq> Loaded True \<and> \<not> requesting s w) \<and> deliveries s = 0)"

lemma config_inv_init: "config_inv getConfig (initGroup getConfig)"
  by (simp add: config_inv_def initGroup_def requesting_def)

lemma requesting_loadSent: "wphase s w = Idle \<Longrightarrow> requesting (loadSent b w s) v \<longleftrightarrow> requesting s v"
  by (auto simp: requesting_def loadSent_def)

lemma requesting_tryClaim:
  "wphase s w = Loaded want \<Longrightarrow> requesting (tryClaim w want s) v \<longleftrightarrow> requesting s v \<or> (v = w \<and> want \<and> \<not> inFlight s)"
  by (auto simp: requesting_def tryClaim_def)

lemma requesting_endSession:
  assumes "wphase s w = InSession gc" "next = Idle \<or> next = Gone"
  shows "requesting (endSession w gc d next s) v \<longleftrightarrow> requesting s v \<and> v \<noteq> w"
  using assms by (auto simp: requesting_def endSession_def Let_def)

lemma loadSent_fields [simp]:
  "inFlight (loadSent b w s) = inFlight s" "configSent (loadSent b w s) = configSent s"
  "deliveries (loadSent b w s) = deliveries s" "wphase (loadSent b w s) = (wphase s)(w := Loaded (b \<and> \<not> configSent s))"
  by (simp_all add: loadSent_def)

lemma tryClaim_fields [simp]:
  "inFlight (tryClaim w want s) \<longleftrightarrow> inFlight s \<or> want" "configSent (tryClaim w want s) = configSent s"
  "deliveries (tryClaim w want s) = deliveries s"
  "wphase (tryClaim w want s) = (wphase s)(w := InSession (want \<and> \<not> inFlight s))"
  by (auto simp: tryClaim_def)

lemma config_inv_load: "config_inv b s \<Longrightarrow> wphase s w = Idle \<Longrightarrow> config_inv b (loadSent b w s)"
  unfolding config_inv_def by (auto simp: requesting_loadSent)

lemma config_inv_claim:
  assumes "config_inv b s" "wphase s w = Loaded want"
  shows "config_inv b (tryClaim w want s)"
proof (cases "want \<and> \<not> inFlight s")
  case True
  then have "b" "\<forall>v. \<not> requesting s v" using assms unfolding config_inv_def by auto
  then show ?thesis
    using assms(1) True unfolding config_inv_def requesting_tryClaim [OF assms(2)] tryClaim_fields by simp
next
  case False
  then have "inFlight s \<or> want \<longleftrightarrow> inFlight s" "\<not> (v = w \<and> want \<and> \<not> inFlight s)" for v by auto
  then show ?thesis
    using assms(1) unfolding config_inv_def requesting_tryClaim [OF assms(2)] tryClaim_fields by auto
qed

lemma config_inv_end:
  assumes "config_inv b s" "wphase s w = InSession gc" "next = Idle \<or> next = Gone"
  shows "config_inv b (endSession w gc d next s)"
proof (cases gc)
  case True
  then have r: "requesting s w" using assms(2) by (simp add: requesting_def)
  then have only: "requesting s v \<longleftrightarrow> v = w" for v using assms(1) unfolding config_inv_def by blast
  have s: "deliveries s = 0" "b" "\<not> configSent s" "inFlight s" using assms(1) r unfolding config_inv_def by auto
  show ?thesis
    using True s unfolding config_inv_def requesting_endSession [OF assms(2,3)] only
    by (auto simp: endSession_def Let_def)
next
  case False
  then have "requesting s v \<Longrightarrow> v \<noteq> w" for v using assms(2) by (auto simp: requesting_def)
  then have same: "requesting (endSession w gc d next s) v \<longleftrightarrow> requesting s v" for v
    using requesting_endSession [OF assms(2,3)] by blast
  show ?thesis
    using assms(1,3) False unfolding config_inv_def same by (auto simp: endSession_def Let_def)
qed

lemma config_inv_reachable: "(wstep b)\<^sup>*\<^sup>* (initGroup b) s \<Longrightarrow> config_inv b s"
proof (induction rule: rtranclp_induct)
  case (step s t)
  from step(2,3) show ?case
    by (elim wstepE) (auto intro: config_inv_load config_inv_claim config_inv_end)
qed (rule config_inv_init)

text \<open>
  C34. Under every interleaving of the workers' loads, claims and sessions, at most one session asks for the configuration at a
  time, it is delivered at most once and nobody asks again afterwards; a group that is not to ask never does; and the right to
  ask is never lost: as long as nothing was delivered and nobody asks, the next worker that claims it gets it.
\<close>

theorem config_single_flight:
  assumes "(wstep getConfig)\<^sup>*\<^sup>* (initGroup getConfig) s"
  shows "(\<forall>v w. requesting s v \<longrightarrow> requesting s w \<longrightarrow> v = w) \<and> deliveries s \<le> 1 \<and>
     (deliveries s = 1 \<longrightarrow> (\<forall>w. \<not> requesting s w) \<and> (\<forall>t. (wstep getConfig)\<^sup>*\<^sup>* s t \<longrightarrow> (\<forall>w. \<not> requesting t w) \<and> deliveries t = 1)) \<and>
     (\<not> getConfig \<longrightarrow> (\<forall>w. \<not> requesting s w)) \<and>
     (deliveries s = 0 \<and> (\<forall>w. \<not> requesting s w) \<longrightarrow> (\<forall>w. requesting (tryClaim w True s) w))"
proof -
  note inv = config_inv_reachable [OF assms]
  have later: "(\<forall>w. \<not> requesting t w) \<and> deliveries t = 1" if "deliveries s = 1" "(wstep getConfig)\<^sup>*\<^sup>* s t" for t
  proof -
    have mono: "deliveries s \<le> deliveries t"
      using that(2)
    proof (induction rule: rtranclp_induct)
      case (step t u)
      from step(2) have "deliveries t \<le> deliveries u"
        by (elim wstepE) (auto simp: loadSent_def tryClaim_def endSession_def Let_def)
      with step(3) show ?case by simp
    qed simp
    have "config_inv getConfig t" using config_inv_reachable rtranclp_trans [OF assms that(2)] by blast
    then show ?thesis using mono that(1) unfolding config_inv_def by auto
  qed
  have "requesting (tryClaim w True s) w" if "deliveries s = 0" "\<forall>w. \<not> requesting s w" for w
  proof -
    have "\<not> inFlight s" using that inv unfolding config_inv_def by auto
    then show ?thesis by (simp add: requesting_def)
  qed
  moreover have "\<forall>w. \<not> requesting s w" if "deliveries s = 1" using that inv unfolding config_inv_def by auto
  ultimately show ?thesis using inv later unfolding config_inv_def by blast
qed

theorem config_single_flight_witness:
  "requesting (tryClaim 1 True (loadSent True 2 (loadSent True 1 (initGroup True)))) 1 \<and>
   \<not> requesting (tryClaim 2 True (tryClaim 1 True (loadSent True 2 (loadSent True 1 (initGroup True))))) 2"
proof -
  let ?s1 = "loadSent True 1 (initGroup True)" let ?s2 = "loadSent True 2 ?s1"
  let ?s3 = "tryClaim 1 True ?s2" let ?s4 = "tryClaim 2 True ?s3"
  have "wstep True (initGroup True) ?s1" by (rule wstep.load) (simp add: initGroup_def)
  moreover have "wstep True ?s1 ?s2" by (rule wstep.load) (simp add: initGroup_def loadSent_def)
  moreover have "wstep True ?s2 ?s3" by (rule wstep.claim) (simp add: initGroup_def loadSent_def)
  moreover have "wstep True ?s3 ?s4" by (rule wstep.claim) (simp add: initGroup_def loadSent_def tryClaim_def)
  ultimately have "(wstep True)\<^sup>*\<^sup>* (initGroup True) ?s4" using r_into_rtranclp rtranclp.rtrancl_into_rtrancl by metis
  from config_single_flight [OF this] have "requesting ?s4 1 \<Longrightarrow> requesting ?s4 2 \<Longrightarrow> (1 :: nat) = 2" by blast
  moreover have "requesting ?s3 1" "requesting ?s4 1"
    by (simp_all add: requesting_def tryClaim_def loadSent_def initGroup_def)
  ultimately show ?thesis by auto
qed

section \<open>The start of the groups\<close>

text \<open>Group \<open>g\<close> uses the hash of its index, cyclically, and its own identity in the credential cache.\<close>

definition groupHash :: "string list \<Rightarrow> nat \<Rightarrow> string" where
  "groupHash hashes hashIndex = hashes ! (hashIndex mod length hashes)"

definition credStreamID :: "nat \<Rightarrow> nat" where "credStreamID groupID = groupID * 100"

definition credsFatal :: "string \<Rightarrow> bool" where
  "credsFatal e \<longleftrightarrow> Contains e ''FATAL_AUTH'' \<or> Contains e ''context canceled''"

definition credsWait :: "string \<Rightarrow> nat" where
  "credsWait e = (if Contains e ''CAPTCHA_WAIT_REQUIRED'' then 65 else 15)"

text \<open>
  The credential loop on the results of its requests (\<open>None\<close> is a success): whether it got credentials, and its waits in
  seconds.  \<open>None\<close> when the list ends before the loop does.
\<close>

fun credsLoop :: "string option list \<Rightarrow> (bool \<times> nat list) option" where
  "credsLoop [] = None"
| "credsLoop (None # rs) = Some (True, [])"
| "credsLoop (Some e # rs) =
     (if credsFatal e then Some (False, []) else map_option (\<lambda>(b, ws). (b, credsWait e # ws)) (credsLoop rs))"

definition got :: "string option list \<Rightarrow> bool" where
  "got rs \<longleftrightarrow> map_option fst (credsLoop rs) = Some True"

datatype gphase = GWaiting | GFetching "string option list" | GRunning | GEnded

record chain =
  gphase :: "nat \<Rightarrow> gphase"
  pending :: "nat \<Rightarrow> bool"
  signalled :: "nat \<Rightarrow> bool"

definition initChain :: chain where
  "initChain = \<lparr>gphase = (\<lambda>_. GWaiting), pending = (\<lambda>_. False), signalled = (\<lambda>_. False)\<rparr>"

text \<open>One request of group \<open>g\<close> of \<open>n\<close>; with credentials its workers run and the signal to the next group is under way.\<close>

fun onCreds :: "nat \<Rightarrow> nat \<Rightarrow> string option \<Rightarrow> string option list \<Rightarrow> chain \<Rightarrow> chain" where
  "onCreds n g None rs s = s\<lparr>gphase := (gphase s)(g := GRunning), pending := (pending s)(g := g + 1 < n)\<rparr>"
| "onCreds n g (Some e) rs s = s\<lparr>gphase := (gphase s)(g := if credsFatal e then GEnded else GFetching rs)\<rparr>"

inductive chain_step :: "nat \<Rightarrow> (nat \<Rightarrow> string option list) \<Rightarrow> chain \<Rightarrow> chain \<Rightarrow> bool" for n results where
  go: "g < n \<Longrightarrow> gphase s g = GWaiting \<Longrightarrow> g = 0 \<or> signalled s (g - 1) \<Longrightarrow>
    chain_step n results s (s\<lparr>gphase := (gphase s)(g := GFetching (results g))\<rparr>)"
| request: "g < n \<Longrightarrow> gphase s g = GFetching (r # rs) \<Longrightarrow> chain_step n results s (onCreds n g r rs s)"
| signal: "g < n \<Longrightarrow> pending s g \<Longrightarrow>
    chain_step n results s (s\<lparr>pending := (pending s)(g := False), signalled := (signalled s)(g := True)\<rparr>)"
| workersDone: "g < n \<Longrightarrow> gphase s g = GRunning \<Longrightarrow> chain_step n results s (s\<lparr>gphase := (gphase s)(g := GEnded)\<rparr>)"

inductive_cases chain_stepE: "chain_step n results s t"

fun phaseWork :: "string option list \<Rightarrow> gphase \<Rightarrow> nat" where
  "phaseWork rs GWaiting = length rs + 4"
| "phaseWork rs (GFetching rs') = length rs' + 3"
| "phaseWork rs GRunning = 1"
| "phaseWork rs GEnded = 0"

definition chainWork :: "nat \<Rightarrow> (nat \<Rightarrow> string option list) \<Rightarrow> chain \<Rightarrow> nat" where
  "chainWork n results s = (\<Sum>g<n. phaseWork (results g) (gphase s g) + (if pending s g then 1 else 0))"

lemma sum_less_at:
  fixes f h :: "nat \<Rightarrow> nat"
  assumes "g < n" "f g < h g" "\<And>i. i \<noteq> g \<Longrightarrow> f i = h i"
  shows "(\<Sum>i<n. f i) < (\<Sum>i<n. h i)"
proof (rule sum_strict_mono_ex1)
  show "\<forall>i\<in>{..<n}. f i \<le> h i" using assms(2,3) by (metis le_less)
qed (use assms in auto)

lemma chain_step_work: "chain_step n results s t \<Longrightarrow> chainWork n results t < chainWork n results s"
proof (elim chain_stepE)
  fix g r rs assume *: "g < n" "gphase s g = GFetching (r # rs)" "t = onCreds n g r rs s"
  then show ?thesis
    unfolding chainWork_def by (intro sum_less_at [of g]) (cases r; auto)+
qed (unfold chainWork_def, (rule sum_less_at, assumption, auto)+)

text \<open>What holds of every group in a state that was reached.\<close>

definition group_ok :: "nat \<Rightarrow> (nat \<Rightarrow> string option list) \<Rightarrow> chain \<Rightarrow> nat \<Rightarrow> bool" where
  "group_ok n results s g \<longleftrightarrow>
     (\<forall>rs. gphase s g = GFetching rs \<longrightarrow> map_option fst (credsLoop rs) = map_option fst (credsLoop (results g))) \<and>
     (gphase s g = GRunning \<longrightarrow> got (results g)) \<and>
     (pending s g \<or> signalled s g \<longrightarrow> got (results g) \<and> (gphase s g = GRunning \<or> gphase s g = GEnded)) \<and>
     (gphase s g = GRunning \<or> gphase s g = GEnded \<and> got (results g) \<longrightarrow> g + 1 < n \<longrightarrow> pending s g \<or> signalled s g) \<and>
     (gphase s g \<noteq> GWaiting \<longrightarrow> g = 0 \<or> signalled s (g - 1))"

lemma map_fst_wait: "map_option fst (map_option (\<lambda>(b, ws). (b, w # ws)) x) = map_option fst x"
  by (cases x) auto

lemma group_ok_other:
  assumes "group_ok n results s k" "gphase t k = gphase s k" "pending t k = pending s k"
    "signalled t k = signalled s k" "k = 0 \<or> signalled s (k - 1) \<Longrightarrow> k = 0 \<or> signalled t (k - 1)"
  shows "group_ok n results t k"
  using assms(1,5) unfolding group_ok_def assms(2-4) by blast

lemma group_ok_request:
  assumes "group_ok n results s g" "gphase s g = GFetching (r # rs)"
  shows "group_ok n results (onCreds n g r rs s) g"
proof -
  have *: "map_option fst (credsLoop (r # rs)) = map_option fst (credsLoop (results g))" "g = 0 \<or> signalled s (g - 1)"
    "\<not> pending s g" "\<not> signalled s g"
    using assms unfolding group_ok_def by auto
  show ?thesis
  proof (cases r)
    case None
    then have "got (results g)" using *(1) by (simp add: got_def)
    then show ?thesis using None * by (simp add: group_ok_def)
  next
    case (Some e)
    show ?thesis
    proof (cases "credsFatal e")
      case True
      then have "\<not> got (results g)" using *(1) Some by (auto simp: got_def)
      then show ?thesis using Some True * by (simp add: group_ok_def)
    next
      case False
      then show ?thesis using Some * by (simp add: group_ok_def map_fst_wait)
    qed
  qed
qed

lemma group_ok_step:
  assumes "chain_step n results s t" "\<And>g. g < n \<Longrightarrow> group_ok n results s g" "k < n"
  shows "group_ok n results t k"
  using assms(1)
proof (cases rule: chain_step.cases)
  case (request g r rs)
  then show ?thesis
    using assms(2) [OF assms(3)] group_ok_request [of n results s g r rs]
    by (cases "k = g"; cases r) (auto elim!: group_ok_other)
next
  case (go g)
  then show ?thesis using assms(2) [OF assms(3)]
    by (cases "k = g") (auto simp: group_ok_def intro: group_ok_other)
next
  case (signal g)
  then show ?thesis using assms(2) [OF assms(3)]
    by (cases "k = g") (auto simp: group_ok_def elim!: group_ok_other)
next
  case (workersDone g)
  then show ?thesis using assms(2) [OF assms(3)]
    by (cases "k = g") (auto simp: group_ok_def intro: group_ok_other)
qed

lemma group_ok_reachable:
  assumes "(chain_step n results)\<^sup>*\<^sup>* initChain s"
  shows "g < n \<Longrightarrow> group_ok n results s g"
  using assms
proof (induction arbitrary: g rule: rtranclp_induct)
  case base show ?case by (simp add: group_ok_def initChain_def)
next
  case (step s t) then show ?case by (blast intro: group_ok_step)
qed

definition stuck :: "nat \<Rightarrow> (nat \<Rightarrow> string option list) \<Rightarrow> chain \<Rightarrow> bool" where
  "stuck n results s \<longleftrightarrow> (\<forall>t. \<not> chain_step n results s t)"

lemma stuck_groups:
  assumes "stuck n results s" "g < n" "credsLoop (results g) \<noteq> None" "group_ok n results s g"
  shows "\<not> pending s g \<and> (gphase s g = GEnded \<or> gphase s g = GWaiting \<and> 0 < g \<and> \<not> signalled s (g - 1))"
proof -
  have no: "\<not> chain_step n results s t" for t using assms(1) by (simp add: stuck_def)
  have "gphase s g \<noteq> GFetching rs" for rs
  proof (cases rs)
    case Nil then show ?thesis using assms(3,4) by (auto simp: group_ok_def)
  next
    case (Cons r rs') then show ?thesis using no chain_step.request [OF assms(2)] by blast
  qed
  moreover have "gphase s g \<noteq> GRunning" using no chain_step.workersDone [OF assms(2)] by blast
  moreover have "\<not> pending s g" using no chain_step.signal [OF assms(2)] by blast
  moreover have "gphase s g = GWaiting \<Longrightarrow> \<not> (g = 0 \<or> signalled s (g - 1))" using no chain_step.go [OF assms(2)] by blast
  ultimately show ?thesis by (cases "gphase s g") auto
qed

lemma stuck_outcome:
  assumes s: "stuck n results s" "\<And>g. g < n \<Longrightarrow> group_ok n results s g" "\<And>g. g < n \<Longrightarrow> credsLoop (results g) \<noteq> None"
  shows "g < n \<Longrightarrow> gphase s g = (if \<forall>h<g. got (results h) then GEnded else GWaiting)"
proof (induction g)
  case 0 then show ?case using stuck_groups [OF s(1) _ s(3) s(2)] by auto
next
  case (Suc g)
  then have g: "g < n" "gphase s g = (if \<forall>h<g. got (results h) then GEnded else GWaiting)" by auto
  note sg = stuck_groups [OF s(1) g(1) s(3) [OF g(1)] s(2) [OF g(1)]]
  note ss = stuck_groups [OF s(1) Suc.prems s(3) [OF Suc.prems] s(2) [OF Suc.prems]]
  have "signalled s g \<longleftrightarrow> gphase s g = GEnded \<and> got (results g)"
  proof
    assume "signalled s g"
    then show "gphase s g = GEnded \<and> got (results g)" using s(2) [OF g(1)] sg by (auto simp: group_ok_def)
  next
    assume "gphase s g = GEnded \<and> got (results g)"
    then show "signalled s g" using sg s(2) [OF g(1)] Suc.prems by (auto simp: group_ok_def)
  qed
  moreover have "gphase s (Suc g) \<noteq> GWaiting \<Longrightarrow> signalled s g" using s(2) [OF Suc.prems] by (simp add: group_ok_def)
  ultimately show ?case using g(2) ss by (cases "\<forall>h<g. got (results h)") (auto simp: less_Suc_eq)
qed

lemma chain_run_bounded: "(chain_step n results ^^ k) s t \<Longrightarrow> k + chainWork n results t \<le> chainWork n results s"
proof (induction k arbitrary: t)
  case (Suc k)
  then obtain u where "(chain_step n results ^^ k) s u" "chain_step n results u t" by auto
  then show ?case using Suc.IH [of u] chain_step_work [of n results u t] by simp
qed simp

text \<open>
  C35. The start of the groups always comes to rest, within a number of steps that is linear in the requests: if every group's
  credential loop ends, a run that cannot go on has ended exactly the groups all of whose predecessors got credentials, and the
  others wait.  So the core sees all groups end, and reports that the workers completed, only if every group but the last got
  credentials.
\<close>

theorem group_chain:
  assumes run: "(chain_step n results ^^ k) initChain s"
  shows "k \<le> (\<Sum>g<n. length (results g) + 4) \<and>
     ((\<forall>g<n. credsLoop (results g) \<noteq> None) \<and> stuck n results s \<longrightarrow>
        (\<forall>g<n. gphase s g = (if \<forall>h<g. got (results h) then GEnded else GWaiting)) \<and>
        ((\<forall>g<n. gphase s g = GEnded) \<longleftrightarrow> (\<forall>g. g + 1 < n \<longrightarrow> got (results g))))"
proof -
  have "chainWork n results initChain = (\<Sum>g<n. length (results g) + 4)" by (simp add: chainWork_def initChain_def)
  moreover have "(chain_step n results)\<^sup>*\<^sup>* initChain s" using run by (rule relpowp_imp_rtranclp)
  note ok = group_ok_reachable [OF this]
  have "(\<forall>g<n. gphase s g = GEnded) \<longleftrightarrow> (\<forall>g. g + 1 < n \<longrightarrow> got (results g))"
    if "\<forall>g<n. gphase s g = (if \<forall>h<g. got (results h) then GEnded else GWaiting)"
  proof -
    have "(\<forall>g<n. gphase s g = GEnded) \<longleftrightarrow> (\<forall>g<n. \<forall>h<g. got (results h))" using that by auto
    also have "\<dots> \<longleftrightarrow> (\<forall>h. h + 1 < n \<longrightarrow> got (results h))" by (metis Suc_eq_plus1 Suc_lessI less_Suc_eq_le less_or_eq_imp_le lessI less_trans)
    finally show ?thesis .
  qed
  ultimately show ?thesis using chain_run_bounded [OF run] stuck_outcome [of n results s] ok by auto
qed

text \<open>With two groups, the first of which fails for good, the second waits and the groups never all end.\<close>

definition deadRun :: chain where
  "deadRun = initChain\<lparr>gphase := (\<lambda>_. GWaiting)(0 := GEnded)\<rparr>"

lemma deadRun_run: "(chain_step 2 (\<lambda>_. [Some ''FATAL_AUTH'']) ^^ 2) initChain deadRun"
proof -
  let ?R = "\<lambda>_ :: nat. [Some ''FATAL_AUTH'']"
  let ?s1 = "initChain\<lparr>gphase := (gphase initChain)(0 := GFetching (?R 0))\<rparr>"
  have "chain_step 2 ?R initChain ?s1" by (rule chain_step.go) (simp_all add: initChain_def)
  moreover have "chain_step 2 ?R ?s1 (onCreds 2 0 (Some ''FATAL_AUTH'') [] ?s1)" by (rule chain_step.request) (simp_all)
  moreover have "credsFatal ''FATAL_AUTH''" by code_simp
  then have "onCreds 2 0 (Some ''FATAL_AUTH'') [] ?s1 = deadRun" by (simp add: deadRun_def initChain_def)
  ultimately show ?thesis by (auto simp: numeral_2_eq_2)
qed

theorem group_chain_witness:
  "\<not> (\<forall>g<2. gphase deadRun g = GEnded) \<and> gphase deadRun 1 = GWaiting"
proof -
  let ?R = "\<lambda>_ :: nat. [Some ''FATAL_AUTH'']"
  have v: "credsLoop (?R 0) = Some (False, [])" by code_simp
  have "stuck 2 ?R deadRun"
    unfolding stuck_def by (auto elim!: chain_stepE simp: deadRun_def initChain_def split: if_splits)
  then have "gphase deadRun 1 = (if \<forall>h<1. got (?R h) then GEnded else GWaiting)"
    using group_chain [OF deadRun_run] v by auto
  moreover have "\<not> got (?R 0)" using v by (simp add: got_def)
  ultimately have w: "gphase deadRun 1 = GWaiting" by auto
  moreover have "(1 :: nat) < 2" by simp
  ultimately show ?thesis by (metis gphase.distinct(5))
qed

end
