(* ===== verification/Running.thy ===== *)
theory Running
  imports Routes
begin

text \<open>
  What a process learns about the daemons that run (\<open>utils.go\<close>, \<open>config.go\<close> and parts of \<open>commands.go\<close>): the state files of the
  split tunnel, the details read from PID files and command lines, the choice of the daemon that a bypass command talks to, and
  the check of a SOCKS5 listen address.
\<close>

section \<open>State files of the split tunnel\<close>

record split_state =
  ssBlackList :: string
  ssBlackListFile :: string
  ssMtime :: int
  ssDomains :: "string list"
  ssRoutes :: "string list"

type_synonym split_files = "string \<Rightarrow> split_state option"

text \<open>\<open>mtime\<close> is what \<open>os.Stat\<close> says of a file.\<close>

definition blFileMtime :: "bl_env \<Rightarrow> (string \<Rightarrow> int option) \<Rightarrow> string \<Rightarrow> int" where
  "blFileMtime env mtime path =
     (if path = [] then 0
      else
        let expanded = (case expandPath env path of Inr e \<Rightarrow> if e = [] then path else e | Inl _ \<Rightarrow> path)
        in case mtime expanded of Some t \<Rightarrow> t | None \<Rightarrow> 0)"

definition writeSplitCfg :: "bl_env \<Rightarrow> (string \<Rightarrow> int option) \<Rightarrow> bool \<Rightarrow> string \<Rightarrow> string \<Rightarrow> string \<Rightarrow> string list \<Rightarrow> string list
    \<Rightarrow> split_files \<Rightarrow> split_files" where
  "writeSplitCfg env mtime canWrite profile bl blFile applied routes fs =
     (if canWrite
      then fs(profile \<mapsto> \<lparr>ssBlackList = bl, ssBlackListFile = blFile, ssMtime = blFileMtime env mtime blFile,
                          ssDomains = applied, ssRoutes = routes\<rparr>)
      else fs)"

definition readSplitCfgFull :: "string \<Rightarrow> split_files \<Rightarrow> split_state" where
  "readSplitCfgFull profile fs =
     (case fs profile of
        None \<Rightarrow> \<lparr>ssBlackList = [], ssBlackListFile = [], ssMtime = 0, ssDomains = [], ssRoutes = []\<rparr>
      | Some s \<Rightarrow> s)"

definition removeSplitCfg :: "string \<Rightarrow> split_files \<Rightarrow> split_files" where
  "removeSplitCfg profile fs = fs(profile := None)"

section \<open>Command lines\<close>

text \<open>The arguments of a process as one line: the separators of \<open>/proc\<close> become blanks.\<close>

definition nul :: char where "nul = CHR 0x00"

definition spaced :: "string \<Rightarrow> string" where
  "spaced raw = map (\<lambda>c. if c = nul then CHR '' '' else c) raw"

definition modeOf :: "string \<Rightarrow> string" where
  "modeOf cmdline =
     (if list_ex (Contains cmdline) [''-mode socks'', ''--mode=socks'', ''-mode=socks''] then ''socks''
      else if list_ex (Contains cmdline) [''-mode raw'', ''--mode=raw'', ''-mode=raw''] then ''raw''
      else ''tun'')"

text \<open>The first field that names the option decides, also when its value is not a number.\<close>

fun socksPortOf :: "int \<Rightarrow> string list \<Rightarrow> int" where
  "socksPortOf d [] = d"
| "socksPortOf d (f # fs) =
     (let num = (\<lambda>s. case Atoi s of Some n \<Rightarrow> n | None \<Rightarrow> d) in
      if f \<in> {''-socks-port'', ''--socks-port''} \<and> fs \<noteq> [] then num (hd fs)
      else if HasPrefix f ''-socks-port='' then num (TrimPrefix f ''-socks-port='')
      else if HasPrefix f ''--socks-port='' then num (TrimPrefix f ''--socks-port='')
      else socksPortOf d fs)"

definition publicOf :: "string list \<Rightarrow> bool" where
  "publicOf ws \<longleftrightarrow> list_ex (\<lambda>f. f \<in> {''-pub'', ''--pub'', ''-public'', ''--public''}) ws"

fun listenOf :: "string list \<Rightarrow> string" where
  "listenOf [] = []"
| "listenOf (f # fs) =
     (if f \<in> {''-listen'', ''--listen''} \<and> fs \<noteq> [] then hd fs
      else if HasPrefix f ''--listen='' then TrimPrefix f ''--listen=''
      else if HasPrefix f ''-listen='' then TrimPrefix f ''-listen=''
      else listenOf fs)"

text \<open>The last field that sets an option decides; \<open>names\<close> take the next field, \<open>pre\<close> are the forms with an equals sign.\<close>

fun lastValue :: "string list \<Rightarrow> string list \<Rightarrow> string list \<Rightarrow> string \<Rightarrow> string" where
  "lastValue names pre [] v = v"
| "lastValue names pre (f # fs) v =
     lastValue names pre fs
       (foldl (\<lambda>v p. if HasPrefix f p then TrimPrefix f p else v) (if f \<in> set names \<and> fs \<noteq> [] then hd fs else v) pre)"

section \<open>Details of running profiles\<close>

record ProfileDetails =
  rdMode :: string
  rdSocksPort :: int
  rdSocksUser :: string
  rdSocksPass :: string
  rdSocksPublic :: bool
  rdSocksListenAddr :: string
  rdPID :: int
  rdBlackList :: string
  rdBlackListFile :: string
  rdBlackListMtime :: int
  rdBlackListDomains :: "string list"
  rdSplitRoutes :: "string list"

definition defaultSocksPort :: int where "defaultSocksPort = 9050"

definition socksPart :: "string list \<Rightarrow> ProfileDetails \<Rightarrow> ProfileDetails" where
  "socksPart ws d =
     d\<lparr>rdMode := ''socks'', rdSocksPort := socksPortOf defaultSocksPort ws, rdSocksPublic := publicOf ws,
       rdSocksListenAddr := listenOf ws\<rparr>"

definition emptyDetails :: "int \<Rightarrow> ProfileDetails" where
  "emptyDetails pid =
     \<lparr>rdMode = ''tun'', rdSocksPort = 0, rdSocksUser = [], rdSocksPass = [], rdSocksPublic = False, rdSocksListenAddr = [],
      rdPID = pid, rdBlackList = [], rdBlackListFile = [], rdBlackListMtime = 0, rdBlackListDomains = [], rdSplitRoutes = []\<rparr>"

definition modePart :: "string \<Rightarrow> ProfileDetails \<Rightarrow> ProfileDetails" where
  "modePart cmdline d =
     (if modeOf cmdline = ''socks'' then socksPart (Fields cmdline) d else d\<lparr>rdMode := modeOf cmdline\<rparr>)"

definition optionPart :: "string list \<Rightarrow> ProfileDetails \<Rightarrow> ProfileDetails" where
  "optionPart ws d =
     d\<lparr>rdSocksUser := lastValue [''-socks-user'', ''--socks-user''] [''-socks-user='', ''--socks-user=''] ws [],
       rdSocksPass := lastValue [''-socks-password'', ''--socks-password''] [''-socks-password='', ''--socks-password=''] ws [],
       rdBlackList := lastValue [''-bl'', ''--bl'', ''--black-list''] [''-bl='', ''--bl='', ''--black-list=''] ws [],
       rdBlackListFile := lastValue [''-bl-file'', ''--bl-file'', ''--black-list-file'']
         [''-bl-file='', ''--bl-file='', ''--black-list-file=''] ws []\<rparr>"

text \<open>The state file wins over the command line, if it says anything.\<close>

definition statePart :: "split_state \<Rightarrow> ProfileDetails \<Rightarrow> ProfileDetails" where
  "statePart s d =
     (if ssBlackList s \<noteq> [] \<or> ssBlackListFile s \<noteq> [] \<or> ssRoutes s \<noteq> []
      then d\<lparr>rdBlackList := ssBlackList s, rdBlackListFile := ssBlackListFile s, rdBlackListMtime := ssMtime s,
             rdBlackListDomains := ssDomains s, rdSplitRoutes := ssRoutes s\<rparr>
      else d)"

text \<open>
  The runtime directory and \<open>/proc\<close>: the file names in the order of the directory, the trimmed content of the PID file of a
  profile (empty when it cannot be read), the live processes, their command lines, and the state files.
\<close>

record run_env =
  runEntries :: "string list"
  pidText :: "string \<Rightarrow> string"
  alive :: "int \<Rightarrow> bool"
  cmdlineOf :: "int \<Rightarrow> string option"
  splitOf :: split_files

definition pidOf :: "run_env \<Rightarrow> string \<Rightarrow> int option" where
  "pidOf re profile = (case Atoi (TrimSpace (pidText re profile)) of Some pid \<Rightarrow> if alive re pid then Some pid else None | None \<Rightarrow> None)"

definition isDaemonRunning :: "run_env \<Rightarrow> string \<Rightarrow> bool" where
  "isDaemonRunning re profile \<longleftrightarrow> pidOf re profile \<noteq> None"

definition pidFileProfile :: "string \<Rightarrow> string option" where
  "pidFileProfile name =
     (if \<not> HasSuffix name ''.pid'' \<or> \<not> HasPrefix name ''qwdtt-'' then None
      else
        let p = TrimSuffix (TrimPrefix name ''qwdtt-'') ''.pid'' in if p = [] then None else Some p)"

definition daemonDetails :: "run_env \<Rightarrow> string \<Rightarrow> ProfileDetails option" where
  "daemonDetails re profile =
     (case pidOf re profile of
        None \<Rightarrow> None
      | Some pid \<Rightarrow>
          (case cmdlineOf re pid of
             None \<Rightarrow> None
           | Some raw \<Rightarrow>
               Some (statePart (readSplitCfgFull profile (splitOf re))
                 (optionPart (Fields (spaced raw)) (modePart (spaced raw) (emptyDetails pid))))))"

text \<open>The profile that the auto-switch daemon runs at the moment; only the mode part is read from its command line.\<close>

definition autoswitchDetails :: "run_env \<Rightarrow> string \<Rightarrow> int \<Rightarrow> ProfileDetails" where
  "autoswitchDetails re current pid =
     statePart (readSplitCfgFull current (splitOf re))
       (case cmdlineOf re pid of None \<Rightarrow> emptyDetails pid | Some raw \<Rightarrow> modePart (spaced raw) (emptyDetails pid))"

definition getRunningProfileDetails :: "run_env \<Rightarrow> string \<Rightarrow> (string \<times> ProfileDetails) list" where
  "getRunningProfileDetails re current =
     (let own = foldl (\<lambda>m name. case pidFileProfile name of
                         None \<Rightarrow> m
                       | Some p \<Rightarrow> (case daemonDetails re p of None \<Rightarrow> m | Some d \<Rightarrow> AList.update p d m)) [] (runEntries re)
      in if current = [] then own
         else case pidOf re ''autoswitch'' of
           None \<Rightarrow> own
         | Some pid \<Rightarrow> if map_of own current \<noteq> None then own else AList.update current (autoswitchDetails re current pid) own)"

definition getAutoswitchMode :: "run_env \<Rightarrow> string" where
  "getAutoswitchMode re =
     (if pidText re ''autoswitch'' = [] then []
      else case pidOf re ''autoswitch'' of
        None \<Rightarrow> []
      | Some pid \<Rightarrow> (case cmdlineOf re pid of None \<Rightarrow> ''tun'' | Some raw \<Rightarrow> modeOf (spaced raw)))"

section \<open>Which daemon a bypass command means\<close>

definition kernelMode :: "ProfileDetails \<Rightarrow> bool" where
  "kernelMode d \<longleftrightarrow> rdMode d = ''tun'' \<or> rdMode d = ''raw''"

definition kernelAt :: "(string \<times> ProfileDetails) list \<Rightarrow> string \<Rightarrow> ProfileDetails option" where
  "kernelAt details p = (case map_of details p of Some d \<Rightarrow> if kernelMode d then Some d else None | None \<Rightarrow> None)"

text \<open>
  \<open>details\<close> is in the order in which the map is iterated, which Go leaves open.  \<open>current\<close> and \<open>active\<close> are the profiles of the
  pointer files.
\<close>

definition getCurrentBlFile :: "bool \<Rightarrow> string \<Rightarrow> string \<Rightarrow> (string \<times> ProfileDetails) list \<Rightarrow> string" where
  "getCurrentBlFile autoswitchRunning current active details =
     (case (if autoswitchRunning \<and> current \<noteq> [] then kernelAt details current else None) of
        Some d \<Rightarrow> rdBlackListFile d
      | None \<Rightarrow>
          (case (if active \<noteq> [] \<and> active \<noteq> ''autoswitch'' then kernelAt details active else None) of
             Some d \<Rightarrow> rdBlackListFile d
           | None \<Rightarrow> (case find (\<lambda>(_, d). kernelMode d) details of Some (_, d) \<Rightarrow> rdBlackListFile d | None \<Rightarrow> [])))"

definition getBlFileForProfile :: "bool \<Rightarrow> string \<Rightarrow> string \<Rightarrow> split_files \<Rightarrow> (string \<times> ProfileDetails) list \<Rightarrow> string \<Rightarrow> string" where
  "getBlFileForProfile autoswitchRunning current active fs details profile =
     (if profile = [] then getCurrentBlFile autoswitchRunning current active details
      else
        let own = (case map_of details profile of Some d \<Rightarrow> rdBlackListFile d | None \<Rightarrow> []); s = readSplitCfgFull profile fs
        in if own \<noteq> [] then own
           else if ssBlackListFile s \<noteq> [] then ssBlackListFile s
           else if ssBlackList s \<noteq> [] then []
           else case find (\<lambda>(_, d). rdBlackListFile d \<noteq> []) details of Some (_, d) \<Rightarrow> rdBlackListFile d | None \<Rightarrow> [])"

datatype socket_error = NoKernelDaemon | NoDetails string | SocketMissing string

definition resolveBlSocket :: "bool \<Rightarrow> string \<Rightarrow> string \<Rightarrow> (string \<Rightarrow> bool) \<Rightarrow> (string \<times> ProfileDetails) list \<Rightarrow> string
    \<Rightarrow> socket_error + (string \<times> string \<times> string)" where
  "resolveBlSocket autoswitchRunning current active sockExists details explicit =
     (let target = (if explicit \<noteq> [] then
                      Some (if autoswitchRunning \<and> current = explicit then ''autoswitch'' else explicit, explicit)
                    else if autoswitchRunning \<and> current \<noteq> [] \<and> kernelAt details current \<noteq> None then Some (''autoswitch'', current)
                    else if active \<noteq> [] \<and> active \<noteq> ''autoswitch'' \<and> kernelAt details active \<noteq> None then Some (active, active)
                    else map_option (\<lambda>(n, _). (n, n)) (find (\<lambda>(n, d). n \<noteq> ''autoswitch'' \<and> kernelMode d) details))
      in case target of
           None \<Rightarrow> Inl NoKernelDaemon
         | Some (sock, p) \<Rightarrow>
             (case map_of details p of
                None \<Rightarrow> Inl (NoDetails p)
              | Some d \<Rightarrow> if \<not> sockExists sock then Inl (SocketMissing sock) else Inr (sock, p, rdMode d)))"

section \<open>Bypass files with changes that were not applied\<close>

text \<open>\<open>absClean\<close> is \<open>filepath.Clean\<close> after \<open>filepath.Abs\<close>.\<close>

definition normalizeBlPath :: "bl_env \<Rightarrow> (string \<Rightarrow> string) \<Rightarrow> string \<Rightarrow> string" where
  "normalizeBlPath env absClean p =
     (if p = [] then [] else absClean (case expandPath env p of Inr e \<Rightarrow> if e = [] then p else e | Inl _ \<Rightarrow> p))"

definition isBlFilePending :: "bl_env \<Rightarrow> (string \<Rightarrow> string) \<Rightarrow> (string \<Rightarrow> int option) \<Rightarrow> string \<Rightarrow> int \<Rightarrow> bool" where
  "isBlFilePending env absClean mtime blFile appliedMtime =
     (if blFile = [] \<or> appliedMtime \<le> 0 then False
      else case mtime (normalizeBlPath env absClean blFile) of None \<Rightarrow> False | Some t \<Rightarrow> t > appliedMtime)"

definition isBlPendingForProfile :: "bl_env \<Rightarrow> (string \<Rightarrow> string) \<Rightarrow> (string \<Rightarrow> int option) \<Rightarrow> int \<Rightarrow> ProfileDetails option \<Rightarrow> bool" where
  "isBlPendingForProfile env absClean mtime stateFileMtime od =
     (case od of
        None \<Rightarrow> False
      | Some d \<Rightarrow>
          if rdBlackListFile d = [] then False
          else if rdBlackListMtime d > 0 then isBlFilePending env absClean mtime (rdBlackListFile d) (rdBlackListMtime d)
          else isBlFilePending env absClean mtime (rdBlackListFile d) stateFileMtime)"

definition blProfileForFile :: "bl_env \<Rightarrow> (string \<Rightarrow> string) \<Rightarrow> (string \<times> ProfileDetails) list \<Rightarrow> string \<Rightarrow> (string \<times> ProfileDetails) option" where
  "blProfileForFile env absClean details f =
     (if f = [] then None
      else
        let target = normalizeBlPath env absClean f in
        if target = [] then None
        else find (\<lambda>(n, d). n \<noteq> ''autoswitch'' \<and> normalizeBlPath env absClean (rdBlackListFile d) = target) details)"

text \<open>The listing of a file against what its daemon applied: the rows with their markers, and the applied domains that are gone.\<close>

definition blListing :: "bl_env \<Rightarrow> string list \<Rightarrow> ProfileDetails option \<Rightarrow> (string \<times> string) list \<times> string list" where
  "blListing env listed od =
     (let applied = (case od of Some d \<Rightarrow> domainKey env ` set (rdBlackListDomains d) | None \<Rightarrow> {});
          tags = map (\<lambda>d. (if domainKey env d \<in> applied then [] else ''[!]'', displayDomain env d)) listed;
          removed = (case od of
                       Some d \<Rightarrow> if rdBlackList d = [] then filter (\<lambda>a. domainKey env a \<notin> domainKey env ` set listed) (rdBlackListDomains d) else []
                     | None \<Rightarrow> [])
      in (tags, removed))"

text \<open>What \<open>bl list\<close> prints, without the headings.\<close>

definition blList :: "bl_env \<Rightarrow> string list \<Rightarrow> ProfileDetails option \<Rightarrow> string" where
  "blList env ds od =
     (let listed = sort_key (\<lambda>d. ToLower env (displayDomain env d)) ds; (tags, removed) = blListing env listed od;
          hasPending = (list_ex (\<lambda>t. fst t \<noteq> []) tags \<or> removed \<noteq> []);
          hasApplied = (case od of Some d \<Rightarrow> rdBlackListDomains d \<noteq> [] | None \<Rightarrow> False)
      in if ds = [] then []
         else if hasPending \<and> hasApplied
         then formatTaggedDomains tags [] ''  '' 3
              @ (if removed = [] then [] else formatTaggedDomains (map (\<lambda>d. (''[-]'', displayDomain env d)) removed) ''    '' ''  '' 3)
         else formatDomainsInColumns (map (displayDomain env) listed) [] ''  '' 3)"

section \<open>Listen addresses\<close>

datatype ifaddr = IfNet ipnet | IfAddr bytes | IfOther

record iface =
  ifUp :: bool
  ifAddrs :: "ifaddr list option"

text \<open>\<open>IP.IsUnspecified\<close>, \<open>IP.IsLoopback\<close> and \<open>IP.Equal\<close> of the net package.\<close>

definition IPEqual :: "bytes \<Rightarrow> bytes \<Rightarrow> bool" where
  "IPEqual a b \<longleftrightarrow> As16 a = As16 b"

definition IsUnspecified :: "bytes \<Rightarrow> bool" where
  "IsUnspecified ip \<longleftrightarrow> IPEqual ip [0, 0, 0, 0] \<or> IPEqual ip (replicate 16 0)"

definition IsLoopback :: "bytes \<Rightarrow> bool" where
  "IsLoopback ip \<longleftrightarrow> (case To4 ip of Some ip4 \<Rightarrow> hd ip4 = 127 | None \<Rightarrow> IPEqual ip (replicate 15 0 @ [1]))"

text \<open>\<open>IPMask.Size\<close>: the leading ones and the length in bits, both 0 for a mask that is not a prefix.\<close>

definition maskSize :: "bytes \<Rightarrow> nat \<times> nat" where
  "maskSize m =
     (let bits = ip_bits m; n = length (takeWhile id bits) in
      if list_ex id (drop n bits) then (0, 0) else (n, length bits))"

datatype listen_error = NotAnAddress | NetworkAddress | BroadcastAddress | NotAssigned

definition addrError :: "bytes \<Rightarrow> ifaddr \<Rightarrow> listen_error option" where
  "addrError ip a =
     (case a of
        IfNet (IPNet nip m) \<Rightarrow>
          (let (ones, bits) = maskSize m; network = Mask nip m in
           if ones = bits \<or> int ones = int bits - 1 then None
           else if IPEqual ip network then Some NetworkAddress
           else case (To4 ip, To4 network) of
             (Some _, Some n4) \<Rightarrow> if IPEqual ip (map2 (\<lambda>x k. x OR NOT k) n4 m) then Some BroadcastAddress else None
           | _ \<Rightarrow> None)
      | _ \<Rightarrow> None)"

definition isAddress :: "bytes \<Rightarrow> ifaddr \<Rightarrow> bool" where
  "isAddress ip a \<longleftrightarrow> (case a of IfNet n \<Rightarrow> IPEqual ip (netIP n) | IfAddr b \<Rightarrow> IPEqual ip b | IfOther \<Rightarrow> False)"

text \<open>The loop over the addresses of the interfaces that are up; the first address that forbids the listen address decides.\<close>

fun scanAddrs :: "bytes \<Rightarrow> ifaddr list \<Rightarrow> bool \<Rightarrow> listen_error option" where
  "scanAddrs ip [] found = (if found then None else Some NotAssigned)"
| "scanAddrs ip (a # rest) found =
     (case addrError ip a of
        Some e \<Rightarrow> Some e
      | None \<Rightarrow> scanAddrs ip rest (found \<or> isAddress ip a))"

definition upAddrs :: "iface list \<Rightarrow> ifaddr list" where
  "upAddrs ifaces = concat (map (\<lambda>i. if ifUp i then (case ifAddrs i of Some l \<Rightarrow> l | None \<Rightarrow> []) else []) ifaces)"

definition validateSocksListenAddr :: "iface list option \<Rightarrow> string \<Rightarrow> listen_error option" where
  "validateSocksListenAddr ifaces addr =
     (if addr = [] then None
      else case ParseIP addr of
        None \<Rightarrow> Some NotAnAddress
      | Some ip \<Rightarrow>
          if IsUnspecified ip \<or> IsLoopback ip then None
          else case ifaces of None \<Rightarrow> None | Some ifs \<Rightarrow> scanAddrs ip (upAddrs ifs) False)"

definition isPublicSocksBind :: "string \<Rightarrow> bool" where
  "isPublicSocksBind addr \<longleftrightarrow> addr \<noteq> [] \<and> (case ParseIP addr of Some ip \<Rightarrow> IsUnspecified ip | None \<Rightarrow> False)"

end
