(* ===== verification/Connect.thy ===== *)
theory Connect
  imports Running Core_Runtime
begin

text \<open>
  Connecting (\<open>connect.go\<close>): the checks before the daemon starts, the configuration of the core, the event loop of
  \<open>tryConnectProfile\<close> as a function of the messages it receives, and the rotation of profiles in auto-switch mode.  Messages to
  the user are left out; the split-tunnel state files of \<open>config.go\<close> are a map from profiles to their decoded content.
\<close>

section \<open>Checks before the daemon starts\<close>

record conn_args =
  aWorkers :: int
  aMTU :: int
  aHashes :: string
  aDNS :: string
  aCaptcha :: string
  aAutoSwitch :: bool
  aMode :: string
  aSocksPort :: int
  aSocksUser :: string
  aSocksPass :: string
  aPub :: bool
  aSocksListen :: string
  aRawPort :: int
  aTransport :: string
  aBlackList :: string
  aBlackListFile :: string
  aPositional :: "string list"

datatype refusal =
    PubAndListen | PubWithoutSocks | ListenWithoutSocks | BadListen | NoProfileGiven | BadModeForBl | CommaDomain string | BlFileError go_err
  | ProfileNotFound string | AutoswitchRunning | AutoswitchBusy string | AlreadyRunning string | WgBusy string | RawBusy string
  | SocksPortBusy int | NoCapability

text \<open>What the process finds on the machine.\<close>

record machine_view =
  vRun :: run_env
  wgLink :: bool
  rawLink :: bool
  portInUse :: "int \<Rightarrow> bool"
  capNetAdmin :: bool
  vIfaces :: "iface list option"

definition daemonProfileOf :: "conn_args \<Rightarrow> string \<Rightarrow> string" where
  "daemonProfileOf a profileName = (if profileName = [] \<and> aAutoSwitch a then ''autoswitch'' else profileName)"

definition flagCheck :: "conn_args \<Rightarrow> machine_view \<Rightarrow> refusal option" where
  "flagCheck a v =
     (if aSocksListen a \<noteq> [] \<and> aPub a then Some PubAndListen
      else if aPub a \<and> aMode a \<noteq> ''socks'' then Some PubWithoutSocks
      else if aSocksListen a \<noteq> [] \<and> aMode a \<noteq> ''socks'' then Some ListenWithoutSocks
      else if aSocksListen a \<noteq> [] \<and> validateSocksListenAddr (vIfaces v) (aSocksListen a) \<noteq> None then Some BadListen
      else None)"

definition combinedBl :: "conn_args \<Rightarrow> string" where
  "combinedBl a =
     (if aPositional a = [] then aBlackList a
      else if aBlackList a \<noteq> [] then aBlackList a @ '' '' @ Join (aPositional a) '' ''
      else Join (aPositional a) '' '')"

definition splitConfig :: "bl_env \<Rightarrow> files \<Rightarrow> conn_args \<Rightarrow> refusal + splitTunnelConfig option" where
  "splitConfig env fs a =
     (if aBlackList a = [] \<and> aBlackListFile a = [] \<and> aPositional a = [] then Inr None
      else if aMode a \<notin> {''tun'', ''raw'', ''socks''} then Inl BadModeForBl
      else case splitDomains (combinedBl a) of
        Inl d \<Rightarrow> Inl (CommaDomain d)
      | Inr ds \<Rightarrow>
          (case (if aBlackListFile a = [] then Inr [] else loadBypassRoutesFile env fs (aBlackListFile a)) of
             Inl e \<Rightarrow> Inl (BlFileError e)
           | Inr fileDomains \<Rightarrow>
               Inr (Some \<lparr>scMode = ''blacklist'', scDomains = ds @ fileDomains, scRawBl = combinedBl a, scRawFile = aBlackListFile a\<rparr>)))"

text \<open>The conflicts, in the order of the code; \<open>p\<close> is the profile of the daemon.\<close>

definition conflictCheck :: "conn_args \<Rightarrow> machine_view \<Rightarrow> string \<Rightarrow> refusal option" where
  "conflictCheck a v p =
     (if aAutoSwitch a then
        (if isDaemonRunning (vRun v) ''autoswitch'' then Some AutoswitchRunning
         else if aMode a = ''tun'' \<and> wgLink v then Some (WgBusy p)
         else if aMode a = ''tun'' \<and> rawLink v then Some (RawBusy p)
         else None)
      else if isDaemonRunning (vRun v) p then Some (AlreadyRunning p)
      else if aMode a = ''tun'' then
        (if isDaemonRunning (vRun v) ''autoswitch'' \<and> getAutoswitchMode (vRun v) \<in> {''tun'', ''raw''} then Some (AutoswitchBusy (getAutoswitchMode (vRun v)))
         else if wgLink v then Some (WgBusy p)
         else if rawLink v then Some (RawBusy p)
         else None)
      else if aMode a = ''raw'' then
        (if rawLink v then Some (RawBusy p) else if wgLink v then Some (WgBusy p) else None)
      else if aMode a = ''socks'' then (if portInUse v (aSocksPort a) then Some (SocksPortBusy (aSocksPort a)) else None)
      else None)"

definition checkTunRawCapabilities :: "conn_args \<Rightarrow> machine_view \<Rightarrow> refusal option" where
  "checkTunRawCapabilities a v = (if aMode a = ''socks'' \<or> capNetAdmin v then None else Some NoCapability)"

definition connectChecks :: "io \<Rightarrow> bl_env \<Rightarrow> files \<Rightarrow> store \<Rightarrow> conn_args \<Rightarrow> machine_view \<Rightarrow> string
    \<Rightarrow> refusal + (string \<times> splitTunnelConfig option)" where
  "connectChecks io env fs s a v profileName =
     (let p = daemonProfileOf a profileName in
      case flagCheck a v of
        Some r \<Rightarrow> Inl r
      | None \<Rightarrow>
          if p = [] then Inl NoProfileGiven
          else case splitConfig env fs a of
            Inl r \<Rightarrow> Inl r
          | Inr sc \<Rightarrow>
              if \<not> aAutoSwitch a \<and> (case loadProfile io s p of Inl _ \<Rightarrow> True | Inr _ \<Rightarrow> False) then Inl (ProfileNotFound p)
              else case conflictCheck a v p of
                Some r \<Rightarrow> Inl r
              | None \<Rightarrow> (case checkTunRawCapabilities a v of Some r \<Rightarrow> Inl r | None \<Rightarrow> Inr (p, sc)))"

section \<open>The configuration of the core\<close>

definition cliDefaultWorkers :: int where "cliDefaultWorkers = 9"

definition socksBind :: "conn_args \<Rightarrow> string" where
  "socksBind a =
     (if aPub a then ''0.0.0.0'' else if aSocksListen a \<noteq> [] then aSocksListen a else ''127.0.0.1'')"

definition coreConfig :: "conn_args \<Rightarrow> string \<Rightarrow> ProfileData \<Rightarrow> Config" where
  "coreConfig a deviceID prof =
     \<lparr>PeerAddr = pPeerAddr prof, cfgPassword = pPassword prof,
      cfgHashes = (if aHashes a \<noteq> [] then map TrimSpace (SplitByte CHR '','' (aHashes a)) else pHashes prof),
      Listen = (if aMode a = ''socks'' then ''127.0.0.1:0''
                else if pListen prof = [] then ''127.0.0.1:9000'' else pListen prof),
      TurnHost = pTurnHost prof, TurnPort = pTurnPort prof, DeviceID = deviceID,
      cfgWorkers = (if aWorkers a = cliDefaultWorkers \<and> pWorkers prof > 0 then pWorkers prof else aWorkers a),
      CaptchaMode = aCaptcha a, MTU = aMTU a, DNS = aDNS a, Mode = aMode a, SocksPort = aSocksPort a,
      SocksUser = aSocksUser a, SocksPass = aSocksPass a,
      SocksBindAddr = (if aMode a = ''socks'' then socksBind a else []), WGRawConfig = [],
      RawMode = (aMode a = ''raw''), NoDTLS = False, Transport = aTransport a, RawPort = Itoa (aRawPort a)\<rparr>"

section \<open>The event loop\<close>

text \<open>
  The machine: the kernel interface, the parsers, and the file system.  The state of the daemon process, and what only the
  attempt knows.
\<close>

record 'k machine =
  mNl :: "'k netlink"
  mPs :: wgParsers
  mEnv :: bl_env
  mIo :: io

record 'k world =
  wproc :: "'k proc"
  wstore :: store
  wsplit :: split_files
  wsplitCfg :: "splitTunnelConfig option"
  wsock :: CaptchaSocket

record attempt =
  connected :: bool
  wgConfigured :: bool
  rawConfigured :: bool
  wgTested :: bool
  timerOn :: bool
  runner :: "Router option"
  coreStopped :: bool
  captchaQ :: "string list"

text \<open>What an event handler meets: the TURN addresses so far, other daemons, the resolver, and the outcome of its calls.\<close>

record surroundings =
  eTurnIPs :: "string list"
  eDetails :: "details list"
  eRuntimeDir :: string
  eResolver :: resolver
  eTunnelOk :: bool
  eRunnerOk :: bool
  eMtime :: "string \<Rightarrow> int option"
  eCanWrite :: bool

datatype input =
    CaptchaResult string
  | TimedOut
  | StopRequested
  | SwitchRequested
  | EventsClosed
  | CoreEvent event surroundings
  | SuspendResumed
  | BlReload files string surroundings

datatype verdict = Continue | Leave bool bool

definition stopCore :: "attempt \<Rightarrow> attempt" where
  "stopCore t = t\<lparr>coreStopped := True\<rparr>"

definition teardownMode :: "'k machine \<Rightarrow> attempt \<Rightarrow> 'k world \<Rightarrow> 'k world" where
  "teardownMode m t w =
     (let p = (if wgConfigured t then snd (teardownWG (mNl m) (wproc w))
               else if rawConfigured t then teardownTunnelRoutes (mNl m) (wproc w) else wproc w)
      in w\<lparr>wproc := p\<lparr>activeWireproxy := None\<rparr>\<rparr>)"

text \<open>\<open>skip\<close> is \<open>skipActiveProfileClear\<close>.\<close>

definition clearActive :: "'k machine \<Rightarrow> bool \<Rightarrow> 'k world \<Rightarrow> 'k world" where
  "clearActive m skip w = (if skip then w else w\<lparr>wstore := clearActiveProfile (mIo m) (wstore w)\<rparr>)"

definition noteCurrent :: "'k machine \<Rightarrow> conn_args \<Rightarrow> string \<Rightarrow> 'k world \<Rightarrow> 'k world" where
  "noteCurrent m a name w =
     (if aAutoSwitch a then w\<lparr>wstore := setAutoswitchCurrentProfile (mIo m) name (wstore w)\<rparr> else w)"

definition writeSplitState :: "'k machine \<Rightarrow> surroundings \<Rightarrow> string \<Rightarrow> string list \<Rightarrow> string list \<Rightarrow> 'k world \<Rightarrow> 'k world" where
  "writeSplitState m e name applied routes w =
     (case wsplitCfg w of
        None \<Rightarrow> w
      | Some c \<Rightarrow> w\<lparr>wsplit := writeSplitCfg (mEnv m) (eMtime e) (eCanWrite e) name (scRawBl c) (scRawFile c) applied routes (wsplit w)\<rparr>)"

text \<open>The tunnel works: the attempt does not time out any more.\<close>

definition tested :: "attempt \<Rightarrow> attempt" where
  "tested t = t\<lparr>wgTested := True, timerOn := False\<rparr>"

definition ownDomains :: "'k world \<Rightarrow> string list" where
  "ownDomains w = (case wsplitCfg w of Some c \<Rightarrow> scDomains c | None \<Rightarrow> [])"

definition onRawConf :: "'k machine \<Rightarrow> conn_args \<Rightarrow> bool \<Rightarrow> string \<Rightarrow> string \<Rightarrow> surroundings \<Rightarrow> attempt \<Rightarrow> 'k world
    \<Rightarrow> verdict \<times> attempt \<times> 'k world" where
  "onRawConf m a skip daemon name e t w =
     (let nl = mNl m; t1 = t\<lparr>rawConfigured := True\<rparr>; p = wproc w;
          p1 = (case defaultGateway nl (kern p) of Some gw \<Rightarrow> applyTurnIPsBypass nl (eTurnIPs e) gw p | None \<Rightarrow> p);
          foreign = fetchActiveSocksBypassDomains (eRuntimeDir e) daemon (eDetails e);
          p2 = snd (addKernelBypassRoutes nl (eResolver e) (mergeBypassDomains (ownDomains w) [foreign]) p1)
      in if \<not> eTunnelOk e
         then (Leave False (aAutoSwitch a), stopCore t1, clearActive m skip (w\<lparr>wproc := teardownTunnelRoutes nl p2\<rparr>))
         else (Continue, tested t1,
               noteCurrent m a name (writeSplitState m e name (ownDomains w) (splitRoutes p2) (w\<lparr>wproc := p2\<rparr>))))"

definition onSocksConfig :: "'k machine \<Rightarrow> conn_args \<Rightarrow> bool \<Rightarrow> string \<Rightarrow> surroundings \<Rightarrow> attempt \<Rightarrow> 'k world
    \<Rightarrow> verdict \<times> attempt \<times> 'k world" where
  "onSocksConfig m a skip name e t w =
     (let nl = mNl m; ds = ownDomains w;
          (ips, p1) = (if ds = [] then ([], wproc w)
                       else case resolveDomainIPs (eResolver e) ds (wproc w) of (r, p) \<Rightarrow> ((case r of Some xs \<Rightarrow> xs | None \<Rightarrow> []), p));
          r = NewRouter (ToLower (mEnv m)) ds ips; t1 = t\<lparr>wgConfigured := True, runner := Some r\<rparr>
      in if \<not> eRunnerOk e then (Leave False False, stopCore t1, clearActive m skip (w\<lparr>wproc := p1\<rparr>))
         else
           let p2 = p1\<lparr>activeWireproxy := Some r\<rparr>;
               (routes, p3) = (if wsplitCfg w \<noteq> None \<and> kernelTunnelActive nl (kern p2)
                               then addKernelBypassRoutes nl (eResolver e) ds p2 else ([], p2))
           in (Continue, tested t1,
               noteCurrent m a name (writeSplitState m e name ds routes (w\<lparr>wproc := p3, wsock := SetRouter r (wsock w)\<rparr>))))"

definition onTunConfig :: "'k machine \<Rightarrow> conn_args \<Rightarrow> bool \<Rightarrow> string \<Rightarrow> string \<Rightarrow> surroundings \<Rightarrow> attempt \<Rightarrow> 'k world
    \<Rightarrow> verdict \<times> attempt \<times> 'k world" where
  "onTunConfig m a skip name conf e t w =
     (let nl = mNl m; t1 = t\<lparr>wgConfigured := True\<rparr>;
          foreign = fetchActiveSocksBypassDomains (eRuntimeDir e) name (eDetails e);
          orig = ownDomains w;
          sc = map_option (\<lambda>c. c\<lparr>scDomains := mergeBypassDomains (scDomains c) [foreign]\<rparr>) (wsplitCfg w);
          w1 = w\<lparr>wsplitCfg := sc\<rparr>
      in case applyWGConfig nl (mPs m) (eResolver e) conf (eTurnIPs e) sc (wproc w) of
           (Some _, p1) \<Rightarrow> (Leave False True, stopCore t1, clearActive m skip (w1\<lparr>wproc := snd (teardownWG nl p1)\<rparr>))
         | (None, p1) \<Rightarrow>
             (let p2 = (if sc = None \<and> foreign \<noteq> [] then snd (addKernelBypassRoutes nl (eResolver e) foreign p1) else p1)
              in if \<not> eTunnelOk e
                 then (Leave False (aAutoSwitch a), stopCore t1, clearActive m skip (w1\<lparr>wproc := snd (teardownWG nl p2)\<rparr>))
                 else (Continue, tested t1,
                       noteCurrent m a name (writeSplitState m e name orig (splitRoutes p2) (w1\<lparr>wproc := p2\<rparr>)))))"

definition confText :: string where
  "confText =
  [CHR 0xD0, CHR 0x9A, CHR 0xD0, CHR 0xBE, CHR 0xD0, CHR 0xBD, CHR 0xD1, CHR 0x84, CHR 0xD0, CHR 0xB8, CHR 0xD0, CHR
   0xB3, CHR 0x20, CHR 0xD0, CHR 0xBF, CHR 0xD0, CHR 0xBE, CHR 0xD0, CHR 0xBB, CHR 0xD1, CHR 0x83, CHR 0xD1, CHR 0x87,
   CHR 0xD0, CHR 0xB5, CHR 0xD0, CHR 0xBD]"

definition onEvent :: "'k machine \<Rightarrow> conn_args \<Rightarrow> bool \<Rightarrow> string \<Rightarrow> string \<Rightarrow> event \<Rightarrow> surroundings \<Rightarrow> attempt \<Rightarrow> 'k world
    \<Rightarrow> verdict \<times> attempt \<times> 'k world" where
  "onEvent m a skip daemon name ev e t w =
     (case ev of
        EState status \<Rightarrow>
          if status = ''running'' then (Continue, t\<lparr>connected := True\<rparr>, noteCurrent m a name w)
          else if status = ''disconnected'' then (Leave False False, t, clearActive m skip (teardownMode m t w))
          else (Continue, t, w)
      | ELog level msg \<Rightarrow>
          if Contains msg confText \<or> level = ''ERROR'' \<or> \<not> Contains msg ''FATAL'' then (Continue, t, w)
          else (Leave False False, stopCore t, clearActive m skip (teardownMode m t w))
      | EError _ \<Rightarrow> (Continue, t, w)
      | EEvent ev data \<Rightarrow>
          if aMode a = ''raw'' \<and> ev = ''raw_conf'' \<and> \<not> rawConfigured t then onRawConf m a skip daemon name e t w
          else if aMode a = ''raw'' \<and> ev = ''raw_ready'' then (Continue, t, w)
          else if ev = ''wg_config'' \<and> \<not> wgConfigured t then
            (if aMode a = ''socks'' then onSocksConfig m a skip name e t w else onTunConfig m a skip name data e t w)
          else if ev = ''workers_completed'' then (Leave False False, t, clearActive m skip (teardownMode m t w))
          else (Continue, t, w)
      | EStats _ _ _ \<Rightarrow> (Continue, t, w))"

text \<open>
  A reload arrives on the control socket while the attempt runs; \<open>handleBlReload\<close> answers it.  A comma in the list of the command
  line ends the process, which the checks before the start exclude.
\<close>

definition handleBlReload :: "'k machine \<Rightarrow> conn_args \<Rightarrow> string \<Rightarrow> files \<Rightarrow> string \<Rightarrow> surroundings \<Rightarrow> 'k world \<Rightarrow> 'k world" where
  "handleBlReload m a daemon fs newFile e w =
     (case reloadSplitRoutes (mNl m) (eResolver e) (mEnv m) fs (getAutoswitchCurrentProfile (mIo m) (wstore w))
             (aMode a) (aBlackList a) daemon newFile (wproc w) of
        (ReloadOk profile ds routes, p) \<Rightarrow>
          w\<lparr>wproc := p,
            wsplit := writeSplitCfg (mEnv m) (eMtime e) (eCanWrite e) profile (aBlackList a) newFile ds routes (wsplit w)\<rparr>
      | (_, p) \<Rightarrow> w\<lparr>wproc := p\<rparr>)"

definition connStep :: "'k machine \<Rightarrow> conn_args \<Rightarrow> bool \<Rightarrow> string \<Rightarrow> string \<Rightarrow> input \<Rightarrow> attempt \<Rightarrow> 'k world
    \<Rightarrow> verdict \<times> attempt \<times> 'k world" where
  "connStep m a skip daemon name i t w =
     (case i of
        CaptchaResult r \<Rightarrow> (Continue, t\<lparr>captchaQ := SolveCaptcha r (captchaQ t)\<rparr>, w)
      | TimedOut \<Rightarrow>
          if timerOn t then (Leave False False, stopCore t, clearActive m skip (teardownMode m t w)) else (Continue, t, w)
      | StopRequested \<Rightarrow> (Leave False False, stopCore t, clearActive m skip (teardownMode m t w))
      | SwitchRequested \<Rightarrow> (Leave False False, stopCore t, teardownMode m t w)
      | EventsClosed \<Rightarrow> (Leave False False, t, clearActive m skip (teardownMode m t w))
      | CoreEvent ev e \<Rightarrow> onEvent m a skip daemon name ev e t w
      | SuspendResumed \<Rightarrow> (Leave True False, stopCore t, clearActive m skip (teardownMode m t w))
      | BlReload fs newFile e \<Rightarrow> (Continue, t, handleBlReload m a daemon fs newFile e w))"

text \<open>The loop on the messages it receives; \<open>None\<close> when they end and it would wait for more.\<close>

fun connLoop :: "'k machine \<Rightarrow> conn_args \<Rightarrow> bool \<Rightarrow> string \<Rightarrow> string \<Rightarrow> input list \<Rightarrow> attempt \<Rightarrow> 'k world
    \<Rightarrow> (bool \<times> bool \<times> attempt \<times> 'k world) option" where
  "connLoop m a skip daemon name [] t w = None"
| "connLoop m a skip daemon name (i # is) t w =
     (case connStep m a skip daemon name i t w of
        (Leave wasResume fatal, t1, w1) \<Rightarrow> Some (wasResume, fatal, t1, w1)
      | (Continue, t1, w1) \<Rightarrow> connLoop m a skip daemon name is t1 w1)"

definition freshAttempt :: "conn_args \<Rightarrow> attempt" where
  "freshAttempt a =
     \<lparr>connected = False, wgConfigured = False, rawConfigured = False, wgTested = False, timerOn = aAutoSwitch a, runner = None,
      coreStopped = False, captchaQ = []\<rparr>"

text \<open>What \<open>Start\<close> of the core needs: the resolver, the key derivation, whether its socket opens, and random bytes.\<close>

record start_env =
  sNet :: net_env
  sHkdf :: "string \<Rightarrow> string \<Rightarrow> string \<Rightarrow> bytes"
  sSocketOk :: bool
  sDraw :: bytes

text \<open>\<open>connected\<close> is never returned as true; the result is \<open>wasResume\<close>, \<open>fatal\<close> and the state of the process.\<close>

definition tryConnectProfile :: "'k machine \<Rightarrow> start_env \<Rightarrow> conn_args \<Rightarrow> bool \<Rightarrow> bool \<Rightarrow> string \<Rightarrow> string \<Rightarrow> input list \<Rightarrow> 'k world
    \<Rightarrow> (bool \<times> bool \<times> 'k world) option" where
  "tryConnectProfile m se a setActive skip daemon name inputs w =
     (let deferred = (\<lambda>w. w\<lparr>wsplit := removeSplitCfg name (wsplit w)\<rparr>) in
      case loadProfile (mIo m) (wstore w) name of
        Inl _ \<Rightarrow> Some (False, False, deferred (clearActive m skip w))
      | Inr prof \<Rightarrow>
          (let (deviceID, st1) = (if pDeviceID prof = [] then getOrCreateDeviceID (mIo m) (sDraw se) (wstore w)
                                  else (pDeviceID prof, wstore w));
               st2 = (if setActive then setActiveProfile (mIo m) name st1 else st1); w1 = w\<lparr>wstore := st2\<rparr>
           in case New (coreConfig a deviceID prof) of
                Inl _ \<Rightarrow> Some (False, aAutoSwitch a, deferred (clearActive m skip w1))
              | Inr (cfg, _) \<Rightarrow>
                  (case Start (sNet se) (sHkdf se) (sSocketOk se) cfg of
                     Inl _ \<Rightarrow>
                       (let w2 = clearActive m skip w1
                        in Some (False, aAutoSwitch a, deferred (w2\<lparr>wproc := snd (teardownWG (mNl m) (wproc w2))\<rparr>)))
                   | Inr _ \<Rightarrow> map_option (\<lambda>(r, f, t, w). (r, f, deferred w)) (connLoop m a skip daemon name inputs (freshAttempt a) w1))))"

end
