(* ===== verification/Connect_Exit.thy ===== *)
theory Connect_Exit
  imports Connect
begin

text \<open>
  Every way out of an attempt to connect restores the routing table: an invariant of the event loop says that the routes of the
  process are tracked, and that nothing was touched before the tunnel was configured.
\<close>

section \<open>What the operations leave alone\<close>

named_theorems wproc_simps

lemma wproc_frame [wproc_simps]:
  "wproc (clearActive m skip w) = wproc w" "wproc (noteCurrent m a name w) = wproc w" "wproc (writeSplitState m e name ap rs w) = wproc w"
  by (simp_all add: clearActive_def noteCurrent_def writeSplitState_def split: option.split)

lemma runner_turn [simp]: "activeWireproxy (applyTurnIPsBypass nl ips gw p) = activeWireproxy p"
  by (simp add: applyTurnIPsBypass_def split: prod.split)

lemma runner_clear [simp]: "activeWireproxy (clearSplitRoutes nl p) = activeWireproxy p"
  by (simp add: clearSplitRoutes_def)

lemma runner_teardown [simp]:
  "activeWireproxy (teardownTunnelRoutes nl p) = activeWireproxy p"
  "activeWireproxy (snd (teardownWG nl p)) = activeWireproxy p"
  by (simp_all add: teardownTunnelRoutes_def teardownWG_def Let_def split: option.split prod.split)

lemma runner_bypass [simp]: "activeWireproxy (snd (addKernelBypassRoutes nl rs ds p)) = activeWireproxy p"
proof -
  obtain r p1 where res: "resolveDomainIPs rs ds p = (r, p1)" by fastforce
  then show ?thesis
    using resolve_kern [OF res] by (auto simp: addKernelBypassRoutes_def split: option.split prod.split)
qed

lemma runner_fail [simp]: "activeWireproxy (snd (failWG nl e p)) = activeWireproxy p"
  by (simp add: failWG_def)

lemma runner_setup [simp]: "activeWireproxy (snd (setupLink nl rs wg idx ips ds p)) = activeWireproxy p"
  by (auto simp: setupLink_def Let_def split: option.split prod.split bool.split)

lemma runner_apply [simp]: "activeWireproxy (snd (applyWGConfig nl ps rs config ips sc p)) = activeWireproxy p"
proof -
  have "activeWireproxy (snd (if LinkByName nl wgIface (kern p) \<noteq> None then teardownWG nl p else (True, p))) = activeWireproxy p" by simp
  then show ?thesis
    by (auto simp: applyWGConfig_def Let_def split: option.split prod.split sum.split bool.split)
qed

lemma links_clear_bypass:
  assumes "netlink_laws nl tbl" "tracked nl tbl k0 p"
  shows "same_links nl (kern p) (kern (snd (addKernelBypassRoutes nl rs ds (clearSplitRoutes nl p))))"
  using tracked_bypass [OF assms(1)] tracked_clear [OF assms] same_links_trans
  by (meson same_links_trans)

lemma reload_frame:
  assumes laws: "netlink_laws nl tbl" and t: "tracked nl tbl k0 p"
  shows "same_links nl (kern p) (kern (snd (reloadSplitRoutes nl rs env fs current mode blRaw daemonProfile newFile p))) \<and>
    (activeWireproxy (snd (reloadSplitRoutes nl rs env fs current mode blRaw daemonProfile newFile p)) = None \<longleftrightarrow> activeWireproxy p = None)"
proof (cases rule: reload_cases [of nl rs env fs current mode blRaw daemonProfile newFile p])
  case 1
  then show ?thesis using same_links_refl by simp
next
  case (2 ds)
  then show ?thesis using links_clear_bypass [OF laws t] by simp
next
  case (3 ds ips q r r' q1)
  have k: "kern q1 = kern p" and t1: "tracked nl tbl k0 q1" using resolve_kern [OF 3(2)] 3(3) t by (auto simp: ownNets_def)
  have "same_links nl (kern p) (kern (snd (addKernelBypassRoutes nl rs ds (clearSplitRoutes nl q1))))"
    using links_clear_bypass [OF laws t1] k by simp
  moreover have "activeWireproxy q1 \<noteq> None" using 3(3) by simp
  moreover have "activeWireproxy p \<noteq> None" using 3(1) by simp
  ultimately show ?thesis using 3(4) k same_links_refl [of nl "kern p"] by (elim disjE) auto
qed

section \<open>The invariant\<close>

text \<open>The routes are as they were, except on a link of another process, and nothing is tracked.\<close>

definition no_new_link :: "'k netlink \<Rightarrow> 'k \<Rightarrow> 'k \<Rightarrow> bool" where
  "no_new_link nl k0 k \<longleftrightarrow> (\<forall>idx. LinkByName nl wgIface k = Some idx \<longrightarrow> LinkByName nl wgIface k0 = Some idx)"

definition restored :: "'k netlink \<Rightarrow> ('k \<Rightarrow> ipnet \<Rightarrow> hop option) \<Rightarrow> 'k \<Rightarrow> 'k proc \<Rightarrow> bool" where
  "restored nl tbl k0 p \<longleftrightarrow>
     trackedOf nl tbl k0 {} (kern p) \<and> splitRoutes p = [] \<and> routedTurnIPs p = [] \<and>
     no_new_link nl k0 (kern p)"

definition conn_inv :: "'k netlink \<Rightarrow> ('k \<Rightarrow> ipnet \<Rightarrow> hop option) \<Rightarrow> 'k \<Rightarrow> conn_args \<Rightarrow> attempt \<Rightarrow> 'k proc \<Rightarrow> bool" where
  "conn_inv nl tbl k0 a t p \<longleftrightarrow>
     tracked nl tbl k0 p \<and> (wgConfigured t \<or> rawConfigured t \<or> restored nl tbl k0 p) \<and>
     (wgConfigured t \<or> no_new_link nl k0 (kern p)) \<and>
     (aMode a = ''raw'' \<longrightarrow> \<not> wgConfigured t) \<and> (aMode a \<noteq> ''raw'' \<longrightarrow> \<not> rawConfigured t) \<and>
     (activeWireproxy p \<noteq> None \<longrightarrow> aMode a = ''socks'' \<and> wgConfigured t)"

lemma no_new_link_same: "no_new_link nl k0 k \<Longrightarrow> same_links nl k k' \<Longrightarrow> no_new_link nl k0 k'"
  by (simp add: no_new_link_def same_links_def)

lemma restored_tracked: "restored nl tbl k0 p \<Longrightarrow> tracked nl tbl k0 p"
  by (auto simp: restored_def elim: trackedOf_mono)

lemma restored_runner [simp]: "restored nl tbl k0 (p\<lparr>activeWireproxy := r\<rparr>) = restored nl tbl k0 p"
  by (simp add: restored_def)

lemma restored_start: "splitRoutes p = [] \<Longrightarrow> routedTurnIPs p = [] \<Longrightarrow> restored nl tbl (kern p) p"
  by (simp add: restored_def trackedOf_def no_new_link_def)

lemma restored_WG: "netlink_laws nl tbl \<Longrightarrow> tracked nl tbl k0 p \<Longrightarrow> restored nl tbl k0 (snd (teardownWG nl p))"
  using teardown_WG [of nl tbl k0 p] by (auto simp: restored_def trackedOf_def Let_def no_new_link_def)

lemma restored_routes:
  assumes "netlink_laws nl tbl" "tracked nl tbl k0 p" "no_new_link nl k0 (kern p)"
  shows "restored nl tbl k0 (teardownTunnelRoutes nl p)"
  using teardown_clean [OF assms(1,2)] no_new_link_same [OF assms(3)] by (simp add: restored_def Let_def)

lemma teardownMode_restores:
  assumes "netlink_laws (mNl m) tbl" "conn_inv (mNl m) tbl k0 a t (wproc w)"
  shows "restored (mNl m) tbl k0 (wproc (teardownMode m t w)) \<and> activeWireproxy (wproc (teardownMode m t w)) = None"
  using assms restored_WG [OF assms(1)] restored_routes [OF assms(1)] by (auto simp: teardownMode_def conn_inv_def Let_def)

text \<open>How a step ends: it goes on with the invariant, or leaves everything restored.\<close>

definition good_step :: "'k machine \<Rightarrow> ('k \<Rightarrow> ipnet \<Rightarrow> hop option) \<Rightarrow> 'k \<Rightarrow> conn_args \<Rightarrow> verdict \<times> attempt \<times> 'k world \<Rightarrow> bool" where
  "good_step m tbl k0 a r \<longleftrightarrow>
     (case r of
        (Continue, t, w) \<Rightarrow> conn_inv (mNl m) tbl k0 a t (wproc w)
      | (Leave _ _, t, w) \<Rightarrow> restored (mNl m) tbl k0 (wproc w) \<and> activeWireproxy (wproc w) = None)"

lemma good_leave:
  assumes "netlink_laws (mNl m) tbl" "conn_inv (mNl m) tbl k0 a t (wproc w)"
  shows "good_step m tbl k0 a (Leave r f, t1, teardownMode m t w)"
    "good_step m tbl k0 a (Leave r f, t1, clearActive m skip (teardownMode m t w))"
  using teardownMode_restores [OF assms] by (simp_all add: good_step_def wproc_simps)

lemma good_raw:
  assumes laws: "netlink_laws (mNl m) tbl" and inv: "conn_inv (mNl m) tbl k0 a t (wproc w)" and new: "\<not> rawConfigured t" "aMode a = ''raw''"
  shows "good_step m tbl k0 a (onRawConf m a skip daemon name e t w)"
proof -
  let ?nl = "mNl m" let ?p = "wproc w"
  have r: "restored ?nl tbl k0 ?p" "no_new_link ?nl k0 (kern ?p)" "activeWireproxy ?p = None" "\<not> wgConfigured t"
    using inv new unfolding conn_inv_def by auto
  define p1 where "p1 = (case defaultGateway ?nl (kern ?p) of Some gw \<Rightarrow> applyTurnIPsBypass ?nl (eTurnIPs e) gw ?p | None \<Rightarrow> ?p)"
  have p1: "tracked ?nl tbl k0 p1" "no_new_link ?nl k0 (kern p1)" "activeWireproxy p1 = None"
    using tracked_turn [OF laws restored_tracked [OF r(1)]] r no_new_link_same [OF r(2)] restored_tracked [OF r(1)]
    by (auto simp: p1_def restored_def split: option.split)
  define p2 where "p2 = snd (addKernelBypassRoutes ?nl (eResolver e)
    (mergeBypassDomains (ownDomains w) [fetchActiveSocksBypassDomains (eRuntimeDir e) daemon (eDetails e)]) p1)"
  have p2: "tracked ?nl tbl k0 p2" "no_new_link ?nl k0 (kern p2)" "activeWireproxy p2 = None"
    using tracked_bypass [OF laws p1(1)] no_new_link_same [OF p1(2)] p1(3) by (auto simp: p2_def)
  have "restored ?nl tbl k0 (teardownTunnelRoutes ?nl p2)" by (rule restored_routes [OF laws p2(1,2)])
  then show ?thesis
    using p2 r(4) new
    by (simp add: onRawConf_def Let_def p1_def [symmetric] p2_def [symmetric] good_step_def wproc_simps conn_inv_def tested_def)
qed

lemma good_socks:
  assumes laws: "netlink_laws (mNl m) tbl" and inv: "conn_inv (mNl m) tbl k0 a t (wproc w)" and new: "\<not> wgConfigured t" "aMode a = ''socks''"
  shows "good_step m tbl k0 a (onSocksConfig m a skip name e t w)"
proof -
  let ?nl = "mNl m" let ?p = "wproc w"
  have r: "restored ?nl tbl k0 ?p" "activeWireproxy ?p = None" "\<not> rawConfigured t" using inv new unfolding conn_inv_def by auto
  define ipsp where "ipsp = (if ownDomains w = [] then ([], ?p)
    else case resolveDomainIPs (eResolver e) (ownDomains w) ?p of (r, p) \<Rightarrow> ((case r of Some xs \<Rightarrow> xs | None \<Rightarrow> []), p))"
  obtain ips p1 where ip: "ipsp = (ips, p1)" by fastforce
  obtain ips' q where res: "resolveDomainIPs (eResolver e) (ownDomains w) ?p = (ips', q)" by fastforce
  have p1: "restored ?nl tbl k0 p1" "activeWireproxy p1 = None"
    using ip r resolve_kern [OF res] by (auto simp: ipsp_def res restored_def split: if_splits)
  define rt where "rt = NewRouter (ToLower (mEnv m)) (ownDomains w) ips"
  have t2: "tracked ?nl tbl k0 (p1\<lparr>activeWireproxy := Some rt\<rparr>)" using p1(1) by (intro restored_tracked) simp
  define b where "b = (if wsplitCfg w \<noteq> None \<and> kernelTunnelActive ?nl (kern (p1\<lparr>activeWireproxy := Some rt\<rparr>))
    then addKernelBypassRoutes ?nl (eResolver e) (ownDomains w) (p1\<lparr>activeWireproxy := Some rt\<rparr>) else ([], p1\<lparr>activeWireproxy := Some rt\<rparr>))"
  obtain routes p3 where b3: "b = (routes, p3)" by fastforce
  have "tracked ?nl tbl k0 (snd b)" using t2 tracked_bypass [OF laws t2] by (simp add: b_def)
  then have "tracked ?nl tbl k0 p3" by (simp add: b3)
  then show ?thesis
    unfolding onSocksConfig_def Let_def ipsp_def [symmetric] ip prod.case rt_def [symmetric] b_def [symmetric] b3
    using p1 r(3) new
    by (simp add: good_step_def wproc_simps conn_inv_def tested_def)
qed

lemma good_tun:
  assumes laws: "netlink_laws (mNl m) tbl" and inv: "conn_inv (mNl m) tbl k0 a t (wproc w)"
    and new: "\<not> wgConfigured t" "aMode a \<noteq> ''socks''" "aMode a \<noteq> ''raw''"
  shows "good_step m tbl k0 a (onTunConfig m a skip name conf e t w)"
proof -
  let ?nl = "mNl m" let ?p = "wproc w"
  have r: "tracked ?nl tbl k0 ?p" "routedTurnIPs ?p = []" "activeWireproxy ?p = None" "\<not> rawConfigured t"
    using inv new unfolding conn_inv_def restored_def by auto
  define foreign where "foreign = fetchActiveSocksBypassDomains (eRuntimeDir e) name (eDetails e)"
  define sc where "sc = map_option (\<lambda>c. c\<lparr>scDomains := mergeBypassDomains (scDomains c) [foreign]\<rparr>) (wsplitCfg w)"
  obtain err p1 where ap: "applyWGConfig ?nl (mPs m) (eResolver e) conf (eTurnIPs e) sc ?p = (err, p1)" by fastforce
  have p1: "tracked ?nl tbl k0 p1" "activeWireproxy p1 = None"
    using tracked_apply [OF laws r(1,2), of "mPs m" "eResolver e" conf "eTurnIPs e" sc] r(3)
      runner_apply [of ?nl "mPs m" "eResolver e" conf "eTurnIPs e" sc ?p] by (simp_all add: ap)
  define p2 where "p2 = (if sc = None \<and> foreign \<noteq> [] then snd (addKernelBypassRoutes ?nl (eResolver e) foreign p1) else p1)"
  have p2: "tracked ?nl tbl k0 p2" "activeWireproxy p2 = None"
    using p1 tracked_bypass [OF laws p1(1)] by (simp_all add: p2_def)
  show ?thesis
    unfolding onTunConfig_def Let_def foreign_def [symmetric] sc_def [symmetric] ap prod.case p2_def [symmetric]
    using restored_WG [OF laws p1(1)] restored_WG [OF laws p2(1)] p1(2) p2 r(4) new
    by (cases err) (simp_all add: good_step_def wproc_simps conn_inv_def tested_def)
qed

text \<open>
  The messages of an attempt: in raw mode the core sends no WireGuard configuration, as \<open>onConfig\<close> and \<open>RequestRawConfig\<close> show,
  and no reload comes before the tunnel was configured.  \<open>c\<close> says whether it was.
\<close>

fun calm :: "conn_args \<Rightarrow> bool \<Rightarrow> input list \<Rightarrow> bool" where
  "calm a c [] = True"
| "calm a c (BlReload fs f e # is) = (c \<and> calm a c is)"
| "calm a c (CoreEvent (EEvent ev d) e # is) =
     (if ev = ''wg_config'' then aMode a \<noteq> ''raw'' \<and> calm a True is
      else calm a (c \<or> (ev = ''raw_conf'' \<and> aMode a = ''raw'')) is)"
| "calm a c (_ # is) = calm a c is"

definition configured :: "attempt \<Rightarrow> bool" where
  "configured t \<longleftrightarrow> wgConfigured t \<or> rawConfigured t"

lemma good_reload:
  assumes laws: "netlink_laws (mNl m) tbl" and inv: "conn_inv (mNl m) tbl k0 a t (wproc w)" and c: "configured t"
  shows "conn_inv (mNl m) tbl k0 a t (wproc (handleBlReload m a daemon fs newFile e w))"
proof -
  let ?R = "reloadSplitRoutes (mNl m) (eResolver e) (mEnv m) fs (getAutoswitchCurrentProfile (mIo m) (wstore w))
             (aMode a) (aBlackList a) daemon newFile (wproc w)"
  have t: "tracked (mNl m) tbl k0 (wproc w)" using inv by (simp add: conn_inv_def)
  have "wproc (handleBlReload m a daemon fs newFile e w) = snd ?R"
    by (simp add: handleBlReload_def split: prod.split reload_result.split)
  moreover have "no_new_link (mNl m) k0 (kern (wproc w)) \<Longrightarrow> no_new_link (mNl m) k0 (kern (snd ?R))"
    by (rule no_new_link_same, assumption, rule conjunct1 [OF reload_frame [OF laws t]])
  moreover have "activeWireproxy (snd ?R) = None \<longleftrightarrow> activeWireproxy (wproc w) = None" by (rule conjunct2 [OF reload_frame [OF laws t]])
  moreover have "tracked (mNl m) tbl k0 (snd ?R)" by (rule tracked_reload [OF laws t])
  ultimately show ?thesis using inv c unfolding conn_inv_def configured_def by metis
qed

lemma tested_flags [simp]: "wgConfigured (tested t) = wgConfigured t" "rawConfigured (tested t) = rawConfigured t"
  by (simp_all add: tested_def)

lemma configures:
  "onRawConf m a skip daemon name e t w = (Continue, t', w') \<Longrightarrow> configured t'"
  "onSocksConfig m a skip name e t w = (Continue, t', w') \<Longrightarrow> configured t'"
  "onTunConfig m a skip name conf e t w = (Continue, t', w') \<Longrightarrow> configured t'"
  by (auto simp: onRawConf_def onSocksConfig_def onTunConfig_def configured_def Let_def split: if_splits prod.splits option.splits)

lemma conn_inv_connected: "conn_inv nl tbl k0 a (t\<lparr>connected := True\<rparr>) p = conn_inv nl tbl k0 a t p"
  "conn_inv nl tbl k0 a (t\<lparr>captchaQ := q\<rparr>) p = conn_inv nl tbl k0 a t p"
  "configured (t\<lparr>connected := True\<rparr>) = configured t" "configured (t\<lparr>captchaQ := q\<rparr>) = configured t"
  by (simp_all add: conn_inv_def configured_def)

text \<open>One step: the invariant or an exit that restored everything, and whether the tunnel is configured is known to \<open>calm\<close>.\<close>

lemma good_event:
  assumes laws: "netlink_laws (mNl m) tbl" and inv: "conn_inv (mNl m) tbl k0 a t (wproc w)"
    and raw: "\<And>ev d. e = EEvent ev d \<Longrightarrow> ev = ''wg_config'' \<Longrightarrow> aMode a \<noteq> ''raw''"
  shows "good_step m tbl k0 a (onEvent m a skip daemon name e su t w)"
proof (cases e)
  case (EEvent ev d)
  have "good_step m tbl k0 a (Continue, t, w)" using inv by (simp add: good_step_def)
  then show ?thesis
    using raw [OF EEvent] good_raw [OF laws inv] good_socks [OF laws inv] good_tun [OF laws inv] good_leave [OF laws inv]
    by (simp add: onEvent_def EEvent)
qed (use good_leave [OF laws inv] inv in \<open>auto simp: onEvent_def good_step_def wproc_simps conn_inv_connected\<close>)

lemma good_connStep:
  assumes laws: "netlink_laws (mNl m) tbl" and inv: "conn_inv (mNl m) tbl k0 a t (wproc w)"
    and calm: "calm a c (i # is)" "c \<longrightarrow> configured t"
  shows "good_step m tbl k0 a (connStep m a skip daemon name i t w)"
proof (cases i)
  case (CoreEvent e su)
  have "aMode a \<noteq> ''raw''" if "e = EEvent ev d" "ev = ''wg_config''" for ev d using calm(1) that CoreEvent by simp
  then show ?thesis using good_event [OF laws inv] CoreEvent by (simp add: connStep_def)
next
  case (BlReload fs f su)
  then show ?thesis using good_reload [OF laws inv] calm by (simp add: connStep_def good_step_def)
qed (use good_leave [OF laws inv] inv in \<open>auto simp: connStep_def good_step_def wproc_simps conn_inv_connected\<close>)

lemma still_configured:
  assumes "connStep m a skip daemon name i t w = (Continue, t', w')" "configured t"
  shows "configured t'"
proof (cases i)
  case (CoreEvent e su)
  then show ?thesis
    using assms by (cases e) (auto simp: connStep_def onEvent_def conn_inv_connected configures split: if_splits)
qed (use assms in \<open>auto simp: connStep_def conn_inv_connected split: if_splits\<close>)

lemma calm_step:
  assumes "connStep m a skip daemon name i t w = (Continue, t', w')" "calm a c (i # is)" "c \<longrightarrow> configured t"
  obtains c' where "calm a c' is" "c' \<longrightarrow> configured t'"
proof (cases "\<exists>ev d su. i = CoreEvent (EEvent ev d) su")
  case True
  then obtain ev d su where i: "i = CoreEvent (EEvent ev d) su" by blast
  show thesis
  proof (cases "ev = ''wg_config''")
    case True
    then have "configured t'"
    proof (cases "configured t")
      case True then show ?thesis by (rule still_configured [OF assms(1)])
    next
      case False
      then show ?thesis
        using assms(1,2) i \<open>ev = ''wg_config''\<close> configures
        by (auto simp: connStep_def onEvent_def configured_def [of t] split: if_splits)
    qed
    then show thesis using that [of True] assms(2) i True by simp
  next
    case False
    have "configured t'" if "c \<or> ev = ''raw_conf'' \<and> aMode a = ''raw''"
    proof (cases "configured t")
      case True then show ?thesis by (rule still_configured [OF assms(1)])
    next
      case False
      then show ?thesis
        using that assms(1,3) i configures
        by (auto simp: connStep_def onEvent_def configured_def [of t] split: if_splits)
    qed
    then show thesis using that [of "c \<or> ev = ''raw_conf'' \<and> aMode a = ''raw''"] assms(2) i False by simp
  qed
next
  case False
  have "calm a c is"
  proof (cases i)
    case (CoreEvent e su) then show ?thesis using False assms(2) by (cases e) auto
  qed (use assms(2) in auto)
  then show thesis using that [of c] still_configured [OF assms(1)] assms(3) by blast
qed

lemma good_loop:
  assumes laws: "netlink_laws (mNl m) tbl"
  shows "conn_inv (mNl m) tbl k0 a t (wproc w) \<Longrightarrow> calm a c is \<Longrightarrow> c \<longrightarrow> configured t \<Longrightarrow>
     connLoop m a skip daemon name is t w = Some (r, f, t', w') \<Longrightarrow>
     restored (mNl m) tbl k0 (wproc w') \<and> activeWireproxy (wproc w') = None"
proof (induction "is" arbitrary: t w c)
  case (Cons i "is")
  note step = good_connStep [OF laws Cons.prems(1,2,3), of skip daemon name]
  obtain v t1 w1 where st: "connStep m a skip daemon name i t w = (v, t1, w1)" using prod_cases3 by blast
  show ?case
  proof (cases v)
    case Continue
    then obtain c' where "calm a c' is" "c' \<longrightarrow> configured t1" using calm_step [OF _ Cons.prems(2,3)] st by metis
    then show ?thesis using Cons.IH step st Continue Cons.prems(4) by (simp add: good_step_def)
  next
    case (Leave x y)
    then show ?thesis using step st Cons.prems(4) by (simp add: good_step_def)
  qed
qed simp

lemma fresh_inv:
  assumes "restored nl tbl k0 p" "activeWireproxy p = None"
  shows "conn_inv nl tbl k0 a (freshAttempt a) p"
  using assms restored_tracked [OF assms(1)] by (auto simp: conn_inv_def freshAttempt_def restored_def)

lemma attempt_restores:
  assumes laws: "netlink_laws (mNl m) tbl" and pre: "restored (mNl m) tbl k0 (wproc w)" "activeWireproxy (wproc w) = None"
    and calm: "calm a False inputs" and left: "tryConnectProfile m se a setActive skip daemon name inputs w = Some (r, f, w')"
  shows "restored (mNl m) tbl k0 (wproc w') \<and> activeWireproxy (wproc w') = None"
proof -
  note wg = restored_WG [OF laws restored_tracked [OF pre(1)]]
  have loop: "restored (mNl m) tbl k0 (wproc w1) \<and> activeWireproxy (wproc w1) = None"
    if "wproc u = wproc w" "connLoop m a skip daemon name inputs (freshAttempt a) u = Some (r1, f1, t1, w1)" for u r1 f1 t1 w1
    by (rule good_loop [OF laws _ calm _ that(2)]) (simp_all add: that(1) fresh_inv [OF pre])
  show ?thesis
    using left pre wg
    by (auto simp: tryConnectProfile_def Let_def wproc_simps split: sum.splits prod.splits if_splits dest: loop [rotated])
qed

text \<open>One attempt of the daemon, for any profile and with any course of events.\<close>

inductive attempt_step :: "'k machine \<Rightarrow> conn_args \<Rightarrow> 'k world \<Rightarrow> 'k world \<Rightarrow> bool" for m a where
  attempt: "calm a False inputs \<Longrightarrow> tryConnectProfile m se a setActive skip daemon name inputs w = Some (r, f, w') \<Longrightarrow>
    attempt_step m a w w'"


section \<open>What the cleaning up costs other processes\<close>

text \<open>
  The teardown removes the wg-qwdtt link whoever made it: a daemon in SOCKS mode that stops, or whose core does not start, takes
  down the tunnel of another daemon.
\<close>

lemma teardown_removes_any_link:
  assumes "netlink_laws (mNl m) tbl"
  shows "LinkByName (mNl m) wgIface (kern (snd (teardownWG (mNl m) p))) = None"
proof -
  have "tracked (mNl m) tbl (kern p) p" by (simp add: trackedOf_def)
  from teardown_WG [OF assms this] show ?thesis by (simp add: Let_def)
qed

lemma socks_exit_removes_link:
  assumes "netlink_laws (mNl m) tbl" "wgConfigured t"
  shows "LinkByName (mNl m) wgIface (kern (wproc (teardownMode m t w))) = None"
  using teardown_removes_any_link [OF assms(1)] assms(2) by (simp add: teardownMode_def)

lemma start_failure_removes_link:
  assumes "netlink_laws (mNl m) tbl" "loadProfile (mIo m) (wstore w) name = Inr prof" "pDeviceID prof \<noteq> []"
    "New (coreConfig a (pDeviceID prof) prof) = Inr (cfg, cm)" "Start (sNet se) (sHkdf se) (sSocketOk se) cfg = Inl e"
  obtains w' where "tryConnectProfile m se a setActive skip daemon name inputs w = Some (False, aAutoSwitch a, w')"
    "LinkByName (mNl m) wgIface (kern (wproc w')) = None"
  using assms that teardown_removes_any_link [OF assms(1)] by (simp add: tryConnectProfile_def Let_def)

text \<open>The list of the profile keeps the domains of other daemons that were merged in for one connection.\<close>

lemma merged_domains_stay:
  assumes "wsplitCfg w = Some c" "onTunConfig m a skip name conf e t w = (v, t', w')"
  shows "wsplitCfg w' =
    Some (c\<lparr>scDomains := mergeBypassDomains (scDomains c) [fetchActiveSocksBypassDomains (eRuntimeDir e) name (eDetails e)]\<rparr>)"
  using assms
  by (auto simp: onTunConfig_def Let_def clearActive_def noteCurrent_def writeSplitState_def split: prod.splits option.splits if_splits)

text \<open>
  The checks before the start keep kernel interfaces apart, except that raw mode with auto-switch is not checked at all.
\<close>

lemma checked_interfaces:
  assumes "connectChecks io env fs s a v profileName = Inr r" "aMode a = ''tun'' \<or> aMode a = ''raw'' \<and> \<not> aAutoSwitch a"
  shows "\<not> wgLink v \<and> \<not> rawLink v \<and> capNetAdmin v"
  using assms
  by (auto simp: connectChecks_def conflictCheck_def checkTunRawCapabilities_def Let_def split: if_splits option.splits sum.splits)

lemma raw_autoswitch_unchecked:
  "aAutoSwitch a \<Longrightarrow> aMode a = ''raw'' \<Longrightarrow> \<not> isDaemonRunning (vRun v) ''autoswitch'' \<Longrightarrow> conflictCheck a v p = None"
  by (simp add: conflictCheck_def)

section \<open>An attempt in raw mode\<close>

definition rawArgs :: conn_args where
  "rawArgs =
     \<lparr>aWorkers = 9, aMTU = 1280, aHashes = ''h'', aDNS = [], aCaptcha = ''auto'', aAutoSwitch = False, aMode = ''raw'', aSocksPort = 9050,
      aSocksUser = [], aSocksPass = [], aPub = False, aSocksListen = [], aRawPort = 53, aTransport = ''udp'', aBlackList = [],
      aBlackListFile = [], aPositional = []\<rparr>"

definition demoMachine :: "demo_kernel machine" where
  "demoMachine = \<lparr>mNl = demoNl, mPs = sampleParsers, mEnv = demoEnv, mIo = (\<lambda>_. False)\<rparr>"

definition demoWorld :: "demo_kernel world" where
  "demoWorld =
     \<lparr>wproc = demoProc,
      wstore = \<lparr>profFiles = [(''p'', Good \<lparr>pPeerAddr = ''1.2.3.4:56000'', pPassword = ''pw'', pHashes = [''h''], pListen = [], pTurnHost = [],
                  pTurnPort = [], pWorkers = 0, pDeviceID = ''0123456789abcdef'', pPriority = 0, pLinkFile = [], pGroups = [], pSubscription = []\<rparr>)],
                subFiles = [], statusFile = None, activeFile = None, autoswitchFile = None, deviceFile = None, linkFiles = []\<rparr>,
      wsplit = (\<lambda>_. None), wsplitCfg = None, wsock = \<lparr>solveCh = [], sockRouter = None\<rparr>\<rparr>"

definition demoStart :: start_env where
  "demoStart = \<lparr>sNet = \<lparr>resolve = (\<lambda>s. Some (v4InV6Prefix @ [1, 2, 3, 4], 53)), show_ip = dotted\<rparr>,
     sHkdf = (\<lambda>_ _ _. replicate wrapKeyLen 0), sSocketOk = True, sDraw = []\<rparr>"

definition demoAround :: surroundings where
  "demoAround = \<lparr>eTurnIPs = [''5.6.7.8''], eDetails = [], eRuntimeDir = [], eResolver = demoResolver, eTunnelOk = True, eRunnerOk = True,
     eMtime = (\<lambda>_. None), eCanWrite = True\<rparr>"

definition rawUp :: "input list" where
  "rawUp = [CoreEvent (EState ''connecting'') demoAround, CoreEvent (EEvent ''raw_conf'' ''10.0.0.2|1.1.1.1|1280'') demoAround]"

definition midway :: "demo_kernel proc" where
  "midway = (case onRawConf demoMachine rawArgs True ''p'' ''p'' demoAround (freshAttempt rawArgs) demoWorld of (_, _, w) \<Rightarrow> wproc w)"


end
