(* ===== verification/Autoswitch.thy ===== *)
theory Autoswitch
  imports Connect
begin

text \<open>
  The main loop of the daemon in \<open>connectCmd\<close>: which profiles it works through, when it tries which, and when it stops.  The
  attempts themselves (\<open>Connect\<close>) are given by how long they take and how they end.
\<close>

section \<open>The profiles of the daemon\<close>

definition toFront :: "string \<Rightarrow> string list \<Rightarrow> string list" where
  "toFront p ps = (if p \<noteq> [] \<and> p \<in> set ps then p # remove1 p ps else ps)"

text \<open>\<open>None\<close>: no profile is available, the daemon ends.\<close>

definition daemonProfiles :: "io \<Rightarrow> store \<Rightarrow> run_env \<Rightarrow> conn_args \<Rightarrow> string \<Rightarrow> string list option" where
  "daemonProfiles io s re a profileName =
     (if aAutoSwitch a then
        (let ps0 = listProfileNames io s;
             ps = (if aMode a = ''socks'' then filter (\<lambda>p. \<not> isDaemonRunning re p) ps0 else ps0)
         in if ps = [] then None else Some (toFront profileName ps))
      else if profileName = [] then None else Some [profileName])"

section \<open>The loop\<close>

text \<open>Times are in nanoseconds, as \<open>time.Duration\<close> has them.\<close>

definition second :: int where "second = 1000000000"

definition minRetryInterval :: int where "minRetryInterval = 5 * second"

datatype outcome = Failed | Resumed | FatalError | Stopped

datatype ending = Ongoing | Returned | Exited | Panicked

text \<open>\<open>deviceOf\<close> is the device id of a profile, empty when it has none or cannot be loaded.\<close>

definition waitUntil :: "string \<Rightarrow> int \<Rightarrow> (string \<Rightarrow> int option) \<Rightarrow> int" where
  "waitUntil dev clock used =
     (if dev = [] then clock
      else case used dev of
        None \<Rightarrow> clock
      | Some t \<Rightarrow> if clock - t < minRetryInterval then clock + (minRetryInterval - (clock - t)) else clock)"

text \<open>
  \<open>again\<close> says that the profile is tried again after a resume, without looking at the device.  A device id that is shorter than
  the eight characters that the message about the waiting shows is a panic.  A stop during the wait counts as one during the
  attempt.
\<close>

fun rotateProfiles :: "string list \<Rightarrow> (string \<Rightarrow> string) \<Rightarrow> bool \<Rightarrow> (int \<times> outcome) list \<Rightarrow> nat \<Rightarrow> bool \<Rightarrow> int \<Rightarrow> (string \<Rightarrow> int option)
    \<Rightarrow> (string \<times> int) list \<times> ending" where
  "rotateProfiles ps deviceOf auto [] idx again clock used = ([], Ongoing)"
| "rotateProfiles ps deviceOf auto ((d, out) # script) idx again clock used =
     (let p = ps ! idx; dev = deviceOf p; checks = (auto \<and> idx > 0 \<and> \<not> again);
          begun = (if checks then waitUntil dev clock used else clock);
          used1 = (if auto \<and> dev \<noteq> [] then used(dev \<mapsto> begun) else used); over = begun + d;
          go = (\<lambda>idx again clock. case rotateProfiles ps deviceOf auto script idx again clock used1 of (tr, e) \<Rightarrow> ((p, begun) # tr, e))
      in if checks \<and> begun \<noteq> clock \<and> length dev < 8 then ([], Panicked)
         else if out = FatalError \<and> auto then ([(p, begun)], Exited)
         else if out = Stopped then ([(p, begun)], Returned)
         else if out = Resumed then go idx True (over + 2 * second)
         else if idx + 1 < length ps then go (idx + 1) False (over + 2 * second)
         else if \<not> auto then ([(p, begun)], Exited)
         else go 0 False (over + 5 * second))"

section \<open>The order of the attempts\<close>

text \<open>A course of attempts that neither stop the daemon nor fail for good, on profiles with proper device ids.\<close>

definition endless :: "string list \<Rightarrow> (string \<Rightarrow> string) \<Rightarrow> (int \<times> outcome) list \<Rightarrow> bool" where
  "endless ps deviceOf script \<longleftrightarrow>
     ps \<noteq> [] \<and> (\<forall>p \<in> set ps. deviceOf p = [] \<or> 8 \<le> length (deviceOf p)) \<and>
     (\<forall>(d, out) \<in> set script. 0 \<le> d \<and> (out = Failed \<or> out = Resumed))"

text \<open>How many attempts before the \<open>i\<close>-th failed.\<close>

definition failures :: "(int \<times> outcome) list \<Rightarrow> nat \<Rightarrow> nat" where
  "failures script i = length (filter (\<lambda>(_, out). out = Failed) (take i script))"

lemma failures_0 [simp]: "failures script 0 = 0"
  by (simp add: failures_def)

lemma failures_Suc [simp]: "failures ((d, out) # script) (Suc i) = (if out = Failed then Suc (failures script i) else failures script i)"
  by (simp add: failures_def)

lemma endless_Cons:
  "endless ps deviceOf ((d, out) # script) \<longleftrightarrow> 0 \<le> d \<and> (out = Failed \<or> out = Resumed) \<and> endless ps deviceOf script"
  by (auto simp: endless_def)

definition nextIdx :: "string list \<Rightarrow> nat \<Rightarrow> outcome \<Rightarrow> nat" where
  "nextIdx ps idx out = (if out = Failed then (idx + 1) mod length ps else idx)"

definition pause :: "string list \<Rightarrow> nat \<Rightarrow> outcome \<Rightarrow> int" where
  "pause ps idx out = (if out = Failed \<and> idx + 1 = length ps then 5 * second else 2 * second)"

definition startAt :: "string list \<Rightarrow> (string \<Rightarrow> string) \<Rightarrow> nat \<Rightarrow> bool \<Rightarrow> int \<Rightarrow> (string \<Rightarrow> int option) \<Rightarrow> int" where
  "startAt ps deviceOf idx again clock used = (if idx > 0 \<and> \<not> again then waitUntil (deviceOf (ps ! idx)) clock used else clock)"

definition markUsed :: "string \<Rightarrow> int \<Rightarrow> (string \<Rightarrow> int option) \<Rightarrow> (string \<Rightarrow> int option)" where
  "markUsed dev begun used = (if dev \<noteq> [] then used(dev \<mapsto> begun) else used)"

lemma rotate_step:
  assumes "endless ps deviceOf ((d, out) # script)" "idx < length ps"
  shows "rotateProfiles ps deviceOf True ((d, out) # script) idx again clock used =
    (let begun = startAt ps deviceOf idx again clock used in
     case rotateProfiles ps deviceOf True script (nextIdx ps idx out) (out = Resumed) (begun + d + pause ps idx out)
            (markUsed (deviceOf (ps ! idx)) begun used)
     of (tr, e) \<Rightarrow> ((ps ! idx, begun) # tr, e))"
proof -
  have o: "out = Failed \<or> out = Resumed" using assms(1) by (simp add: endless_Cons)
  have dev: "deviceOf (ps ! idx) = [] \<or> 8 \<le> length (deviceOf (ps ! idx))" using assms(1,2) by (auto simp: endless_def)
  then have np: "\<not> (waitUntil (deviceOf (ps ! idx)) clock used \<noteq> clock \<and> length (deviceOf (ps ! idx)) < 8)"
    by (auto simp: waitUntil_def)
  have "Suc idx = length ps" if "\<not> Suc idx < length ps" using that assms(2) by simp
  then have m: "Suc idx mod length ps = (if Suc idx < length ps then Suc idx else 0)" "\<not> Suc idx < length ps \<Longrightarrow> Suc idx = length ps"
    by auto
  show ?thesis
    using o np m
    by (auto simp: startAt_def nextIdx_def pause_def markUsed_def Let_def)
qed

lemma nextIdx_less: "idx < length ps \<Longrightarrow> nextIdx ps idx out < length ps"
  using mod_less_divisor [of "length ps" "idx + 1"] by (cases ps) (auto simp: nextIdx_def)

lemma second_pos: "0 < second"
  by (simp add: second_def)

lemma pause_bounds: "2 * second \<le> pause ps idx out"
  using second_pos by (simp add: pause_def)

lemma waitUntil_spec:
  "clock \<le> waitUntil dev clock used" "dev \<noteq> [] \<Longrightarrow> used dev = Some t \<Longrightarrow> t + minRetryInterval \<le> waitUntil dev clock used"
  by (auto simp: waitUntil_def split: option.split)

lemma startAt_ge: "clock \<le> startAt ps deviceOf idx again clock used"
  by (simp add: startAt_def waitUntil_spec)

text \<open>Every attempt of the script is made, the one after \<open>n\<close> failures on the \<open>n\<close>-th profile of the cycle, and none before its time.\<close>

lemma rotate_trace:
  assumes "endless ps deviceOf script" "idx < length ps" "rotateProfiles ps deviceOf True script idx again clock used = (tr, e)"
  shows "length tr = length script \<and> e = Ongoing \<and>
    (\<forall>i < length tr. fst (tr ! i) = ps ! ((idx + failures script i) mod length ps) \<and> clock \<le> snd (tr ! i))"
  using assms
proof (induction script arbitrary: idx again clock used tr e)
  case (Cons s script)
  obtain d out where s: "s = (d, out)" by fastforce
  let ?b = "startAt ps deviceOf idx again clock used"
  obtain tr' e' where r: "rotateProfiles ps deviceOf True script (nextIdx ps idx out) (out = Resumed) (?b + d + pause ps idx out)
      (markUsed (deviceOf (ps ! idx)) ?b used) = (tr', e')" by fastforce
  have t: "tr = (ps ! idx, ?b) # tr'" "e = e'" using rotate_step Cons.prems r by (auto simp: s Let_def)
  have es: "endless ps deviceOf script" "0 \<le> d" "out = Failed \<or> out = Resumed" using Cons.prems(1) by (auto simp: s endless_Cons)
  note IH = Cons.IH [OF es(1) nextIdx_less [OF Cons.prems(2)] r]
  have le: "clock \<le> ?b + d + pause ps idx out"
    using startAt_ge [of clock ps deviceOf idx again used] pause_bounds [of ps idx out] second_pos es(2) by linarith
  show ?case
  proof (intro conjI allI impI)
    fix i assume i: "i < length tr"
    show "fst (tr ! i) = ps ! ((idx + failures (s # script) i) mod length ps)"
      using IH i es(3) Cons.prems(2) by (cases i) (auto simp: t s nextIdx_def mod_add_left_eq)
    show "clock \<le> snd (tr ! i)"
      using IH i le startAt_ge [of clock ps deviceOf idx again used] by (cases i) (auto simp: t intro: order_trans)
  qed (use IH t in auto)
qed simp

text \<open>
  After a device was used at \<open>t\<close>, it is not used again for the retry interval, unless the same profile is resumed: \<open>again\<close> and no
  failure since.
\<close>

definition failedBefore :: "(int \<times> outcome) list \<Rightarrow> nat \<Rightarrow> nat \<Rightarrow> bool" where
  "failedBefore script i j \<longleftrightarrow> (\<exists>k. i \<le> k \<and> k < j \<and> snd (script ! k) = Failed)"

definition timely :: "nat \<Rightarrow> bool \<Rightarrow> int \<Rightarrow> (string \<Rightarrow> int option) \<Rightarrow> bool" where
  "timely idx again clock used \<longleftrightarrow>
     (\<forall>dev t. used dev = Some t \<longrightarrow> t \<le> clock \<and> (idx = 0 \<and> \<not> again \<longrightarrow> t + minRetryInterval \<le> clock))"

lemma failures_0_iff: "i \<le> length script \<Longrightarrow> failures script i = 0 \<longleftrightarrow> \<not> failedBefore script 0 i"
proof (induction script arbitrary: i)
  case (Cons s script)
  then show ?case
  proof (cases i)
    case (Suc k)
    have "failedBefore (s # script) 0 (Suc k) \<longleftrightarrow> snd s = Failed \<or> failedBefore script 0 k"
      unfolding failedBefore_def by (simp add: Ex_less_Suc2)
    then show ?thesis using Cons Suc by (cases s) auto
  qed (simp add: failedBefore_def)
qed (simp add: failedBefore_def)

lemma failedBefore_Cons:
  "failedBefore (s # script) 0 (Suc k) \<longleftrightarrow> snd s = Failed \<or> failedBefore script 0 k"
  "failedBefore (s # script) (Suc i) (Suc j) \<longleftrightarrow> failedBefore script i j"
proof -
  show "failedBefore (s # script) 0 (Suc k) \<longleftrightarrow> snd s = Failed \<or> failedBefore script 0 k"
    unfolding failedBefore_def by (simp add: Ex_less_Suc2)
  show "failedBefore (s # script) (Suc i) (Suc j) \<longleftrightarrow> failedBefore script i j"
    unfolding failedBefore_def by (metis Suc_le_D Suc_le_mono Suc_less_eq nth_Cons_Suc)
qed

lemma timely_step:
  fixes deviceOf :: "string \<Rightarrow> string"
  assumes "timely idx again clock used" "idx < length ps" "0 \<le> d" "out = Failed \<or> out = Resumed"
  defines "b \<equiv> startAt ps deviceOf idx again clock used"
  shows "timely (nextIdx ps idx out) (out = Resumed) (b + d + pause ps idx out) (markUsed (deviceOf (ps ! idx)) b used)"
proof -
  have b: "clock \<le> b" by (simp add: b_def startAt_ge)
  have le: "t \<le> b" if "markUsed (deviceOf (ps ! idx)) b used dev = Some t" for dev t
    using that assms(1) b by (fastforce simp: markUsed_def timely_def split: if_splits)
  have "pause ps idx out = minRetryInterval" if "nextIdx ps idx out = 0" "out \<noteq> Resumed"
  proof -
    have "idx + 1 = length ps"
    proof (rule ccontr)
      assume "idx + 1 \<noteq> length ps"
      then have "idx + 1 < length ps" using assms(2) by simp
      then show False using that assms(4) by (auto simp: nextIdx_def)
    qed
    then show ?thesis using that assms(4) by (simp add: pause_def minRetryInterval_def)
  qed
  then show ?thesis
    using le assms(3) pause_bounds [of ps idx out] second_pos unfolding timely_def by fastforce
qed

lemma reuse_late:
  assumes "endless ps deviceOf script" "idx < length ps" "rotateProfiles ps deviceOf True script idx again clock used = (tr, e)"
    "timely idx again clock used" "j < length tr" "deviceOf (fst (tr ! j)) = dev" "dev \<noteq> []" "used dev = Some t"
    "\<not> again \<or> failedBefore script 0 j"
  shows "t + minRetryInterval \<le> snd (tr ! j)"
  using assms
proof (induction script arbitrary: idx again clock used tr e j t)
  case (Cons s script)
  obtain d out where s: "s = (d, out)" by fastforce
  define b where "b = startAt ps deviceOf idx again clock used"
  obtain tr' e' where r: "rotateProfiles ps deviceOf True script (nextIdx ps idx out) (out = Resumed) (b + d + pause ps idx out)
      (markUsed (deviceOf (ps ! idx)) b used) = (tr', e')" by fastforce
  have tr: "tr = (ps ! idx, b) # tr'" using rotate_step Cons.prems(1-3) r by (auto simp: s Let_def b_def)
  have es: "endless ps deviceOf script" "0 \<le> d" "out = Failed \<or> out = Resumed" using Cons.prems(1) by (auto simp: s endless_Cons)
  have tb: "t \<le> clock" "clock \<le> b" using Cons.prems(4,8) by (auto simp: timely_def b_def startAt_ge)
  have first: "t + minRetryInterval \<le> b" if "\<not> again" "deviceOf (ps ! idx) = dev"
  proof (cases "idx = 0")
    case True
    then have "t + minRetryInterval \<le> clock" using Cons.prems(4,8) that by (auto simp: timely_def)
    then show ?thesis using tb by linarith
  next
    case False
    then show ?thesis
      using that waitUntil_spec(2) [of dev used t clock] Cons.prems(7,8) by (simp add: b_def startAt_def)
  qed
  show ?case
  proof (cases j)
    case 0
    then show ?thesis using first Cons.prems(6,9) by (simp add: tr failedBefore_def)
  next
    case (Suc k)
    note trace = rotate_trace [OF es(1) nextIdx_less [OF Cons.prems(2)] r]
    have k: "k < length tr'" "tr ! j = tr' ! k" using Cons.prems(5) Suc by (auto simp: tr)
    obtain t' where t': "markUsed (deviceOf (ps ! idx)) b used dev = Some t'" "t \<le> t'"
    proof (cases "dev = deviceOf (ps ! idx)")
      case True then show ?thesis using that [of b] tb Cons.prems(7) by (simp add: markUsed_def)
    next
      case False then show ?thesis using that [of t] Cons.prems(8) by (simp add: markUsed_def)
    qed
    note IH = Cons.IH [OF es(1) nextIdx_less [OF Cons.prems(2)] r
        timely_step [OF Cons.prems(4,2) es(2,3), of deviceOf, folded b_def] k(1) _ Cons.prems(7) t'(1)]
    show ?thesis
    proof (cases "out \<noteq> Resumed \<or> failedBefore script 0 k")
      case True
      then show ?thesis using IH Cons.prems(6) k(2) t'(2) by fastforce
    next
      case False
      then have "failures script k = 0" using failures_0_iff [of k script] k(1) trace by simp
      then have "fst (tr' ! k) = ps ! idx" using trace k(1) False Cons.prems(2) by (simp add: nextIdx_def)
      moreover have "\<not> again" using Cons.prems(9) False es(3) by (auto simp: Suc s failedBefore_Cons)
      ultimately have "t + minRetryInterval \<le> b" using first Cons.prems(6) k(2) by simp
      moreover have "b + d + pause ps idx out \<le> snd (tr' ! k)" using trace k(1) by blast
      ultimately show ?thesis using es(2) pause_bounds [of ps idx out] second_pos k(2) by simp
    qed
  qed
qed simp

lemma spacing:
  assumes "endless ps deviceOf script" "idx < length ps" "rotateProfiles ps deviceOf True script idx again clock used = (tr, e)"
    "timely idx again clock used" "i < j" "j < length tr"
  shows "snd (tr ! i) + 2 * second \<le> snd (tr ! j) \<and>
    (deviceOf (fst (tr ! i)) = deviceOf (fst (tr ! j)) \<and> deviceOf (fst (tr ! i)) \<noteq> [] \<and> failedBefore script i j \<longrightarrow>
       snd (tr ! i) + minRetryInterval \<le> snd (tr ! j))"
  using assms
proof (induction script arbitrary: idx again clock used tr e i j)
  case (Cons s script)
  obtain d out where s: "s = (d, out)" by fastforce
  define b where "b = startAt ps deviceOf idx again clock used"
  obtain tr' e' where r: "rotateProfiles ps deviceOf True script (nextIdx ps idx out) (out = Resumed) (b + d + pause ps idx out)
      (markUsed (deviceOf (ps ! idx)) b used) = (tr', e')" by fastforce
  have tr: "tr = (ps ! idx, b) # tr'" using rotate_step Cons.prems(1-3) r by (auto simp: s Let_def b_def)
  have es: "endless ps deviceOf script" "0 \<le> d" "out = Failed \<or> out = Resumed" using Cons.prems(1) by (auto simp: s endless_Cons)
  note next' = nextIdx_less [OF Cons.prems(2)] and time = timely_step [OF Cons.prems(4,2) es(2,3), of deviceOf, folded b_def]
  obtain k where j: "j = Suc k" using Cons.prems(5) by (cases j) auto
  have k: "k < length tr'" using Cons.prems(6) j by (simp add: tr)
  show ?case
  proof (cases i)
    case 0
    have "b + d + pause ps idx out \<le> snd (tr' ! k)" using rotate_trace [OF es(1) next' r] k by blast
    then have "b + 2 * second \<le> snd (tr' ! k)" using es(2) pause_bounds [of ps idx out] by linarith
    moreover have "b + minRetryInterval \<le> snd (tr' ! k)"
      if "deviceOf (ps ! idx) = deviceOf (fst (tr' ! k))" "deviceOf (ps ! idx) \<noteq> []" "failedBefore (s # script) 0 (Suc k)"
    proof -
      have "out \<noteq> Resumed \<or> failedBefore script 0 k" using that(3) by (auto simp: failedBefore_Cons s)
      then show ?thesis
        using reuse_late [OF es(1) next' r time k refl, of b] that by (simp add: markUsed_def)
    qed
    ultimately show ?thesis by (auto simp: 0 j tr)
  next
    case (Suc i')
    then show ?thesis using Cons.IH [OF es(1) next' r time, of i' k] Cons.prems(5) j k by (auto simp: tr failedBefore_Cons)
  qed
qed simp


text \<open>Two profiles with one device: the second waits, and the round begins again.\<close>

definition demoScript :: "(int \<times> outcome) list" where
  "demoScript = [(second, Failed), (second, Resumed), (second, Failed), (second, Failed)]"

definition demoTrace :: "(string \<times> int) list" where
  "demoTrace = [(''a'', 0), (''b'', 5 * second), (''b'', 8 * second), (''a'', 14 * second)]"


text \<open>A daemon without auto-switch ends after its attempt, unless that was interrupted by a resume.\<close>

lemma single_profile_ends:
  assumes "length ps = 1" "script = replicate k (d, Resumed) @ (d', out) # rest" "out = Failed \<or> out = FatalError"
  shows "snd (rotateProfiles ps deviceOf False script 0 again clock used) = Exited"
  unfolding assms(2)
proof (induction k arbitrary: again clock used)
  case 0 then show ?case using assms(1,3) by auto
next
  case (Suc k) then show ?case by (simp add: Let_def split: prod.split) (metis snd_conv)
qed

end
