(* ===== verification/Session.thy ===== *)
theory Session
  imports Worker_Group
begin

text \<open>
  One worker session (\<open>RunSession\<close> and \<open>dialTURNConn\<close> in \<open>internal/core/session.go\<close>): the TURN endpoint, dialling, the
  allocation, the choice of the channel, the first message to the server and the result that the worker of \<open>Worker_Group\<close> sees.
  The goroutines that pump packets once a session is registered are in \<open>Dispatcher\<close> and \<open>Obfs\<close>.  Sockets and the packages
  \<open>turn\<close>, \<open>selfsign\<close> and \<open>dtls\<close> are arguments: each call gives the text of its error, or \<open>None\<close>.
\<close>

section \<open>Errors\<close>

datatype session_error =
    NoTurnURL | BadTurnURL string | TurnResolve string | ConnectUDP string | ConnectTCP string | TurnClient string
  | TurnListen string | Cancelled string | TurnQuota string | TurnAllocate string | ObfsFailed string obfs_error | CertFailed string
  | DtlsClient string | WrapAuthTimeout | DtlsHandshake string | AuthFailed proto_error | TransportWriter string | TransportReader string

definition utf8 :: "nat list \<Rightarrow> string" where
  "utf8 = map char_of"

text \<open>
  The texts of the errors.  \<open>quoted\<close> is \<open>strconv.Quote\<close> (the verb \<open>%q\<close>), \<open>addrText\<close> the error of \<open>net.SplitHostPort\<close>,
  \<open>ioText\<close> what the connection reports, \<open>obfsText\<close> the errors of the obfuscation.
\<close>

record texts =
  quoted :: "string \<Rightarrow> string"
  addrText :: "string \<Rightarrow> string"
  ioText :: "proto_error \<Rightarrow> string"
  obfsText :: "obfs_error \<Rightarrow> string"

fun denyText :: "deny_reason \<Rightarrow> string" where
  "denyText WrongPassword = (utf8 [208, 189, 208, 181, 208, 178, 208, 181, 209, 128, 208, 189, 209, 139, 208, 185, 32, 208, 191, 208, 176, 209, 128, 208, 190, 208, 187, 209, 140, 32, 208, 191, 208, 190, 208, 180, 208, 186, 208, 187, 209, 142, 209, 135, 208, 181, 208, 189, 208, 184, 209, 143])"
| "denyText Expired = (utf8 [209, 129, 209, 128, 208, 190, 208, 186, 32, 208, 180, 208, 181, 208, 185, 209, 129, 209, 130, 208, 178, 208, 184, 209, 143, 32, 208, 191, 208, 176, 209, 128, 208, 190, 208, 187, 209, 143, 32, 208, 184, 209, 129, 209, 130, 209, 145, 208, 186])"
| "denyText DeviceMismatch = (utf8 [208, 191, 208, 176, 209, 128, 208, 190, 208, 187, 209, 140, 32, 208, 191, 209, 128, 208, 184, 208, 178, 209, 143, 208, 183, 208, 176, 208, 189, 32, 208, 186, 32, 208, 180, 209, 128, 209, 131, 208, 179, 208, 190, 208, 188, 209, 131, 32, 209, 131, 209, 129, 209, 130, 209, 128, 208, 190, 208, 185, 209, 129, 209, 130, 208, 178, 209, 131])"
| "denyText (OtherReason r) = (utf8 [208, 180, 208, 190, 209, 129, 209, 130, 209, 131, 208, 191, 32, 208, 183, 208, 176, 208, 191, 209, 128, 208, 181, 209, 137, 209, 145, 208, 189, 32, 40]) @ r @ '')''"

fun protoText :: "texts \<Rightarrow> proto_error \<Rightarrow> string" where
  "protoText x (FATAL_AUTH r) = ''FATAL_AUTH: '' @ denyText r"
| "protoText x (UnexpectedReply r) = (utf8 [208, 189, 208, 181, 208, 190, 208, 182, 208, 184, 208, 180, 208, 176, 208, 189, 208, 189, 209, 139, 208, 185, 32, 208, 190, 209, 130, 208, 178, 208, 181, 209, 130, 32, 82, 65, 87, 67, 79, 78, 70, 58, 32]) @ quoted x r"
| "protoText x (BadFormat r) = (utf8 [208, 189, 208, 181, 208, 186, 208, 190, 209, 128, 209, 128, 208, 181, 208, 186, 209, 130, 208, 189, 209, 139, 208, 185, 32, 209, 132, 208, 190, 209, 128, 208, 188, 208, 176, 209, 130, 32, 82, 65, 87, 67, 79, 78, 70, 58, 32]) @ quoted x r"
| "protoText x (BadMTU r) = (utf8 [208, 189, 208, 181, 208, 186, 208, 190, 209, 128, 209, 128, 208, 181, 208, 186, 209, 130, 208, 189, 209, 139, 208, 185, 32, 77, 84, 85, 32, 208, 178, 32, 82, 65, 87, 67, 79, 78, 70, 58, 32]) @ quoted x r"
| "protoText x e = ioText x e"

fun sessionText :: "texts \<Rightarrow> session_error \<Rightarrow> string" where
  "sessionText x NoTurnURL = (utf8 [208, 189, 208, 181, 209, 130, 32, 84, 85, 82, 78, 32, 85, 82, 76, 32, 208, 178, 32, 209, 131, 209, 135, 208, 181, 209, 130, 208, 189, 209, 139, 209, 133, 32, 208, 180, 208, 176, 208, 189, 208, 189, 209, 139, 209, 133])"
| "sessionText x (BadTurnURL url) = (utf8 [209, 128, 208, 176, 208, 183, 208, 177, 208, 190, 209, 128, 32, 84, 85, 82, 78, 32, 85, 82, 76, 32]) @ quoted x url @ '': '' @ addrText x url"
| "sessionText x (TurnResolve e) = (utf8 [209, 128, 208, 181, 208, 183, 208, 190, 208, 187, 208, 178, 32, 84, 85, 82, 78, 58, 32]) @ e"
| "sessionText x (ConnectUDP e) = (utf8 [208, 191, 208, 190, 208, 180, 208, 186, 208, 187, 209, 142, 209, 135, 208, 181, 208, 189, 208, 184, 208, 181, 32, 84, 85, 82, 78, 32, 85, 68, 80, 58, 32]) @ e"
| "sessionText x (ConnectTCP e) = (utf8 [208, 191, 208, 190, 208, 180, 208, 186, 208, 187, 209, 142, 209, 135, 208, 181, 208, 189, 208, 184, 208, 181, 32, 84, 85, 82, 78, 32, 84, 67, 80, 58, 32]) @ e"
| "sessionText x (TurnClient e) = (utf8 [84, 85, 82, 78, 32, 208, 186, 208, 187, 208, 184, 208, 181, 208, 189, 209, 130, 58, 32]) @ e"
| "sessionText x (TurnListen e) = ''TURN Listen: '' @ e"
| "sessionText x (Cancelled e) = e"
| "sessionText x (TurnQuota e) = (utf8 [84, 85, 82, 78, 32, 208, 186, 208, 178, 208, 190, 209, 130, 208, 176, 58, 32]) @ e"
| "sessionText x (TurnAllocate e) = ''TURN Allocate: '' @ e"
| "sessionText x (ObfsFailed what e) = ''RTP-obfs '' @ what @ '': '' @ obfsText x e"
| "sessionText x (CertFailed e) = (utf8 [208, 179, 208, 181, 208, 189, 208, 181, 209, 128, 208, 176, 209, 134, 208, 184, 209, 143, 32, 209, 129, 208, 181, 209, 128, 209, 130, 208, 184, 209, 132, 208, 184, 208, 186, 208, 176, 209, 130, 208, 176, 58, 32]) @ e"
| "sessionText x (DtlsClient e) = (utf8 [68, 84, 76, 83, 32, 208, 186, 208, 187, 208, 184, 208, 181, 208, 189, 209, 130, 58, 32]) @ e"
| "sessionText x WrapAuthTimeout = ''WRAP_AUTH_TIMEOUT: DTLS timeout, '' @ (utf8 [208, 191, 208, 176, 209, 128, 208, 190, 208, 187, 209, 140, 47, 87, 82, 65, 80, 32, 208, 189, 208, 181, 32, 208, 191, 208, 190, 208, 180, 209, 130, 208, 178, 208, 181, 209, 128, 208, 182, 208, 180, 209, 145, 208, 189])"
| "sessionText x (DtlsHandshake e) = ''DTLS '' @ (utf8 [209, 133, 208, 181, 208, 189, 208, 180, 209, 136, 208, 181, 208, 185, 208, 186, 58, 32]) @ e"
| "sessionText x (AuthFailed e) = protoText x e"
| "sessionText x (TransportWriter e) = ''transport writer: '' @ e"
| "sessionText x (TransportReader e) = ''transport reader: '' @ e"

section \<open>The TURN endpoint\<close>

definition turnEndpoint :: "TurnParams \<Rightarrow> string list \<Rightarrow> nat \<Rightarrow> session_error + string" where
  "turnEndpoint tp urls sessionID =
     (if urls = [] then Inl NoTurnURL
      else let url = urls ! (sessionID mod length urls) in
        case SplitHostPort url of
          None \<Rightarrow> Inl (BadTurnURL url)
        | Some (h, p) \<Rightarrow>
            Inr (JoinHostPort (if tpHost tp \<noteq> [] then tpHost tp else h) (if tpPort tp \<noteq> [] then tpPort tp else p)))"

datatype turn_sock = UdpSock | TcpSock

record turn_net =
  resolveUDP :: "string \<Rightarrow> string option"
  dialUDP :: "string \<Rightarrow> string option"
  dialTCP :: "string \<Rightarrow> string option"

definition dialTURNConn :: "turn_net \<Rightarrow> string \<Rightarrow> string \<Rightarrow> session_error + turn_sock" where
  "dialTURNConn ne turnAddr transport =
     (if transport \<noteq> ''tcp'' then
        (case resolveUDP ne turnAddr of
           Some e \<Rightarrow> Inl (TurnResolve e)
         | None \<Rightarrow> (case dialUDP ne turnAddr of Some e \<Rightarrow> Inl (ConnectUDP e) | None \<Rightarrow> Inr UdpSock))
      else case dialTCP ne turnAddr of Some e \<Rightarrow> Inl (ConnectTCP e) | None \<Rightarrow> Inr TcpSock)"

datatype addr_family = FamilyIPv4 | FamilyIPv6

definition addrFamily :: "bytes \<Rightarrow> addr_family" where
  "addrFamily ip = (if To4 ip \<noteq> None then FamilyIPv4 else FamilyIPv6)"

text \<open>\<open>ctxDone\<close> is the error of the context when it ends before the gate opens.\<close>

record turn_env =
  tnet :: turn_net
  newClient :: "string \<Rightarrow> string \<Rightarrow> string \<Rightarrow> addr_family \<Rightarrow> string option"
  clientListen :: "string option"
  ctxDone :: "string option"
  allocError :: "string option"
  allocTime :: int

text \<open>The allocation, with its effect on the credential cache.\<close>

definition allocationError :: "string \<Rightarrow> session_error" where
  "allocationError e = (if Contains e ''Quota'' \<or> Contains e ''486'' then TurnQuota e else TurnAllocate e)"

definition resetErrors :: "nat \<Rightarrow> cred_store \<Rightarrow> cred_store" where
  "resetErrors streamID st =
     (case getStreamCache streamID st of (c, st1) \<Rightarrow> st1(getCacheID streamID \<mapsto> c\<lparr>errorCount := 0\<rparr>))"

definition allocateRelay :: "turn_env \<Rightarrow> nat \<Rightarrow> cred_store \<Rightarrow> session_error option \<times> cred_store" where
  "allocateRelay e streamID st =
     (case allocError e of
        Some t \<Rightarrow>
          (Some (allocationError t),
           if isAuthError (Some (Plain t)) then snd (handleAuthError (allocTime e) streamID st) else st)
      | None \<Rightarrow> (None, resetErrors streamID st))"

definition openRelay :: "turn_env \<Rightarrow> TurnParams \<Rightarrow> bytes \<Rightarrow> creds \<Rightarrow> nat \<Rightarrow> nat \<Rightarrow> cred_store
    \<Rightarrow> session_error option \<times> cred_store" where
  "openRelay e tp peer cr streamID sessionID st =
     (case cr of (user, pass, urls) \<Rightarrow>
      case turnEndpoint tp urls sessionID of
        Inl er \<Rightarrow> (Some er, st)
      | Inr turnAddr \<Rightarrow>
          (case dialTURNConn (tnet e) turnAddr (tpTransport tp) of
             Inl er \<Rightarrow> (Some er, st)
           | Inr _ \<Rightarrow>
               (case newClient e turnAddr user pass (addrFamily peer) of
                  Some t \<Rightarrow> (Some (TurnClient t), st)
                | None \<Rightarrow>
                    (case clientListen e of
                       Some t \<Rightarrow> (Some (TurnListen t), st)
                     | None \<Rightarrow>
                         (case ctxDone e of
                            Some t \<Rightarrow> (Some (Cancelled t), st)
                          | None \<Rightarrow> allocateRelay e streamID st)))))"

section \<open>The channel to the server\<close>

datatype channel = Direct ObfsConfig ObfsState | Dtls "(ObfsConfig \<times> ObfsState) option"

text \<open>What happens after the allocation: random bytes, the errors of the DTLS steps, the exchange with the server, and the errors
  that end the pumping of packets (\<open>True\<close>: of the writer), in their order.\<close>

record session_env = turn_env +
  randomness :: entropy
  certError :: "string option"
  slotDone :: "string option"
  dtlsError :: "string option"
  handshakeError :: "string option"
  writeWorks :: bool
  deadlineWorks :: bool
  serverReply :: "string option"
  tunnelErrors :: "(bool \<times> string) list"

definition obfsPair :: "entropy \<Rightarrow> string \<Rightarrow> session_error + (ObfsConfig \<times> ObfsState)" where
  "obfsPair ent mode =
     (case NewObfsConfig mode ent of
        Inl e \<Rightarrow> Inl (ObfsFailed ''config'' e)
      | Inr (cfg, ent1) \<Rightarrow>
          (case NewObfsState ent1 of Inl e \<Rightarrow> Inl (ObfsFailed ''state'' e) | Inr (st, _) \<Rightarrow> Inr (cfg, st)))"

definition useWrap :: "TurnParams \<Rightarrow> bool" where
  "useWrap tp \<longleftrightarrow> length (WrapKey tp) = wrapKeyLen"

definition handshakeFailure :: "bool \<Rightarrow> string \<Rightarrow> session_error" where
  "handshakeFailure wrapped e =
     (if wrapped \<and> (Contains (lower_view e) ''deadline'' \<or> Contains (lower_view e) ''timeout'') then WrapAuthTimeout
      else DtlsHandshake e)"

definition openChannel :: "session_env \<Rightarrow> TurnParams \<Rightarrow> session_error + channel" where
  "openChannel e tp =
     (if useWrap tp \<and> (tpNoDTLS tp \<or> tpRawMode tp) then
        (case obfsPair (randomness e) (ObfsMode tp) of Inl er \<Rightarrow> Inl er | Inr (cfg, st) \<Rightarrow> Inr (Direct cfg st))
      else
        case (if useWrap tp then map_sum id Some (obfsPair (randomness e) (ObfsMode tp)) else Inr None) of
          Inl er \<Rightarrow> Inl er
        | Inr obfs \<Rightarrow>
            (case certError e of
               Some t \<Rightarrow> Inl (CertFailed t)
             | None \<Rightarrow>
                 (case slotDone e of
                    Some t \<Rightarrow> Inl (Cancelled t)
                  | None \<Rightarrow>
                      (case dtlsError e of
                         Some t \<Rightarrow> Inl (DtlsClient t)
                       | None \<Rightarrow>
                           (case handshakeError e of
                              Some t \<Rightarrow> Inl (handshakeFailure (useWrap tp) t)
                            | None \<Rightarrow> Inr (Dtls obfs))))))"

section \<open>The first message\<close>

text \<open>The configuration channel of the controller: room for one element, none for groups that have no channel.\<close>

type_synonym config_chan = "string list option"

definition offer :: "string \<Rightarrow> string list \<Rightarrow> string list" where
  "offer conf q = (if q = [] then [conf] else q)"

definition rawConf :: "string \<Rightarrow> string \<Rightarrow> int \<Rightarrow> string" where
  "rawConf ip dns mtu = ''RAWCONF:'' @ ip @ ''|'' @ dns @ ''|'' @ Itoa mtu"

definition fatalReply :: "texts \<Rightarrow> proto_error \<Rightarrow> bool" where
  "fatalReply x e \<longleftrightarrow> Contains (protoText x e) ''FATAL_AUTH''"

text \<open>The message sent, the error that ends the session, whether the configuration counts as delivered, and the channel.\<close>

definition greet :: "texts \<Rightarrow> session_env \<Rightarrow> bool \<Rightarrow> bool \<Rightarrow> string \<Rightarrow> string \<Rightarrow> string \<Rightarrow> config_chan
    \<Rightarrow> string option \<times> session_error option \<times> bool \<times> config_chan" where
  "greet x e raw getConfig localPort deviceID password ch =
     (case (getConfig, ch) of
        (True, Some q) \<Rightarrow>
          (case (if raw then
                   (case RequestRawConfig (writeWorks e) (deadlineWorks e) (serverReply e) deviceID password of
                      (sent, r) \<Rightarrow> (sent, map_sum id (\<lambda>(ip, dns, mtu). if ip \<noteq> [] then rawConf ip dns mtu else []) r))
                 else RequestConfig (writeWorks e) (deadlineWorks e) (serverReply e) localPort deviceID password) of
             (sent, Inl er) \<Rightarrow> (sent, if fatalReply x er then Some (AuthFailed er) else None, False, ch)
           | (sent, Inr conf) \<Rightarrow> (sent, None, conf \<noteq> [], if conf \<noteq> [] then Some (offer conf q) else ch))
      | _ \<Rightarrow> (fst (SendAuth (writeWorks e) deviceID password), None, False, ch))"

section \<open>The session\<close>

record session_result =
  rDelivered :: bool
  rError :: "session_error option"
  rSent :: "string option"
  rChannel :: "channel option"
  rRegistered :: bool
  rConfig :: config_chan
  rCache :: cred_store

definition failed :: "session_error \<Rightarrow> config_chan \<Rightarrow> cred_store \<Rightarrow> session_result" where
  "failed er ch st =
     \<lparr>rDelivered = False, rError = Some er, rSent = None, rChannel = None, rRegistered = False, rConfig = ch, rCache = st\<rparr>"

definition firstError :: "(bool \<times> string) list \<Rightarrow> session_error option" where
  "firstError errs =
     (case errs of [] \<Rightarrow> None | (True, t) # _ \<Rightarrow> Some (TransportWriter t) | (False, t) # _ \<Rightarrow> Some (TransportReader t))"

definition RunSession :: "texts \<Rightarrow> session_env \<Rightarrow> TurnParams \<Rightarrow> bytes \<Rightarrow> bool \<Rightarrow> string \<Rightarrow> creds \<Rightarrow> nat \<Rightarrow> nat \<Rightarrow> string
    \<Rightarrow> string \<Rightarrow> config_chan \<Rightarrow> cred_store \<Rightarrow> session_result" where
  "RunSession x e tp peer getConfig localPort cr streamID sessionID deviceID password ch st =
     (case openRelay (turn_env.truncate e) tp peer cr streamID sessionID st of
        (Some er, st1) \<Rightarrow> failed er ch st1
      | (None, st1) \<Rightarrow>
          (case openChannel e tp of
             Inl er \<Rightarrow> failed er ch st1
           | Inr c \<Rightarrow>
               (case greet x e (tpRawMode tp) getConfig localPort deviceID password ch of
                  (sent, Some er, _, _) \<Rightarrow> (failed er ch st1)\<lparr>rSent := sent, rChannel := Some c\<rparr>
                | (sent, None, delivered, ch1) \<Rightarrow>
                    \<lparr>rDelivered = delivered, rError = firstError (tunnelErrors e), rSent = sent, rChannel = Some c,
                     rRegistered = True, rConfig = ch1, rCache = st1\<rparr>)))"

section \<open>What a session leaves\<close>

lemma resetErrors_other: "i \<noteq> getCacheID sid \<Longrightarrow> resetErrors sid st i = st i"
  by (auto simp: resetErrors_def getStreamCache_def Let_def split: option.split)

lemma resetErrors_same: "\<exists>c. resetErrors sid st (getCacheID sid) = Some c \<and> errorCount c = 0"
  by (auto simp: resetErrors_def getStreamCache_def Let_def split: option.split)

lemma handleAuthError_other: "i \<noteq> getCacheID sid \<Longrightarrow> snd (handleAuthError t sid st) i = st i"
  by (auto simp: handleAuthError_def getStreamCache_def Let_def split: option.split)

lemma allocateRelay_cases:
  assumes "allocateRelay e sid st = (r, st1)"
  shows "(r = None \<longleftrightarrow> allocError e = None) \<and> (r = None \<longrightarrow> st1 = resetErrors sid st) \<and> (\<forall>i. i \<noteq> getCacheID sid \<longrightarrow> st1 i = st i)"
  using assms by (auto simp: allocateRelay_def resetErrors_other handleAuthError_other split: option.splits if_splits)

lemma openRelay_cases:
  assumes "openRelay e tp peer cr sid n st = (r, st1)"
  shows "(r = None \<longrightarrow> allocError e = None \<and> st1 = resetErrors sid st) \<and> (\<forall>i. i \<noteq> getCacheID sid \<longrightarrow> st1 i = st i)"
  using assms
  by (auto simp: openRelay_def split: prod.splits sum.splits option.splits dest!: allocateRelay_cases)

definition secured :: "session_env \<Rightarrow> TurnParams \<Rightarrow> channel \<Rightarrow> bool" where
  "secured e tp c \<longleftrightarrow>
     (case c of
        Direct cfg _ \<Rightarrow> length (WrapKey tp) = 32 \<and> Obfs.cfg_ok cfg
      | Dtls ob \<Rightarrow> handshakeError e = None \<and> (ob \<noteq> None \<longleftrightarrow> length (WrapKey tp) = 32))"

lemma openChannel_secured: "openChannel e tp = Inr c \<Longrightarrow> secured e tp c"
  by (auto simp: openChannel_def secured_def useWrap_def wrapKeyLen_def obfsPair_def
      split: if_splits sum.splits option.splits prod.splits dest: NewObfsConfig_ok)

definition greeting :: "bool \<Rightarrow> bool \<Rightarrow> string \<Rightarrow> string \<Rightarrow> string \<Rightarrow> string" where
  "greeting raw asks localPort deviceID password =
     (if \<not> asks then authPayload deviceID password
      else if raw then getrawPayload deviceID password
      else getconfPayload localPort deviceID password)"

text \<open>The server answers the request with a denial.\<close>

definition denial :: "session_env \<Rightarrow> bool" where
  "denial e \<longleftrightarrow> writeWorks e \<and> deadlineWorks e \<and> (\<exists>b. serverReply e = Some b \<and> HasPrefix b ''DENIED:'')"

lemma denial_fatal: "fatalReply x (FATAL_AUTH r)"
proof -
  have "protoText x (FATAL_AUTH r) = [] @ ''FATAL_AUTH'' @ ('': '' @ denyText r)" by simp
  then show ?thesis unfolding fatalReply_def by (metis Contains_infix)
qed

lemma rawReply_pieces:
  assumes "rawReply resp = Inr (ip, dns, mtu)"
  shows "ip = [] \<or> CHR ''|'' \<notin> set ip \<and> CHR ''|'' \<notin> set dns \<and> - (2 ^ 63) \<le> mtu \<and> mtu < 2 ^ 63"
proof (cases "resp = ''NOCONF''")
  case False
  let ?ps = "SplitByte CHR ''|'' (TrimPrefix resp ''RAWCONF:'')"
  have no: "\<not> HasPrefix resp ''DENIED:''" "HasPrefix resp ''RAWCONF:''"
    using assms False by (auto simp: rawReply_def split: if_splits)
  from assms False no obtain a b c where ps: "?ps = [a, b, c]" and r: "ip = TrimSpace a" "dns = TrimSpace b" "Atoi (TrimSpace c) = Some mtu"
    by (auto simp: rawReply_def split: list.splits option.splits)
  have "CHR ''|'' \<notin> set a" "CHR ''|'' \<notin> set b"
    using SplitByte_no_sep [of _ "CHR ''|''" "TrimPrefix resp ''RAWCONF:''"] ps by simp_all
  moreover have "- (2 ^ 63) \<le> mtu \<and> mtu < 2 ^ 63" using r(3) by (auto simp: Atoi_def Let_def split: if_splits)
  ultimately show ?thesis using r set_TrimSpace by auto
qed (use assms in \<open>auto simp: rawReply_def\<close>)

lemma Itoa_no_bar: "CHR ''|'' \<notin> set (Itoa i)"
  using nat_digits_digit [of "nat i"] nat_digits_digit [of "nat (- i)"]
  by (auto simp: Itoa_def list_all_iff is_digit_def)

text \<open>The controller reads back what the session put into the configuration channel.\<close>

lemma onConfig_rawConf:
  assumes "CHR ''|'' \<notin> set ip" "CHR ''|'' \<notin> set dns" "- (2 ^ 63) \<le> mtu" "mtu < 2 ^ 63"
  shows "onConfig c (rawConf ip dns mtu) = [EEvent ''raw_conf'' (ip @ ''|'' @ dns @ ''|'' @ Itoa mtu), EEvent ''raw_ready'' []]"
proof -
  have "SplitByte CHR ''|'' (ip @ ''|'' @ dns @ ''|'' @ Itoa mtu) = [ip, dns, Itoa mtu]"
    using SplitByte_append [OF assms(1), of "dns @ ''|'' @ Itoa mtu"] SplitByte_append [OF assms(2), of "Itoa mtu"]
      SplitByte_single [OF Itoa_no_bar] by simp
  moreover have "TrimPrefix (''RAWCONF:'' @ r) ''RAWCONF:'' = r" "HasPrefix (''RAWCONF:'' @ r) ''RAWCONF:''" for r by (rule TrimPrefix_append, rule HasPrefix_append)
  ultimately show ?thesis
    using Atoi_Itoa [OF assms(3,4)] unfolding onConfig_def rawConf_def by (simp del: append.simps)
qed

lemma onConfig_ex:
  assumes "CHR ''|'' \<notin> set ip" "CHR ''|'' \<notin> set dns" "- (2 ^ 63) \<le> mtu" "mtu < 2 ^ 63"
  shows "\<exists>data. \<forall>c. onConfig c (rawConf ip dns mtu) = [EEvent ''raw_conf'' data, EEvent ''raw_ready'' []]"
  using onConfig_rawConf [OF assms] by blast

definition asks :: "bool \<Rightarrow> config_chan \<Rightarrow> bool" where
  "asks getConfig ch \<longleftrightarrow> getConfig \<and> ch \<noteq> None"

lemma greet_auth: "\<not> asks g ch \<Longrightarrow> greet x e raw g lp d p ch = (fst (SendAuth (writeWorks e) d p), None, False, ch)"
  by (auto simp: greet_def asks_def split: bool.split option.split)

lemma greet_sent: "fst (greet x e raw g lp d p ch) \<in> {None, Some (greeting raw (asks g ch) lp d p)}"
  by (auto simp: greet_def asks_def greeting_def SendAuth_def RequestConfig_def RequestRawConfig_def exchange_def
      split: bool.split option.split sum.split prod.split)

lemma prefix_take: "HasPrefix b p \<Longrightarrow> length p \<le> n \<Longrightarrow> HasPrefix (take n b) p"
  by (auto simp: HasPrefix_def min_def)

lemma denied_reply:
  assumes "HasPrefix b ''DENIED:''"
  shows "\<exists>r. configReply (take readBuffer b) = Inl (FATAL_AUTH r)" "\<exists>r. rawReply (take readBuffer b) = Inl (FATAL_AUTH r)"
proof -
  have p: "HasPrefix (take readBuffer b) ''DENIED:''" using assms by (rule prefix_take) (simp add: readBuffer_def)
  then have "take readBuffer b \<noteq> ''NOCONF''" by (auto simp: HasPrefix_iff)
  with p show "\<exists>r. configReply (take readBuffer b) = Inl (FATAL_AUTH r)" "\<exists>r. rawReply (take readBuffer b) = Inl (FATAL_AUTH r)"
    by (auto simp: configReply_def rawReply_def)
qed

lemma greet_denied:
  assumes "asks g ch" "denial e"
  shows "\<exists>sent r. greet x e raw g lp d p ch = (sent, Some (AuthFailed (FATAL_AUTH r)), False, ch)"
proof -
  obtain b where b: "serverReply e = Some b" "HasPrefix b ''DENIED:''" "writeWorks e" "deadlineWorks e" using assms(2) by (auto simp: denial_def)
  obtain q where q: "g" "ch = Some q" using assms(1) by (auto simp: asks_def)
  obtain r1 r2 where "configReply (take readBuffer b) = Inl (FATAL_AUTH r1)" "rawReply (take readBuffer b) = Inl (FATAL_AUTH r2)"
    using denied_reply [OF b(2)] by blast
  then show ?thesis
    using b q by (cases raw) (simp_all add: greet_def RequestConfig_def RequestRawConfig_def exchange_def denial_fatal)
qed

lemma greet_cases:
  assumes "greet x e raw g lp d p ch = (sent, r, delivered, ch1)"
  shows "(r \<noteq> None \<longrightarrow> \<not> delivered \<and> (\<exists>er. r = Some (AuthFailed er) \<and> fatalReply x er) \<and> asks g ch) \<and> (\<not> delivered \<longrightarrow> ch1 = ch)"
  using assms by (auto simp: greet_def asks_def split: bool.splits option.splits sum.splits prod.splits if_splits)

lemma RequestRawConfig_pieces:
  assumes "RequestRawConfig w dl reply d p = (sent, Inr (ip, dns, mtu))" "ip \<noteq> []"
  shows "CHR ''|'' \<notin> set ip \<and> CHR ''|'' \<notin> set dns \<and> - (2 ^ 63) \<le> mtu \<and> mtu < 2 ^ 63"
proof -
  obtain resp where "rawReply resp = Inr (ip, dns, mtu)"
    using assms(1) by (auto simp: RequestRawConfig_def split: prod.splits sum.splits)
  then show ?thesis using assms(2) rawReply_pieces by blast
qed

lemma greet_delivered:
  assumes "greet x e raw g lp d p ch = (sent, r, True, ch1)"
  obtains q conf where "ch = Some q" "ch1 = Some (offer conf q)" "conf \<noteq> []" "r = None" "g"
    "raw \<Longrightarrow> \<exists>ip dns mtu. conf = rawConf ip dns mtu \<and> CHR ''|'' \<notin> set ip \<and> CHR ''|'' \<notin> set dns \<and> - (2 ^ 63) \<le> mtu \<and> mtu < 2 ^ 63"
proof -
  have "asks g ch" using assms greet_auth by fastforce
  then obtain q where q: g "ch = Some q" by (auto simp: asks_def)
  show thesis
  proof (cases raw)
    case False
    obtain s rr where "RequestConfig (writeWorks e) (deadlineWorks e) (serverReply e) lp d p = (s, rr)" by fastforce
    then show thesis using assms q False that by (cases rr) (auto simp: greet_def split: if_splits)
  next
    case True
    obtain s rr where rq: "RequestRawConfig (writeWorks e) (deadlineWorks e) (serverReply e) d p = (s, rr)" by fastforce
    show thesis
    proof (cases rr)
      case (Inr t)
      obtain ip dns mtu where t: "t = (ip, dns, mtu)" by (cases t) auto
      have c: "ip \<noteq> []" "ch1 = Some (offer (rawConf ip dns mtu) q)" "r = None"
        using assms True q rq by (auto simp: greet_def t Inr split: if_splits)
      show thesis
        using c q RequestRawConfig_pieces [OF rq [unfolded Inr t] c(1)]
        by (intro that [of q "rawConf ip dns mtu"]) (auto simp: rawConf_def)
    qed (use assms True q rq in \<open>simp add: greet_def\<close>)
  qed
qed

text \<open>The forms that a session can take.\<close>

lemma RunSession_cases:
  fixes r :: session_result
  assumes "r = RunSession x e tp peer g lp cr sid n d p ch st"
  obtains (early) er st1 where "r = failed er ch st1" "\<forall>i. i \<noteq> getCacheID sid \<longrightarrow> st1 i = st i"
  | (refused) er sent c where "r = (failed er ch (resetErrors sid st))\<lparr>rSent := sent, rChannel := Some c\<rparr>"
      "\<exists>pe. er = AuthFailed pe \<and> fatalReply x pe" "asks g ch"
  | (tunnel) c sent delivered ch1 where "allocError e = None" "openChannel e tp = Inr c"
      "greet x e (tpRawMode tp) g lp d p ch = (sent, None, delivered, ch1)"
      "r = \<lparr>rDelivered = delivered, rError = firstError (tunnelErrors e), rSent = sent, rChannel = Some c, rRegistered = True,
            rConfig = ch1, rCache = resetErrors sid st\<rparr>"
proof -
  obtain er0 st1 where o: "openRelay (turn_env.truncate e) tp peer cr sid n st = (er0, st1)" by fastforce
  note oc = openRelay_cases [OF o]
  have al: "allocError (turn_env.truncate e) = allocError e" by (simp add: turn_env.truncate_def)
  show thesis
  proof (cases er0)
    case (Some er)
    then show thesis using assms o oc early by (simp add: RunSession_def)
  next
    case None
    show thesis
    proof (cases "openChannel e tp")
      case (Inl er)
      then show thesis using assms o oc None by (intro early [of er st1]) (simp_all add: RunSession_def resetErrors_other)
    next
      case (Inr c)
      obtain sent gr del ch1 where gr: "greet x e (tpRawMode tp) g lp d p ch = (sent, gr, del, ch1)" by (metis prod_cases4)
      show thesis
        using greet_cases [OF gr] assms o oc None Inr gr al refused tunnel by (cases gr) (auto simp: RunSession_def)
    qed
  qed
qed

lemma fatal_retires: "fatalReply x pe \<Longrightarrow> afterSession l (Some (sessionText x (AuthFailed pe))) = (False, Retire)"
  by (simp add: afterSession_def fatalSession_def fatalReply_def)

lemma quota_text:
  assumes "Contains t ''Quota'' \<or> Contains t ''486''"
  shows "isTurnQuota lower_view (w @ t)"
proof -
  consider y z where "t = y @ ''Quota'' @ z" | y z where "t = y @ ''486'' @ z" using assms by (auto simp: Contains_iff)
  then show ?thesis
  proof cases
    case 1
    have "lower_view ((w @ y) @ ''Quota'' @ z) = lower_view (w @ y) @ map ascii_lower ''Quota'' @ lower_view z"
      by (rule lower_view_ascii_infix) simp_all
    moreover have "map ascii_lower ''Quota'' = ''quota''" by code_simp
    ultimately have "lower_view (w @ t) = lower_view (w @ y) @ ''quota'' @ lower_view z" by (simp add: 1)
    then show ?thesis unfolding isTurnQuota_def Contains_iff by blast
  next
    case 2
    then have "w @ t = (w @ y) @ ''486'' @ z" by simp
    then show ?thesis unfolding isTurnQuota_def Contains_iff by blast
  qed
qed

text \<open>
  C4. What a session promises to the group and to the controller.  It is registered with the dispatcher, so that user traffic
  flows, only after the relay was allocated, over a channel that is encrypted (packets sealed under the 32-byte key, or a DTLS
  connection whose handshake succeeded), after nothing but the one request that is due was sent, and never when the server denied
  it.  A session that is not registered ends in an error, delivers nothing and leaves the configuration channel as it was.  A
  session that reports a delivery was asked to fetch the configuration and leaves one in the channel; in raw mode the controller
  turns what it put there into the events that bring the tunnel up.  A refusal makes the worker retire without refreshing the
  credentials, a quota error never refreshes them, and a registered session resets the error count of its own group; the
  cached credentials of the other groups stay as they are.
\<close>

theorem session_outcome:
  assumes r: "r = RunSession x e tp peer getConfig localPort cr streamID sessionID deviceID password ch st"
  shows "(rRegistered r \<longrightarrow>
       allocError e = None \<and> (\<exists>c. rChannel r = Some c \<and> secured e tp c) \<and>
       rSent r \<in> {None, Some (greeting (tpRawMode tp) (asks getConfig ch) localPort deviceID password)} \<and>
       \<not> (asks getConfig ch \<and> denial e) \<and> (\<exists>c. rCache r (getCacheID streamID) = Some c \<and> errorCount c = 0)) \<and>
     (\<not> rRegistered r \<longrightarrow> rError r \<noteq> None \<and> \<not> rDelivered r \<and> rConfig r = ch) \<and>
     (rDelivered r \<longrightarrow>
       rRegistered r \<and> asks getConfig ch \<and> rConfig r \<noteq> Some [] \<and> rConfig r \<noteq> None \<and>
       (tpRawMode tp \<and> ch = Some [] \<longrightarrow>
          (\<exists>data. \<forall>c. onConfig c (hd (the (rConfig r))) = [EEvent ''raw_conf'' data, EEvent ''raw_ready'' []]))) \<and>
     (\<not> rRegistered r \<and> rChannel r \<noteq> None \<longrightarrow>
       afterSession lower_view (map_option (sessionText x) (rError r)) = (False, Retire)) \<and>
     (\<forall>t. allocError e = Some t \<and> (Contains t ''Quota'' \<or> Contains t ''486'') \<longrightarrow>
       \<not> fst (afterSession lower_view (Some (sessionText x (allocationError t))))) \<and>
     (\<forall>i. i \<noteq> getCacheID streamID \<longrightarrow> rCache r i = st i)"
proof -
  have quota: "\<not> fst (afterSession lower_view (Some (sessionText x (allocationError t))))"
    if "Contains t ''Quota'' \<or> Contains t ''486''" for t
    using quota_text [OF that] by (auto simp: allocationError_def that afterSession_def needsRefresh_def)
  from r show ?thesis
  proof (cases rule: RunSession_cases)
    case (early er st1)
    then show ?thesis using quota by (simp add: failed_def)
  next
    case (refused er sent c)
    then show ?thesis using quota fatal_retires by (auto simp: failed_def resetErrors_other)
  next
    case (tunnel c sent del ch1)
    have "sent \<in> {None, Some (greeting (tpRawMode tp) (asks getConfig ch) localPort deviceID password)}"
      using greet_sent [of x e "tpRawMode tp" getConfig localPort deviceID password ch] tunnel(3) by simp
    moreover have "\<not> (asks getConfig ch \<and> denial e)"
      using greet_denied [of getConfig ch e x "tpRawMode tp" localPort deviceID password] tunnel(3) by auto
    moreover have "asks getConfig ch \<and> ch1 \<noteq> Some [] \<and> ch1 \<noteq> None \<and> (tpRawMode tp \<and> ch = Some [] \<longrightarrow>
          (\<exists>data. \<forall>c. onConfig c (hd (the ch1)) = [EEvent ''raw_conf'' data, EEvent ''raw_ready'' []]))" if del
    proof -
      from tunnel(3) that have "greet x e (tpRawMode tp) getConfig localPort deviceID password ch = (sent, None, True, ch1)" by simp
      then show ?thesis by (rule greet_delivered) (auto simp: asks_def offer_def intro!: onConfig_ex)
    qed
    ultimately show ?thesis
      using quota tunnel openChannel_secured [OF tunnel(2)] resetErrors_same by (simp add: resetErrors_other)
  qed
qed

definition demoTexts :: texts where
  "demoTexts = \<lparr>quoted = (\<lambda>s. s), addrText = (\<lambda>s. s), ioText = (\<lambda>_. ''EOF''), obfsText = (\<lambda>_. ''EOF'')\<rparr>"

definition demoSession :: session_env where
  "demoSession =
     \<lparr>tnet = \<lparr>resolveUDP = (\<lambda>_. None), dialUDP = (\<lambda>_. None), dialTCP = (\<lambda>_. Some ''refused'')\<rparr>, newClient = (\<lambda>_ _ _ _. None),
      clientListen = None, ctxDone = None, allocError = None, allocTime = 0, randomness = replicate 16 7, certError = None,
      slotDone = None, dtlsError = None, handshakeError = None, writeWorks = True, deadlineWorks = True,
      serverReply = Some ''RAWCONF:10.0.0.2|1.1.1.1|1300'', tunnelErrors = [(False, ''EOF'')]\<rparr>"

definition demoTp :: TurnParams where
  "demoTp = \<lparr>tpHost = [], tpPort = [], tpHashes = [''h''], WrapKey = replicate 32 1, ObfsMode = ''audio'', tpNoDTLS = True, tpRawMode = True,
     tpTransport = ''udp''\<rparr>"

definition demoRun :: session_result where
  "demoRun = RunSession demoTexts demoSession demoTp [1, 2, 3, 4] True ''9000'' (''u'', ''p'', [''1.2.3.4:3478'']) 100 1 ''d'' ''pw'' (Some []) Map.empty"

lemma demoRun_delivers: "rDelivered demoRun \<and> rRegistered demoRun" by code_simp

theorem session_outcome_witness:
  "rDelivered demoRun \<and> (\<exists>c. rChannel demoRun = Some c \<and> secured demoSession demoTp c) \<and>
   (\<exists>data. \<forall>c. onConfig c (hd (the (rConfig demoRun))) = [EEvent ''raw_conf'' data, EEvent ''raw_ready'' []])"
  using session_outcome [OF demoRun_def] demoRun_delivers by (simp add: demoTp_def)

section \<open>The worker and its credentials\<close>

text \<open>One round of a worker: the session with the credentials of the group, and what the worker does with the result.\<close>

definition workerRound :: "texts \<Rightarrow> session_env \<Rightarrow> TurnParams \<Rightarrow> bytes \<Rightarrow> bool \<Rightarrow> string \<Rightarrow> nat \<Rightarrow> nat \<Rightarrow> string \<Rightarrow> string \<Rightarrow> config_chan
    \<Rightarrow> int \<Rightarrow> int \<Rightarrow> (vkerr + creds) \<Rightarrow> group_creds \<Rightarrow> session_result \<times> decision \<times> group_creds" where
  "workerRound x e tp peer getConfig localPort streamID wid deviceID password ch now now' fetched g =
     (let r = RunSession x e tp peer getConfig localPort (gcreds g) streamID wid deviceID password ch (gcache g);
          (refresh, dec) = afterSession lower_view (map_option (sessionText x) (rError r));
          g1 = g\<lparr>gcache := rCache r\<rparr>
      in (r, dec, if refresh then snd (snd (refreshCreds streamID now now' fetched g1)) else g1))"

text \<open>What package \<open>turn\<close> reports when the server refuses the credentials.\<close>

definition unauthorized :: string where
  "unauthorized = ''Allocate error response (error 401: Unauthorized)''"

text \<open>
  The error counts against the cached credentials, which are dropped after the third one, but the worker neither retires nor
  refreshes the credentials that the group works with, so it goes on with the refused ones.
\<close>

lemma unauthorized_keeps_credentials:
  assumes "workerRound x e tp peer getConfig lp sid wid d p ch now now' fetched g = (r, dec, g')"
    and "rError r = Some (allocationError unauthorized)"
  shows "isAuthError (Some (Plain unauthorized)) \<and> dec = Retry Normal \<and> gcreds g' = gcreds g"
proof -
  have a: "allocationError unauthorized = TurnAllocate unauthorized" by code_simp
  have "afterSession lower_view (Some (''TURN Allocate: '' @ unauthorized)) = (False, Retry Normal)" by code_simp
  moreover have "isAuthError (Some (Plain unauthorized))" by code_simp
  moreover from assms(1) have "r = RunSession x e tp peer getConfig lp (gcreds g) sid wid d p ch (gcache g)"
    by (auto simp: workerRound_def Let_def split: prod.splits)
  ultimately show ?thesis using assms by (auto simp: workerRound_def Let_def a)
qed

text \<open>The configuration keeps the spelling of the transport, so that anything but the lower case word dials UDP.\<close>

lemma upper_case_tcp_dials_udp:
  assumes "resolveUDP ne addr = None" "dialUDP ne addr = None"
  shows "dialTURNConn ne addr ''TCP'' = Inr UdpSock"
  using assms by (simp add: dialTURNConn_def)

end
