(* ===== verification/Doh.thy ===== *)
theory Doh
  imports Creds Go_Net
begin

text \<open>
  DNS over HTTPS (\<open>internal/core/doh.go\<close>) and the choice of the resolver (\<open>setupGlobalResolver\<close> in
  \<open>internal/core/creds.go\<close>).  \<open>net/url\<close>, the HTTP client and the dialler are arguments.
\<close>

section \<open>Endpoints\<close>

definition goDNSIsDoH :: "string \<Rightarrow> bool" where
  "goDNSIsDoH arg = (let a = lower_view (TrimSpace arg) in HasPrefix a ''doh:'' \<or> HasPrefix a ''doh-'')"

definition goDoHEndpointsForPreset :: "string \<Rightarrow> string list" where
  "goDoHEndpointsForPreset preset =
     (let p = lower_view (TrimSpace preset) in
      if p = ''doh-cloudflare'' then [''https://1.1.1.1/dns-query'', ''https://cloudflare-dns.com/dns-query'']
      else if p = ''doh-google'' then [''https://8.8.8.8/dns-query'', ''https://dns.google/dns-query'']
      else [''https://77.88.8.8/dns-query'', ''https://common.dot.dns.yandex.net/dns-query''])"

text \<open>\<open>url.Parse\<close>, \<open>URL.Hostname\<close> and \<open>URL.String\<close>; \<open>'u\<close> is what else a parsed URL holds (user, escaped path).\<close>

record 'u url =
  uScheme :: string
  uHost :: string
  uPath :: string
  uRawQuery :: string
  uFragment :: string
  uRest :: 'u

record 'u url_lib =
  parseURL :: "string \<Rightarrow> 'u url option"
  showURL :: "'u url \<Rightarrow> string"
  hostname :: "'u url \<Rightarrow> string"

definition normalizeDoHEndpoint :: "'u url_lib \<Rightarrow> string \<Rightarrow> string option" where
  "normalizeDoHEndpoint lib raw0 =
     (let raw = TrimSpace raw0 in
      if raw = [] \<or> \<not> HasPrefix (lower_view raw) ''https://'' then None
      else case parseURL lib raw of
        None \<Rightarrow> None
      | Some u \<Rightarrow>
          if uScheme u \<noteq> ''https'' \<or> uHost u = [] then None
          else
            let p = TrimSpace (uPath u); path = (if p = [] \<or> p = ''/'' then ''/dns-query'' else p)
            in Some (showURL lib (u\<lparr>uPath := path, uRawQuery := [], uFragment := []\<rparr>)))"

definition goDoHEndpointsForArg :: "'u url_lib \<Rightarrow> string \<Rightarrow> string list" where
  "goDoHEndpointsForArg lib arg0 =
     (let arg = TrimSpace arg0 in
      if HasPrefix arg ''doh:'' then
        (let out = List.map_filter (normalizeDoHEndpoint lib)
                     (filter (\<lambda>p. p \<noteq> []) (map TrimSpace (SplitByte CHR '','' (TrimPrefix arg ''doh:''))))
         in if out \<noteq> [] then out else goDoHEndpointsForPreset ''doh-yandex'')
      else if lower_view arg \<notin> {''doh-yandex'', ''doh-cloudflare'', ''doh-google''} then goDoHEndpointsForPreset ''doh-yandex''
      else goDoHEndpointsForPreset arg)"

definition dohHostHeader :: "'u url_lib \<Rightarrow> string \<Rightarrow> string" where
  "dohHostHeader lib endpoint =
     (case parseURL lib endpoint of
        None \<Rightarrow> []
      | Some u \<Rightarrow>
          (let host = hostname lib u in
           if ParseIP host = None then []
           else if host \<in> {''1.1.1.1'', ''1.0.0.1''} then ''cloudflare-dns.com''
           else if host \<in> {''8.8.8.8'', ''8.8.4.4''} then ''dns.google''
           else if host \<in> {''77.88.8.8'', ''77.88.8.1''} then ''common.dot.dns.yandex.net''
           else []))"

definition trimSlashes :: "string \<Rightarrow> string" where
  "trimSlashes s = rev (dropWhile (\<lambda>c. c = CHR ''/'') (rev (dropWhile (\<lambda>c. c = CHR ''/'') s)))"

definition dohEndpointLabel :: "'u url_lib \<Rightarrow> string \<Rightarrow> string" where
  "dohEndpointLabel lib endpoint =
     (let h = dohHostHeader lib endpoint in
      if h \<noteq> [] then h
      else case parseURL lib endpoint of
        None \<Rightarrow> endpoint
      | Some u \<Rightarrow>
          (let host = hostname lib u; path = trimSlashes (uPath u)
           in if path \<noteq> [] \<and> path \<noteq> ''dns-query'' then host @ ''/'' @ path else host))"

definition formatDoHEndpoints :: "'u url_lib \<Rightarrow> string list \<Rightarrow> string" where
  "formatDoHEndpoints lib eps = Join (collect_unique (\<lambda>l. l \<noteq> []) (map (dohEndpointLabel lib) eps)) '', ''"

text \<open>The server name that the TLS connection of the HTTP client asks for; \<open>None\<close> when the address has no port.\<close>

definition dohServerName :: "'u url_lib \<Rightarrow> string \<Rightarrow> string option" where
  "dohServerName lib addr =
     (case SplitHostPort addr of
        None \<Rightarrow> None
      | Some (host, _) \<Rightarrow>
          (let sni = dohHostHeader lib (''https://'' @ host @ ''/'') in Some (if sni \<noteq> [] then sni else host)))"

section \<open>Messages and their frames\<close>

definition stripDNSWireFrame :: "bytes \<Rightarrow> bytes" where
  "stripDNSWireFrame payload =
     (if length payload < 4 then payload
      else let ln = unat (payload ! 0) * 256 + unat (payload ! 1)
           in if ln > 0 \<and> ln + 2 = length payload then drop 2 payload else payload)"

definition frameDNSForTCP :: "bytes \<Rightarrow> bytes" where
  "frameDNSForTCP payload = of_nat (length payload div 256) # of_nat (length payload) # payload"

section \<open>The connection\<close>

text \<open>What an endpoint does with a query and the host header: the request cannot be made or fails, or there is a response with a status
  and, unless reading it fails, a body.\<close>

datatype http_result = BadRequest | RequestFailed | Response nat "bytes option"

datatype doh_error = NoRequest | NoResponse | BadStatus nat | BodyFailed | ShortResponse

type_synonym doh_server = "string \<Rightarrow> string \<Rightarrow> bytes \<Rightarrow> http_result"

definition dohExchange :: "'u url_lib \<Rightarrow> doh_server \<Rightarrow> string \<Rightarrow> bytes \<Rightarrow> doh_error + bytes" where
  "dohExchange lib serve endpoint query =
     (case serve endpoint (dohHostHeader lib endpoint) query of
        BadRequest \<Rightarrow> Inl NoRequest
      | RequestFailed \<Rightarrow> Inl NoResponse
      | Response status body \<Rightarrow>
          if status < 200 \<or> status \<ge> 300 then Inl (BadStatus status)
          else case body of
            None \<Rightarrow> Inl BodyFailed
          | Some b \<Rightarrow> (let b = take 65535 b in if length b < 12 then Inl ShortResponse else Inr b))"

record dohConn =
  endpoints :: "string list"
  response :: bytes
  readPos :: nat
  dclosed :: bool

datatype conn_error = ErrClosed | ReadBeforeWrite | EOF | NoEndpoints | Unanswered doh_error

definition newDohConn :: "string list \<Rightarrow> dohConn" where
  "newDohConn eps = \<lparr>endpoints = eps, response = [], readPos = 0, dclosed = False\<rparr>"

text \<open>\<open>Read\<close> into a buffer of \<open>n\<close> bytes.\<close>

definition Read :: "nat \<Rightarrow> dohConn \<Rightarrow> (conn_error + bytes) \<times> dohConn" where
  "Read n c =
     (if dclosed c then (Inl ErrClosed, c)
      else if response c = [] then (Inl ReadBeforeWrite, c)
      else if readPos c \<ge> length (response c) then (Inl EOF, c)
      else let b = take n (drop (readPos c) (response c)) in (Inr b, c\<lparr>readPos := readPos c + length b\<rparr>))"

fun tryEndpoints :: "'u url_lib \<Rightarrow> doh_server \<Rightarrow> string list \<Rightarrow> bytes \<Rightarrow> conn_error \<Rightarrow> conn_error + bytes" where
  "tryEndpoints lib serve [] query lastErr = Inl lastErr"
| "tryEndpoints lib serve (ep # eps) query lastErr =
     (case dohExchange lib serve ep query of Inr body \<Rightarrow> Inr body | Inl e \<Rightarrow> tryEndpoints lib serve eps query (Unanswered e))"

text \<open>\<open>Write\<close>: the number of bytes written.\<close>

definition Write :: "'u url_lib \<Rightarrow> doh_server \<Rightarrow> bytes \<Rightarrow> dohConn \<Rightarrow> (conn_error + nat) \<times> dohConn" where
  "Write lib serve b c =
     (if dclosed c then (Inl ErrClosed, c)
      else case tryEndpoints lib serve (endpoints c) (stripDNSWireFrame b) NoEndpoints of
        Inl e \<Rightarrow> (Inl e, c)
      | Inr body \<Rightarrow> (Inr (length b), c\<lparr>response := frameDNSForTCP body, readPos := 0\<rparr>))"

definition Close :: "dohConn \<Rightarrow> dohConn" where
  "Close c = c\<lparr>dclosed := True, response := [], readPos := 0\<rparr>"

section \<open>The resolver\<close>

text \<open>What \<open>setupGlobalResolver\<close> installs: the argument and the endpoints of the HTTPS resolver, or the servers of the plain one.\<close>

datatype dohResolver = DohResolver string "string list" | PlainResolver string "string list"

definition setupGlobalResolver :: "'u url_lib \<Rightarrow> string \<Rightarrow> dohResolver" where
  "setupGlobalResolver lib arg0 =
     (let original = TrimSpace arg0; arg = (if original = [] then ''yandex'' else original) in
      if goDNSIsDoH arg then DohResolver arg (goDoHEndpointsForArg lib arg)
      else
        let known = lower_view arg \<in> {''yandex'', ''cloudflare'', ''google''};
            arg1 = (if \<not> known \<and> \<not> HasPrefix arg ''custom:'' \<and> original \<noteq> [] then ''yandex'' else arg)
        in PlainResolver arg1 (goDNSServersForArg arg1))"

text \<open>Dialling: \<open>Inr\<close> the network and address that were reached, \<open>Inl\<close> the text of the last error, if there was one.\<close>

fun dialServers :: "(string \<Rightarrow> string \<Rightarrow> string option) \<Rightarrow> string list \<Rightarrow> string option \<Rightarrow> string option + (string \<times> string)" where
  "dialServers dial [] lastErr = Inl lastErr"
| "dialServers dial (dns # rest) lastErr =
     (if dial ''udp'' dns = None then Inr (''udp'', dns)
      else case dial ''tcp'' dns of None \<Rightarrow> Inr (''tcp'', dns) | Some e \<Rightarrow> dialServers dial rest (Some e))"

definition plainDial :: "(string \<Rightarrow> string \<Rightarrow> string option) \<Rightarrow> string list \<Rightarrow> string \<Rightarrow> string \<Rightarrow> string option + (string \<times> string)" where
  "plainDial dial servers network address =
     (case dialServers dial servers None of
        Inr r \<Rightarrow> Inr r
      | Inl lastErr \<Rightarrow>
          if address \<noteq> [] \<and> \<not> isLoopbackDNSAddress address then
            (case dial network address of None \<Rightarrow> Inr (network, address) | Some e \<Rightarrow> Inl (Some e))
          else Inl lastErr)"

definition dohDial :: "string list \<Rightarrow> dohConn option" where
  "dohDial eps = (if eps = [] then None else Some (newDohConn eps))"

section \<open>How the resolver uses the connection\<close>

text \<open>
  The resolver of the standard library treats a connection that is not a datagram one as TCP: it writes the message behind its
  length, reads two bytes of length with \<open>io.ReadFull\<close>, and then that many bytes.  A read that returns nothing before the buffer
  is full would be repeated; \<open>Read\<close> returns something as long as there is something, so \<open>ReadFull\<close> ends.
\<close>

function ReadFull :: "nat \<Rightarrow> dohConn \<Rightarrow> (conn_error + bytes) \<times> dohConn" where
  "ReadFull n c =
     (if n = 0 then (Inr [], c)
      else case Read n c of
        (Inl e, c1) \<Rightarrow> (Inl e, c1)
      | (Inr b, c1) \<Rightarrow>
          if b = [] then (Inl EOF, c1)
          else case ReadFull (n - length b) c1 of (Inl e, c2) \<Rightarrow> (Inl e, c2) | (Inr b2, c2) \<Rightarrow> (Inr (b @ b2), c2))"
  by auto
termination
  by (relation "measure fst") (auto simp: Read_def Let_def split: if_splits)

declare ReadFull.simps [simp del]

definition streamRoundTrip :: "'u url_lib \<Rightarrow> doh_server \<Rightarrow> bytes \<Rightarrow> dohConn \<Rightarrow> conn_error + bytes" where
  "streamRoundTrip lib serve query c =
     (case Write lib serve (frameDNSForTCP query) c of
        (Inl e, _) \<Rightarrow> Inl e
      | (Inr _, c1) \<Rightarrow>
          (case ReadFull 2 c1 of
             (Inl e, _) \<Rightarrow> Inl e
           | (Inr l, c2) \<Rightarrow> fst (ReadFull (unat (l ! 0) * 256 + unat (l ! 1)) c2)))"

text \<open>What it is meant to be: the first answer.\<close>

definition firstAnswer :: "'u url_lib \<Rightarrow> doh_server \<Rightarrow> string list \<Rightarrow> bytes \<Rightarrow> conn_error + bytes" where
  "firstAnswer lib serve eps query =
     (let rs = map (\<lambda>ep. dohExchange lib serve ep query) eps in
      case filter is_ok rs of
        Inr body # _ \<Rightarrow> Inr body
      | _ \<Rightarrow> Inl (if rs = [] then NoEndpoints else Unanswered (projl (last rs))))"

text \<open>Reads with buffers of the given sizes, one after the other.\<close>

fun readAll :: "nat list \<Rightarrow> dohConn \<Rightarrow> bytes" where
  "readAll [] c = []"
| "readAll (n # ns) c = (case Read n c of (Inr b, c1) \<Rightarrow> b @ readAll ns c1 | (Inl _, c1) \<Rightarrow> readAll ns c1)"

lemma of_nat_byte: "unat (of_nat n :: 8 word) = n mod 256"
  by (simp add: unat_of_nat)

lemma frame_length: "n < 65536 \<Longrightarrow> unat (of_nat (n div 256) :: byte) * 256 + unat (of_nat n :: byte) = n"
  by (simp add: of_nat_byte)

lemma strip_frame: "2 \<le> length q \<Longrightarrow> length q < 65536 \<Longrightarrow> stripDNSWireFrame (frameDNSForTCP q) = q"
  using frame_length [of "length q"] by (auto simp: stripDNSWireFrame_def frameDNSForTCP_def Let_def)

lemma tryEndpoints_first:
  "tryEndpoints lib serve eps q lastErr =
     (case filter is_ok (map (\<lambda>ep. dohExchange lib serve ep q) eps) of
        Inr body # _ \<Rightarrow> Inr body
      | _ \<Rightarrow> Inl (if eps = [] then lastErr else Unanswered (projl (last (map (\<lambda>ep. dohExchange lib serve ep q) eps)))))"
proof (induction eps arbitrary: lastErr)
  case (Cons ep eps)
  then show ?case by (cases "dohExchange lib serve ep q") (auto split: list.split sum.split)
qed simp

lemma dohExchange_length: "dohExchange lib serve ep q = Inr b \<Longrightarrow> 12 \<le> length b \<and> length b \<le> 65535"
  by (auto simp: dohExchange_def Let_def split: http_result.splits if_splits option.splits)

lemma tryEndpoints_length: "tryEndpoints lib serve eps q lastErr = Inr b \<Longrightarrow> 12 \<le> length b \<and> length b \<le> 65535"
  by (induction eps arbitrary: lastErr) (auto split: sum.splits dest: dohExchange_length)

lemma Read_open:
  assumes "\<not> dclosed c" "readPos c < length (response c)"
  shows "Read n c = (Inr (take n (drop (readPos c) (response c))),
    c\<lparr>readPos := readPos c + min n (length (response c) - readPos c)\<rparr>)"
  using assms by (auto simp: Read_def Let_def min_def)

lemma readAll_suffix:
  assumes "\<not> dclosed c" "response c \<noteq> []" "readPos c \<le> length (response c)"
  shows "readAll ns c = take (sum_list ns) (drop (readPos c) (response c))"
  using assms
proof (induction ns arbitrary: c)
  case (Cons n ns)
  show ?case
  proof (cases "readPos c < length (response c)")
    case True
    have "readAll ns (c\<lparr>readPos := readPos c + min n (length (response c) - readPos c)\<rparr>)
        = take (sum_list ns) (drop (readPos c + min n (length (response c) - readPos c)) (response c))"
      using Cons.IH [of "c\<lparr>readPos := readPos c + min n (length (response c) - readPos c)\<rparr>"] Cons.prems True by simp
    then show ?thesis
      using Read_open [OF Cons.prems(1) True, of n] by (auto simp: take_add min_def ac_simps)
  next
    case False
    then have "Read n c = (Inl EOF, c)" using Cons.prems by (simp add: Read_def)
    then show ?thesis using Cons False by simp
  qed
qed simp

lemma ReadFull_enough:
  assumes "\<not> dclosed c" "readPos c + n \<le> length (response c)"
  shows "ReadFull n c = (Inr (take n (drop (readPos c) (response c))), c\<lparr>readPos := readPos c + n\<rparr>)"
proof (cases "n = 0")
  case False
  then have "Read n c = (Inr (take n (drop (readPos c) (response c))), c\<lparr>readPos := readPos c + n\<rparr>)"
    using Read_open [OF assms(1)] assms(2) by (simp add: min_def)
  moreover have "length (take n (drop (readPos c) (response c))) = n" using assms(2) by simp
  ultimately show ?thesis using False by (simp add: ReadFull.simps [of n c] ReadFull.simps [of 0])
qed (simp add: ReadFull.simps)

text \<open>
  C40. The connection refines the lookup it stands for.  Whatever the endpoints answer, if the resolver writes a query of 2 to
  65535 bytes behind its length and reads the length and then the message, as it does on TCP, it gets the body of the first
  endpoint that answers properly, or the error of the last one; the query that the endpoints see is the one without the length.
  And however a reader cuts its reads after a query was answered, the pieces make up the framed answer from its beginning.
\<close>

theorem doh_refines_lookup:
  assumes "2 \<le> length query" "length query < 65536"
  shows "streamRoundTrip lib serve query (newDohConn eps) = firstAnswer lib serve eps query \<and>
    (\<forall>b c. firstAnswer lib serve eps query = Inr b \<and> Write lib serve (frameDNSForTCP query) (newDohConn eps) = (Inr (length query + 2), c) \<longrightarrow>
       (\<forall>sizes. readAll sizes c = take (sum_list sizes) (frameDNSForTCP b)))"
proof -
  have len: "length (frameDNSForTCP query) = length query + 2" by (simp add: frameDNSForTCP_def)
  let ?t = "tryEndpoints lib serve eps query NoEndpoints"
  have t: "?t = firstAnswer lib serve eps query" by (simp add: tryEndpoints_first firstAnswer_def Let_def)
  have w: "Write lib serve (frameDNSForTCP query) (newDohConn eps) =
      (case ?t of Inl e \<Rightarrow> (Inl e, newDohConn eps)
       | Inr body \<Rightarrow> (Inr (length query + 2), (newDohConn eps)\<lparr>response := frameDNSForTCP body, readPos := 0\<rparr>))"
    using strip_frame [OF assms] len by (simp add: Write_def newDohConn_def split: sum.split)
  show ?thesis
  proof (cases ?t)
    case (Inl e)
    then show ?thesis using w t by (simp add: streamRoundTrip_def)
  next
    case (Inr body)
    have bl: "length body < 65536" using tryEndpoints_length [OF Inr] by simp
    let ?c = "(newDohConn eps)\<lparr>response := frameDNSForTCP body, readPos := 0\<rparr>"
    have c: "\<not> dclosed ?c" "response ?c = frameDNSForTCP body" "readPos ?c = 0" by (simp_all add: newDohConn_def)
    have l: "length (frameDNSForTCP body) = length body + 2" by (simp add: frameDNSForTCP_def)
    have r1: "ReadFull 2 ?c = (Inr (take 2 (frameDNSForTCP body)), ?c\<lparr>readPos := 2\<rparr>)"
      using ReadFull_enough [of ?c 2] c l by simp
    have "ReadFull (length body) (?c\<lparr>readPos := 2\<rparr>) = (Inr (take (length body) (drop 2 (frameDNSForTCP body))), ?c\<lparr>readPos := 2 + length body\<rparr>)"
      using ReadFull_enough [of "?c\<lparr>readPos := 2\<rparr>" "length body"] c l by simp
    moreover have "take (length body) (drop 2 (frameDNSForTCP body)) = body" by (simp add: frameDNSForTCP_def)
    ultimately have "streamRoundTrip lib serve query (newDohConn eps) = Inr body"
      using w Inr r1 frame_length [OF bl] by (simp add: streamRoundTrip_def frameDNSForTCP_def)
    moreover have "readAll sizes ?c = take (sum_list sizes) (frameDNSForTCP body)" for sizes
      using readAll_suffix [of ?c sizes] c l by (cases "frameDNSForTCP body") auto
    ultimately show ?thesis using t Inr w by auto
  qed
qed

text \<open>A server with one broken and one good endpoint.\<close>

definition demoLib :: "unit url_lib" where
  "demoLib = \<lparr>parseURL = (\<lambda>s. None), showURL = (\<lambda>u. []), hostname = (\<lambda>u. [])\<rparr>"

definition demoServer :: doh_server where
  "demoServer ep host q = (if ep = ''a'' then Response 503 None else Response 200 (Some (q @ replicate 10 7)))"

theorem doh_refines_lookup_witness:
  "streamRoundTrip demoLib demoServer [1, 2] (newDohConn [''a'', ''b'']) = Inr ([1, 2] @ replicate 10 7)"
proof -
  have "streamRoundTrip demoLib demoServer [1, 2] (newDohConn [''a'', ''b'']) = firstAnswer demoLib demoServer [''a'', ''b''] [1, 2]"
    by (rule doh_refines_lookup [THEN conjunct1]) simp_all
  also have "\<dots> = Inr ([1, 2] @ replicate 10 7)"
  proof -
    let ?b = "[1, 2] @ replicate 10 7 :: bytes"
    have l: "length ?b = 12" by simp
    then have "take 65535 ?b = ?b" by (intro take_all) simp
    then have "dohExchange demoLib demoServer ''b'' [1, 2] = Inr ?b" using l unfolding dohExchange_def demoServer_def Let_def by simp
    moreover have "dohExchange demoLib demoServer ''a'' [1, 2] = Inl (BadStatus 503)" by (simp add: dohExchange_def demoServer_def)
    ultimately show ?thesis by (simp only: firstAnswer_def Let_def list.map filter.simps is_ok.simps if_True if_False list.case sum.case)
  qed
  finally show ?thesis .
qed

section \<open>Further facts\<close>

text \<open>Every argument gives endpoints, so that dialling the resolver never fails.\<close>

lemma endpoints_never_empty: "goDoHEndpointsForArg lib arg \<noteq> []"
  by (simp add: goDoHEndpointsForArg_def goDoHEndpointsForPreset_def Let_def)

lemma setup_dials: "setupGlobalResolver lib arg = DohResolver a eps \<Longrightarrow> dohDial eps = Some (newDohConn eps)"
  by (auto simp: setupGlobalResolver_def Let_def dohDial_def endpoints_never_empty split: if_splits)

text \<open>
  Without a frame the length is guessed: a message whose identifier happens to be its length less two loses its first two bytes.
\<close>

lemma unframed_query_cut: "stripDNSWireFrame ([0, 12] @ replicate 12 0) = replicate 12 0"
  by code_simp

text \<open>
  The prefix is recognised in any case, but the endpoints are only read behind the lower case one: the resolver of the user is
  replaced by the default one.
\<close>

lemma upper_case_doh_ignored:
  "setupGlobalResolver lib ''DOH:https://dns.example/q'' =
     DohResolver ''DOH:https://dns.example/q'' [''https://77.88.8.8/dns-query'', ''https://common.dot.dns.yandex.net/dns-query'']"
proof -
  let ?a = "''DOH:https://dns.example/q''"
  have t: "TrimSpace ?a = ?a" by code_simp
  have p: "goDNSIsDoH ?a" "\<not> HasPrefix ?a ''doh:''" "lower_view ?a \<notin> {''doh-yandex'', ''doh-cloudflare'', ''doh-google''}" by code_simp+
  have y: "goDoHEndpointsForPreset ''doh-yandex'' = [''https://77.88.8.8/dns-query'', ''https://common.dot.dns.yandex.net/dns-query'']" by code_simp
  have "goDoHEndpointsForArg lib ?a = goDoHEndpointsForPreset ''doh-yandex''" unfolding goDoHEndpointsForArg_def Let_def t using p by simp
  then show ?thesis unfolding setupGlobalResolver_def Let_def t using p y by simp
qed

lemma Close_final: "Read n (Close c) = (Inl ErrClosed, Close c)" "Write lib serve b (Close c) = (Inl ErrClosed, Close c)"
  by (simp_all add: Close_def Read_def Write_def)

end
