(* ===== verification/Disconnect.thy ===== *)
theory Disconnect
  imports Running
begin

text \<open>
  Stopping daemons (\<open>commands.go\<close>: \<open>disconnectCmd\<close>, \<open>disconnectAllProfiles\<close>, \<open>switchCmd\<close>, \<open>killBy...\<close>; \<open>--toggle\<close> of
  \<open>connect.go\<close>).  The system is what all processes share: the runtime directory and \<open>/proc\<close>, the files of the store, and the
  routing table with the lists of the process that runs the command.  What a daemon does when it is signalled is an argument.
\<close>

section \<open>The system\<close>

record 'k sys =
  yRun :: run_env
  yStore :: store
  yProc :: "'k proc"

text \<open>
  \<open>onInterrupt\<close> is everything that happens in the two seconds after a SIGINT, \<open>onKill\<close> and \<open>onSwitch\<close> the effect of SIGKILL and
  SIGUSR1; \<open>pgrep\<close> lists the processes whose command line has the program's name; \<open>selfPid\<close> runs the command.
\<close>

record 'k machine_os =
  onInterrupt :: "int \<Rightarrow> 'k sys \<Rightarrow> 'k sys"
  onKill :: "int \<Rightarrow> 'k sys \<Rightarrow> 'k sys"
  onSwitch :: "int \<Rightarrow> 'k sys \<Rightarrow> bool \<times> 'k sys"
  pgrep :: "'k sys \<Rightarrow> int list option"
  selfPid :: int
  osIo :: io
  osNl :: "'k netlink"
  osMissing :: "ipnet \<Rightarrow> 'k \<Rightarrow> bool"
  pidRemovable :: "string \<Rightarrow> bool"

definition pidFileName :: "string \<Rightarrow> string" where
  "pidFileName profile = ''qwdtt-'' @ profile @ ''.pid''"

definition cleanupPidFile :: "'k machine_os \<Rightarrow> string \<Rightarrow> 'k sys \<Rightarrow> 'k sys" where
  "cleanupPidFile os profile y =
     (if pidRemovable os profile
      then y\<lparr>yRun := (yRun y)\<lparr>pidText := (pidText (yRun y))(profile := []),
                              runEntries := filter (\<lambda>e. e \<noteq> pidFileName profile) (runEntries (yRun y))\<rparr>\<rparr>
      else y)"

abbreviation dropState :: "string \<Rightarrow> 'k sys \<Rightarrow> 'k sys" where
  "dropState p y \<equiv> y\<lparr>yRun := (yRun y)\<lparr>splitOf := removeSplitCfg p (splitOf (yRun y))\<rparr>\<rparr>"

abbreviation routesOf :: "string \<Rightarrow> 'k sys \<Rightarrow> string list" where
  "routesOf p y \<equiv> ssRoutes (readSplitCfgFull p (splitOf (yRun y)))"

section \<open>Stopping one process\<close>

definition readPidForProfile :: "run_env \<Rightarrow> string \<Rightarrow> int option" where
  "readPidForProfile re profile = Atoi (TrimSpace (pidText re profile))"

definition killDaemonProcess :: "'k machine_os \<Rightarrow> int \<Rightarrow> string \<Rightarrow> 'k sys \<Rightarrow> bool \<times> 'k sys" where
  "killDaemonProcess os pid profile y =
     (if pid = selfPid os then (False, y)
      else
        let y1 = onInterrupt os pid y; y2 = (if alive (yRun y1) pid then onKill os pid y1 else y1)
        in (True, cleanupPidFile os profile y2))"

definition killByPidFile :: "'k machine_os \<Rightarrow> string \<Rightarrow> 'k sys \<Rightarrow> bool \<times> 'k sys" where
  "killByPidFile os profile y =
     (case readPidForProfile (yRun y) profile of
        None \<Rightarrow> (False, y)
      | Some pid \<Rightarrow> if pid = 0 then (False, y) else killDaemonProcess os pid profile y)"

text \<open>Processes whose command line contains the name of the profile anywhere.\<close>

definition pgrepMatches :: "'k machine_os \<Rightarrow> string \<Rightarrow> int \<Rightarrow> 'k sys \<Rightarrow> bool" where
  "pgrepMatches os profile pid y \<longleftrightarrow>
     pid \<noteq> selfPid os \<and> (case cmdlineOf (yRun y) pid of None \<Rightarrow> False | Some raw \<Rightarrow> Contains raw profile)"

definition killByPgrep :: "'k machine_os \<Rightarrow> string \<Rightarrow> 'k sys \<Rightarrow> 'k sys" where
  "killByPgrep os profile y =
     (case pgrep os y of
        None \<Rightarrow> y
      | Some pids \<Rightarrow>
          (let y1 = fold (\<lambda>pid y. if pgrepMatches os profile pid y then onInterrupt os pid y else y) pids y
           in fold (\<lambda>pid y. if pgrepMatches os profile pid y \<and> alive (yRun y) pid then onKill os pid y else y) pids y1))"

definition stopDaemon :: "'k machine_os \<Rightarrow> string \<Rightarrow> 'k sys \<Rightarrow> 'k sys" where
  "stopDaemon os profile y =
     (case killByPidFile os profile y of (True, y1) \<Rightarrow> y1 | (False, y1) \<Rightarrow> killByPgrep os profile y1)"

section \<open>disconnect\<close>

datatype disc_error = NothingRunning | BadChoice | AllWithProfile

text \<open>
  The daemons that run: those with details, without the auto-switch daemon, which comes last if it runs.
\<close>

definition runningNames :: "run_env \<Rightarrow> (string \<times> ProfileDetails) list \<Rightarrow> string list" where
  "runningNames re details =
     filter (\<lambda>n. n \<noteq> ''autoswitch'') (map fst details) @ (if isDaemonRunning re ''autoswitch'' then [''autoswitch''] else [])"

text \<open>\<open>pick\<close> is the name behind the number that the user enters, \<open>None\<close> when the number is not in the list.\<close>

definition disconnectTarget :: "string list \<Rightarrow> string \<Rightarrow> string list \<Rightarrow> string option \<Rightarrow> disc_error + string" where
  "disconnectTarget names active running pick =
     (let t = (if names \<noteq> [] \<and> hd names \<noteq> [] then hd names else active) in
      if t = [] \<or> (length running > 1 \<and> names = []) then
        (if running = [] then Inl NothingRunning
         else if length running = 1 then Inr (hd running)
         else case pick of None \<Rightarrow> Inl BadChoice | Some p \<Rightarrow> Inr p)
      else Inr t)"

definition disconnectMode :: "(string \<times> ProfileDetails) list \<Rightarrow> string \<Rightarrow> string" where
  "disconnectMode details t = (case map_of details t of Some d \<Rightarrow> rdMode d | None \<Rightarrow> ''tun'')"

definition cur :: "'k machine_os \<Rightarrow> 'k sys \<Rightarrow> string" where
  "cur os y = getAutoswitchCurrentProfile (osIo os) (yStore y)"

text \<open>The profile that the auto-switch daemon is using is not killed; the daemon is told to move on.\<close>

definition ownedByAutoswitch :: "'k machine_os \<Rightarrow> string \<Rightarrow> 'k sys \<Rightarrow> int option" where
  "ownedByAutoswitch os t y =
     (if isDaemonRunning (yRun y) ''autoswitch'' \<and> t \<noteq> [] \<and> t \<noteq> ''autoswitch'' \<and> cur os y = t then
        (case readPidForProfile (yRun y) ''autoswitch'' of Some pid \<Rightarrow> if pid > 0 then Some pid else None | None \<Rightarrow> None)
      else None)"

definition clearRoutes :: "'k machine_os \<Rightarrow> string list \<Rightarrow> 'k sys \<Rightarrow> 'k sys" where
  "clearRoutes os cidrs y =
     (let p = yProc y in y\<lparr>yProc := p\<lparr>kern := snd (ClearBypassRoutes (osNl os) (osMissing os) cidrs (True, kern p))\<rparr>\<rparr>)"

definition teardownActive :: "'k machine_os \<Rightarrow> string \<Rightarrow> 'k sys \<Rightarrow> 'k sys" where
  "teardownActive os mode y =
     (let y1 = (if mode \<noteq> ''raw'' then y\<lparr>yProc := snd (teardownWG (osNl os) (yProc y))\<rparr> else y)
      in y1\<lparr>yStore := clearActiveProfile (osIo os) (yStore y1)\<rparr>)"

definition disconnectProfile :: "'k machine_os \<Rightarrow> (string \<times> ProfileDetails) list \<Rightarrow> string \<Rightarrow> 'k sys \<Rightarrow> 'k sys" where
  "disconnectProfile os details t y =
     (case ownedByAutoswitch os t y of
        Some pid \<Rightarrow>
          (let y1 = snd (onSwitch os pid y) in y1\<lparr>yStore := clearAutoswitchCurrentProfile (osIo os) (yStore y1)\<rparr>)
      | None \<Rightarrow>
          (let wasActive = (getActiveProfile (osIo os) (yStore y) = t);
               y1 = stopDaemon os t y; other = (cur os y1 \<noteq> [] \<and> cur os y1 \<noteq> t);
               saved = (if other then routesOf (cur os y1) y1 else []) @ routesOf t y1;
               y2 = dropState t y1; y3 = (if other then dropState (cur os y1) y2 else y2);
               y4 = (if wasActive then teardownActive os (disconnectMode details t) y3 else y3)
           in clearRoutes os saved y4))"

definition disconnectCmd :: "'k machine_os \<Rightarrow> (string \<times> ProfileDetails) list \<Rightarrow> string list \<Rightarrow> string option \<Rightarrow> 'k sys
    \<Rightarrow> disc_error + 'k sys" where
  "disconnectCmd os details names pick y =
     (case disconnectTarget names (getActiveProfile (osIo os) (yStore y)) (runningNames (yRun y) details) pick of
        Inl e \<Rightarrow> Inl e
      | Inr t \<Rightarrow> Inr (disconnectProfile os details t y))"

section \<open>disconnect --all\<close>

definition disconnectSingleProfile :: "'k machine_os \<Rightarrow> string \<Rightarrow> bool \<Rightarrow> 'k sys \<Rightarrow> string list \<times> 'k sys" where
  "disconnectSingleProfile os t skipKill y =
     (let y1 = (if skipKill then y else stopDaemon os t y) in (routesOf t y1, dropState t y1))"

fun disconnectEach :: "'k machine_os \<Rightarrow> string \<Rightarrow> string list \<Rightarrow> 'k sys \<Rightarrow> string list \<times> 'k sys" where
  "disconnectEach os autoswitchCurrent [] y = ([], y)"
| "disconnectEach os autoswitchCurrent (p # ps) y =
     (if p = ''autoswitch'' then disconnectEach os autoswitchCurrent ps y
      else
        let skipKill = (pidFileName p \<notin> set (runEntries (yRun y)) \<or> p = autoswitchCurrent);
            (routes, y1) = disconnectSingleProfile os p skipKill y; (rest, y2) = disconnectEach os autoswitchCurrent ps y1
        in (routes @ rest, y2))"

definition disconnectAllProfiles :: "'k machine_os \<Rightarrow> (string \<times> ProfileDetails) list \<Rightarrow> string list \<Rightarrow> bool \<Rightarrow> 'k sys
    \<Rightarrow> disc_error + 'k sys" where
  "disconnectAllProfiles os details running agreed y =
     (if running = [] then Inl NothingRunning
      else if \<not> agreed then Inr y
      else
        let auto = isDaemonRunning (yRun y) ''autoswitch''; autoswitchCurrent = (if auto then cur os y else []);
            y1 = (if auto then
                    (let z = stopDaemon os ''autoswitch'' y in z\<lparr>yStore := clearAutoswitchCurrentProfile (osIo os) (yStore z)\<rparr>)
                  else y);
            active = getActiveProfile (osIo os) (yStore y1);
            (saved, y2) = disconnectEach os autoswitchCurrent running y1;
            wasActive = (active \<in> set running \<and> active \<noteq> ''autoswitch'');
            y3 = (if wasActive then teardownActive os (disconnectMode details active) y2 else y2)
        in Inr (clearRoutes os saved y3))"

section \<open>switch\<close>

datatype switch_error = NoAutoswitch | NoPid | SignalFailed

definition switchCmd :: "'k machine_os \<Rightarrow> 'k sys \<Rightarrow> switch_error + 'k sys" where
  "switchCmd os y =
     (if \<not> isDaemonRunning (yRun y) ''autoswitch'' then Inl NoAutoswitch
      else case readPidForProfile (yRun y) ''autoswitch'' of
        None \<Rightarrow> Inl NoPid
      | Some pid \<Rightarrow>
          if pid \<le> 0 then Inl NoPid
          else case onSwitch os pid y of
            (False, _) \<Rightarrow> Inl SignalFailed
          | (True, y1) \<Rightarrow> Inr (y1\<lparr>yStore := clearAutoswitchCurrentProfile (osIo os) (yStore y1)\<rparr>))"

section \<open>connect --toggle\<close>

text \<open>\<open>None\<close>: nothing was running, the command goes on to connect.\<close>

definition toggleStop :: "'k machine_os \<Rightarrow> bool \<Rightarrow> string \<Rightarrow> string \<Rightarrow> 'k sys \<Rightarrow> 'k sys option" where
  "toggleStop os autoSwitch mode daemonProfile y =
     (if autoSwitch \<and> isDaemonRunning (yRun y) ''autoswitch'' then
        (let y1 = stopDaemon os ''autoswitch'' y;
             y2 = y1\<lparr>yStore := clearAutoswitchCurrentProfile (osIo os) (yStore y1)\<rparr>;
             y3 = (if getActiveProfile (osIo os) (yStore y2) = ''autoswitch''
                   then y2\<lparr>yStore := clearActiveProfile (osIo os) (yStore y2)\<rparr> else y2);
             y4 = (if LinkByName (osNl os) wgIface (kern (yProc y3)) \<noteq> None
                   then y3\<lparr>yProc := snd (teardownWG (osNl os) (yProc y3))\<rparr> else y3)
         in Some (if cur os y4 \<noteq> [] then dropState (cur os y4) y4 else y4))
      else if \<not> autoSwitch \<and> isDaemonRunning (yRun y) daemonProfile then
        (let y1 = dropState daemonProfile (stopDaemon os daemonProfile y)
         in Some (if getActiveProfile (osIo os) (yStore y1) = daemonProfile then teardownActive os mode y1 else y1))
      else None)"

section \<open>Order of the listing\<close>

text \<open>The comparison that sorts the running daemons.\<close>

definition runningLess :: "(string \<times> ProfileDetails) list \<Rightarrow> string \<Rightarrow> string \<Rightarrow> bool" where
  "runningLess details a b =
     (let ma = disconnectMode details a; mb = disconnectMode details b in
      if ma = ''tun'' \<and> mb = ''socks'' then True
      else if ma = ''socks'' \<and> mb = ''tun'' then False
      else a < b)"

section \<open>Daemons by their command lines\<close>

fun conNames :: "string list \<Rightarrow> string list" where
  "conNames (f # g # fs) = (if f = ''con'' \<and> \<not> HasPrefix g ''-'' then [g] else []) @ conNames (g # fs)"
| "conNames _ = []"

text \<open>
  \<open>getRunningProfiles\<close>: the live processes with a PID file, and the command lines of the processes only when there is none.
  A field never contains a blank, so the second form that the code looks for does not occur.
\<close>

definition getRunningProfiles :: "run_env \<Rightarrow> int list option \<Rightarrow> string set" where
  "getRunningProfiles re pids =
     (let own = {p. \<exists>e \<in> set (runEntries re). pidFileProfile e = Some p \<and> isDaemonRunning re p} in
      if own \<noteq> {} then own
      else case pids of
        None \<Rightarrow> {}
      | Some ps \<Rightarrow> set (concat (map (\<lambda>pid. case cmdlineOf re pid of None \<Rightarrow> [] | Some raw \<Rightarrow> conNames (Fields (spaced raw))) ps)))"

section \<open>What is left after a disconnect\<close>

text \<open>A process does not survive SIGKILL.\<close>

definition kill_law :: "'k machine_os \<Rightarrow> bool" where
  "kill_law os \<longleftrightarrow> (\<forall>pid y. \<not> alive (yRun (onKill os pid y)) pid)"

lemma ClearBypassRoutes_law:
  assumes "netlink_laws nl tbl"
  shows "tbl (snd (ClearBypassRoutes nl missing cs (good, k))) n = (if Some n \<in> parseRouteDst ` set cs then None else tbl k n)
    \<and> same_links nl k (snd (ClearBypassRoutes nl missing cs (good, k)))"
proof (induction cs arbitrary: good k)
  case (Cons c cs)
  show ?case
  proof (cases "parseRouteDst c")
    case None
    then show ?thesis using Cons by auto
  next
    case (Some m)
    obtain b k1 where d: "RouteDel nl m k = (b, k1)" by fastforce
    have "tbl k1 = (tbl k)(m := None)" "same_links nl k k1" using RouteDel_law [OF assms, where n = m and k = k] d by simp_all
    then show ?thesis using Cons [where k = k1] Some d by (cases b) (auto simp: same_links_def)
  qed
qed (simp add: same_links_refl)

lemma kill_kills:
  assumes "kill_law os" "killDaemonProcess os pid t y = (True, y1)"
  shows "\<not> alive (yRun y1) pid"
  using assms by (auto simp: killDaemonProcess_def kill_law_def cleanupPidFile_def Let_def split: if_splits)

lemma kill_removes_pid:
  assumes "pidRemovable os t" "killDaemonProcess os pid t y = (True, y1)"
  shows "pidText (yRun y1) t = [] \<and> pidFileName t \<notin> set (runEntries (yRun y1))"
  using assms by (auto simp: killDaemonProcess_def cleanupPidFile_def Let_def split: if_splits)

lemma stop_by_pid:
  assumes "readPidForProfile (yRun y) t = Some pid" "pid \<noteq> 0" "pid \<noteq> selfPid os"
  shows "\<exists>y1. killDaemonProcess os pid t y = (True, y1) \<and> stopDaemon os t y = y1 \<and> snd (killByPidFile os t y) = y1"
  using assms by (simp add: stopDaemon_def killByPidFile_def killDaemonProcess_def Let_def)

text \<open>What the steps after the kill leave alone.\<close>

lemma teardownActive_run [simp]: "yRun (teardownActive os mode y) = yRun y"
  by (simp add: teardownActive_def Let_def)

lemma clearRoutes_simps [simp]: "yRun (clearRoutes os cs y) = yRun y" "yStore (clearRoutes os cs y) = yStore y"
  by (simp_all add: clearRoutes_def Let_def)

lemma isDaemonRunning_text: "pidText re t = [] \<Longrightarrow> \<not> isDaemonRunning re t"
  by (simp add: isDaemonRunning_def pidOf_def Atoi_def)

lemma clearRoutes_gone:
  assumes "netlink_laws (osNl os) tbl" "c \<in> set cs" "parseRouteDst c = Some n"
  shows "tbl (kern (yProc (clearRoutes os cs y))) n = None"
proof -
  have "Some n \<in> parseRouteDst ` set cs" using assms(2,3) by (metis image_eqI)
  then show ?thesis using ClearBypassRoutes_law [OF assms(1)] by (simp add: clearRoutes_def Let_def)
qed

lemma clearRoutes_links: "netlink_laws (osNl os) tbl \<Longrightarrow> same_links (osNl os) (kern (yProc y)) (kern (yProc (clearRoutes os cs y)))"
  using ClearBypassRoutes_law by (fastforce simp: clearRoutes_def Let_def)

lemma teardownActive_link:
  assumes "netlink_laws (osNl os) tbl" "mode \<noteq> ''raw''"
  shows "LinkByName (osNl os) wgIface (kern (yProc (teardownActive os mode y))) = None"
  using Link_laws(4) [OF assms(1)] assms(2)
  by (simp add: teardownActive_def teardownWG_def Let_def split: option.split prod.split) (metis snd_conv)

lemma teardownActive_pointer:
  "\<not> osIo os (RemoveFile ActiveP) \<Longrightarrow> getActiveProfile (osIo os) (yStore (teardownActive os mode y)) = []"
  by (simp add: teardownActive_def clearActiveProfile_def getActiveProfile_def Let_def)


text \<open>A daemon that hangs: it ignores the interrupt and has to be killed, with a route in the table.\<close>

definition hungOs :: "demo_kernel machine_os" where
  "hungOs =
     \<lparr>onInterrupt = (\<lambda>_ y. y), onKill = (\<lambda>pid y. y\<lparr>yRun := (yRun y)\<lparr>alive := (\<lambda>p. p \<noteq> pid \<and> alive (yRun y) p)\<rparr>\<rparr>),
      onSwitch = (\<lambda>_ y. (True, y)), pgrep = (\<lambda>_. None), selfPid = 5, osIo = (\<lambda>_. False), osNl = demoNl,
      osMissing = (\<lambda>_ _. False), pidRemovable = (\<lambda>_. True)\<rparr>"

definition hungRun :: run_env where
  "hungRun =
     \<lparr>runEntries = [''qwdtt-a.pid''], pidText = (\<lambda>p. if p = ''a'' then ''7'' else []), alive = (\<lambda>p. p = 7),
      cmdlineOf = (\<lambda>p. if p = 7 then Some ''qwdtt con a'' else None),
      splitOf = [''a'' \<mapsto> \<lparr>ssBlackList = ''x.y'', ssBlackListFile = [], ssMtime = 0, ssDomains = [''x.y''], ssRoutes = [''9.8.7.6/32'']\<rparr>]\<rparr>"

definition hungStore :: store where
  "hungStore = \<lparr>profFiles = [], subFiles = [], statusFile = None, activeFile = Some ''a'', autoswitchFile = None, deviceFile = None, linkFiles = []\<rparr>"

definition hungSys :: "demo_kernel sys" where
  "hungSys = \<lparr>yRun = hungRun, yStore = hungStore, yProc = demoProc\<lparr>kern := ((fst (kern demoProc))
     (IPNet [9, 8, 7, 6] [255, 255, 255, 255] \<mapsto> Via [1, 1, 1, 1]), snd (kern demoProc))\<rparr>\<rparr>"


section \<open>Flaws\<close>

text \<open>
  Without a PID file every process of the program whose command line contains the name of the profile anywhere is stopped, for
  instance the daemon of a profile whose name has it as a part.
\<close>

lemma pgrep_matches_parts:
  assumes "pid \<noteq> selfPid os" "cmdlineOf (yRun y) pid = Some (pre @ t @ post)"
  shows "pgrepMatches os t pid y"
  using assms by (simp add: pgrepMatches_def Contains_infix)

text \<open>
  Disconnecting one profile while the auto-switch daemon runs another removes the state file of the other and its bypass routes,
  although it stays connected.
\<close>

lemma disconnect_strips_autoswitch:
  assumes "netlink_laws (osNl os) tbl" "ownedByAutoswitch os t y = None" "cur os (stopDaemon os t y) = q" "q \<noteq> []" "q \<noteq> t"
  shows "splitOf (yRun (disconnectProfile os details t y)) q = None" (is ?s)
    and "c \<in> set (routesOf q (stopDaemon os t y)) \<Longrightarrow> parseRouteDst c = Some n \<Longrightarrow>
      tbl (kern (yProc (disconnectProfile os details t y))) n = None"
proof -
  show ?s using assms(2-5) by (simp add: disconnectProfile_def Let_def removeSplitCfg_def)
next
  assume c: "c \<in> set (routesOf q (stopDaemon os t y))" "parseRouteDst c = Some n"
  let ?y1 = "stopDaemon os t y"
  have "\<exists>z. disconnectProfile os details t y = clearRoutes os (routesOf q ?y1 @ routesOf t ?y1) z"
    unfolding disconnectProfile_def assms(2) option.case Let_def assms(3) by (rule exI) (simp only: assms(4,5) simp_thms if_True)
  then obtain z where "disconnectProfile os details t y = clearRoutes os (routesOf q ?y1 @ routesOf t ?y1) z" by blast
  then show "tbl (kern (yProc (disconnectProfile os details t y))) n = None"
    using clearRoutes_gone [OF assms(1) _ c(2), where cs = "routesOf q ?y1 @ routesOf t ?y1"] c(1) by simp
qed

text \<open>With a daemon in raw mode the comparison is circular, so the order of the listing is not determined.\<close>

lemma listing_order_circular:
  fixes d :: ProfileDetails
  defines "details \<equiv> [(''a'', d\<lparr>rdMode := ''socks''\<rparr>), (''b'', d\<lparr>rdMode := ''raw''\<rparr>), (''c'', d\<lparr>rdMode := ''tun''\<rparr>)]"
  shows "runningLess details ''a'' ''b'' \<and> runningLess details ''b'' ''c'' \<and> runningLess details ''c'' ''a''"
  by (simp add: details_def runningLess_def disconnectMode_def Let_def less_char_def)

end
