(* ===== verification/Slider_Cursor.thy ===== *)
theory Slider_Cursor
  imports Slider "HOL-Library.State_Monad"
begin

text \<open>
  The mouse path \<open>buildSliderCursorV2\<close> of \<open>internal/core/captcha_v2_slider.go\<close>: a few points at rest, an arc towards the chosen
  position, an approach and a few points around the target.  \<open>math/rand\<close> is a sequence of draws, read one after the other in a
  state monad whose state is the number of draws so far; \<open>Intn n\<close> is a draw reduced to \<open>0, ..., n - 1\<close>, so every sequence of
  results is possible.

  The coordinates are computed in \<open>float64\<close> and rounded to integers.  Here the arithmetic is exact: \<open>t\<close> is a multiple of a third, a
  quarter or a fifth on the arc and the unrounded value then lies on a half only for quarters, which \<open>float64\<close> represents; on the approach
  \<open>t\<close> is a multiple of \<open>1/4\<close> to \<open>1/7\<close>, and the halves that multiples of \<open>1/6\<close> produce are hit exactly by the rounded product.
\<close>

section \<open>Draws\<close>

type_synonym 'a drawing = "(nat, 'a) state"

definition Intn :: "(nat \<Rightarrow> nat) \<Rightarrow> nat \<Rightarrow> int drawing" where
  "Intn d n = State (\<lambda>k. (int (d k mod n), k + 1))"

text \<open>\<open>math.Round\<close>, halves away from zero.\<close>

definition mathRound :: "rat \<Rightarrow> int" where
  "mathRound x = (if x < 0 then - \<lfloor>1 / 2 - x\<rfloor> else \<lfloor>x + 1 / 2\<rfloor>)"

section \<open>The path\<close>

type_synonym cursorPoint = "int \<times> int"

text \<open>Both coordinates of a point around \<open>(x, y)\<close>, at most \<open>r\<close> away.\<close>

definition around :: "(nat \<Rightarrow> nat) \<Rightarrow> nat \<Rightarrow> int \<Rightarrow> int \<Rightarrow> cursorPoint drawing" where
  "around d r x y = do { a \<leftarrow> Intn d (2 * r + 1); b \<leftarrow> Intn d (2 * r + 1); State_Monad.return (x + a - int r, y + b - int r) }"

lemma Intn_run: "run_state (Intn d n) k = (int (d k mod n), k + 1)"
  by (simp add: Intn_def)

lemma Intn_bound: "(b, k1) = run_state (Intn d 3) k \<Longrightarrow> b < 3"
  by (simp add: Intn_run)

text \<open>The loop at rest draws its bound anew in each round.\<close>

function restPoints :: "(nat \<Rightarrow> nat) \<Rightarrow> int \<Rightarrow> int \<Rightarrow> nat \<Rightarrow> nat \<Rightarrow> cursorPoint list \<times> nat" where
  "restPoints d x y i k =
     (case run_state (Intn d 3) k of
        (b, k1) \<Rightarrow>
          if int i < 1 + b then
            (case run_state (around d 2 x y) k1 of (p, k2) \<Rightarrow>
               case restPoints d x y (i + 1) k2 of (ps, k3) \<Rightarrow> (p # ps, k3))
          else ([], k1))"
  by pat_completeness auto
termination
  by (relation "measure (\<lambda>(d, x, y, i, k). 3 - i)") (auto dest!: Intn_bound)

declare restPoints.simps [simp del]

text \<open>The quadratic curve from \<open>a\<close> to \<open>b\<close> with the control coordinate \<open>c\<close>.\<close>

definition curve :: "rat \<Rightarrow> int \<Rightarrow> rat \<Rightarrow> int \<Rightarrow> rat" where
  "curve t a c b = (1 - t) * (1 - t) * of_int a + 2 * t * (1 - t) * c + t * t * of_int b"

definition transitPoint :: "(nat \<Rightarrow> nat) \<Rightarrow> cursorPoint \<Rightarrow> int \<times> int \<Rightarrow> cursorPoint \<Rightarrow> nat \<Rightarrow> nat \<Rightarrow> cursorPoint drawing" where
  "transitPoint d s arc g n i =
     (let t = of_nat i / of_nat (n + 1);
          cx = of_int (fst s + fst g) / 2 + of_int (fst arc);
          cy = of_int (snd s + snd g) / 2 + of_int (snd arc);
          jitter = nat \<lfloor>(1 - t) * 8\<rfloor> + 2
      in around d jitter (mathRound (curve t (fst s) cx (fst g))) (mathRound (curve t (snd s) cy (snd g))))"

definition approachPoint :: "(nat \<Rightarrow> nat) \<Rightarrow> cursorPoint \<Rightarrow> cursorPoint \<Rightarrow> nat \<Rightarrow> nat \<Rightarrow> cursorPoint drawing" where
  "approachPoint d prev g n i =
     (let t = of_nat i / of_nat n
      in around d 2 (fst prev + mathRound (t * of_int (fst g - fst prev))) (snd prev + mathRound (t * of_int (snd g - snd prev))))"

definition baseTargetX :: "int \<Rightarrow> int \<Rightarrow> int" where
  "baseTargetX candidateIndex candidateCount =
     (let i = (if candidateIndex < 1 then 1 else candidateIndex);
          i = (if i > candidateCount then candidateCount else i);
          denom = (if candidateCount - 1 < 1 then 1 else candidateCount - 1)
      in 734 + (937 - 734) * (i - 1) div denom)"

definition arcPoints :: "(nat \<Rightarrow> nat) \<Rightarrow> cursorPoint \<Rightarrow> cursorPoint \<Rightarrow> cursorPoint list drawing" where
  "arcPoints d s g = do {
     m \<leftarrow> Intn d 3;
     ax \<leftarrow> Intn d 60;
     ay \<leftarrow> Intn d 30;
     State_Monad.traverse_list (transitPoint d s (ax - 30, - (ay + 10)) g (nat (2 + m))) [1..<nat (2 + m) + 1]
   }"

definition approachPoints :: "(nat \<Rightarrow> nat) \<Rightarrow> cursorPoint \<Rightarrow> cursorPoint \<Rightarrow> cursorPoint list drawing" where
  "approachPoints d prev g = do {
     n \<leftarrow> Intn d 4;
     State_Monad.traverse_list (approachPoint d prev g (nat (4 + n))) [1..<nat (4 + n) + 1]
   }"

definition settlePoints :: "(nat \<Rightarrow> nat) \<Rightarrow> cursorPoint \<Rightarrow> cursorPoint list drawing" where
  "settlePoints d g = do {
     l \<leftarrow> Intn d 5;
     State_Monad.traverse_list (\<lambda>_. around d 3 (fst g) (snd g)) [0..<nat (3 + l)]
   }"

definition startAndTarget :: "(nat \<Rightarrow> nat) \<Rightarrow> int \<Rightarrow> int \<Rightarrow> (cursorPoint \<times> cursorPoint) drawing" where
  "startAndTarget d candidateIndex candidateCount = do {
     a \<leftarrow> Intn d 40;
     b \<leftarrow> Intn d 30;
     u \<leftarrow> Intn d 10;
     v \<leftarrow> Intn d 14;
     State_Monad.return ((570 + a, 875 + b), (baseTargetX candidateIndex candidateCount + u - 5, 655 + v))
   }"

definition cursorPoints :: "(nat \<Rightarrow> nat) \<Rightarrow> int \<Rightarrow> int \<Rightarrow> cursorPoint list drawing" where
  "cursorPoints d candidateIndex candidateCount = do {
     (s, g) \<leftarrow> startAndTarget d candidateIndex candidateCount;
     rest \<leftarrow> State (restPoints d (fst s) (snd s) 0);
     arc \<leftarrow> arcPoints d s g;
     approach \<leftarrow> approachPoints d (last (rest @ arc)) g;
     settle \<leftarrow> settlePoints d g;
     State_Monad.return (rest @ arc @ approach @ settle)
   }"

definition pointJSON :: "cursorPoint \<Rightarrow> string" where
  "pointJSON p = ''{\"x\":'' @ Itoa (fst p) @ '',\"y\":'' @ Itoa (snd p) @ ''}''"

definition buildSliderCursorV2 :: "(nat \<Rightarrow> nat) \<Rightarrow> int \<Rightarrow> int \<Rightarrow> string" where
  "buildSliderCursorV2 d candidateIndex candidateCount =
     (if candidateCount \<le> 0 then ''[]''
      else ''['' @ Join (map pointJSON (fst (run_state (cursorPoints d candidateIndex candidateCount) 0))) '','' @ '']'')"

section \<open>The path stays in its frame\<close>

lemma pred_return [intro]: "P x \<Longrightarrow> pred_state P (State_Monad.return x)"
  by (rule pred_stateI) auto

lemma pred_mono: "pred_state P m \<Longrightarrow> (\<And>x. P x \<Longrightarrow> Q x) \<Longrightarrow> pred_state Q m"
  by (rule pred_stateI) auto

lemma pred_bind: "pred_state P m \<Longrightarrow> (\<And>x. P x \<Longrightarrow> pred_state Q (f x)) \<Longrightarrow> pred_state Q (State_Monad.bind m f)"
  by (rule bind_predI) (erule pred_mono, blast)

lemma pred_traverse:
  assumes "\<And>x. x \<in> set xs \<Longrightarrow> pred_state P (f x)"
  shows "pred_state (\<lambda>ys. list_all P ys \<and> length ys = length xs) (State_Monad.traverse_list f xs)"
  using assms
proof (induction xs)
  case (Cons x xs)
  show ?case
    by (simp, rule pred_bind [where P = P], use Cons.prems in simp, rule pred_bind, rule Cons.IH, use Cons.prems in simp, auto)
qed (auto intro!: pred_stateI)

lemma Intn_range: "0 < n \<Longrightarrow> pred_state (\<lambda>a. 0 \<le> a \<and> a < int n) (Intn d n)"
  by (rule pred_stateI) (auto simp: Intn_def)

definition inFrame :: "int \<Rightarrow> int \<Rightarrow> int \<Rightarrow> int \<Rightarrow> cursorPoint \<Rightarrow> bool" where
  "inFrame x0 x1 y0 y1 p \<longleftrightarrow> x0 \<le> fst p \<and> fst p \<le> x1 \<and> y0 \<le> snd p \<and> snd p \<le> y1"

lemma around_frame:
  assumes "x0 + int r \<le> x" "x + int r \<le> x1" "y0 + int r \<le> y" "y + int r \<le> y1"
  shows "pred_state (inFrame x0 x1 y0 y1) (around d r x y)"
  unfolding around_def
  by (intro pred_bind [OF Intn_range] pred_return) (use assms in \<open>auto simp: inFrame_def\<close>)

lemma rest_frame:
  assumes "x0 + 2 \<le> x" "x + 2 \<le> x1" "y0 + 2 \<le> y" "y + 2 \<le> y1"
  shows "list_all (inFrame x0 x1 y0 y1) (fst (restPoints d x y i k)) \<and> length (fst (restPoints d x y i k)) \<le> 3 - i
    \<and> (i = 0 \<longrightarrow> fst (restPoints d x y i k) \<noteq> [])"
  using assms
proof (induction d x y i k rule: restPoints.induct)
  case (1 d x y i k)
  obtain b k1 where b: "run_state (Intn d 3) k = (b, k1)" by (metis surj_pair)
  have br: "0 \<le> b" "b < 3" using pred_stateD [OF Intn_range b] by auto
  show ?case
  proof (cases "int i < 1 + b")
    case True
    obtain p k2 where p: "run_state (around d 2 x y) k1 = (p, k2)" by (metis surj_pair)
    have "inFrame x0 x1 y0 y1 p" using pred_stateD [OF around_frame p] "1.prems" by simp
    with "1.IH" [OF b [symmetric] True p [symmetric]] "1.prems" True b br p show ?thesis
      by (subst (1 2 3) restPoints.simps) (auto split: prod.splits)
  next
    case False
    with b br show ?thesis by (subst (1 2 3) restPoints.simps) auto
  qed
qed

lemma mathRound_between: "of_int a \<le> x \<Longrightarrow> x \<le> of_int b \<Longrightarrow> a \<le> mathRound x \<and> mathRound x \<le> b"
  unfolding mathRound_def by (auto; linarith)

text \<open>The weights of the curve sum to one.\<close>

lemma curve_between:
  assumes t: "0 \<le> t" "t \<le> 1" and l: "l \<le> of_int a" "l \<le> c" "l \<le> of_int b"
    and u: "of_int a \<le> u" "c \<le> u" "of_int b \<le> u"
  shows "l \<le> curve t a c b \<and> curve t a c b \<le> u"
proof -
  let ?p = "(1 - t) * (1 - t)" and ?q = "2 * t * (1 - t)" and ?r = "t * t"
  have w: "0 \<le> ?p" "0 \<le> ?q" "0 \<le> ?r" using t by simp_all
  have one: "x = ?p * x + ?q * x + ?r * x" for x by algebra
  show ?thesis unfolding curve_def
    using mult_left_mono [OF l(1) w(1)] mult_left_mono [OF l(2) w(2)] mult_left_mono [OF l(3) w(3)]
      mult_left_mono [OF u(1) w(1)] mult_left_mono [OF u(2) w(2)] mult_left_mono [OF u(3) w(3)]
      one [of l] one [of u] by linarith
qed

text \<open>The frames of the start and of the target.\<close>

abbreviation startFrame :: "cursorPoint \<Rightarrow> bool" where "startFrame \<equiv> inFrame 570 609 875 904"
abbreviation targetFrame :: "cursorPoint \<Rightarrow> bool" where "targetFrame \<equiv> inFrame 729 941 655 668"
abbreviation arcFrame :: "cursorPoint \<Rightarrow> bool" where "arcFrame \<equiv> inFrame 562 949 647 912"
abbreviation pathFrame :: "cursorPoint \<Rightarrow> bool" where "pathFrame \<equiv> inFrame 560 951 645 914"

lemma baseTarget_range: "0 < n \<Longrightarrow> 734 \<le> baseTargetX i n \<and> baseTargetX i n \<le> 937"
proof -
  assume n: "0 < n"
  define j where "j = (let i = (if i < 1 then 1 else i) in if i > n then n else i)"
  define e where "e = (if n - 1 < 1 then 1 else n - 1)"
  have j: "1 \<le> j" "j \<le> n" "0 < e" "j - 1 \<le> e" using n by (auto simp: j_def e_def Let_def)
  have "0 \<le> 203 * (j - 1) div e" using j by (simp add: pos_imp_zdiv_nonneg_iff)
  moreover have "203 * (j - 1) div e \<le> 203 * e div e" using j by (intro zdiv_mono1) auto
  ultimately show ?thesis using j(3) by (simp add: baseTargetX_def j_def e_def Let_def)
qed

lemma control_between: "l \<le> a \<Longrightarrow> l' \<le> b \<Longrightarrow> m \<le> c \<Longrightarrow> 2 * n \<le> l + l' + 2 * m \<Longrightarrow> n \<le> (a + b) / 2 + (c :: rat)"
  by (simp add: field_simps)

lemma control_below: "a \<le> u \<Longrightarrow> b \<le> u' \<Longrightarrow> c \<le> m \<Longrightarrow> u + u' + 2 * m \<le> 2 * n \<Longrightarrow> (a + b) / 2 + (c :: rat) \<le> n"
  by (simp add: field_simps)

lemma transit_frame:
  assumes s: "startFrame s" and g: "targetFrame g" and arc: "- 30 \<le> fst arc" "fst arc \<le> 29" "- 39 \<le> snd arc" "snd arc \<le> - 10"
    and i: "1 \<le> i" "i \<le> n" "n \<le> 4"
  shows "pred_state arcFrame (transitPoint d s arc g n i)"
proof -
  define t where "t = (of_nat i / of_nat (n + 1) :: rat)"
  have "(1 :: rat) * of_nat (n + 1) \<le> 5 * of_nat i" using i by simp
  then have t: "1 / 5 \<le> t" "t \<le> 1" using i by (auto simp: t_def field_simps)
  have "\<lfloor>(1 - t) * 8\<rfloor> < 7" unfolding floor_less_iff using t by simp
  then have jit: "nat \<lfloor>(1 - t) * 8\<rfloor> + 2 \<le> 8" by linarith
  let ?cx = "of_int (fst s + fst g) / 2 + of_int (fst arc) :: rat" and ?cy = "of_int (snd s + snd g) / 2 + of_int (snd arc) :: rat"
  have r: "(570 :: rat) \<le> of_int (fst s)" "of_int (fst s) \<le> (609 :: rat)" "(875 :: rat) \<le> of_int (snd s)" "of_int (snd s) \<le> (904 :: rat)"
    "(729 :: rat) \<le> of_int (fst g)" "of_int (fst g) \<le> (941 :: rat)" "(655 :: rat) \<le> of_int (snd g)" "of_int (snd g) \<le> (668 :: rat)"
    "(- 30 :: rat) \<le> of_int (fst arc)" "of_int (fst arc) \<le> (29 :: rat)" "(- 39 :: rat) \<le> of_int (snd arc)" "of_int (snd arc) \<le> (- 10 :: rat)"
    using s g arc by (auto simp: inFrame_def)
  have mid: "570 \<le> ?cx \<and> ?cx \<le> 941 \<and> 655 \<le> ?cy \<and> ?cy \<le> 904"
    unfolding of_int_add
    using control_between [OF r(1) r(5) r(9), of 570] control_between [OF r(3) r(7) r(11), of 655]
      control_below [OF r(2) r(6) r(10), of 941] control_below [OF r(4) r(8) r(12), of 904] by simp
  have x: "570 \<le> curve t (fst s) ?cx (fst g) \<and> curve t (fst s) ?cx (fst g) \<le> 941"
    using t mid s g by (intro curve_between) (auto simp: inFrame_def)
  have y: "655 \<le> curve t (snd s) ?cy (snd g) \<and> curve t (snd s) ?cy (snd g) \<le> 904"
    using t mid s g by (intro curve_between) (auto simp: inFrame_def)
  have "570 \<le> mathRound (curve t (fst s) ?cx (fst g)) \<and> mathRound (curve t (fst s) ?cx (fst g)) \<le> 941"
    "655 \<le> mathRound (curve t (snd s) ?cy (snd g)) \<and> mathRound (curve t (snd s) ?cy (snd g)) \<le> 904"
    using mathRound_between [of 570 "curve t (fst s) ?cx (fst g)" 941] mathRound_between [of 655 "curve t (snd s) ?cy (snd g)" 904] x y
    by simp_all
  with jit show ?thesis unfolding transitPoint_def t_def [symmetric] Let_def by (intro around_frame) auto
qed

lemma between_part:
  assumes t: "0 \<le> t" "t \<le> (1 :: rat)" and "l \<le> p" "p \<le> u" "l \<le> q" "q \<le> u"
  shows "l \<le> p + mathRound (t * of_int (q - p)) \<and> p + mathRound (t * of_int (q - p)) \<le> u"
proof -
  have lin: "t * of_int (q - p) = t * of_int q - t * of_int p" by (simp add: algebra_simps)
  have pu: "of_int p \<le> (of_int u :: rat)" "of_int l \<le> (of_int p :: rat)" "of_int q \<le> (of_int u :: rat)" "of_int l \<le> (of_int q :: rat)"
    using assms by simp_all
  have "t * of_int q \<le> t * of_int u" "t * of_int l \<le> t * of_int q" "(1 - t) * of_int p \<le> (1 - t) * of_int u"
    "(1 - t) * of_int l \<le> (1 - t) * of_int p"
    using t pu by (auto intro!: mult_left_mono)
  then have "of_int (l - p) \<le> t * of_int (q - p)" "t * of_int (q - p) \<le> of_int (u - p)"
    by (auto simp: algebra_simps)
  from mathRound_between [OF this] show ?thesis by simp
qed

lemma approach_frame:
  assumes p: "arcFrame prev" and g: "targetFrame g" and i: "i \<le> n" "0 < n"
  shows "pred_state pathFrame (approachPoint d prev g n i)"
proof -
  define t where "t = (of_nat i / of_nat n :: rat)"
  have t: "0 \<le> t" "t \<le> 1" using i by (auto simp: t_def field_simps)
  have "562 \<le> fst prev + mathRound (t * of_int (fst g - fst prev)) \<and> fst prev + mathRound (t * of_int (fst g - fst prev)) \<le> 949"
    "647 \<le> snd prev + mathRound (t * of_int (snd g - snd prev)) \<and> snd prev + mathRound (t * of_int (snd g - snd prev)) \<le> 912"
    by (rule between_part [OF t]; use p g in \<open>simp add: inFrame_def\<close>)+
  then show ?thesis unfolding approachPoint_def t_def [symmetric] Let_def by (intro around_frame) auto
qed

lemma list_all_mono: "list_all P xs \<Longrightarrow> (\<And>x. P x \<Longrightarrow> Q x) \<Longrightarrow> list_all Q xs"
  by (simp add: list_all_iff)

lemma arc_in_path: "arcFrame p \<Longrightarrow> pathFrame p"
  by (simp add: inFrame_def)

lemma arcPoints_frame:
  assumes "startFrame s" "targetFrame g"
  shows "pred_state (\<lambda>ps. list_all arcFrame ps \<and> 2 \<le> length ps \<and> length ps \<le> 4) (arcPoints d s g)"
  unfolding arcPoints_def
proof (rule pred_bind [OF Intn_range], simp, rule pred_bind [OF Intn_range], simp, rule pred_bind [OF Intn_range], simp, goal_cases)
  case (1 m ax ay)
  then show ?case
    by (intro pred_mono [OF pred_traverse [where P = arcFrame]] transit_frame [OF assms]) auto
qed

lemma approachPoints_frame:
  assumes "arcFrame prev" "targetFrame g"
  shows "pred_state (\<lambda>ps. list_all pathFrame ps \<and> 4 \<le> length ps \<and> length ps \<le> 7) (approachPoints d prev g)"
  unfolding approachPoints_def
proof (rule pred_bind [OF Intn_range], simp, goal_cases)
  case (1 n)
  then show ?case
    by (intro pred_mono [OF pred_traverse [where P = pathFrame]] approach_frame [OF assms]) auto
qed

lemma settlePoints_frame:
  assumes "targetFrame g"
  shows "pred_state (\<lambda>ps. list_all pathFrame ps \<and> 3 \<le> length ps \<and> length ps \<le> 7) (settlePoints d g)"
  unfolding settlePoints_def
proof (rule pred_bind [OF Intn_range], simp, goal_cases)
  case (1 l)
  then show ?case
    by (intro pred_mono [OF pred_traverse [where P = pathFrame]] around_frame) (use assms in \<open>auto simp: inFrame_def\<close>)
qed

lemma startAndTarget_frame:
  assumes "0 < candidateCount"
  shows "pred_state (\<lambda>(s, g). startFrame s \<and> targetFrame g) (startAndTarget d candidateIndex candidateCount)"
  unfolding startAndTarget_def
  by (intro pred_bind [OF Intn_range] pred_return) (use baseTarget_range [OF assms, of candidateIndex] in \<open>auto simp: inFrame_def\<close>)

lemma restPoints_frame:
  assumes "startFrame s"
  shows "pred_state (\<lambda>ps. list_all arcFrame ps \<and> 1 \<le> length ps \<and> length ps \<le> 3) (State (restPoints d (fst s) (snd s) 0))"
proof (rule pred_stateI)
  fix ps k k'
  assume "run_state (State (restPoints d (fst s) (snd s) 0)) k = (ps, k')"
  then have "fst (restPoints d (fst s) (snd s) 0 k) = ps" by simp
  then show "list_all arcFrame ps \<and> 1 \<le> length ps \<and> length ps \<le> 3"
    using rest_frame [of 562 "fst s" 949 647 "snd s" 912 d 0 k] assms by (auto simp: inFrame_def Suc_le_eq)
qed

text \<open>At most 21 points, which fit the capacity of 28, and all of them between the start and the target.\<close>

lemma cursor_frame:
  assumes "0 < candidateCount"
  shows "pred_state (\<lambda>ps. 10 \<le> length ps \<and> length ps \<le> 21 \<and> list_all pathFrame ps) (cursorPoints d candidateIndex candidateCount)"
  unfolding cursorPoints_def
proof (rule pred_bind [OF startAndTarget_frame [OF assms]], clarsimp simp del: fst_conv snd_conv)
  fix sx sy gx gy
  assume s: "startFrame (sx, sy)" and g: "targetFrame (gx, gy)"
  have "arcFrame (last (rest @ arc))"
    if "list_all arcFrame rest \<and> 1 \<le> length rest \<and> length rest \<le> 3" "list_all arcFrame arc" for rest arc
  proof -
    have "last (rest @ arc) \<in> set (rest @ arc)" using that by (intro last_in_set) auto
    with that show ?thesis unfolding list_all_iff by auto
  qed
  then show "pred_state (\<lambda>ps. 10 \<le> length ps \<and> length ps \<le> 21 \<and> list_all pathFrame ps)
     (do { rest \<leftarrow> State (restPoints d (fst (sx, sy)) (snd (sx, sy)) 0); arc \<leftarrow> arcPoints d (sx, sy) (gx, gy);
           approach \<leftarrow> approachPoints d (last (rest @ arc)) (gx, gy); settle \<leftarrow> settlePoints d (gx, gy);
           State_Monad.return (rest @ arc @ approach @ settle) })"
    by (intro pred_bind [OF restPoints_frame [OF s]] pred_bind [OF arcPoints_frame [OF s g]] pred_bind [OF approachPoints_frame [OF _ g]]
          pred_bind [OF settlePoints_frame [OF g]] pred_return)
      (auto intro: list_all_mono [OF _ arc_in_path])
qed

lemma cursor_sample: "buildSliderCursorV2 (\<lambda>_. 0) 1 0 = ''[]''"
  by (simp add: buildSliderCursorV2_def)

end
