(* ===== verification/Vk_Http.thy ===== *)
theory Vk_Http
  imports Go_Url Creds Slider_Cursor
begin

text \<open>
  Conversations over HTTP: the requests that \<open>internal/core/creds.go\<close> and \<open>internal/core/captcha_v2.go\<close> send to VK and to
  OK.ru, and the form encoding of \<open>captchaV2EncodeForm\<close>.

  A conversation runs over the list of the events so far, newest first.  What the outside world does (the reply to a request, the end
  of the context, a random number, a result of the WebView) is a function of that list: an arbitrary environment.  Request headers and
  the TLS fingerprint are not modelled; the pauses are events of their own.
\<close>

section \<open>Events and environment\<close>

text \<open>\<open>Http method url body\<close> is a request, \<open>Emit mode redirectURI sessionToken\<close> a captcha shown to the user, \<open>Draw\<close> a random choice.\<close>

datatype vkevent = Http string string string | Emit string string string | Pause | Draw

text \<open>What fails: \<open>client.Do\<close> or \<open>io.ReadAll\<close> of the body.\<close>

datatype http_error = DoError string | ReadError string

fun httpText :: "http_error \<Rightarrow> string" where
  "httpText (DoError s) = s"
| "httpText (ReadError s) = s"

datatype pattern = PowInputPat | DifficultyPat | WindowInitPat | ScriptSrcPat | DebugInfoPat

record captchaV2Init =
  ShowCaptchaType :: string
  CaptchaSettings :: "(string \<times> string) list"

text \<open>
  The environment.  \<open>reply\<close> answers the newest request with an error or a body.  The other fields are the library: \<open>json.Unmarshal\<close>
  into a map and into the init structure, \<open>json.Marshal\<close>, the verb \<open>%v\<close>, \<open>strconv.FormatFloat\<close>, the query of \<open>url.Parse\<close>, the
  first group of the first match of a regular expression, the verb \<open>%q\<close>, SHA-256 in hexadecimal, and the image decoder, which takes the
  base64 text.  \<open>randomFP\<close> is the hexadecimal text of 16 bytes of \<open>crypto/rand\<close>, whose \<open>Read\<close> does not fail; \<open>roundFloat\<close>
  and \<open>expFloat\<close> are the rounding of \<open>float64\<close> and \<open>math.Exp\<close>, \<open>schedule\<close> is the argument of the slider ranking, \<open>cursorDraws\<close> are
  the draws of \<open>math/rand\<close> for a cursor path, \<open>uuidText\<close> the third-party \<open>uuid.New()\<close> and \<open>callerName\<close> the random name of \<open>generateName\<close>.  \<open>clientError\<close> is a
  failure of the third-party \<open>NewHttpClient\<close>, \<open>skipVKCalls\<close> the variable \<open>VK_SKIP_VKCALLS\<close>.
\<close>

record vkenv =
  reply :: "vkevent list \<Rightarrow> http_error + string"
  ended :: "vkevent list \<Rightarrow> bool"
  powEnded :: "vkevent list \<Rightarrow> nat \<Rightarrow> bool"
  arrivals :: "vkevent list \<Rightarrow> string list"
  randomInt :: "vkevent list \<Rightarrow> nat"
  randomFP :: "vkevent list \<Rightarrow> string"
  clock :: "vkevent list \<Rightarrow> int"
  unmarshal :: "string \<Rightarrow> string + (string \<times> json) list"
  unmarshalInit :: "string \<Rightarrow> string + captchaV2Init"
  marshal :: "json \<Rightarrow> string"
  showMap :: "(string \<times> json) list \<Rightarrow> string"
  formatFloat :: "rat \<Rightarrow> string"
  urlQuery :: "string \<Rightarrow> query_values option"
  firstGroup :: "pattern \<Rightarrow> string \<Rightarrow> string option"
  quoteText :: "string \<Rightarrow> string"
  sha256Hex :: "string \<Rightarrow> string"
  decodeImage :: "string \<Rightarrow> string + raster"
  roundFloat :: "rat \<Rightarrow> rat"
  expFloat :: "rat \<Rightarrow> rat"
  schedule :: "nat list \<Rightarrow> nat list"
  clientError :: "string option"
  skipVKCalls :: bool
  uuidText :: "vkevent list \<Rightarrow> string"
  callerName :: "vkevent list \<Rightarrow> string"
  cursorDraws :: "vkevent list \<Rightarrow> nat \<Rightarrow> nat"

text \<open>
  The state a conversation changes: the events, the results waiting in \<open>captchaResultChan\<close>, \<open>globalCaptchaLockout\<close> and
  \<open>captchaV2DebugCache\<close>.
\<close>

record vkworld =
  hist :: "vkevent list"
  results :: "string list"
  captchaLockout :: int
  debugCache :: "string \<Rightarrow> string option"

section \<open>Conversations\<close>

text \<open>
  A conversation is a state transformer that may fail.  \<open>handled\<close> goes on with the result, error or value; \<open>andThen\<close> stops at the
  first error, as \<open>if err != nil\<close> with a \<open>return\<close> does.
\<close>

type_synonym ('e, 'a) conv = "vkworld \<Rightarrow> ('e + 'a) \<times> vkworld"

definition answer :: "('e + 'a) \<Rightarrow> ('e, 'a) conv" where
  "answer r w = (r, w)"

definition handled :: "('e, 'a) conv \<Rightarrow> ('e + 'a \<Rightarrow> ('f, 'b) conv) \<Rightarrow> ('f, 'b) conv" where
  "handled m f w = (case m w of (r, w') \<Rightarrow> f r w')"

definition andThen :: "('e, 'a) conv \<Rightarrow> ('a \<Rightarrow> ('e, 'b) conv) \<Rightarrow> ('e, 'b) conv" where
  "andThen m f = handled m (\<lambda>r. case r of Inl e \<Rightarrow> answer (Inl e) | Inr x \<Rightarrow> f x)"

definition mapError :: "('e \<Rightarrow> 'f) \<Rightarrow> ('e, 'a) conv \<Rightarrow> ('f, 'a) conv" where
  "mapError g m = handled m (\<lambda>r. answer (map_sum g id r))"

definition happens :: "vkevent \<Rightarrow> ('e, unit) conv" where
  "happens ev w = (Inr (), w\<lparr>hist := ev # hist w\<rparr>)"

definition asking :: "(vkevent list \<Rightarrow> 'a) \<Rightarrow> ('e, 'a) conv" where
  "asking f w = (Inr (f (hist w)), w)"

text \<open>One request.\<close>

definition httpDo :: "vkenv \<Rightarrow> string \<Rightarrow> string \<Rightarrow> string \<Rightarrow> (http_error, string) conv" where
  "httpDo env method url body =
     andThen (happens (Http method url body)) (\<lambda>_. andThen (asking (reply env)) answer)"

text \<open>\<open>rand.Intn(n)\<close>.\<close>

definition Intn :: "vkenv \<Rightarrow> nat \<Rightarrow> ('e, nat) conv" where
  "Intn env n = andThen (happens Draw) (\<lambda>_. asking (\<lambda>h. randomInt env h mod n))"

text \<open>A successful conversation went through all its parts.\<close>

lemma andThen_Inr: "andThen m f w = (Inr x, w') \<longleftrightarrow> (\<exists>y w1. m w = (Inr y, w1) \<and> f y w1 = (Inr x, w'))"
  by (auto simp: andThen_def handled_def answer_def split: prod.splits sum.splits)

lemma handled_run: "handled m f w = (r, w') \<longleftrightarrow> (\<exists>q w1. m w = (q, w1) \<and> f q w1 = (r, w'))"
  by (auto simp: handled_def split: prod.splits)

lemma answer_run [simp]: "answer r w = (r', w') \<longleftrightarrow> r = r' \<and> w' = w"
  by (auto simp: answer_def)

lemma mapError_Inr: "mapError g m w = (Inr x, w') \<longleftrightarrow> m w = (Inr x, w')"
  by (auto simp: mapError_def handled_def answer_def split: prod.splits) (metis map_sum.simps(2) id_apply obj_sumE map_sum.simps(1) sum.distinct(1) sum.inject(2))

lemma happens_run [simp]: "happens ev w = (r, w') \<longleftrightarrow> r = Inr () \<and> w' = w\<lparr>hist := ev # hist w\<rparr>"
  by (auto simp: happens_def)

lemma asking_run [simp]: "asking f w = (r, w') \<longleftrightarrow> r = Inr (f (hist w)) \<and> w' = w"
  by (auto simp: asking_def)

lemma httpDo_Inr:
  "httpDo env mthd url body w = (Inr x, w') \<longleftrightarrow>
     w' = w\<lparr>hist := Http mthd url body # hist w\<rparr> \<and> reply env (hist w') = Inr x"
  by (auto simp: httpDo_def andThen_Inr)

section \<open>Bounding a conversation\<close>

text \<open>
  \<open>confined P n Q m\<close>: the conversation only adds events, at most \<open>n\<close> of the kind \<open>P\<close>, leaves the lockout alone, and its result satisfies
  \<open>Q\<close>.
\<close>

definition confined :: "(vkevent \<Rightarrow> bool) \<Rightarrow> nat \<Rightarrow> ('e + 'a \<Rightarrow> bool) \<Rightarrow> ('e, 'a) conv \<Rightarrow> bool" where
  "confined P n Q m \<longleftrightarrow>
     (\<forall>w r w'. m w = (r, w') \<longrightarrow>
        Q r \<and> captchaLockout w' = captchaLockout w \<and> (\<exists>evs. hist w' = evs @ hist w \<and> length (filter P evs) \<le> n))"

lemma confinedD:
  "confined P n Q m \<Longrightarrow> m w = (r, w') \<Longrightarrow>
     Q r \<and> captchaLockout w' = captchaLockout w \<and> (\<exists>evs. hist w' = evs @ hist w \<and> length (filter P evs) \<le> n)"
  by (simp add: confined_def)

lemma confined_mono: "confined P n Q m \<Longrightarrow> n \<le> k \<Longrightarrow> (\<And>r. Q r \<Longrightarrow> Q' r) \<Longrightarrow> confined P k Q' m"
  unfolding confined_def by (meson le_trans)

lemma confined_drop: "confined P n Q m \<Longrightarrow> confined P n (\<lambda>_. True) m"
  by (simp add: confined_def)

lemma confined_handled:
  assumes "confined P i Q m" "\<And>r. Q r \<Longrightarrow> confined P j Q' (f r)" "i + j \<le> n"
  shows "confined P n Q' (handled m f)"
  unfolding confined_def
proof (intro allI impI)
  fix w r w' assume "handled m f w = (r, w')"
  then obtain r1 w1 where m: "m w = (r1, w1)" and f: "f r1 w1 = (r, w')"
    by (auto simp: handled_def split: prod.splits)
  from confinedD [OF assms(1) m] obtain es
    where es: "Q r1" "captchaLockout w1 = captchaLockout w" "hist w1 = es @ hist w" "length (filter P es) \<le> i" by blast
  from confinedD [OF assms(2) f] es(1) obtain es'
    where "Q' r" "captchaLockout w' = captchaLockout w1" "hist w' = es' @ hist w1" "length (filter P es') \<le> j" by blast
  with es assms(3) show "Q' r \<and> captchaLockout w' = captchaLockout w \<and> (\<exists>evs. hist w' = evs @ hist w \<and> length (filter P evs) \<le> n)"
    by (intro conjI exI [of _ "es' @ es"]) auto
qed

lemma confined_answer: "Q r \<Longrightarrow> confined P n Q (answer r)"
  by (simp add: confined_def answer_def)

lemma confined_andThen:
  assumes "confined P i Q m" "\<And>x. Q (Inr x) \<Longrightarrow> confined P j Q' (f x)" "i + j \<le> n" "\<And>e. Q (Inl e) \<Longrightarrow> Q' (Inl e)"
  shows "confined P n Q' (andThen m f)"
  unfolding andThen_def
  by (rule confined_handled [OF assms(1) _ assms(3)]) (auto intro: assms(2,4) confined_answer split: sum.split)

lemmas confined_first = confined_andThen [where i = 0 and j = n and n = n for n, simplified]
lemmas confined_last = confined_andThen [where i = n and j = 0 and n = n for n, simplified]

lemma confined_if:
  "(c \<Longrightarrow> confined P n Q m) \<Longrightarrow> (\<not> c \<Longrightarrow> confined P n Q m') \<Longrightarrow> confined P n Q (if c then m else m')"
  by simp

lemma confined_mapError:
  assumes "confined P n Q m" "\<And>r. Q r \<Longrightarrow> Q' (map_sum g id r)" shows "confined P n Q' (mapError g m)"
  unfolding mapError_def by (rule confined_handled [OF assms(1)]) (auto intro: confined_answer assms(2))

lemma confined_happens: "Q (Inr ()) \<Longrightarrow> (if P ev then 1 else 0) \<le> n \<Longrightarrow> confined P n Q (happens ev)"
  by (auto simp: confined_def happens_def)

lemma confined_asking: "(\<And>h. Q (Inr (f h))) \<Longrightarrow> confined P n Q (asking f)"
  by (simp add: confined_def asking_def)

text \<open>Conversations without a bounded event: the results are left to a second look.\<close>

abbreviation anything :: "'r \<Rightarrow> bool" where "anything \<equiv> \<lambda>_. True"

abbreviation noError :: "'e + 'a \<Rightarrow> bool" where "noError r \<equiv> (\<forall>e. r \<noteq> Inl e)"

lemma confined_httpDo: "(P (Http method url body) \<Longrightarrow> 1 \<le> n) \<Longrightarrow> confined P n anything (httpDo env method url body)"
  unfolding httpDo_def
  by (rule confined_andThen [where i = "if P (Http method url body) then 1 else 0" and j = 0 and Q = anything])
     (auto intro!: confined_happens confined_andThen [where i = 0 and j = 0 and Q = anything] confined_asking confined_answer)

lemma confined_Intn: "\<not> P Draw \<Longrightarrow> confined P n noError (Intn env k)"
  unfolding Intn_def
  by (rule confined_andThen [where i = 0 and j = n and Q = noError]) (auto intro!: confined_happens confined_asking)

section \<open>Forms\<close>

definition hexUpper :: "nat \<Rightarrow> char" where
  "hexUpper n = ''0123456789ABCDEF'' ! n"

definition captchaV2QueryEscape :: "string \<Rightarrow> string" where
  "captchaV2QueryEscape s =
     concat (map (\<lambda>c.
       if c = CHR '' '' then ''+''
       else if (97 \<le> (of_char c :: nat) \<and> (of_char c :: nat) \<le> 122) \<or> (65 \<le> (of_char c :: nat) \<and> (of_char c :: nat) \<le> 90)
            \<or> (48 \<le> (of_char c :: nat) \<and> (of_char c :: nat) \<le> 57)
            \<or> c = CHR ''-'' \<or> c = CHR ''_'' \<or> c = CHR ''.'' \<or> c = CHR ''~''
         then [c]
       else [CHR ''%'', hexUpper (of_char c div 16), hexUpper (of_char c mod 16)]) s)"

definition captchaV2EncodeForm :: "query_values \<Rightarrow> string" where
  "captchaV2EncodeForm values = Join (map (\<lambda>(k, v). captchaV2QueryEscape k @ ''='' @ captchaV2QueryEscape v) values) ''&''"

lemma hexUpper_digit: "n < 16 \<Longrightarrow> hexUpper n = hex_digit n"
proof -
  have "list_all (\<lambda>n. hexUpper n = hex_digit n) [0..<16]" by code_simp
  then show "n < 16 \<Longrightarrow> hexUpper n = hex_digit n" by (auto simp: list_all_iff)
qed

lemma own_escape_byte:
  "captchaV2QueryEscape [c] = escape_byte c"
  using nibbles [of c] of_char_less [of c]
  by (auto simp: captchaV2QueryEscape_def escape_byte_def query_unreserved_def is_alnum_def Let_def hexUpper_digit)

text \<open>The escape routine of the solver is \<open>url.QueryEscape\<close>, and a form decodes to the values it was made of, in their order.\<close>

lemma own_escape: "captchaV2QueryEscape s = QueryEscape s"
proof (induction s)
  case (Cons c s)
  have "captchaV2QueryEscape (c # s) = captchaV2QueryEscape [c] @ captchaV2QueryEscape s"
    by (simp add: captchaV2QueryEscape_def)
  then show ?case using Cons by (simp add: own_escape_byte QueryEscape_def)
qed (simp add: captchaV2QueryEscape_def QueryEscape_def)

lemma form_decodes: "values \<noteq> [] \<Longrightarrow> ParseQuery (captchaV2EncodeForm values) = values"
proof -
  assume "values \<noteq> []"
  let ?seg = "\<lambda>(k, v). QueryEscape k @ ''='' @ QueryEscape v"
  have no_amp: "CHR ''&'' \<notin> set (QueryEscape s)" for s using reserved_chars by (intro QueryEscape_no) auto
  have "captchaV2EncodeForm values = Join (map ?seg values) ''&''"
    by (simp add: captchaV2EncodeForm_def own_escape)
  moreover have "SplitByte CHR ''&'' (Join (map ?seg values) ''&'') = map ?seg values"
    using no_amp \<open>values \<noteq> []\<close> by (intro SplitByte_Join) auto
  ultimately have "SplitByte CHR ''&'' (captchaV2EncodeForm values) = map ?seg values" by (simp only:)
  moreover have "List.map_filter parse_pair (map ?seg xs) = xs" for xs
    using parse_pair_encoded by (induction xs) (auto simp: List.map_filter_def)
  ultimately show ?thesis by (simp add: ParseQuery_def)
qed

end
