(* ===== verification/Captcha.thy ===== *)
theory Captcha
  imports Vk_Http
begin

text \<open>
  The automatic captcha solver \<open>internal/core/captcha_v2.go\<close> with the requests of \<open>captcha_v2_slider.go\<close>: the challenge VK sends, the
  proof of work, the page, the checkbox and slider conversations, the loop over the show types, and the attempts.
\<close>

section \<open>Errors\<close>

text \<open>
  The Go errors of the solver.  \<open>errors.Is\<close> and \<open>errors.As\<close> look for the sentinels and the show type error, so these are constructors of
  their own; \<open>ChainFailed\<close> wraps the last automatic error with \<open>%w\<close>.
\<close>

datatype captcha_error =
    RateLimit
  | BotChallenge string
  | SessionExpired
  | ShowTypeMismatch string
  | ContextDone
  | SolveFailed string
  | ChainFailed captcha_error captcha_error

fun captchaText :: "captcha_error \<Rightarrow> string" where
  "captchaText RateLimit = ''captcha session rate limit reached''"
| "captchaText (BotChallenge status) = ''captcha bot challenge: checkbox captcha rejected: status='' @ status"
| "captchaText SessionExpired = ''captcha session expired, need fresh challenge''"
| "captchaText (ShowTypeMismatch t) = ''captcha show type mismatch: '' @ t"
| "captchaText ContextDone = ''context canceled''"
| "captchaText (SolveFailed s) = s"
| "captchaText (ChainFailed e manual) =
     ''automatic captcha chain failed: '' @ captchaText e @ ''; manual fallback failed: '' @ captchaText manual"

fun isRateLimit :: "captcha_error \<Rightarrow> bool" where
  "isRateLimit RateLimit = True"
| "isRateLimit (ChainFailed e _) = isRateLimit e"
| "isRateLimit _ = False"

fun isSessionExpired :: "captcha_error \<Rightarrow> bool" where
  "isSessionExpired SessionExpired = True"
| "isSessionExpired (ChainFailed e _) = isSessionExpired e"
| "isSessionExpired _ = False"

fun isBotChallenge :: "captcha_error \<Rightarrow> bool" where
  "isBotChallenge (BotChallenge _) = True"
| "isBotChallenge (ChainFailed e _) = isBotChallenge e"
| "isBotChallenge _ = False"

definition isCaptchaSessionDead :: "captcha_error \<Rightarrow> bool" where
  "isCaptchaSessionDead e =
     (Contains (lower_view (captchaText e)) ''getcontent status:'' \<or> Contains (lower_view (captchaText e)) ''error_limit'')"

definition isCaptchaSessionExhausted :: "captcha_error \<Rightarrow> bool" where
  "isCaptchaSessionExhausted e =
     (isRateLimit e \<or> isCaptchaSessionDead e \<or> Contains (lower_view (captchaText e)) ''rate limit'')"

section \<open>The challenge\<close>

record vk_captcha =
  ErrorCode :: int
  ErrorMsg :: string
  CaptchaSid :: string
  CaptchaImg :: string
  RedirectURI :: string
  SessionToken :: string
  CaptchaTs :: string
  CaptchaAttempt :: string

text \<open>The verb \<open>%.0f\<close>: round to the nearest integer, ties to even.\<close>

definition fixed0 :: "rat \<Rightarrow> string" where
  "fixed0 r =
     (let f = \<lfloor>r\<rfloor>; d = r - of_int f; n = (if d < 1 / 2 \<or> (d = 1 / 2 \<and> even f) then f else f + 1)
      in if n = 0 \<and> r < 0 then ''-0'' else Itoa n)"

definition numberOrText :: "json \<Rightarrow> string" where
  "numberOrText v = (case v of JNum r \<Rightarrow> fixed0 r | JStr s \<Rightarrow> s | _ \<Rightarrow> [])"

definition parseVkCaptchaError :: "vkenv \<Rightarrow> (string \<times> json) list \<Rightarrow> vk_captcha" where
  "parseVkCaptchaError env errData =
     (let redirect = jstr (jget errData ''redirect_uri'')
      in \<lparr>ErrorCode = (case jget errData ''error_code'' of JNum r \<Rightarrow> trunc r | _ \<Rightarrow> 0),
          ErrorMsg = jstr (jget errData ''error_msg''),
          CaptchaSid = numberOrText (jget errData ''captcha_sid''),
          CaptchaImg = jstr (jget errData ''captcha_img''),
          RedirectURI = redirect,
          SessionToken =
            (if redirect = [] then []
             else case urlQuery env redirect of Some q \<Rightarrow> query_get q ''session_token'' | None \<Rightarrow> []),
          CaptchaTs = numberOrText (jget errData ''captcha_ts''),
          CaptchaAttempt = numberOrText (jget errData ''captcha_attempt'')\<rparr>)"

definition captchaErrorText :: "vkenv \<Rightarrow> vk_captcha \<Rightarrow> string" where
  "captchaErrorText env e =
     (if ErrorCode e \<noteq> 0 \<and> ErrorCode e \<noteq> 14 then
        (if ErrorMsg e \<noteq> [] then ''VK API error '' @ Itoa (ErrorCode e) @ '': '' @ ErrorMsg e
         else ''VK API error '' @ Itoa (ErrorCode e))
      else if RedirectURI e \<noteq> [] then ''VK captcha required: redirect_uri, sid='' @ quoteText env (CaptchaSid e)
      else if CaptchaImg e \<noteq> [] then ''VK captcha required: captcha_img, sid='' @ quoteText env (CaptchaSid e)
      else if CaptchaSid e \<noteq> [] then ''VK captcha required: sid='' @ quoteText env (CaptchaSid e)
      else if ErrorMsg e \<noteq> [] then ''VK captcha required: '' @ ErrorMsg e
      else ''VK captcha required'')"

definition captchaDomainFromRedirectURI :: "vkenv \<Rightarrow> string \<Rightarrow> string" where
  "captchaDomainFromRedirectURI env uri =
     (case urlQuery env uri of
        None \<Rightarrow> ''vk.com''
      | Some q \<Rightarrow> (let domain = TrimSpace (query_get q ''domain'') in if domain = [] then ''vk.com'' else domain))"

section \<open>Proof of work\<close>

definition maxNonce :: nat where "maxNonce = 10000000"

text \<open>The loop over the nonces; the context is looked at every 4096 nonces.\<close>

function powFrom :: "(string \<Rightarrow> string) \<Rightarrow> (nat \<Rightarrow> bool) \<Rightarrow> string \<Rightarrow> string \<Rightarrow> nat \<Rightarrow> string" where
  "powFrom sha stop input target nonce =
     (if maxNonce < nonce then []
      else if nonce mod 4096 = 0 \<and> stop nonce then []
      else if HasPrefix (sha (input @ Itoa (int nonce))) target then sha (input @ Itoa (int nonce))
      else powFrom sha stop input target (nonce + 1))"
  by auto
termination
  by (relation "measure (\<lambda>(_, _, _, _, nonce). maxNonce + 1 - nonce)") auto

declare powFrom.simps [simp del]

definition solveCaptchaPoWV2 :: "(string \<Rightarrow> string) \<Rightarrow> (nat \<Rightarrow> bool) \<Rightarrow> string \<Rightarrow> int \<Rightarrow> string" where
  "solveCaptchaPoWV2 sha stop input difficulty =
     (if input = [] \<or> difficulty \<le> 0 then []
      else powFrom sha stop input (replicate (nat difficulty) CHR ''0'') 1)"

lemma powFrom_first:
  assumes "powFrom sha stop input target n = h" "h \<noteq> []"
  shows "\<exists>k \<ge> n. k \<le> maxNonce \<and> h = sha (input @ Itoa (int k)) \<and> HasPrefix h target
    \<and> (\<forall>j. n \<le> j \<and> j < k \<longrightarrow> \<not> HasPrefix (sha (input @ Itoa (int j))) target)"
  using assms
proof (induction sha stop input target n rule: powFrom.induct)
  case (1 sha stop input target n)
  let ?hash = "sha (input @ Itoa (int n))"
  have range: "\<not> maxNonce < n" "\<not> (n mod 4096 = 0 \<and> stop n)"
    using "1.prems" by (auto simp: powFrom.simps [of sha stop input target n] split: if_splits)
  show ?case
  proof (cases "HasPrefix ?hash target")
    case True
    then have "h = ?hash" using "1.prems"(1) range by (simp add: powFrom.simps [of sha stop input target n])
    then show ?thesis using True range by (intro exI [of _ n]) auto
  next
    case False
    then have "powFrom sha stop input target (n + 1) = h"
      using "1.prems"(1) range by (simp add: powFrom.simps [of sha stop input target n])
    from "1.IH" [OF range False this "1.prems"(2)] obtain k
      where k: "n + 1 \<le> k" "k \<le> maxNonce" "h = sha (input @ Itoa (int k))" "HasPrefix h target"
        "\<forall>j. n + 1 \<le> j \<and> j < k \<longrightarrow> \<not> HasPrefix (sha (input @ Itoa (int j))) target" by blast
    have "\<not> HasPrefix (sha (input @ Itoa (int j))) target" if "n \<le> j \<and> j < k" for j
      using k(5) False that by (cases "j = n") auto
    then show ?thesis using k(1-4) by (intro exI [of _ k]) auto
  qed
qed

section \<open>The page\<close>

record captchaV2Page =
  PowInput :: string
  PowDifficulty :: int
  ScriptURL :: string
  Init :: captchaV2Init

definition parseCaptchaV2Page :: "vkenv \<Rightarrow> string \<Rightarrow> captcha_error + captchaV2Page" where
  "parseCaptchaV2Page env html =
     (case firstGroup env WindowInitPat html of
        None \<Rightarrow> Inl (SolveFailed ''captcha init json not found'')
      | Some initText \<Rightarrow>
     (case unmarshalInit env initText of
        Inl e \<Rightarrow> Inl (SolveFailed (''captcha init json parse: '' @ e))
      | Inr init \<Rightarrow>
     (case firstGroup env ScriptSrcPat html of
        None \<Rightarrow> Inl (SolveFailed ''captcha script url not found'')
      | Some script \<Rightarrow>
          (let input = (case firstGroup env PowInputPat html of Some i \<Rightarrow> i | None \<Rightarrow> []) in
           if input = [] then Inr \<lparr>PowInput = [], PowDifficulty = 0, ScriptURL = script, Init = init\<rparr>
           else
             (case firstGroup env DifficultyPat html of
                None \<Rightarrow> Inl (SolveFailed ''captcha difficulty const not found'')
              | Some d \<Rightarrow>
                  (case Atoi d of
                     None \<Rightarrow> Inl (SolveFailed (''invalid captcha difficulty '' @ quoteText env d))
                   | Some n \<Rightarrow>
                       if n \<le> 0 then Inl (SolveFailed (''invalid captcha difficulty '' @ quoteText env d))
                       else Inr \<lparr>PowInput = input, PowDifficulty = n, ScriptURL = script, Init = init\<rparr>))))))"

section \<open>Identity\<close>

record SavedProfile =
  DeviceJSON :: string
  BrowserFp :: string

record captchaV2Session =
  savedProfile :: SavedProfile
  variedDeviceJSON :: string
  domain :: string

definition captchaV2DeviceInfo :: string where
  "captchaV2DeviceInfo =
     ''{\"screenWidth\":1920,\"screenHeight\":1080,\"screenAvailWidth\":1920,\"screenAvailHeight\":1080,\"innerWidth\":1920,\"innerHeight\":951,'' @
     ''\"devicePixelRatio\":1,\"language\":\"en-US\",\"languages\":[\"en-US\",\"en\"],\"webdriver\":false,\"hardwareConcurrency\":8,'' @
     ''\"notificationsPermission\":\"denied\"}''"

definition captchaV2BrowserFP :: "vkenv \<Rightarrow> (captcha_error, string) conv" where
  "captchaV2BrowserFP env = andThen (happens Draw) (\<lambda>_. asking (randomFP env))"

definition jset :: "(string \<times> json) list \<Rightarrow> string \<Rightarrow> json \<Rightarrow> (string \<times> json) list" where
  "jset m k v = (k, v) # filter (\<lambda>p. fst p \<noteq> k) m"

definition jitterInt :: "vkenv \<Rightarrow> string \<Rightarrow> nat \<Rightarrow> (string \<times> json) list \<Rightarrow> (captcha_error, (string \<times> json) list) conv" where
  "jitterInt env key delta m =
     (case jget m key of
        JNum v \<Rightarrow>
          andThen (Intn env (delta * 2 + 1)) (\<lambda>k.
            (let n = trunc v + int k - int delta; n' = (if n < 320 then 320 else n)
             in answer (Inr (jset m key (JNum (of_int n'))))))
      | _ \<Rightarrow> answer (Inr m))"

definition pixelRatios :: "rat list" where "pixelRatios = [1, 5 / 4, 3 / 2, 2, 5 / 2, 3]"

definition deviceLanguages :: "string list list" where
  "deviceLanguages = [[''ru-RU'', ''ru'', ''en-US''], [''ru-RU'', ''ru''], [''en-US'', ''en'', ''ru-RU'']]"

definition variedRatio :: "vkenv \<Rightarrow> (string \<times> json) list \<Rightarrow> (captcha_error, (string \<times> json) list) conv" where
  "variedRatio env m =
     (let pick = andThen (Intn env (length pixelRatios)) (\<lambda>k. answer (Inr (jset m ''devicePixelRatio'' (JNum (pixelRatios ! k)))))
      in case jget m ''devicePixelRatio'' of
           JNum d \<Rightarrow> andThen (Intn env 3) (\<lambda>k. if k = 0 then answer (Inr (jset m ''devicePixelRatio'' (JNum d))) else pick)
         | _ \<Rightarrow> pick)"

definition captchaV2VariedDeviceJSON :: "vkenv \<Rightarrow> string \<Rightarrow> (captcha_error, string) conv" where
  "captchaV2VariedDeviceJSON env base =
     (case unmarshal env base of
        Inl _ \<Rightarrow> answer (Inr base)
      | Inr m \<Rightarrow>
          andThen (jitterInt env ''screenWidth'' 18 m) (\<lambda>m.
          andThen (jitterInt env ''screenHeight'' 24 m) (\<lambda>m.
          andThen (jitterInt env ''screenAvailWidth'' 18 m) (\<lambda>m.
          andThen (jitterInt env ''screenAvailHeight'' 24 m) (\<lambda>m.
          andThen (jitterInt env ''innerWidth'' 18 m) (\<lambda>m.
          andThen (jitterInt env ''innerHeight'' 20 m) (\<lambda>m.
          andThen (variedRatio env m) (\<lambda>m.
          andThen (Intn env 5) (\<lambda>cores.
          andThen (Intn env (length deviceLanguages)) (\<lambda>l.
          andThen (Intn env 3) (\<lambda>p.
            (let langs = deviceLanguages ! l;
                 m1 = jset m ''hardwareConcurrency'' (JNum (4 + of_nat cores));
                 m2 = jset m1 ''language'' (JStr (hd langs));
                 m3 = jset m2 ''languages'' (JArr (map JStr langs));
                 m4 = jset m3 ''notificationsPermission'' (JStr ([''default'', ''denied'', ''granted''] ! p))
             in answer (Inr (marshal env (JObj m4)))))))))))))))"

definition captchaV2DeviceJSON :: "SavedProfile \<Rightarrow> string" where
  "captchaV2DeviceJSON sp = (if TrimSpace (DeviceJSON sp) \<noteq> [] then DeviceJSON sp else captchaV2DeviceInfo)"

definition deviceJSON :: "captchaV2Session \<Rightarrow> string" where
  "deviceJSON s = (if TrimSpace (variedDeviceJSON s) \<noteq> [] then variedDeviceJSON s else captchaV2DeviceJSON (savedProfile s))"

text \<open>
  \<open>rotateCaptchaV2Identity\<close>; \<open>base\<close> is the very object \<open>s.savedProfile\<close> points to, whose \<open>DeviceJSON\<close> it does not change.  The profile
  headers are not modelled.
\<close>

definition rotateCaptchaV2Identity :: "vkenv \<Rightarrow> captchaV2Session \<Rightarrow> (captcha_error, captchaV2Session) conv" where
  "rotateCaptchaV2Identity env s =
     andThen (captchaV2BrowserFP env) (\<lambda>fp.
     andThen (captchaV2VariedDeviceJSON env (captchaV2DeviceJSON (savedProfile s))) (\<lambda>device.
       answer (Inr (s\<lparr>savedProfile := (savedProfile s)\<lparr>BrowserFp := fp\<rparr>, variedDeviceJSON := device\<rparr>))))"

text \<open>\<open>rotateCaptchaProfile\<close>: a fresh profile in memory.\<close>

definition rotateCaptchaProfile :: "vkenv \<Rightarrow> (captcha_error, SavedProfile) conv" where
  "rotateCaptchaProfile env =
     andThen (captchaV2BrowserFP env) (\<lambda>fp.
     andThen (captchaV2VariedDeviceJSON env captchaV2DeviceInfo) (\<lambda>device.
       answer (Inr \<lparr>DeviceJSON = device, BrowserFp = fp\<rparr>)))"

section \<open>Requests\<close>

definition captchaURL :: "string \<Rightarrow> string" where
  "captchaURL mthd = ''https://api.vk.ru/method/'' @ mthd @ ''?v=5.131''"

definition captchaRequest :: "vkenv \<Rightarrow> string \<Rightarrow> query_values \<Rightarrow> (string, (string \<times> json) list) conv" where
  "captchaRequest env mthd form =
     andThen (mapError httpText (httpDo env ''POST'' (captchaURL mthd) (captchaV2EncodeForm form))) (\<lambda>body.
       answer (case unmarshal env body of Inl e \<Rightarrow> Inl (''captcha api decode: '' @ e) | Inr out \<Rightarrow> Inr out))"

definition fetchCaptchaHTML :: "vkenv \<Rightarrow> string \<Rightarrow> (string, string) conv" where
  "fetchCaptchaHTML env uri = mapError httpText (httpDo env ''GET'' uri [])"

definition fetchDebugInfo :: "vkenv \<Rightarrow> string \<Rightarrow> (string, string) conv" where
  "fetchDebugInfo env url w =
     (case debugCache w url of
        Some v \<Rightarrow> (Inr v, w)
      | None \<Rightarrow>
          andThen (mapError httpText (httpDo env ''GET'' url [])) (\<lambda>body w.
            (case firstGroup env DebugInfoPat body of
               None \<Rightarrow> (Inl ''debug_info match not found'', w)
             | Some v \<Rightarrow> (Inr v, w\<lparr>debugCache := (debugCache w)(url \<mapsto> v)\<rparr>))) w)"

definition captchaV2BaseValues :: "string \<Rightarrow> string \<Rightarrow> query_values" where
  "captchaV2BaseValues token dm =
     [(''session_token'', token), (''domain'', dm), (''adFp'', []), (''access_token'', [])]"

fun captchaV2StringifyAny :: "vkenv \<Rightarrow> json \<Rightarrow> string" where
  "captchaV2StringifyAny env JNull = []"
| "captchaV2StringifyAny env (JStr s) = s"
| "captchaV2StringifyAny env (JNum r) = formatFloat env r"
| "captchaV2StringifyAny env (JBool b) = (if b then ''true'' else ''false'')"
| "captchaV2StringifyAny env v = marshal env v"

section \<open>The check\<close>

definition base64_digit :: "nat \<Rightarrow> char" where
  "base64_digit n = ''ABCDEFGHIJKLMNOPQRSTUVWXYZabcdefghijklmnopqrstuvwxyz0123456789+/'' ! n"

fun base64_encode :: "string \<Rightarrow> string" where
  "base64_encode [] = []"
| "base64_encode [a] =
     [base64_digit (of_char a div 4), base64_digit (of_char a mod 4 * 16), CHR ''='', CHR ''='']"
| "base64_encode [a, b] =
     [base64_digit (of_char a div 4), base64_digit (of_char a mod 4 * 16 + of_char b div 16),
      base64_digit (of_char b mod 16 * 4), CHR ''='']"
| "base64_encode (a # b # c # rest) =
     base64_digit (of_char a div 4) # base64_digit (of_char a mod 4 * 16 + of_char b div 16)
     # base64_digit (of_char b mod 16 * 4 + of_char c div 64) # base64_digit (of_char c mod 64) # base64_encode rest"

record captchaV2Check =
  Status :: string
  SuccessToken :: string
  ShowType :: string

definition parseCaptchaV2Check :: "vkenv \<Rightarrow> (string \<times> json) list \<Rightarrow> captcha_error + captchaV2Check" where
  "parseCaptchaV2Check env raw =
     (case jget raw ''response'' of
        JObj resp \<Rightarrow>
          (let c = \<lparr>Status = captchaV2StringifyAny env (jget resp ''status''),
                    SuccessToken = captchaV2StringifyAny env (jget resp ''success_token''),
                    ShowType = captchaV2StringifyAny env (jget resp ''show_captcha_type'')\<rparr>
           in if Status c = [] then Inl (SolveFailed (''captcha check status missing: '' @ showMap env raw)) else Inr c)
      | _ \<Rightarrow> Inl (SolveFailed (''invalid captcha check response: '' @ showMap env raw)))"

definition performCaptchaCheck ::
  "vkenv \<Rightarrow> captchaV2Session \<Rightarrow> string \<Rightarrow> string \<Rightarrow> string \<Rightarrow> string \<Rightarrow> string \<Rightarrow> string \<Rightarrow> (captcha_error, captchaV2Check) conv" where
  "performCaptchaCheck env s token fp hash answerJSON cursor debugInfo =
     andThen (mapError (\<lambda>e. SolveFailed (''captcha check failed: '' @ e))
       (captchaRequest env ''captchaNotRobot.check''
          [(''session_token'', token), (''domain'', domain s), (''adFp'', []), (''accelerometer'', ''[]''), (''gyroscope'', ''[]''),
           (''motion'', ''[]''), (''cursor'', cursor), (''taps'', ''[]''), (''connectionRtt'', ''[]''), (''connectionDownlink'', ''[]''),
           (''browser_fp'', fp), (''hash'', hash), (''answer'', base64_encode answerJSON), (''debug_info'', debugInfo),
           (''access_token'', [])]))
       (\<lambda>resp. answer (parseCaptchaV2Check env resp))"

text \<open>A pause that the end of the context interrupts.\<close>

definition pauseOrEnd :: "vkenv \<Rightarrow> (captcha_error, unit) conv" where
  "pauseOrEnd env =
     andThen (happens Pause) (\<lambda>_. andThen (asking (ended env)) (\<lambda>gone. answer (if gone then Inl ContextDone else Inr ())))"

definition checkboxVerdict :: "captchaV2Check \<Rightarrow> captcha_error + string" where
  "checkboxVerdict c =
     (if ShowType c \<noteq> [] \<and> \<not> EqualFold (ShowType c) ''checkbox'' then Inl (ShowTypeMismatch (ShowType c))
      else if EqualFold (Status c) ''error_limit'' then Inl RateLimit
      else if EqualFold (Status c) ''bot'' then Inl (BotChallenge (Status c))
      else if \<not> EqualFold (Status c) ''ok'' then Inl (SolveFailed (''checkbox captcha rejected: status='' @ Status c))
      else if SuccessToken c = [] then Inl (SolveFailed ''captcha success token not found'')
      else Inr (SuccessToken c))"

definition solveCheckboxCaptcha ::
  "vkenv \<Rightarrow> captchaV2Session \<Rightarrow> string \<Rightarrow> string \<Rightarrow> string \<Rightarrow> string \<Rightarrow> (captcha_error, string) conv" where
  "solveCheckboxCaptcha env s token fp hash debugInfo =
     andThen (mapError (\<lambda>e. SolveFailed (''captcha componentDone failed: '' @ e))
       (captchaRequest env ''captchaNotRobot.componentDone''
          [(''session_token'', token), (''domain'', domain s), (''adFp'', []), (''browser_fp'', fp), (''device'', deviceJSON s),
           (''access_token'', [])]))
     (\<lambda>_. andThen (pauseOrEnd env)
     (\<lambda>_. andThen (performCaptchaCheck env s token fp hash ''{}'' ''[]'' debugInfo)
     (\<lambda>check. answer (checkboxVerdict check))))"

section \<open>The slider\<close>

record sliderPuzzleV2 =
  Image :: raster
  Size :: int
  Swaps :: "int list"
  Attempts :: int

fun sliderText :: "vkenv \<Rightarrow> slider_error \<Rightarrow> string" where
  "sliderText env StepsTooShort = ''slider steps payload too short''"
| "sliderText env (InvalidSize n) = ''invalid slider size: '' @ Itoa n"
| "sliderText env InvalidSwapPayload = ''invalid slider swap payload''"
| "sliderText env NoCandidates = ''slider has no candidates''"
| "sliderText env (InvalidTileCount n) = ''invalid slider tile count: '' @ Itoa n"
| "sliderText env InvalidSwapsLength = ''invalid slider swaps length''"
| "sliderText env (StepOutOfRange l r) = ''slider step out of range: '' @ Itoa l @ '','' @ Itoa r"
| "sliderText env InvalidNumeric = ''invalid numeric value''"
| "sliderText env _ = ''slider''"

definition parseSliderPuzzleV2 :: "vkenv \<Rightarrow> (string \<times> json) list \<Rightarrow> captcha_error + sliderPuzzleV2" where
  "parseSliderPuzzleV2 env raw =
     (case jget raw ''response'' of
        JObj resp \<Rightarrow>
          (let status = captchaV2StringifyAny env (jget resp ''status'');
               rawImage = captchaV2StringifyAny env (jget resp ''image'')
           in if \<not> EqualFold status ''ok'' then
                (if EqualFold status ''error'' \<or> EqualFold status ''error_limit'' then Inl RateLimit
                 else Inl (SolveFailed (''slider getContent status: '' @ status)))
              else if rawImage = [] then Inl (SolveFailed ''slider image missing'')
              else case jget resp ''steps'' of
                JArr rawSteps \<Rightarrow>
                  (case parseSteps rawSteps of
                     Inl e \<Rightarrow> Inl (SolveFailed (sliderText env e))
                   | Inr steps \<Rightarrow>
                       (case splitSliderStepsV2 steps of
                          Inl e \<Rightarrow> Inl (SolveFailed (sliderText env e))
                        | Inr (sz, swaps, attempts) \<Rightarrow>
                            (case decodeImage env rawImage of
                               Inl e \<Rightarrow> Inl (SolveFailed (''decode slider image: '' @ e))
                             | Inr img \<Rightarrow> Inr \<lparr>Image = img, Size = sz, Swaps = swaps, Attempts = attempts\<rparr>)))
              | _ \<Rightarrow> Inl (SolveFailed ''slider steps missing''))
      | _ \<Rightarrow> Inl (SolveFailed (''invalid slider content response: '' @ showMap env raw)))"

definition sliderLimit :: "int \<Rightarrow> nat \<Rightarrow> int" where
  "sliderLimit attempts guesses =
     (let l = (if attempts > captchaV2MaxSliderChecks then captchaV2MaxSliderChecks else attempts)
      in if l > int guesses then int guesses else l)"

definition answerJSON :: "int list \<Rightarrow> string" where
  "answerJSON swaps = ''{\"value\":['' @ Join (map Itoa swaps) '','' @ '']}''"

text \<open>The loop over the best guesses; \<open>count_all\<close> is the number of all guesses, which the cursor path takes.\<close>

fun tryChecks ::
  "vkenv \<Rightarrow> captchaV2Session \<Rightarrow> string \<Rightarrow> string \<Rightarrow> string \<Rightarrow> string \<Rightarrow> nat \<Rightarrow> sliderGuessV2 list \<Rightarrow> (captcha_error, string) conv" where
  "tryChecks env s token fp hash debugInfo count_all [] = answer (Inl (SolveFailed ''slider guesses exhausted''))"
| "tryChecks env s token fp hash debugInfo count_all (g # gs) =
     andThen (happens Draw) (\<lambda>_.
     andThen (asking (\<lambda>h. buildSliderCursorV2 (cursorDraws env h) (int (gIndex g)) (int count_all))) (\<lambda>cursor.
     andThen (performCaptchaCheck env s token fp hash (answerJSON (gSwaps g)) cursor debugInfo) (\<lambda>check.
       if EqualFold (Status check) ''ok'' then
         answer (if SuccessToken check = [] then Inl (SolveFailed ''captcha success token not found'') else Inr (SuccessToken check))
       else if EqualFold (Status check) ''error_limit'' then answer (Inl RateLimit)
       else tryChecks env s token fp hash debugInfo count_all gs)))"

definition solveSliderCaptcha ::
  "vkenv \<Rightarrow> captchaV2Session \<Rightarrow> string \<Rightarrow> string \<Rightarrow> string \<Rightarrow> string \<Rightarrow> string \<Rightarrow> (captcha_error, string) conv" where
  "solveSliderCaptcha env s token fp hash settings debugInfo =
     andThen (mapError (\<lambda>e. SolveFailed (''slider getContent failed: '' @ e))
       (captchaRequest env ''captchaNotRobot.getContent''
          [(''session_token'', token), (''domain'', domain s), (''adFp'', []), (''access_token'', []), (''captcha_settings'', settings)]))
     (\<lambda>resp. andThen (answer (parseSliderPuzzleV2 env resp))
     (\<lambda>puzzle.
        (case rankSliderGuessesV2 (Image puzzle) (seamScoreTextV2 (roundFloat env) (expFloat env) (Image puzzle) (Size puzzle)) (schedule env) (Size puzzle) (Swaps puzzle) of
           Inl e \<Rightarrow> answer (Inl (SolveFailed (sliderText env e)))
         | Inr guesses \<Rightarrow>
             (let limit = sliderLimit (Attempts puzzle) (length guesses) in
              if limit \<le> 0 then answer (Inl (SolveFailed ''slider has no attempts available''))
              else
                andThen (mapError (\<lambda>e. SolveFailed (''captcha componentDone failed: '' @ e))
                  (captchaRequest env ''captchaNotRobot.componentDone''
                     [(''session_token'', token), (''domain'', domain s), (''adFp'', []), (''access_token'', []), (''browser_fp'', fp),
                      (''device'', captchaV2DeviceJSON (savedProfile s))]))
                (\<lambda>_. tryChecks env s token fp hash debugInfo (length guesses) (take (nat limit) guesses))))))"

section \<open>What the requests count for\<close>

text \<open>
  The events of the solver; \<open>onlyChecks P\<close>: among them \<open>P\<close> looks at most at the check requests.  Then one check costs \<open>perCheck P\<close>.
\<close>

definition isCheck :: "vkevent \<Rightarrow> bool" where
  "isCheck ev = (case ev of Http m u _ \<Rightarrow> m = ''POST'' \<and> u = captchaURL ''captchaNotRobot.check'' | _ \<Rightarrow> False)"

definition solverEvent :: "vkevent \<Rightarrow> bool" where
  "solverEvent ev = (case ev of Http m u _ \<Rightarrow> m = ''GET'' \<or> HasPrefix u ''https://api.vk.ru/method/captchaNotRobot.'' | _ \<Rightarrow> True)"

definition onlyChecks :: "(vkevent \<Rightarrow> bool) \<Rightarrow> bool" where
  "onlyChecks P \<longleftrightarrow> (\<forall>ev. P ev \<and> solverEvent ev \<longrightarrow> isCheck ev)"

definition perCheck :: "(vkevent \<Rightarrow> bool) \<Rightarrow> nat" where
  "perCheck P = (if \<forall>ev. P ev \<longrightarrow> \<not> solverEvent ev then 0 else 1)"

text \<open>An error of the solver itself, not the combined error of the automatic chain.\<close>

abbreviation unchained :: "captcha_error + 'a \<Rightarrow> bool" where
  "unchained r \<equiv> (\<forall>a b. r \<noteq> Inl (ChainFailed a b))"

definition checkboxResult :: "captcha_error + string \<Rightarrow> bool" where
  "checkboxResult r \<longleftrightarrow> unchained r \<and> (\<forall>st. r = Inl (ShowTypeMismatch st) \<longrightarrow> st \<noteq> [] \<and> \<not> EqualFold st ''checkbox'')"

definition sliderResult :: "captcha_error + string \<Rightarrow> bool" where
  "sliderResult r \<longleftrightarrow> unchained r \<and> (\<forall>e. r = Inl e \<longrightarrow> (\<forall>st. e \<noteq> ShowTypeMismatch st) \<and> \<not> isBotChallenge e)"

lemma checkboxResult_simps [simp]:
  "checkboxResult (Inr t)" "checkboxResult (Inl (SolveFailed x))" "checkboxResult (Inl ContextDone)" "checkboxResult (checkboxVerdict c)"
  by (auto simp: checkboxResult_def checkboxVerdict_def)

lemma sliderResult_simps [simp]:
  "sliderResult (Inr t)" "sliderResult (Inl (SolveFailed x))" "sliderResult (Inl RateLimit)"
  by (auto simp: sliderResult_def)

lemma captchaURL_solver: "solverEvent (Http m (captchaURL (''captchaNotRobot.'' @ x)) b)"
  by (simp add: solverEvent_def captchaURL_def HasPrefix_def)

lemmas solver_URLs =
  captchaURL_solver [of _ "''settings''", simplified] captchaURL_solver [of _ "''endSession''", simplified]
  captchaURL_solver [of _ "''componentDone''", simplified] captchaURL_solver [of _ "''getContent''", simplified]
  captchaURL_solver [of _ "''check''", simplified]

lemma not_checks:
  "\<not> isCheck (Http m (captchaURL ''captchaNotRobot.settings'') b)" "\<not> isCheck (Http m (captchaURL ''captchaNotRobot.endSession'') b)"
  "\<not> isCheck (Http m (captchaURL ''captchaNotRobot.componentDone'') b)" "\<not> isCheck (Http m (captchaURL ''captchaNotRobot.getContent'') b)"
  "\<not> isCheck (Http ''GET'' u b)" "\<not> isCheck Pause" "\<not> isCheck Draw" "\<not> isCheck (Emit a b c)"
  by (simp_all add: isCheck_def captchaURL_def)

lemma solverEvent_others [simp]: "solverEvent (Http ''GET'' u b)" "solverEvent Pause" "solverEvent Draw" "solverEvent (Emit x y z)"
  by (simp_all add: solverEvent_def)

lemma onlyChecks_not: "onlyChecks P \<Longrightarrow> solverEvent ev \<Longrightarrow> \<not> isCheck ev \<Longrightarrow> \<not> P ev"
  by (auto simp: onlyChecks_def)

text \<open>Everything but a check is free.\<close>

lemma confined_captcha:
  "(\<And>b. P (Http ''POST'' (captchaURL mthd) b) \<Longrightarrow> 1 \<le> n) \<Longrightarrow> confined P n anything (captchaRequest env mthd form)"
  unfolding captchaRequest_def
  by (rule confined_last [where Q = anything]) (auto intro!: confined_mapError [where Q = anything] confined_httpDo confined_answer)

lemma confined_request:
  assumes "onlyChecks P"
    and "mthd \<in> {''captchaNotRobot.settings'', ''captchaNotRobot.endSession'', ''captchaNotRobot.componentDone'', ''captchaNotRobot.getContent''}"
  shows "confined P 0 anything (captchaRequest env mthd form)"
  using onlyChecks_not [OF assms(1)] assms(2) solver_URLs not_checks by (intro confined_captcha) auto

lemma confined_get: "onlyChecks P \<Longrightarrow> confined P 0 anything (mapError httpText (httpDo env ''GET'' u b))"
  by (intro confined_mapError [where Q = anything] confined_httpDo TrueI) (use onlyChecks_not not_checks in \<open>fastforce simp: not_checks\<close>)

lemma confined_free:
  assumes "onlyChecks P"
  shows "confined P 0 noError (happens Draw)" "confined P 0 noError (Intn env n)" "confined P 0 noError (happens Pause)"
    "confined P 0 noError (happens (Emit x y z))"
  using onlyChecks_not [OF assms] not_checks
  by (auto intro!: confined_happens confined_Intn)

lemma map_sum_Inl: "map_sum g id r = Inl e \<longleftrightarrow> (\<exists>e'. r = Inl e' \<and> e = g e')"
  by (cases r) auto

abbreviation plainError :: "captcha_error + 'a \<Rightarrow> bool" where
  "plainError r \<equiv> (\<forall>e. r = Inl e \<longrightarrow> (\<exists>t. e = SolveFailed t))"

lemma confined_check:
  assumes "onlyChecks P"
  shows "confined P (perCheck P) plainError (performCaptchaCheck env s token fp hash ans cur dbg)"
proof -
  have "P (Http ''POST'' (captchaURL ''captchaNotRobot.check'') b) \<Longrightarrow> 1 \<le> perCheck P" for b
    using solver_URLs(5) by (auto simp: perCheck_def)
  moreover have "plainError (parseCaptchaV2Check env resp)" for resp
    by (auto simp: parseCaptchaV2Check_def Let_def split: json.splits if_splits)
  ultimately show ?thesis
    unfolding performCaptchaCheck_def
    by (intro confined_last [where Q = plainError] confined_mapError [where Q = anything] confined_answer confined_captcha)
       (auto simp: map_sum_Inl)
qed

lemma confined_pause:
  assumes "onlyChecks P"
  shows "confined P 0 (\<lambda>r. \<forall>e. r = Inl e \<longrightarrow> e = ContextDone) (pauseOrEnd env)"
  unfolding pauseOrEnd_def
  by (intro confined_first [OF confined_free(3) [OF assms]] confined_first [OF confined_asking [where Q = noError]] confined_answer) auto

lemma confined_checkbox:
  "onlyChecks P \<Longrightarrow> confined P (perCheck P) checkboxResult (solveCheckboxCaptcha env s token fp hash dbg)"
  unfolding solveCheckboxCaptcha_def
  by (intro confined_first [OF confined_mapError [where Q = anything and Q' = plainError]] confined_request
        confined_first [OF confined_pause] confined_last [OF confined_check] confined_answer)
     (auto simp: map_sum_Inl)

lemma confined_tryChecks:
  assumes "onlyChecks P"
  shows "confined P (perCheck P * length gs) sliderResult (tryChecks env s token fp hash dbg k gs)"
proof (induction gs)
  case (Cons g gs)
  show ?case
    unfolding tryChecks.simps
    by (intro confined_first [OF confined_free(1) [OF assms]] confined_first [OF confined_asking [where Q = noError]]
          confined_andThen [OF confined_check [OF assms], where j = "perCheck P * length gs"])
       (auto intro: confined_answer Cons)
qed (simp add: confined_answer)

lemma sliderLimit_le: "nat (sliderLimit a n) \<le> 2"
  by (auto simp: sliderLimit_def captchaV2MaxSliderChecks_def)

abbreviation limitOrPlain :: "captcha_error + 'a \<Rightarrow> bool" where
  "limitOrPlain r \<equiv> (\<forall>e. r = Inl e \<longrightarrow> e = RateLimit \<or> (\<exists>t. e = SolveFailed t))"

lemma confined_slider:
  assumes "onlyChecks P"
  shows "confined P (2 * perCheck P) sliderResult (solveSliderCaptcha env s token fp hash settings dbg)"
proof -
  have puzzle: "limitOrPlain (parseSliderPuzzleV2 env resp)" for resp
    by (auto simp: parseSliderPuzzleV2_def Let_def split: json.splits if_splits sum.splits)
  have checks: "confined P (2 * perCheck P) sliderResult (tryChecks env s token fp hash dbg k (take (nat (sliderLimit a n)) gs))" for k a n gs
    by (rule confined_mono [OF confined_tryChecks [OF assms]])
       (use sliderLimit_le [of a n] in \<open>auto simp: mult.commute min_def intro: mult_le_mono\<close>)
  show ?thesis
    unfolding solveSliderCaptcha_def
    by (intro confined_first [OF confined_mapError [where Q = anything and Q' = plainError]] confined_request assms
          confined_first [OF confined_answer [where Q = limitOrPlain]])
       (auto simp: map_sum_Inl Let_def puzzle split: sum.split intro!: confined_answer checks
          confined_first [OF confined_mapError [where Q = anything and Q' = plainError]] confined_request assms)
qed

section \<open>The loop over the show types\<close>

definition knownType :: "string \<Rightarrow> bool" where
  "knownType showType \<longleftrightarrow> showType = ''slider'' \<or> showType = ''checkbox'' \<or> showType = []"

definition solveShown ::
  "vkenv \<Rightarrow> captchaV2Session \<Rightarrow> string \<Rightarrow> string \<Rightarrow> string \<Rightarrow> string \<Rightarrow> string \<Rightarrow> string \<Rightarrow> (captcha_error, string) conv" where
  "solveShown env s token fp hash settings debugInfo showType =
     (if showType = ''slider'' then solveSliderCaptcha env s token fp hash settings debugInfo
      else solveCheckboxCaptcha env s token fp hash debugInfo)"

text \<open>The show type of the next round, if the error asks for one.\<close>

definition nextType :: "string \<Rightarrow> string \<Rightarrow> captcha_error \<Rightarrow> string option" where
  "nextType settings showType e =
     (if isBotChallenge e \<and> \<not> EqualFold showType ''slider'' \<and> settings \<noteq> [] then Some ''slider''
      else case e of ShowTypeMismatch st \<Rightarrow> if st = [] then None else Some st | _ \<Rightarrow> None)"

lemma EqualFold_types [simp]: "EqualFold ''slider'' ''slider''" "EqualFold ''checkbox'' ''checkbox''"
  by code_simp+

lemma onlyChecks_none: "onlyChecks (\<lambda>_. False)" "perCheck (\<lambda>_. False) = 0"
  by (simp_all add: onlyChecks_def perCheck_def)

text \<open>A slider error ends the loop; after a checkbox error the next type is the slider or an unknown one.\<close>

lemma nextType_after:
  assumes "solveShown env s token fp hash settings dbg showType w = (Inl e, w')" "nextType settings showType e = Some st"
  shows "showType \<noteq> ''slider'' \<and> st \<noteq> [] \<and> st \<noteq> ''checkbox''"
proof (cases "showType = ''slider''")
  case True
  then have "sliderResult (Inl e)"
    using assms(1) confinedD [OF confined_slider [OF onlyChecks_none(1)]] by (simp add: solveShown_def)
  then show ?thesis using assms(2) True by (auto simp: sliderResult_def nextType_def split: captcha_error.splits)
next
  case False
  then have "checkboxResult (Inl e)"
    using assms(1) confinedD [OF confined_checkbox [OF onlyChecks_none(1)]] by (simp add: solveShown_def)
  then show ?thesis
    using assms(2) False by (auto simp: checkboxResult_def nextType_def split: captcha_error.splits if_splits)
qed

definition roundsLeft :: "string \<Rightarrow> nat" where
  "roundsLeft showType = (if showType = ''slider'' then 1 else if knownType showType then 2 else 0)"

lemma roundsLeft_next:
  assumes "solveShown env s token fp hash settings dbg showType w = (Inl e, w')" "nextType settings showType e = Some st"
    "knownType showType"
  shows "roundsLeft st < roundsLeft showType"
  using nextType_after [OF assms(1,2)] assms(3) by (auto simp: roundsLeft_def knownType_def)

function solveRounds ::
  "vkenv \<Rightarrow> captchaV2Session \<Rightarrow> string \<Rightarrow> string \<Rightarrow> string \<Rightarrow> string \<Rightarrow> string \<Rightarrow> string \<Rightarrow> (captcha_error, string) conv" where
  "solveRounds env s token fp hash settings debugInfo showType w =
     (if \<not> knownType showType then (Inl (SolveFailed (''unsupported captcha type: '' @ showType)), w)
      else case solveShown env s token fp hash settings debugInfo showType w of
        (Inr tok, w') \<Rightarrow> (Inr tok, w')
      | (Inl e, w') \<Rightarrow>
          (case nextType settings showType e of
             None \<Rightarrow> (Inl e, w')
           | Some st \<Rightarrow> solveRounds env s token fp hash settings debugInfo st w'))"
  by pat_completeness auto
termination
  by (relation "measure (\<lambda>(_, _, _, _, _, _, _, showType, _). roundsLeft showType)") (auto intro: roundsLeft_next [OF sym])

declare solveRounds.simps [simp del]

text \<open>Three checks at most: one of the checkbox and two of the slider.\<close>

definition checksLeft :: "string \<Rightarrow> nat" where
  "checksLeft showType = (if showType = ''slider'' then 2 else if knownType showType then 3 else 0)"

lemma confined_shown:
  assumes "onlyChecks P"
  shows "confined P (if showType = ''slider'' then 2 * perCheck P else perCheck P) unchained
    (solveShown env s token fp hash settings dbg showType)"
  unfolding solveShown_def
  by (auto intro: confined_mono [OF confined_slider [OF assms]] confined_mono [OF confined_checkbox [OF assms]]
      simp: sliderResult_def checkboxResult_def)

lemma checksLeft_next:
  assumes "solveShown env s token fp hash settings dbg showType w = (Inl e, w')" "nextType settings showType e = Some st"
  shows "showType \<noteq> ''slider'' \<and> checksLeft st \<le> 2"
  using nextType_after [OF assms] by (auto simp: checksLeft_def knownType_def)

lemma solveRounds_bounded:
  assumes P: "onlyChecks P"
  shows "solveRounds env s token fp hash settings dbg showType w = (r, w') \<Longrightarrow>
    unchained r \<and> captchaLockout w' = captchaLockout w \<and>
    (\<exists>evs. hist w' = evs @ hist w \<and> length (filter P evs) \<le> checksLeft showType * perCheck P)"
proof (induction env s token fp hash settings dbg showType w arbitrary: r w' rule: solveRounds.induct)
  case (1 env s token fp hash settings dbg showType w)
  show ?case
  proof (cases "knownType showType")
    case False
    then show ?thesis using "1.prems" by (auto simp: solveRounds.simps [of env s token fp hash settings dbg showType w])
  next
    case known: True
    obtain q w1 where run: "solveShown env s token fp hash settings dbg showType w = (q, w1)" by fastforce
    from confinedD [OF confined_shown [OF P] run] obtain es where
      es: "unchained q" "captchaLockout w1 = captchaLockout w" "hist w1 = es @ hist w"
        "length (filter P es) \<le> (if showType = ''slider'' then 2 * perCheck P else perCheck P)" by blast
    consider "(r, w') = (q, w1)" | e st where "q = Inl e" "nextType settings showType e = Some st"
        "solveRounds env s token fp hash settings dbg st w1 = (r, w')"
      using "1.prems" known
      by (auto simp: solveRounds.simps [of env s token fp hash settings dbg showType w] run split: sum.splits option.splits)
    then show ?thesis
    proof cases
      case 1
      then show ?thesis using es known by (auto simp: checksLeft_def)
    next
      case (2 e st)
      note nx = checksLeft_next [OF run [unfolded 2(1)] 2(2)]
      from "1.IH" [OF _ run [symmetric] 2(1) 2(2) 2(3)] known obtain es' where
        es': "unchained r" "captchaLockout w' = captchaLockout w1" "hist w' = es' @ hist w1"
          "length (filter P es') \<le> checksLeft st * perCheck P" by auto
      have "checksLeft st * perCheck P \<le> 2 * perCheck P" using nx by (simp add: mult_le_mono1)
      with es'(4) have two: "length (filter P es') \<le> 2 * perCheck P" by (rule le_trans)
      have "length (filter P (es' @ es)) \<le> checksLeft showType * perCheck P"
        using es(4) two nx known by (auto simp: checksLeft_def [of showType])
      then show ?thesis using es es' by (intro conjI exI [of _ "es' @ es"]) auto
    qed
  qed
qed

lemma confined_rounds:
  assumes P: "onlyChecks P"
  shows "confined P (3 * perCheck P) unchained (solveRounds env s token fp hash settings dbg showType)"
  unfolding confined_def
proof (intro allI impI)
  fix w r w' assume "solveRounds env s token fp hash settings dbg showType w = (r, w')"
  from solveRounds_bounded [OF P this]
  show "unchained r \<and> captchaLockout w' = captchaLockout w \<and>
      (\<exists>evs. hist w' = evs @ hist w \<and> length (filter P evs) \<le> 3 * perCheck P)"
    by (auto simp: checksLeft_def split: if_splits)
qed

section \<open>One attempt and all of them\<close>

definition sliderSettings :: "captchaV2Init \<Rightarrow> string" where
  "sliderSettings init = foldl (\<lambda>acc (t, st). if t = ''slider'' then st else acc) [] (CaptchaSettings init)"

definition solveOnce :: "vkenv \<Rightarrow> captchaV2Session \<Rightarrow> vk_captcha \<Rightarrow> (captcha_error, string) conv" where
  "solveOnce env s ce =
     andThen (mapError SolveFailed (fetchCaptchaHTML env (RedirectURI ce))) (\<lambda>html.
     andThen (answer (parseCaptchaV2Page env html)) (\<lambda>page.
       (let settings = sliderSettings (Init page); base = captchaV2BaseValues (SessionToken ce) (domain s) in
        if PowInput page = [] then answer (Inl (SolveFailed ''failed to find PoW settings''))
        else if ShowCaptchaType (Init page) = ''slider'' \<and> settings = []
          then answer (Inl (SolveFailed ''failed to find slider captcha settings''))
        else
          andThen (asking (\<lambda>h. solveCaptchaPoWV2 (sha256Hex env) (powEnded env h) (PowInput page) (PowDifficulty page))) (\<lambda>hash.
          if hash = [] then answer (Inl (SolveFailed ''captcha pow failed''))
          else
            andThen (mapError (\<lambda>e. SolveFailed (''captcha settings failed: '' @ e)) (captchaRequest env ''captchaNotRobot.settings'' base)) (\<lambda>_.
            andThen (if TrimSpace (BrowserFp (savedProfile s)) = [] then captchaV2BrowserFP env
                     else answer (Inr (TrimSpace (BrowserFp (savedProfile s))))) (\<lambda>fp.
            andThen (mapError (\<lambda>e. SolveFailed (''failed to fetch debug info: '' @ e @ '' (script_version=1.1.1324)''))
              (fetchDebugInfo env (ScriptURL page))) (\<lambda>debugInfo.
            andThen (solveRounds env s (SessionToken ce) fp hash settings debugInfo (ShowCaptchaType (Init page))) (\<lambda>token.
            handled (captchaRequest env ''captchaNotRobot.endSession'' base) (\<lambda>_. answer (Inr token))))))))))"

text \<open>The attempts \<open>attempt\<close> to \<open>maxAttempts\<close>; the first argument is the number of attempts left.\<close>

fun attemptLoop :: "nat \<Rightarrow> vkenv \<Rightarrow> captchaV2Session \<Rightarrow> vk_captcha \<Rightarrow> nat \<Rightarrow> (captcha_error, string) conv" where
  "attemptLoop 0 env s ce maxAttempts =
     answer (Inl (SolveFailed (''v2 captcha attempts exhausted ('' @ Itoa (int maxAttempts) @ '')'')))"
| "attemptLoop (Suc left) env s ce maxAttempts =
     andThen (rotateCaptchaV2Identity env s) (\<lambda>s.
     handled (solveOnce env s ce) (\<lambda>r.
       case r of
         Inr token \<Rightarrow> answer (Inr token)
       | Inl e \<Rightarrow>
           if isRateLimit e then answer (Inl e)
           else andThen (pauseOrEnd env) (\<lambda>_. attemptLoop left env s ce maxAttempts)))"

definition solveVkCaptchaV2Attempts :: "vkenv \<Rightarrow> vk_captcha \<Rightarrow> SavedProfile \<Rightarrow> nat \<Rightarrow> (captcha_error, string) conv" where
  "solveVkCaptchaV2Attempts env ce sp attempts =
     (if SessionToken ce = [] then answer (Inl (SolveFailed ''no session_token in redirect_uri''))
      else
        let maxAttempts = (if attempts < 1 then 10 else attempts);
            s = \<lparr>savedProfile = sp, variedDeviceJSON = [], domain = captchaDomainFromRedirectURI env (RedirectURI ce)\<rparr>
        in attemptLoop maxAttempts env s ce maxAttempts)"

lemma confined_debugInfo:
  assumes "onlyChecks P" shows "confined P 0 anything (fetchDebugInfo env url)"
proof -
  have "confined P 0 anything (\<lambda>w. andThen (mapError httpText (httpDo env ''GET'' url [])) (\<lambda>body w.
      (case firstGroup env DebugInfoPat body of
         None \<Rightarrow> (Inl ''debug_info match not found'', w)
       | Some v \<Rightarrow> (Inr v, w\<lparr>debugCache := (debugCache w)(url \<mapsto> v)\<rparr>))) w)"
    by (rule confined_first [OF confined_get [OF assms]]) (auto simp: confined_def split: option.split)
  then show ?thesis
    unfolding confined_def fetchDebugInfo_def by (auto split: option.split)
qed

lemma confined_FP: "onlyChecks P \<Longrightarrow> confined P 0 noError (captchaV2BrowserFP env)"
  unfolding captchaV2BrowserFP_def by (auto intro: confined_first [OF confined_free(1)] confined_asking)

lemma confined_page: "unchained (parseCaptchaV2Page env html)"
  by (auto simp: parseCaptchaV2Page_def Let_def split: option.splits sum.splits if_splits)

lemma confined_once:
  assumes P: "onlyChecks P"
  shows "confined P (3 * perCheck P) unchained (solveOnce env s ce)"
proof -
  note mapped = confined_mapError [where Q = anything and Q' = plainError]
  have fp: "confined P 0 noError (if TrimSpace (BrowserFp (savedProfile s)) = [] then captchaV2BrowserFP env
      else answer (Inr (TrimSpace (BrowserFp (savedProfile s)))))"
    using confined_FP [OF P] by (auto intro: confined_answer)
  have rounds: "confined P (3 * perCheck P) unchained
     (andThen (solveRounds env s token fp hash settings dbg showType) (\<lambda>token.
      handled (captchaRequest env ''captchaNotRobot.endSession'' base) (\<lambda>_. answer (Inr token))))"
    for token fp hash settings dbg showType base
    by (rule confined_last [OF confined_rounds [OF P]])
       (auto intro!: confined_handled [where i = 0 and j = 0, OF confined_request [OF P]] confined_answer)
  have debug: "confined P (3 * perCheck P) unchained
     (andThen (mapError (\<lambda>e. SolveFailed (pre @ e @ post)) (fetchDebugInfo env url)) (\<lambda>dbg.
      andThen (solveRounds env s token fp hash settings dbg showType) (\<lambda>token.
      handled (captchaRequest env ''captchaNotRobot.endSession'' base) (\<lambda>_. answer (Inr token)))))"
    for pre post url token fp hash settings showType base
    by (rule confined_first [OF mapped [OF confined_debugInfo [OF P]]]) (auto simp: map_sum_Inl intro: rounds)
  show ?thesis
    unfolding solveOnce_def fetchCaptchaHTML_def Let_def
    by (intro confined_first [OF mapped [OF confined_get [OF P]]]
          confined_first [OF confined_answer [where Q = unchained, OF confined_page]]
          confined_if confined_answer
          confined_first [OF confined_asking [where Q = noError]]
          confined_first [OF mapped [OF confined_request [OF P]]]
          confined_first [OF fp] debug)
       (auto simp: map_sum_Inl)
qed

lemma confined_answers [intro]: "noError r \<Longrightarrow> confined P n noError (answer r)"
  by (rule confined_answer)

lemma confined_varied:
  assumes P: "onlyChecks P"
  shows "confined P 0 noError (captchaV2VariedDeviceJSON env base)"
proof -
  note draw = confined_first [OF confined_free(2) [OF P]]
  have jitter: "confined P 0 noError (jitterInt env key delta m)" for key delta m
    by (auto simp: jitterInt_def Let_def split: json.split intro!: draw)
  have ratio: "confined P 0 noError (variedRatio env m)" for m
    by (auto simp: variedRatio_def Let_def split: json.split intro!: draw)
  show ?thesis
    unfolding captchaV2VariedDeviceJSON_def Let_def
    by (cases "unmarshal env base") (auto intro!: confined_first [OF jitter] confined_first [OF ratio] draw)
qed

lemma confined_rotate:
  assumes P: "onlyChecks P"
  shows "confined P 0 noError (rotateCaptchaV2Identity env s)" "confined P 0 noError (rotateCaptchaProfile env)"
  unfolding rotateCaptchaV2Identity_def rotateCaptchaProfile_def
  by (auto intro!: confined_first [OF confined_FP [OF P]] confined_first [OF confined_varied [OF P]])

text \<open>What the attempts end with: never with an error of a dead session.\<close>

definition attemptsResult :: "captcha_error + string \<Rightarrow> bool" where
  "attemptsResult r \<longleftrightarrow>
     (\<forall>e. r = Inl e \<longrightarrow>
        e = RateLimit \<or> e = ContextDone \<or> e = SolveFailed ''no session_token in redirect_uri'' \<or>
        (\<exists>n. e = SolveFailed (''v2 captcha attempts exhausted ('' @ Itoa (int n) @ '')'')))"

lemma attemptsResult_simps [simp]:
  "attemptsResult (Inr t)" "attemptsResult (Inl RateLimit)" "attemptsResult (Inl ContextDone)"
  "attemptsResult (Inl (SolveFailed ''no session_token in redirect_uri''))"
  "attemptsResult (Inl (SolveFailed (''v2 captcha attempts exhausted ('' @ Itoa (int n) @ '')'')))"
  by (auto simp: attemptsResult_def)

lemma isRateLimit_unchained: "unchained (Inl e) \<Longrightarrow> isRateLimit e \<Longrightarrow> e = RateLimit"
  by (cases e) auto

lemma confined_attempts:
  assumes P: "onlyChecks P"
  shows "confined P (left * (3 * perCheck P)) attemptsResult (attemptLoop left env s ce k)"
proof (induction left arbitrary: s)
  case (Suc left)
  let ?n = "left * (3 * perCheck P)"
  have pause: "confined P ?n attemptsResult (andThen (pauseOrEnd env) (\<lambda>_. attemptLoop left env s ce k))" for s
    by (rule confined_first [OF confined_pause [OF P]]) (use Suc in auto)
  show ?case
    unfolding attemptLoop.simps
    by (rule confined_first [OF confined_rotate(1) [OF P]])
       (auto intro!: confined_handled [OF confined_once [OF P], where j = ?n] confined_answer pause
         dest!: isRateLimit_unchained split: sum.split)
qed (simp only: attemptLoop.simps confined_answer attemptsResult_simps)

lemma confined_solve:
  assumes P: "onlyChecks P" and "1 \<le> k"
  shows "confined P (k * (3 * perCheck P)) attemptsResult (solveVkCaptchaV2Attempts env ce sp k)"
  unfolding solveVkCaptchaV2Attempts_def Let_def
  using assms by (auto intro!: confined_attempts confined_answer)

end
