(* ===== verification/Token_Chain.thy ===== *)
theory Token_Chain
  imports Captcha
begin

text \<open>
  The conversations with VK that end in TURN credentials (\<open>internal/core/creds.go\<close>): the captcha chain of
  \<open>solveCaptchaBySelectedMode\<close> with the WebView, \<open>getTokenChain\<close>, \<open>getVKCredsViaVKCallsPath\<close>, and \<open>fetchVkCreds\<close> on top of them.
\<close>

section \<open>The WebView\<close>

text \<open>
  \<open>captchaResultChan\<close> holds one result.  \<open>receive\<close> takes the first result that is waiting or arrives before the timeout; a result that comes
  later stays in the channel.
\<close>

definition drainCaptchaResult :: "(captcha_error, unit) conv" where
  "drainCaptchaResult w = (Inr (), w\<lparr>results := tl (results w)\<rparr>)"

definition receive :: "vkenv \<Rightarrow> (captcha_error, string option) conv" where
  "receive env w =
     (case results w @ arrivals env (hist w) of
        [] \<Rightarrow> (Inr None, w)
      | r # rest \<Rightarrow> (Inr (Some r), w\<lparr>results := (if rest = [] then [] else [last rest])\<rparr>))"

definition viewMode :: "string \<Rightarrow> string" where
  "viewMode mode =
     (let m = lower_view (TrimSpace mode) in if m \<noteq> ''manual'' \<and> m \<noteq> ''selected'' then ''auto'' else m)"

definition viewVerdict :: "string option \<Rightarrow> captcha_error + string" where
  "viewVerdict received =
     (case received of
        None \<Rightarrow> Inl (SolveFailed ''webview captcha timed out'')
      | Some raw \<Rightarrow>
          (let result = TrimSpace raw; lowerResult = lower_view result in
           if result = [] then Inl (SolveFailed ''webview captcha returned empty result'')
           else if lowerResult = ''error:timeout'' then Inl (SolveFailed ''webview captcha timed out'')
           else if HasPrefix lowerResult ''error:'' then Inl (SolveFailed (''webview captcha failed: '' @ result))
           else Inr result))"

definition requestWebViewCaptcha :: "vkenv \<Rightarrow> vk_captcha \<Rightarrow> string \<Rightarrow> (captcha_error, string) conv" where
  "requestWebViewCaptcha env ce mode =
     (if RedirectURI ce = [] \<or> SessionToken ce = [] then answer (Inl (SolveFailed ''webview captcha data is incomplete''))
      else
        andThen drainCaptchaResult (\<lambda>_.
        andThen (happens (Emit (viewMode mode) (RedirectURI ce) (SessionToken ce))) (\<lambda>_.
        andThen (receive env) (\<lambda>received. answer (viewVerdict received)))))"

section \<open>The chain of solvers\<close>

text \<open>\<open>markCaptchaSessionExpired\<close> draws a new profile, which nobody keeps.\<close>

definition markCaptchaSessionExpired :: "vkenv \<Rightarrow> (captcha_error, string) conv" where
  "markCaptchaSessionExpired env = handled (rotateCaptchaProfile env) (\<lambda>_. answer (Inl SessionExpired))"

text \<open>\<open>unlessEnded e k\<close>: \<open>if ctx.Err() != nil\<close>, return \<open>e\<close>, otherwise go on.\<close>

definition unlessEnded :: "vkenv \<Rightarrow> captcha_error \<Rightarrow> (captcha_error, string) conv \<Rightarrow> (captcha_error, string) conv" where
  "unlessEnded env e k = andThen (asking (ended env)) (\<lambda>gone. if gone then answer (Inl e) else k)"

text \<open>The automatic WebView attempts that are left, then \<open>finish\<close>.\<close>

fun autoViews :: "nat \<Rightarrow> vkenv \<Rightarrow> vk_captcha \<Rightarrow> (captcha_error, string) conv \<Rightarrow> (captcha_error, string) conv" where
  "autoViews 0 env ce finish = finish"
| "autoViews (Suc n) env ce finish =
     handled (requestWebViewCaptcha env ce ''auto'') (\<lambda>r.
       case r of
         Inr token \<Rightarrow> answer (Inr token)
       | Inl e \<Rightarrow> unlessEnded env e (andThen (pauseOrEnd env) (\<lambda>_. autoViews n env ce finish)))"

text \<open>The last steps of the automatic chain: one more attempt of the solver, then the manual WebView.\<close>

definition finalAttempt :: "vkenv \<Rightarrow> vk_captcha \<Rightarrow> SavedProfile \<Rightarrow> (captcha_error, string) conv" where
  "finalAttempt env ce sp =
     handled (solveVkCaptchaV2Attempts env ce sp 1) (\<lambda>r.
       case r of
         Inr token \<Rightarrow> answer (Inr token)
       | Inl lastErr \<Rightarrow>
           unlessEnded env lastErr (mapError (ChainFailed lastErr) (requestWebViewCaptcha env ce ''manual'')))"

definition solveCaptchaBySelectedMode :: "vkenv \<Rightarrow> string \<Rightarrow> vk_captcha \<Rightarrow> (captcha_error, string) conv" where
  "solveCaptchaBySelectedMode env mode ce =
     andThen (rotateCaptchaProfile env) (\<lambda>sp.
       if mode = ''wv'' then requestWebViewCaptcha env ce ''selected''
       else
         handled (solveVkCaptchaV2Attempts env ce sp 2) (\<lambda>r.
           case r of
             Inr token \<Rightarrow> answer (Inr token)
           | Inl e \<Rightarrow>
               unlessEnded env e
                 (if isCaptchaSessionDead e then markCaptchaSessionExpired env
                  else if mode = ''rjs'' then requestWebViewCaptcha env ce ''auto''
                  else autoViews 2 env ce (finalAttempt env ce sp))))"

section \<open>The token chain\<close>

definition vkRequest :: "vkenv \<Rightarrow> string \<Rightarrow> string \<Rightarrow> (vkerr, (string \<times> json) list) conv" where
  "vkRequest env form url =
     andThen (mapError (\<lambda>e. Plain (httpText e)) (httpDo env ''POST'' url form)) (\<lambda>body.
       answer (case unmarshal env body of Inl e \<Rightarrow> Inl (Plain e) | Inr resp \<Rightarrow> Inr resp))"

definition anonTokenURL :: "string \<Rightarrow> string" where
  "anonTokenURL clientID = ''https://api.vk.ru/method/calls.getAnonymousToken?v=5.275&client_id='' @ clientID"

definition okURL :: string where "okURL = ''https://calls.okcdn.ru/fb.do''"

definition anonTokenForm :: "string \<Rightarrow> string \<Rightarrow> string \<Rightarrow> string" where
  "anonTokenForm link name token1 =
     ''vk_join_link=https://vk.com/call/join/'' @ link @ ''&name='' @ name @ ''&access_token='' @ token1"

text \<open>The form with the solved captcha.\<close>

definition solvedForm :: "string \<Rightarrow> string \<Rightarrow> string \<Rightarrow> vk_captcha \<Rightarrow> string \<Rightarrow> string" where
  "solvedForm link name token1 ce successToken =
     ''vk_join_link=https://vk.com/call/join/'' @ link @ ''&name='' @ name @ ''&captcha_key=&captcha_sid='' @ CaptchaSid ce
     @ ''&is_sound_captcha=0&success_token='' @ QueryEscape successToken @ ''&captcha_ts='' @ CaptchaTs ce
     @ ''&captcha_attempt='' @ (if CaptchaAttempt ce = ''0'' \<or> CaptchaAttempt ce = [] then ''1'' else CaptchaAttempt ce)
     @ ''&access_token='' @ token1"

text \<open>The failure that locks VK out for a minute.\<close>

definition waitRequired :: "vkenv \<Rightarrow> (vkerr, 'a) conv" where
  "waitRequired env w = (Inl (Plain ''CAPTCHA_WAIT_REQUIRED''), w\<lparr>captchaLockout := clock env (hist w) + 60\<rparr>)"

text \<open>
  One round of the loop of step 3; \<open>again\<close> is the next round with its form, or \<open>None\<close> in the round with \<open>attempt = 3\<close>.
\<close>

definition anonRound ::
  "vkenv \<Rightarrow> string \<Rightarrow> string \<Rightarrow> string \<Rightarrow> string \<Rightarrow> string \<Rightarrow> (string \<Rightarrow> (vkerr, string) conv) option \<Rightarrow> string \<Rightarrow> (vkerr, string) conv" where
  "anonRound env mode clientID link name token1 again form =
     andThen (vkRequest env form (anonTokenURL clientID)) (\<lambda>resp.
       case jget resp ''error'' of
         JObj errObj \<Rightarrow>
           (case fatalCallError resp of
              Some callErr \<Rightarrow> answer (Inl callErr)
            | None \<Rightarrow>
                (let ce = parseVkCaptchaError env errObj in
                 if RedirectURI ce \<noteq> [] \<and> SessionToken ce \<noteq> [] then
                   (case again of
                      None \<Rightarrow> waitRequired env
                    | Some next_round \<Rightarrow>
                        handled (solveCaptchaBySelectedMode env mode ce) (\<lambda>r.
                          case r of
                            Inr successToken \<Rightarrow> next_round (solvedForm link name token1 ce successToken)
                          | Inl e \<Rightarrow>
                              if isSessionExpired e then
                                andThen (happens Pause) (\<lambda>_. next_round (anonTokenForm link name token1))
                              else waitRequired env))
                 else answer (Inl (Plain (''VK API error: '' @ showMap env errObj)))))
       | _ \<Rightarrow>
           answer (case jget resp ''response'' of
                     JObj respMap \<Rightarrow>
                       (case jget respMap ''token'' of
                          JStr token2 \<Rightarrow> Inr token2
                        | _ \<Rightarrow> Inl (Plain (''missing token in response: '' @ showMap env resp)))
                   | _ \<Rightarrow> Inl (Plain (''unexpected getAnonymousToken response: '' @ showMap env resp))))"

text \<open>The loop with \<open>attempt = 3 - left\<close>.\<close>

fun anonLoop :: "nat \<Rightarrow> vkenv \<Rightarrow> string \<Rightarrow> string \<Rightarrow> string \<Rightarrow> string \<Rightarrow> string \<Rightarrow> string \<Rightarrow> (vkerr, string) conv" where
  "anonLoop 0 env mode clientID link name token1 form = anonRound env mode clientID link name token1 None form"
| "anonLoop (Suc left) env mode clientID link name token1 form =
     anonRound env mode clientID link name token1 (Some (anonLoop left env mode clientID link name token1)) form"

definition anonymToken :: "vkenv \<Rightarrow> (string \<times> json) list \<Rightarrow> vkerr + string" where
  "anonymToken env resp =
     (case jget resp ''data'' of
        JObj m \<Rightarrow>
          (case jget m ''access_token'' of
             JStr t \<Rightarrow> Inr t
           | _ \<Rightarrow> Inl (Plain (''missing access_token in response: '' @ showMap env resp)))
      | _ \<Rightarrow> Inl (Plain (''unexpected anon token response: '' @ showMap env resp)))"

definition sessionKey :: "vkenv \<Rightarrow> (string \<times> json) list \<Rightarrow> vkerr + string" where
  "sessionKey env resp =
     (case jget resp ''session_key'' of
        JStr t \<Rightarrow> Inr t
      | _ \<Rightarrow> Inl (Plain (''missing session_key in response: '' @ showMap env resp)))"

definition turnServer :: "vkenv \<Rightarrow> (string \<times> json) list \<Rightarrow> vkerr + creds" where
  "turnServer env resp =
     (case jget resp ''turn_server'' of
        JObj ts \<Rightarrow>
          (case jget ts ''username'' of
             JStr user \<Rightarrow>
               (case jget ts ''credential'' of
                  JStr pass \<Rightarrow>
                    (case jget ts ''urls'' of
                       JArr urls \<Rightarrow>
                         (let addresses = concat (map (\<lambda>u. case u of JStr s \<Rightarrow> turnURLsToAddresses [s] | _ \<Rightarrow> []) urls) in
                          if urls = [] then Inl (Plain ''missing or empty urls in turn_server'')
                          else if addresses = [] then Inl (Plain ''no valid TURN addresses found'')
                          else Inr (user, pass, addresses))
                     | _ \<Rightarrow> Inl (Plain ''missing or empty urls in turn_server''))
                | _ \<Rightarrow> Inl (Plain ''missing credential in turn_server''))
           | _ \<Rightarrow> Inl (Plain ''missing username in turn_server''))
      | _ \<Rightarrow> Inl (Plain (''missing turn_server in response: '' @ showMap env resp)))"

definition okSessionData :: "string \<Rightarrow> string" where
  "okSessionData uuid = ''{\"version\":2,\"device_id\":\"'' @ uuid @ ''\",\"client_version\":\"1.0.1\"}''"

definition okKey :: string where "okKey = ''CGMMEJLGDIHBABABA''"

definition draw :: "(vkevent list \<Rightarrow> string) \<Rightarrow> ('e, string) conv" where
  "draw f = andThen (happens Draw) (\<lambda>_. asking f)"

definition getTokenChain :: "vkenv \<Rightarrow> string \<Rightarrow> string \<Rightarrow> string \<times> string \<Rightarrow> (vkerr, creds) conv" where
  "getTokenChain env mode link vc =
     (let (clientID, clientSecret) = vc in
      andThen (answer (case clientError env of Some e \<Rightarrow> Inl (Plain (''failed to initialize tls_client: '' @ e)) | None \<Rightarrow> Inr ())) (\<lambda>_.
      andThen (draw (callerName env)) (\<lambda>rawName.
      (let name = QueryEscape rawName in
      andThen (vkRequest env (''client_id='' @ clientID @ ''&token_type=messages&client_secret='' @ clientSecret
                 @ ''&version=1&app_id='' @ clientID) ''https://login.vk.ru/?act=get_anonym_token'') (\<lambda>resp.
      andThen (answer (anonymToken env resp)) (\<lambda>token1.
      andThen (happens Pause) (\<lambda>_.
      handled (vkRequest env (''vk_join_link=https://vk.com/call/join/'' @ link @ ''&fields=photo_200&access_token='' @ token1)
                 (''https://api.vk.ru/method/calls.getCallPreview?v=5.275&client_id='' @ clientID)) (\<lambda>preview.
      andThen (answer (case preview of
                         Inr resp \<Rightarrow> (case fatalCallError resp of Some callErr \<Rightarrow> Inl callErr | None \<Rightarrow> Inr ())
                       | Inl _ \<Rightarrow> Inr ())) (\<lambda>_.
      andThen (happens Pause) (\<lambda>_.
      andThen (anonLoop 3 env mode clientID link name token1 (anonTokenForm link name token1)) (\<lambda>token2.
      andThen (happens Pause) (\<lambda>_.
      andThen (draw (uuidText env)) (\<lambda>uuid.
      andThen (vkRequest env (''session_data='' @ QueryEscape (okSessionData uuid)
                 @ ''&method=auth.anonymLogin&format=JSON&application_key='' @ okKey) okURL) (\<lambda>resp.
      andThen (answer (sessionKey env resp)) (\<lambda>token3.
      andThen (happens Pause) (\<lambda>_.
      andThen (vkRequest env (''joinLink='' @ link @ ''&isVideo=false&protocolVersion=5&capabilities=2F7F&anonymToken='' @ token2
                 @ ''&method=vchat.joinConversationByLink&format=JSON&application_key='' @ okKey @ ''&session_key='' @ token3) okURL) (\<lambda>resp.
      answer (turnServer env resp))))))))))))))))))"

section \<open>What a chain costs\<close>

lemma Contains_char: "Contains s p \<Longrightarrow> c \<in> set p \<Longrightarrow> c \<in> set s"
  by (auto simp: Contains_iff)

lemma lower_view_id:
  assumes "\<forall>c \<in> set s. (of_char c :: nat) < 128 \<and> \<not> (65 \<le> (of_char c :: nat) \<and> (of_char c :: nat) \<le> 90)"
  shows "lower_view s = s"
proof -
  have "map ascii_lower s = s" using assms by (intro map_idI) (auto simp: ascii_lower_def Let_def)
  then show ?thesis using lower_view_ascii [of s] assms by simp
qed

text \<open>The texts \<open>isCaptchaSessionDead\<close> looks for never come out of \<open>solveVkCaptchaV2Attempts\<close>.\<close>

lemma closed_not_dead:
  "\<not> isCaptchaSessionDead RateLimit" "\<not> isCaptchaSessionDead ContextDone"
  "\<not> isCaptchaSessionDead (SolveFailed ''no session_token in redirect_uri'')"
  by code_simp+

lemma exhausted_not_dead: "\<not> isCaptchaSessionDead (SolveFailed (''v2 captcha attempts exhausted ('' @ Itoa (int n) @ '')''))"
  (is "\<not> isCaptchaSessionDead (SolveFailed ?s)")
proof -
  have "\<forall>c \<in> set (Itoa (int n)). 48 \<le> (of_char c :: nat) \<and> (of_char c :: nat) \<le> 57"
    using nat_digits_digit [of n] by (auto simp: Itoa_def list_all_iff is_digit_def)
  then have chars: "\<forall>c \<in> set ?s. (of_char c :: nat) < 128 \<and> \<not> (65 \<le> (of_char c :: nat) \<and> (of_char c :: nat) \<le> 90)
      \<and> c \<noteq> CHR '':'' \<and> c \<noteq> CHR ''_''"
    by fastforce
  then have "lower_view ?s = ?s" by (intro lower_view_id) blast
  moreover have "CHR '':'' \<in> set ''getcontent status:''" "CHR ''_'' \<in> set ''error_limit''" by simp_all
  ultimately show ?thesis
    using Contains_char [of ?s] chars by (metis captchaText.simps(6) isCaptchaSessionDead_def)
qed

lemma attempts_not_dead: "attemptsResult (Inl e) \<Longrightarrow> \<not> isCaptchaSessionDead e"
  using closed_not_dead exhausted_not_dead by (auto simp: attemptsResult_def)

lemma attempts_not_expired: "attemptsResult (Inl e) \<Longrightarrow> \<not> isSessionExpired e"
  by (auto simp: attemptsResult_def)

abbreviation unexpired :: "captcha_error + string \<Rightarrow> bool" where
  "unexpired r \<equiv> (\<forall>e. r = Inl e \<longrightarrow> \<not> isSessionExpired e)"

lemma confined_view:
  assumes P: "onlyChecks P"
  shows "confined P 0 (\<lambda>r. \<forall>e. r = Inl e \<longrightarrow> (\<exists>t. e = SolveFailed t)) (requestWebViewCaptcha env ce mode)"
proof -
  have drain: "confined P 0 noError drainCaptchaResult" by (simp add: confined_def drainCaptchaResult_def)
  have recv: "confined P 0 noError (receive env)"
    by (auto simp: confined_def receive_def split: list.split)
  have "plainError (viewVerdict received)" for received
    by (simp add: viewVerdict_def Let_def split: option.split)
  then show ?thesis
    unfolding requestWebViewCaptcha_def
    by (intro confined_if confined_first [OF drain] confined_first [OF confined_free(4) [OF P]] confined_first [OF recv] confined_answer)
       auto
qed

lemma confined_unless:
  "unexpired (Inl e) \<Longrightarrow> confined P n unexpired k \<Longrightarrow> confined P n unexpired (unlessEnded env e k)"
  unfolding unlessEnded_def
  by (rule confined_first [OF confined_asking [where Q = noError]]) (auto intro: confined_answer)

lemma confined_viewed:
  "onlyChecks P \<Longrightarrow> confined P n unexpired (requestWebViewCaptcha env ce mode)"
  by (rule confined_mono [OF confined_view]) auto

lemma confined_autoViews:
  assumes P: "onlyChecks P" and finish: "confined P n unexpired finish"
  shows "confined P n unexpired (autoViews k env ce finish)"
proof (induction k)
  case (Suc k)
  have more: "confined P n unexpired (andThen (pauseOrEnd env) (\<lambda>_. autoViews k env ce finish))"
    by (rule confined_first [OF confined_pause [OF P]]) (auto intro: Suc)
  show ?case
    unfolding autoViews.simps
    by (rule confined_handled [OF confined_view [OF P], where j = n])
       (auto intro!: confined_answer confined_unless more split: sum.split)
qed (simp add: finish)

lemma confined_final:
  assumes P: "onlyChecks P"
  shows "confined P (3 * perCheck P) unexpired (finalAttempt env ce sp)"
proof -
  have "confined P 0 unexpired (mapError (ChainFailed e) (requestWebViewCaptcha env ce ''manual''))" if "\<not> isSessionExpired e" for e
    by (rule confined_mapError [OF confined_view [OF P]]) (use that in \<open>auto simp: map_sum_Inl\<close>)
  then show ?thesis
    unfolding finalAttempt_def
    by (intro confined_handled [OF confined_solve [OF P], where j = 0])
       (auto intro!: confined_answer confined_unless dest: attempts_not_expired split: sum.split)
qed

text \<open>A captcha costs at most nine checks: two attempts and a last one, with three checks each.  It never reports an expired session.\<close>

lemma confined_captcha_chain:
  assumes P: "onlyChecks P"
  shows "confined P (9 * perCheck P) unexpired (solveCaptchaBySelectedMode env mode ce)"
proof -
  let ?n = "3 * perCheck P"
  have chain: "confined P ?n unexpired (autoViews 2 env ce (finalAttempt env ce sp))" for sp
    by (rule confined_autoViews [OF P confined_final [OF P]])
  show ?thesis
    unfolding solveCaptchaBySelectedMode_def
    by (rule confined_first [OF confined_rotate(2) [OF P]])
       (auto intro!: confined_handled [OF confined_solve [OF P], where j = ?n] confined_answer confined_unless confined_viewed P
          chain dest: attempts_not_expired attempts_not_dead split: sum.split)
qed

section \<open>Locking out\<close>

text \<open>As \<open>confined\<close>, but the conversation may end by locking VK out.\<close>

definition lockingOnly :: "vkenv \<Rightarrow> (vkevent \<Rightarrow> bool) \<Rightarrow> nat \<Rightarrow> (vkerr + 'a \<Rightarrow> bool) \<Rightarrow> (vkerr, 'a) conv \<Rightarrow> bool" where
  "lockingOnly env P n Q m \<longleftrightarrow>
     (\<forall>w r w'. m w = (r, w') \<longrightarrow>
        Q r \<and> (\<exists>evs. hist w' = evs @ hist w \<and> length (filter P evs) \<le> n) \<and>
        (captchaLockout w' = captchaLockout w \<or>
         r = Inl (Plain ''CAPTCHA_WAIT_REQUIRED'') \<and> captchaLockout w' = clock env (hist w') + 60))"

lemma lockingD:
  "lockingOnly env P n Q m \<Longrightarrow> m w = (r, w') \<Longrightarrow>
     Q r \<and> (\<exists>evs. hist w' = evs @ hist w \<and> length (filter P evs) \<le> n) \<and>
     (captchaLockout w' = captchaLockout w \<or>
      r = Inl (Plain ''CAPTCHA_WAIT_REQUIRED'') \<and> captchaLockout w' = clock env (hist w') + 60)"
  by (simp add: lockingOnly_def)

lemma locking_confined: "confined P n Q m \<Longrightarrow> lockingOnly env P n Q m"
  by (simp add: lockingOnly_def confined_def)

lemma locking_answer: "Q r \<Longrightarrow> lockingOnly env P n Q (answer r)"
  by (rule locking_confined) (rule confined_answer)

lemma locking_wait: "Q (Inl (Plain ''CAPTCHA_WAIT_REQUIRED'')) \<Longrightarrow> lockingOnly env P n Q (waitRequired env)"
  by (simp add: lockingOnly_def waitRequired_def)

lemma locking_handled:
  assumes "confined P i Q m" "\<And>r. Q r \<Longrightarrow> lockingOnly env P j Q' (f r)" "i + j \<le> n"
  shows "lockingOnly env P n Q' (handled m f)"
  unfolding lockingOnly_def
proof (intro allI impI)
  fix w r w' assume "handled m f w = (r, w')"
  then obtain r1 w1 where m: "m w = (r1, w1)" and f: "f r1 w1 = (r, w')"
    by (auto simp: handled_def split: prod.splits)
  from confinedD [OF assms(1) m] obtain es
    where es: "Q r1" "captchaLockout w1 = captchaLockout w" "hist w1 = es @ hist w" "length (filter P es) \<le> i" by blast
  from lockingD [OF assms(2) [OF es(1)] f] es assms(3)
  show "Q' r \<and> (\<exists>evs. hist w' = evs @ hist w \<and> length (filter P evs) \<le> n) \<and>
      (captchaLockout w' = captchaLockout w \<or>
       r = Inl (Plain ''CAPTCHA_WAIT_REQUIRED'') \<and> captchaLockout w' = clock env (hist w') + 60)"
    by (fastforce intro: exI [of _ "_ @ es"])
qed

lemma locking_andThen:
  assumes "lockingOnly env P i Q m" "\<And>x. Q (Inr x) \<Longrightarrow> lockingOnly env P j Q' (f x)" "i + j \<le> n" "\<And>e. Q (Inl e) \<Longrightarrow> Q' (Inl e)"
  shows "lockingOnly env P n Q' (andThen m f)"
  unfolding lockingOnly_def
proof (intro allI impI)
  fix w r w' assume run: "andThen m f w = (r, w')"
  obtain r1 w1 where m: "m w = (r1, w1)" by fastforce
  from lockingD [OF assms(1) m] obtain es
    where es: "Q r1" "hist w1 = es @ hist w" "length (filter P es) \<le> i"
      and lock: "captchaLockout w1 = captchaLockout w \<or>
        r1 = Inl (Plain ''CAPTCHA_WAIT_REQUIRED'') \<and> captchaLockout w1 = clock env (hist w1) + 60" by blast
  show "Q' r \<and> (\<exists>evs. hist w' = evs @ hist w \<and> length (filter P evs) \<le> n) \<and>
      (captchaLockout w' = captchaLockout w \<or>
       r = Inl (Plain ''CAPTCHA_WAIT_REQUIRED'') \<and> captchaLockout w' = clock env (hist w') + 60)"
  proof (cases r1)
    case (Inl e)
    then have "r = Inl e" "w' = w1" using run m by (simp_all add: andThen_def handled_def answer_def)
    then show ?thesis using es lock assms(3,4) Inl by (auto intro!: exI [of _ es])
  next
    case (Inr x)
    then have f: "f x w1 = (r, w')" using run m by (simp add: andThen_def handled_def)
    from lockingD [OF assms(2) f] es(1) Inr obtain es' where
      "Q' r" "hist w' = es' @ hist w1" "length (filter P es') \<le> j"
      "captchaLockout w' = captchaLockout w1 \<or>
        r = Inl (Plain ''CAPTCHA_WAIT_REQUIRED'') \<and> captchaLockout w' = clock env (hist w') + 60" by blast
    then show ?thesis using es lock assms(3) Inr by (auto intro!: exI [of _ "es' @ es"])
  qed
qed

lemmas locking_first = locking_andThen [OF locking_confined, where i = 0 and j = n and n = n for n, simplified]
lemmas locking_last = locking_andThen [where i = n and j = 0 and n = n for n, simplified]

section \<open>The token chain is bounded\<close>

lemma confined_vkRequest:
  "(P (Http ''POST'' url form) \<Longrightarrow> 1 \<le> n) \<Longrightarrow> confined P n anything (vkRequest env form url)"
  unfolding vkRequest_def
  by (rule confined_last [where Q = anything])
     (auto intro!: confined_mapError [where Q = anything] confined_httpDo confined_answer)

definition isAnonRequest :: "string \<Rightarrow> vkevent \<Rightarrow> bool" where
  "isAnonRequest clientID ev = (case ev of Http m u _ \<Rightarrow> m = ''POST'' \<and> u = anonTokenURL clientID | _ \<Rightarrow> False)"

text \<open>\<open>counted clientID P\<close>: of the events of a token chain, \<open>P\<close> looks at most at the token requests and the captcha checks.\<close>

definition counted :: "string \<Rightarrow> (vkevent \<Rightarrow> bool) \<Rightarrow> bool" where
  "counted clientID P \<longleftrightarrow>
     onlyChecks P \<and> (\<forall>b. \<not> P (Http ''POST'' ''https://login.vk.ru/?act=get_anonym_token'' b)) \<and> (\<forall>b. \<not> P (Http ''POST'' okURL b)) \<and>
     (\<forall>b. \<not> P (Http ''POST'' (''https://api.vk.ru/method/calls.getCallPreview?v=5.275&client_id='' @ clientID) b))"

definition perToken :: "string \<Rightarrow> (vkevent \<Rightarrow> bool) \<Rightarrow> nat" where
  "perToken clientID P = (if \<exists>b. P (Http ''POST'' (anonTokenURL clientID) b) then 1 else 0)"

lemma counted_instances:
  "counted clientID (isAnonRequest clientID)" "perToken clientID (isAnonRequest clientID) = 1" "perCheck (isAnonRequest clientID) = 0"
  "counted clientID isCheck" "perToken clientID isCheck = 0" "perCheck isCheck \<le> 1"
proof -
  have api: "anonTokenURL c \<noteq> captchaURL (''captchaNotRobot.'' @ x)"
      "\<not> HasPrefix (anonTokenURL c) ''https://api.vk.ru/method/captchaNotRobot.''" for c x
    by (simp_all add: anonTokenURL_def captchaURL_def HasPrefix_def)
  then have only: "\<not> (isAnonRequest clientID ev \<and> solverEvent ev)" for ev
    by (auto simp: isAnonRequest_def solverEvent_def split: vkevent.splits)
  show "counted clientID (isAnonRequest clientID)" "perCheck (isAnonRequest clientID) = 0"
    using only by (auto simp: counted_def onlyChecks_def perCheck_def isAnonRequest_def anonTokenURL_def okURL_def)
  show "perToken clientID (isAnonRequest clientID) = 1" by (simp add: perToken_def isAnonRequest_def)
  show "counted clientID isCheck" "perToken clientID isCheck = 0" "perCheck isCheck \<le> 1"
    by (auto simp: counted_def onlyChecks_def perToken_def perCheck_def isCheck_def anonTokenURL_def okURL_def captchaURL_def)
qed

lemma locking_round:
  assumes P: "counted clientID P"
    and again: "\<And>k f. again = Some k \<Longrightarrow> lockingOnly env P n anything (k f)"
  shows "lockingOnly env P (perToken clientID P + (9 * perCheck P + n)) anything
    (anonRound env mode clientID link name token1 again form)"
proof -
  have only: "onlyChecks P" using P by (simp add: counted_def)
  have token: "confined P (perToken clientID P) anything (vkRequest env form (anonTokenURL clientID))"
    by (rule confined_vkRequest) (auto simp: perToken_def)
  have solved: "lockingOnly env P (9 * perCheck P + n) anything
      (handled (solveCaptchaBySelectedMode env mode ce) (\<lambda>r.
         case r of
           Inr successToken \<Rightarrow> k (solvedForm link name token1 ce successToken)
         | Inl e \<Rightarrow>
             if isSessionExpired e then andThen (happens Pause) (\<lambda>_. k (anonTokenForm link name token1))
             else waitRequired env))" if "again = Some k" for k ce
    by (rule locking_handled [OF confined_captcha_chain [OF only], where j = n])
       (auto intro!: again [OF that] locking_wait split: sum.split)
  show ?thesis
    unfolding anonRound_def Let_def
    by (rule locking_andThen [OF locking_confined [OF token], where j = "9 * perCheck P + n"])
       (auto intro!: locking_answer locking_wait solved split: json.split option.split)
qed

lemma locking_anonLoop:
  assumes P: "counted clientID P"
  shows "lockingOnly env P ((left + 1) * perToken clientID P + left * (9 * perCheck P)) anything
    (anonLoop left env mode clientID link name token1 form)"
proof (induction left arbitrary: form)
  case 0
  have "lockingOnly env P (perToken clientID P) anything (anonRound env mode clientID link name token1 None form)"
    unfolding anonRound_def Let_def
    by (rule locking_andThen [OF locking_confined [OF confined_vkRequest [where n = "perToken clientID P"]], where j = 0])
       (auto simp: perToken_def intro!: locking_answer locking_wait split: json.split option.split)
  then show ?case by simp
next
  case (Suc left)
  have "lockingOnly env P (perToken clientID P + (9 * perCheck P + ((left + 1) * perToken clientID P + left * (9 * perCheck P)))) anything
      (anonLoop (Suc left) env mode clientID link name token1 form)"
    unfolding anonLoop.simps by (rule locking_round [OF P]) (use Suc in auto)
  then show ?case by (simp add: algebra_simps)
qed

abbreviation withAddresses :: "vkerr + creds \<Rightarrow> bool" where
  "withAddresses r \<equiv> (\<forall>user pass addrs. r = Inr (user, pass, addrs) \<longrightarrow> addrs \<noteq> [])"

lemma turnServer_addresses: "withAddresses (turnServer env resp)"
  by (auto simp: turnServer_def Let_def split: json.splits if_splits)

lemma locking_chain:
  assumes P: "counted clientID P"
  shows "lockingOnly env P (4 * perToken clientID P + 27 * perCheck P) withAddresses (getTokenChain env mode link (clientID, secret))"
proof -
  have only: "onlyChecks P" using P by (simp add: counted_def)
  have draw: "confined P 0 noError (draw f)" for f
    unfolding draw_def by (auto intro!: confined_first [OF confined_free(1) [OF only]] confined_asking)
  have free: "confined P 0 anything (vkRequest env form url)"
    if "url \<in> {''https://login.vk.ru/?act=get_anonym_token'', okURL, ''https://api.vk.ru/method/calls.getCallPreview?v=5.275&client_id='' @ clientID}"
    for form url
    using that P by (intro confined_vkRequest) (auto simp: counted_def)
  note pause = confined_free(3) [OF only]
  note steps = locking_first [OF draw] locking_first [OF free] locking_first [OF confined_answer [where Q = anything]] locking_first [OF pause]
  have loop: "lockingOnly env P (4 * perToken clientID P + 27 * perCheck P) anything
      (anonLoop 3 env mode clientID link name token1 form)" for name token1 form
    using locking_anonLoop [OF P, of env 3] by simp
  show ?thesis
    unfolding getTokenChain_def Let_def case_prod_conv
    by (intro steps locking_handled [OF free, where j = "4 * perToken clientID P + 27 * perCheck P"] locking_last [OF loop] locking_answer
          turnServer_addresses TrueI) auto
qed

lemma decoded_Inr: "(case x of Inl e \<Rightarrow> Inl (g e) | Inr y \<Rightarrow> Inr y) = Inr r \<longleftrightarrow> x = Inr r"
  by (cases x) auto

lemma vkRequest_Inr:
  "vkRequest env form url w = (Inr resp, w') \<longleftrightarrow>
     w' = w\<lparr>hist := Http ''POST'' url form # hist w\<rparr> \<and>
     (\<exists>body. reply env (hist w') = Inr body \<and> unmarshal env body = Inr resp)"
  by (auto simp: vkRequest_def andThen_Inr mapError_Inr httpDo_Inr decoded_Inr)

lemma chain_success:
  assumes "getTokenChain env mode link vc w = (Inr c, w')"
  shows "\<exists>form earlier body resp. hist w' = Http ''POST'' okURL form # earlier \<and> reply env (hist w') = Inr body \<and>
    unmarshal env body = Inr resp \<and> turnServer env resp = Inr c"
  using assms by (auto simp: getTokenChain_def Let_def andThen_Inr handled_run vkRequest_Inr split: prod.splits)

text \<open>
  C16: the conversation of \<open>getTokenChain\<close> is bounded whatever the servers answer: at most four requests for the anonymous token and at most
  27 captcha checks.  It changes the global lockout only when it fails with \<open>CAPTCHA_WAIT_REQUIRED\<close>, and then to a minute from now.
  On success there is an address, and user, password and addresses are those of the reply to the last request, the one to join the call.
\<close>

theorem token_chain_bounded:
  assumes run: "getTokenChain env mode link (clientID, secret) w = (r, w')"
  shows "\<exists>evs. hist w' = evs @ hist w \<and> length (filter (isAnonRequest clientID) evs) \<le> 4 \<and> length (filter isCheck evs) \<le> 27 \<and>
    (captchaLockout w' \<noteq> captchaLockout w \<longrightarrow>
       r = Inl (Plain ''CAPTCHA_WAIT_REQUIRED'') \<and> captchaLockout w' = clock env (hist w') + 60) \<and>
    (\<forall>c. r = Inr c \<longrightarrow> snd (snd c) \<noteq> [] \<and>
       (\<exists>form earlier body resp. hist w' = Http ''POST'' okURL form # earlier \<and> reply env (hist w') = Inr body \<and>
          unmarshal env body = Inr resp \<and> turnServer env resp = Inr c))"
proof -
  note counts = counted_instances
  from lockingD [OF locking_chain [OF counts(1)] run] counts(2,3) obtain evs where
    evs: "hist w' = evs @ hist w" "length (filter (isAnonRequest clientID) evs) \<le> 4" by auto
  from lockingD [OF locking_chain [OF counts(4)] run] counts(5,6) obtain evs' where
    "hist w' = evs' @ hist w" "length (filter isCheck evs') \<le> 27" by fastforce
  with evs have "length (filter isCheck evs) \<le> 27" by simp
  moreover have "\<exists>form earlier body resp. hist w' = Http ''POST'' okURL form # earlier \<and> reply env (hist w') = Inr body \<and>
      unmarshal env body = Inr resp \<and> turnServer env resp = Inr c" if "r = Inr c" for c
    using chain_success run that by blast
  moreover note lockingD [OF locking_chain [OF counts(1)] run]
  ultimately show ?thesis using evs by (intro exI [of _ evs] conjI allI impI) (auto split: prod.splits)
qed

definition demoReply :: "vkevent list \<Rightarrow> http_error + string" where
  "demoReply h =
     (case h of
        Http m u b # _ \<Rightarrow>
          (if u = ''https://login.vk.ru/?act=get_anonym_token'' then Inr ''anon''
           else if u = anonTokenURL ''1'' then (if Contains b ''success_token=ok'' then Inr ''token'' else Inr ''captcha'')
           else if u = okURL then (if HasPrefix b ''session_data'' then Inr ''session'' else Inr ''turn'')
           else Inl (DoError ''down''))
      | _ \<Rightarrow> Inl (DoError []))"

definition demoBody :: "string \<Rightarrow> string + (string \<times> json) list" where
  "demoBody b =
     (if b = ''anon'' then Inr [(''data'', JObj [(''access_token'', JStr ''t1'')])]
      else if b = ''captcha'' then
        Inr [(''error'', JObj [(''error_code'', JNum 14), (''captcha_sid'', JStr ''7''), (''redirect_uri'', JStr ''https://id.vk.ru/c'')])]
      else if b = ''token'' then Inr [(''response'', JObj [(''token'', JStr ''t2'')])]
      else if b = ''session'' then Inr [(''session_key'', JStr ''k'')]
      else if b = ''turn'' then
        Inr [(''turn_server'', JObj [(''username'', JStr ''u''), (''credential'', JStr ''p''), (''urls'', JArr [JStr ''turn:192.0.2.1:3478?transport=udp''])])]
      else Inl ''no JSON'')"

definition demoEnv :: vkenv where
  "demoEnv =
     \<lparr>reply = demoReply, ended = (\<lambda>_. False), powEnded = (\<lambda>_ _. False), arrivals = (\<lambda>_. [''ok'']), randomInt = (\<lambda>_. 0),
      randomFP = (\<lambda>_. ''00''), clock = (\<lambda>_. 100), unmarshal = demoBody, unmarshalInit = (\<lambda>_. Inl []), marshal = (\<lambda>_. []),
      showMap = (\<lambda>_. []), formatFloat = (\<lambda>_. []), urlQuery = (\<lambda>_. Some [(''session_token'', ''st'')]), firstGroup = (\<lambda>_ _. None),
      quoteText = (\<lambda>s. s), sha256Hex = (\<lambda>_. []), decodeImage = (\<lambda>_. Inl []), roundFloat = (\<lambda>x. x), expFloat = (\<lambda>_. 0), schedule = (\<lambda>x. x),
      clientError = None, skipVKCalls = False, uuidText = (\<lambda>_. ''id''), callerName = (\<lambda>_. ''N''), cursorDraws = (\<lambda>_ _. 0)\<rparr>"

definition demoWorld :: vkworld where
  "demoWorld = \<lparr>hist = [], results = [], captchaLockout = 0, debugCache = (\<lambda>_. None)\<rparr>"

lemma demo_run: "fst (getTokenChain demoEnv ''wv'' ''L'' (''1'', ''s'') demoWorld) = Inr (''u'', ''p'', [''192.0.2.1:3478''])"
  by code_simp

theorem token_chain_bounded_witness:
  "\<exists>w' evs. getTokenChain demoEnv ''wv'' ''L'' (''1'', ''s'') demoWorld = (Inr (''u'', ''p'', [''192.0.2.1:3478'']), w') \<and>
     hist w' = evs @ hist demoWorld \<and> length (filter (isAnonRequest ''1'') evs) \<le> 4"
proof -
  obtain w' where run: "getTokenChain demoEnv ''wv'' ''L'' (''1'', ''s'') demoWorld = (Inr (''u'', ''p'', [''192.0.2.1:3478'']), w')"
    using demo_run by (metis prod.collapse)
  from token_chain_bounded [OF this] run show ?thesis by blast
qed

text \<open>
  The recovery from a dead captcha session cannot happen: \<open>getContent status:\<close> and \<open>error_limit\<close> are only in the errors of a single attempt,
  which \<open>solveVkCaptchaV2Attempts\<close> replaces by its own text.  So no captcha chain ever reports an expired session, and
  \<open>getTokenChain\<close> never asks VK for a fresh challenge.
\<close>

lemma recovery_is_dead:
  "solveVkCaptchaV2Attempts env ce sp 2 w = (Inl e, w1) \<Longrightarrow> \<not> isCaptchaSessionDead e"
  "solveCaptchaBySelectedMode env mode ce w = (Inl e', w2) \<Longrightarrow> \<not> isSessionExpired e'"
proof -
  have none: "onlyChecks (\<lambda>_. False)" by (rule onlyChecks_none)
  show "solveVkCaptchaV2Attempts env ce sp 2 w = (Inl e, w1) \<Longrightarrow> \<not> isCaptchaSessionDead e"
    using confinedD [OF confined_solve [OF none, of 2]] attempts_not_dead by fastforce
  show "solveCaptchaBySelectedMode env mode ce w = (Inl e', w2) \<Longrightarrow> \<not> isSessionExpired e'"
    using confinedD [OF confined_captcha_chain [OF none]] by blast
qed

section \<open>The VK Calls path\<close>

text \<open>The texts of the wrapped errors are shortened: nobody reads them but the log.\<close>

definition vkCallsSteps :: "string list" where
  "vkCallsSteps =
     [''setup'', ''step1 auth.getAnonymToken'', ''step2 messages.getCallPreview'', ''step3 messages.getAnonymCallToken'',
      ''step4 auth.anonymLogin'', ''step5 vchat.joinConversationByLink'']"

definition callsRequest :: "vkenv \<Rightarrow> string \<Rightarrow> string \<Rightarrow> (vkerr, (string \<times> json) list) conv" where
  "callsRequest env step url =
     andThen (mapError (\<lambda>e. vkCallsFailure step ''network''
                (case e of DoError s \<Rightarrow> Wrapped ''request failed: '' (Plain s) | ReadError s \<Rightarrow> Wrapped ''read response: '' (Plain s)))
              (httpDo env ''POST'' url [])) (\<lambda>body.
       answer (case unmarshal env body of
                 Inl e \<Rightarrow> Inl (vkCallsFailure step ''decode'' (Plain (''unmarshal JSON: '' @ e @ '', body: '' @ truncateVKCallsLog body 200)))
               | Inr resp \<Rightarrow> Inr resp))"

definition callsParsed :: "string \<Rightarrow> string \<Rightarrow> 'a option \<Rightarrow> vkerr + 'a" where
  "callsParsed step what v =
     (case v of Some x \<Rightarrow> Inr x | None \<Rightarrow> Inl (vkCallsFailure step ''parse'' (Plain (''parse '' @ what))))"

definition callsChecked :: "vkenv \<Rightarrow> string \<Rightarrow> (string \<times> json) list \<Rightarrow> vkerr + unit" where
  "callsChecked env step resp =
     (case vkCallsAPIError (\<lambda>o'. VkCaptchaError (captchaErrorText env (parseVkCaptchaError env o'))) resp of
        Some e \<Rightarrow> Inl (vkCallsFailure step (vkCallsAPIErrorKind e) e)
      | None \<Rightarrow> Inr ())"

definition callsMethod :: "string \<Rightarrow> string" where
  "callsMethod mthd = ''https://api.vk.me/method/'' @ mthd @ ''?v=5.276''"

definition anonymTokenURL :: "string \<Rightarrow> string \<Rightarrow> string \<Rightarrow> string" where
  "anonymTokenURL linkURL device name =
     callsMethod ''auth.getAnonymToken'' @ ''&client_id=8093730&link='' @ linkURL @ ''&device_id='' @ device @ ''&anonymName='' @ name @ ''&lang=en''"

definition callPreviewURL :: "string \<Rightarrow> string \<Rightarrow> string \<Rightarrow> string" where
  "callPreviewURL tok device linkURL =
     callsMethod ''messages.getCallPreview'' @ ''&anonymous_token='' @ tok @ ''&device_id='' @ device
     @ ''&extended=1&fields=first_name,last_name,photo_200&lang=en&link='' @ linkURL"

definition callTokenURL :: "string \<Rightarrow> string \<Rightarrow> string \<Rightarrow> string \<Rightarrow> string \<Rightarrow> string \<Rightarrow> string" where
  "callTokenURL tok device linkURL name user secret =
     callsMethod ''messages.getAnonymCallToken'' @ ''&anonymous_token='' @ tok @ ''&device_id='' @ device @ ''&link='' @ linkURL
     @ ''&name='' @ name @ ''&user_id='' @ user @ ''&secret='' @ QueryEscape secret @ ''&lang=en''"

definition okLoginURL :: "string \<Rightarrow> string" where
  "okLoginURL device =
     okURL @ ''?session_data='' @ QueryEscape (okSessionData device) @ ''&method=auth.anonymLogin&format=JSON&application_key='' @ okKey"

definition okJoinURL :: "string \<Rightarrow> string \<Rightarrow> string \<Rightarrow> string" where
  "okJoinURL link anonym key =
     okURL @ ''?joinLink='' @ link @ ''&isVideo=false&protocolVersion=5&anonymToken='' @ anonym
     @ ''&method=vchat.joinConversationByLink&format=JSON&application_key='' @ okKey @ ''&session_key='' @ key"

definition callsTurn :: "(string \<times> json) list \<Rightarrow> vkerr + creds" where
  "callsTurn resp =
     (let step = vkCallsSteps ! 5 in
      case vkCallsOKError resp of
        Some e \<Rightarrow> Inl (vkCallsFailure step ''okcdn_api'' e)
      | None \<Rightarrow>
     (case callsParsed step ''username'' (extractVKCallsStr (JObj resp) [''turn_server'', ''username'']) of
        Inl e \<Rightarrow> Inl e
      | Inr user \<Rightarrow>
     (case callsParsed step ''credential'' (extractVKCallsStr (JObj resp) [''turn_server'', ''credential'']) of
        Inl e \<Rightarrow> Inl e
      | Inr pass \<Rightarrow>
          (let addrs = parseVKCallsTURNAddresses resp in
           if addrs = [] then Inl (vkCallsFailure step ''parse'' (Plain ''turn_server.urls empty'')) else Inr (user, pass, addrs)))))"

definition getVKCredsViaVKCallsPath :: "vkenv \<Rightarrow> string \<Rightarrow> (vkerr, creds) conv" where
  "getVKCredsViaVKCallsPath env link =
     (if skipVKCalls env then answer (Inl (vkCallsFailure ''preflight'' ''skipped'' (Plain ''disabled by VK_SKIP_VKCALLS=1'')))
      else
        (let linkURL = QueryEscape (''https://vk.com/call/join/'' @ link); step = (\<lambda>i. vkCallsSteps ! i) in
        andThen (draw (uuidText env)) (\<lambda>device.
        andThen (draw (callerName env)) (\<lambda>rawName.
        (let name = QueryEscape rawName in
        andThen (answer (case clientError env of
                           Some e \<Rightarrow> Inl (vkCallsFailure (step 0) ''setup'' (Wrapped ''create tls client: '' (Plain e)))
                         | None \<Rightarrow> Inr ())) (\<lambda>_.
        andThen (callsRequest env (step 1) (anonymTokenURL linkURL device name)) (\<lambda>resp1.
        andThen (answer (callsParsed (step 1) ''token'' (extractVKCallsStr (JObj resp1) [''response'', ''token'']))) (\<lambda>token.
        andThen (callsRequest env (step 2) (callPreviewURL (QueryEscape token) device linkURL)) (\<lambda>resp2.
        andThen (answer (callsChecked env (step 2) resp2)) (\<lambda>_.
        andThen (answer (callsParsed (step 2) ''user_id'' (extractVKCallsFloat (JObj resp2) [''response'', ''user_id'']))) (\<lambda>userID.
        andThen (answer (callsParsed (step 2) ''secret'' (extractVKCallsStr (JObj resp2) [''response'', ''secret'']))) (\<lambda>secret.
        andThen (callsRequest env (step 3) (callTokenURL (QueryEscape token) device linkURL name (fixed0 userID) secret)) (\<lambda>resp3.
        andThen (answer (callsChecked env (step 3) resp3)) (\<lambda>_.
        andThen (answer (callsParsed (step 3) ''token'' (extractVKCallsStr (JObj resp3) [''response'', ''token'']))) (\<lambda>anonym.
        andThen (draw (uuidText env)) (\<lambda>okDevice.
        andThen (callsRequest env (step 4) (okLoginURL okDevice)) (\<lambda>resp4.
        andThen (answer (callsParsed (step 4) ''session_key'' (extractVKCallsStr (JObj resp4) [''session_key'']))) (\<lambda>key.
        andThen (callsRequest env (step 5) (okJoinURL link anonym key)) (\<lambda>resp5.
        answer (callsTurn resp5))))))))))))))))))))"

text \<open>What the path has asked so far.\<close>

definition postsOf :: "vkevent list \<Rightarrow> string list" where
  "postsOf evs = List.map_filter (\<lambda>ev. case ev of Http _ u _ \<Rightarrow> Some u | _ \<Rightarrow> None) (rev evs)"

text \<open>\<open>atStep n m\<close>: after \<open>n\<close> requests, a failure of \<open>m\<close> names the step of the last request.\<close>

definition atStep :: "nat \<Rightarrow> (vkerr, 'a) conv \<Rightarrow> bool" where
  "atStep n m \<longleftrightarrow>
     (\<forall>w r w'. m w = (r, w') \<longrightarrow> captchaLockout w' = captchaLockout w \<and>
        (\<exists>evs. hist w' = evs @ hist w \<and>
           (\<forall>e. r = Inl e \<longrightarrow> (\<exists>kind cause. e = vkCallsFailure (vkCallsSteps ! (n + length (postsOf evs))) kind cause))))"

definition failsAt :: "nat \<Rightarrow> vkerr + 'a \<Rightarrow> bool" where
  "failsAt n r \<longleftrightarrow> (\<forall>e. r = Inl e \<longrightarrow> (\<exists>kind cause. e = vkCallsFailure (vkCallsSteps ! n) kind cause))"

lemma postsOf_simps [simp]:
  "postsOf [] = []" "postsOf (Http m u b # evs) = postsOf evs @ [u]" "postsOf (Draw # evs) = postsOf evs"
  "postsOf (es @ evs) = postsOf evs @ postsOf es"
  by (auto simp: postsOf_def List.map_filter_def)

lemma failsAt_simps [simp]:
  "failsAt n (Inr x)" "failsAt n (callsParsed (vkCallsSteps ! n) what v)" "failsAt n (callsChecked env (vkCallsSteps ! n) resp)"
  "failsAt 5 (callsTurn resp)"
  "failsAt n (case c of Some e \<Rightarrow> Inl (vkCallsFailure (vkCallsSteps ! n) kind (f e)) | None \<Rightarrow> Inr ())"
  by (auto simp: failsAt_def callsParsed_def callsChecked_def callsTurn_def Let_def split: option.splits if_splits)

lemma atStep_answer: "failsAt n r \<Longrightarrow> atStep n (answer r)"
  by (simp add: atStep_def failsAt_def)

lemma andThen_run:
  "andThen m f w = (r, w') \<longleftrightarrow>
     (\<exists>e. m w = (Inl e, w') \<and> r = Inl e) \<or> (\<exists>x w1. m w = (Inr x, w1) \<and> f x w1 = (r, w'))"
  by (cases "m w"; cases "fst (m w)") (auto simp: andThen_def handled_def answer_def)

lemma atStep_check: "failsAt n r \<Longrightarrow> (\<And>x. atStep n (f x)) \<Longrightarrow> atStep n (andThen (answer r) f)"
  by (cases r) (auto simp: atStep_def failsAt_def andThen_def handled_def answer_def)

lemma atStep_draw:
  assumes "\<And>x. atStep n (f x)" shows "atStep n (andThen (draw g) f)"
  unfolding atStep_def
proof (intro allI impI)
  fix w r w' assume "andThen (draw g) f w = (r, w')"
  then obtain x where "f x (w\<lparr>hist := Draw # hist w\<rparr>) = (r, w')"
    by (auto simp: draw_def andThen_run)
  with assms [of x] obtain evs where "captchaLockout w' = captchaLockout w" "hist w' = evs @ Draw # hist w"
    "\<forall>e. r = Inl e \<longrightarrow> (\<exists>kind cause. e = vkCallsFailure (vkCallsSteps ! (n + length (postsOf evs))) kind cause)"
    unfolding atStep_def by fastforce
  then show "captchaLockout w' = captchaLockout w \<and> (\<exists>evs. hist w' = evs @ hist w \<and>
      (\<forall>e. r = Inl e \<longrightarrow> (\<exists>kind cause. e = vkCallsFailure (vkCallsSteps ! (n + length (postsOf evs))) kind cause)))"
    by (intro conjI exI [of _ "evs @ [Draw]"]) auto
qed

lemma callsRequest_run:
  "callsRequest env step url w = (r, w') \<Longrightarrow> w' = w\<lparr>hist := Http ''POST'' url [] # hist w\<rparr> \<and>
     (\<forall>e. r = Inl e \<longrightarrow> (\<exists>kind cause. e = vkCallsFailure step kind cause))"
  by (cases "reply env (Http ''POST'' url [] # hist w)")
     (auto simp: callsRequest_def httpDo_def mapError_def andThen_def handled_def answer_def happens_def asking_def split: sum.splits)

lemma atStep_request:
  assumes "\<And>resp. atStep k (f resp)" "k = Suc n"
  shows "atStep n (andThen (callsRequest env (vkCallsSteps ! k) url) f)"
  unfolding atStep_def
proof (intro allI impI)
  fix w r w' assume "andThen (callsRequest env (vkCallsSteps ! k) url) f w = (r, w')"
  then consider e where "callsRequest env (vkCallsSteps ! k) url w = (Inl e, w')" "r = Inl e"
    | x w1 where "callsRequest env (vkCallsSteps ! k) url w = (Inr x, w1)" "f x w1 = (r, w')"
    by (auto simp: andThen_run)
  then show "captchaLockout w' = captchaLockout w \<and> (\<exists>evs. hist w' = evs @ hist w \<and>
      (\<forall>e. r = Inl e \<longrightarrow> (\<exists>kind cause. e = vkCallsFailure (vkCallsSteps ! (n + length (postsOf evs))) kind cause)))"
  proof cases
    case (1 e)
    then show ?thesis using callsRequest_run [OF 1(1)] assms(2) by (auto intro!: exI [of _ "[Http ''POST'' url []]"])
  next
    case (2 x w1)
    have "atStep (Suc n) (f x)" using assms by simp
    with 2(2) obtain evs where "captchaLockout w' = captchaLockout w1" "hist w' = evs @ hist w1"
      "\<forall>e. r = Inl e \<longrightarrow> (\<exists>kind cause. e = vkCallsFailure (vkCallsSteps ! (Suc n + length (postsOf evs))) kind cause)"
      unfolding atStep_def by fastforce
    then show ?thesis using callsRequest_run [OF 2(1)] by (intro conjI exI [of _ "evs @ [Http ''POST'' url []]"]) auto
  qed
qed

lemma atStep_path: "\<not> skipVKCalls env \<Longrightarrow> atStep 0 (getVKCredsViaVKCallsPath env link)"
  unfolding getVKCredsViaVKCallsPath_def Let_def
  by (simp only: if_False, intro atStep_draw atStep_check atStep_request atStep_answer) simp_all

definition replyTo :: "vkenv \<Rightarrow> vkevent list \<Rightarrow> (string \<times> json) list \<Rightarrow> bool" where
  "replyTo env h resp \<longleftrightarrow> (\<exists>body. reply env h = Inr body \<and> unmarshal env body = Inr resp)"

lemma callsRequest_Inr:
  "callsRequest env step url w = (Inr resp, w') \<longleftrightarrow>
     w' = w\<lparr>hist := Http ''POST'' url [] # hist w\<rparr> \<and> replyTo env (hist w') resp"
  by (auto simp: callsRequest_def andThen_Inr mapError_Inr httpDo_Inr decoded_Inr replyTo_def)

lemma callsParsed_Inr [simp]: "callsParsed step what v = Inr x \<longleftrightarrow> v = Some x"
  by (auto simp: callsParsed_def split: option.splits)

lemma draw_Inr [simp]: "draw f w = (Inr x, w') \<longleftrightarrow> w' = w\<lparr>hist := Draw # hist w\<rparr> \<and> x = f (hist w')"
  by (auto simp: draw_def andThen_Inr)

definition callEvents :: "string \<Rightarrow> string \<Rightarrow> string \<Rightarrow> string \<Rightarrow> string \<Rightarrow> vkevent list" where
  "callEvents joinURL loginURL u3 u2 u1 =
     [Http ''POST'' joinURL [], Http ''POST'' loginURL [], Draw, Http ''POST'' u3 [], Http ''POST'' u2 [], Http ''POST'' u1 [], Draw, Draw]"

lemma path_success:
  assumes "getVKCredsViaVKCallsPath env link w = (Inr c, w')" "\<not> skipVKCalls env"
  shows "\<exists>anonym key device u1 u2 u3 resp3 resp4 resp5.
    hist w' = callEvents (okJoinURL link anonym key) (okLoginURL device) u3 u2 u1 @ hist w \<and>
    replyTo env (hist w') resp5 \<and> replyTo env (tl (hist w')) resp4 \<and> replyTo env (drop 3 (hist w')) resp3 \<and>
    callsTurn resp5 = Inr c \<and> extractVKCallsStr (JObj resp4) [''session_key''] = Some key \<and>
    extractVKCallsStr (JObj resp3) [''response'', ''token''] = Some anonym"
  using assms unfolding getVKCredsViaVKCallsPath_def Let_def callEvents_def
  by (simp only: if_False andThen_Inr draw_Inr answer_run callsParsed_Inr callsRequest_Inr, elim exE conjE, intro exI conjI)
     (simp, simp, simp, simp add: numeral_3_eq_3, simp, simp, simp)


definition callsReply :: "vkevent list \<Rightarrow> http_error + string" where
  "callsReply h =
     (case h of
        Http m u b # _ \<Rightarrow>
          (if HasPrefix u (callsMethod ''auth.getAnonymToken'') then Inr ''anon''
           else if HasPrefix u (callsMethod ''messages.getCallPreview'') then Inr ''preview''
           else if HasPrefix u (callsMethod ''messages.getAnonymCallToken'') then Inr ''token''
           else if HasPrefix u (okURL @ ''?session_data'') then Inr ''session''
           else Inr ''turn'')
      | _ \<Rightarrow> Inl (DoError []))"

definition callsBody :: "string \<Rightarrow> string + (string \<times> json) list" where
  "callsBody b =
     (if b = ''anon'' then Inr [(''response'', JObj [(''token'', JStr ''t1'')])]
      else if b = ''preview'' then Inr [(''response'', JObj [(''user_id'', JNum 5), (''secret'', JStr ''x'')])]
      else if b = ''token'' then Inr [(''response'', JObj [(''token'', JStr ''t2'')])]
      else if b = ''turn'' then Inr [(''error_code'', JNum 104)]
      else demoBody b)"

definition callsEnv :: vkenv where
  "callsEnv = demoEnv\<lparr>reply := callsReply, unmarshal := callsBody\<rparr>"

lemma calls_run:
  "fst (getVKCredsViaVKCallsPath callsEnv ''L'' demoWorld) =
     Inl (vkCallsFailure ''step5 vchat.joinConversationByLink'' ''okcdn_api'' (vkCallsOKAPIError 104 []))"
  by code_simp


section \<open>Fetching credentials\<close>

text \<open>\<open>fetchVkCreds\<close> with its conversations: the loop over the attempts, and the VK Calls path in front of it.\<close>

definition oddAttempt :: "nat \<Rightarrow> bool" where
  "oddAttempt attempt \<longleftrightarrow>
     attempt mod length vkCredentialsList = length vkCredentialsList - 1 \<and> attempt + 1 < vkCredentialAttemptLimit"

fun chainAttempts :: "vkenv \<Rightarrow> string \<Rightarrow> string \<Rightarrow> nat list \<Rightarrow> vkerr \<Rightarrow> (vkerr, creds) conv" where
  "chainAttempts env mode link [] lastErr = answer (Inl (Wrapped ''all VK credentials failed: '' lastErr))"
| "chainAttempts env mode link (attempt # rest) lastErr =
     handled (getTokenChain env mode link (vkCredentialsList ! (attempt mod length vkCredentialsList))) (\<lambda>r.
       case r of
         Inr c \<Rightarrow> answer (Inr c)
       | Inl e \<Rightarrow>
           (case asCallUnavailableError e of
              Some ce \<Rightarrow> answer (Inl ce)
            | None \<Rightarrow>
                if Contains (errText e) ''CAPTCHA_WAIT_REQUIRED'' \<or> Contains (errText e) ''FATAL_CAPTCHA'' then answer (Inl e)
                else if oddAttempt attempt then
                  handled (pauseOrEnd env) (\<lambda>p.
                    case p of
                      Inl _ \<Rightarrow> answer (Inl (Plain ''context canceled''))
                    | Inr _ \<Rightarrow> chainAttempts env mode link rest e)
                else chainAttempts env mode link rest e))"

definition fetchFromVK :: "vkenv \<Rightarrow> string \<Rightarrow> string \<Rightarrow> string \<Rightarrow> (vkerr, creds) conv" where
  "fetchFromVK env path mode link w =
     (let legacy = chainAttempts env mode link [0..<vkCredentialAttemptLimit] (Plain [])
      in if clock env (hist w) < captchaLockout w then (Inl (Plain ''CAPTCHA_WAIT_REQUIRED: global lockout active''), w)
         else if path = ''vkcalls'' then
           handled (getVKCredsViaVKCallsPath env link) (\<lambda>r.
             case r of
               Inr c \<Rightarrow> answer (Inr c)
             | Inl e \<Rightarrow> (case asCallUnavailableError e of Some ce \<Rightarrow> answer (Inl ce) | None \<Rightarrow> legacy)) w
         else legacy w)"

text \<open>The world before and after each attempt.\<close>

fun worldBefore :: "vkenv \<Rightarrow> string \<Rightarrow> string \<Rightarrow> vkworld \<Rightarrow> nat \<Rightarrow> vkworld" where
  "worldBefore env mode link w 0 = w"
| "worldBefore env mode link w (Suc a) =
     (let w1 = snd (getTokenChain env mode link (vkCredentialsList ! (a mod length vkCredentialsList)) (worldBefore env mode link w a))
      in if oddAttempt a then snd (pauseOrEnd env w1) else w1)"

definition worldAfter :: "vkenv \<Rightarrow> string \<Rightarrow> string \<Rightarrow> vkworld \<Rightarrow> nat \<Rightarrow> vkworld" where
  "worldAfter env mode link w a =
     snd (getTokenChain env mode link (vkCredentialsList ! (a mod length vkCredentialsList)) (worldBefore env mode link w a))"

definition fetchEnv :: "vkenv \<Rightarrow> string \<Rightarrow> string \<Rightarrow> string \<Rightarrow> vkworld \<Rightarrow> fetch_env" where
  "fetchEnv env path mode link w =
     (let w0 = (if path = ''vkcalls'' then snd (getVKCredsViaVKCallsPath env link w) else w)
      in \<lparr>lockedOut = (clock env (hist w) < captchaLockout w), anonPath = path,
          viaCalls = fst (getVKCredsViaVKCallsPath env link w),
          tokenChain = (\<lambda>a _. fst (getTokenChain env mode link (vkCredentialsList ! (a mod length vkCredentialsList))
                                    (worldBefore env mode link w0 a))),
          ctxDone = (\<lambda>a. fst (pauseOrEnd env (worldAfter env mode link w0 a)) \<noteq> Inr ())\<rparr>)"

lemma worldBefore_Suc:
  "worldBefore env mode link w (Suc a) =
     (if oddAttempt a then snd (pauseOrEnd env (worldAfter env mode link w a)) else worldAfter env mode link w a)"
  by (simp add: worldAfter_def Let_def)

lemma chainAttempts_loop:
  assumes fe: "tokenChain fe = (\<lambda>a _. fst (getTokenChain env mode link (vkCredentialsList ! (a mod length vkCredentialsList))
      (worldBefore env mode link w a)))"
    "ctxDone fe = (\<lambda>a. fst (pauseOrEnd env (worldAfter env mode link w a)) \<noteq> Inr ())"
  shows "a \<le> n \<Longrightarrow> fst (chainAttempts env mode link [a..<n] e (worldBefore env mode link w a)) = fetchLoop fe [a..<n] e"
proof (induction "n - a" arbitrary: a e)
  case (Suc k)
  let ?chain = "getTokenChain env mode link (vkCredentialsList ! (a mod length vkCredentialsList)) (worldBefore env mode link w a)"
  have range: "[a..<n] = a # [Suc a..<n]" using Suc.hyps(2) by (simp add: upt_conv_Cons)
  have IH: "fst (chainAttempts env mode link [Suc a..<n] e' (worldBefore env mode link w (Suc a))) = fetchLoop fe [Suc a..<n] e'" for e'
    using Suc.hyps(2) by (intro Suc.hyps(1)) auto
  obtain p w2 where pause: "pauseOrEnd env (worldAfter env mode link w a) = (p, w2)" by fastforce
  have after: "snd ?chain = worldAfter env mode link w a" by (simp add: worldAfter_def)
  then obtain r where chain: "?chain = (r, worldAfter env mode link w a)" by (metis prod.collapse)
  show ?case
  proof (cases r)
    case (Inr c)
    then show ?thesis using chain by (simp add: range handled_def answer_def fe Let_def del: worldBefore.simps)
  next
    case (Inl f)
    show ?thesis
      using IH [of f] pause Inl chain
      by (cases p) (auto simp: range handled_def answer_def fe Let_def oddAttempt_def worldBefore_Suc
        simp del: worldBefore.simps split: option.splits)
  qed
qed (simp add: answer_def)

text \<open>The model of the rotation over the application ids is the one with the conversations in place of its parameters.\<close>

lemma fetch_refines: "fst (fetchFromVK env path mode link w) = fetchVkCreds (fetchEnv env path mode link w)"
proof -
  let ?fe = "fetchEnv env path mode link w"
  let ?w0 = "if path = ''vkcalls'' then snd (getVKCredsViaVKCallsPath env link w) else w"
  have loop: "fst (chainAttempts env mode link [0..<vkCredentialAttemptLimit] (Plain []) ?w0) =
      fetchLoop ?fe [0..<vkCredentialAttemptLimit] (Plain [])"
    using chainAttempts_loop [of ?fe env mode link ?w0 0 vkCredentialAttemptLimit "Plain []"]
    by (simp add: fetchEnv_def Let_def)
  obtain r w1 where calls: "getVKCredsViaVKCallsPath env link w = (r, w1)" by fastforce
  show ?thesis
    using loop calls
    by (auto simp: fetchFromVK_def fetchVkCreds_def Let_def fetchEnv_def handled_def answer_def
        split: sum.splits option.splits simp del: chainAttempts.simps fetchLoop.simps)
qed

end
