(* ===== verification/Packet_Pump.thy ===== *)
theory Packet_Pump
  imports Obfs_Order Session
begin

text \<open>
  The goroutines between the TURN relay and the pipe of the DTLS client in \<open>internal/core/session.go\<close>, which \<open>RunSession\<close> and
  \<open>RunPing\<close> both start, and \<open>RunPing\<close> itself.
\<close>

section \<open>The goroutines\<close>

definition readBufSize :: nat where "readBufSize = 1600"

text \<open>
  \<open>net\<close> lists what the calls of \<open>relay.ReadFrom\<close> return (\<open>None\<close> is an error); at its end the goroutine waits.  \<open>up k\<close> tells
  whether the \<open>k\<close>-th write to the pipe succeeds.  A failed write ends the goroutine of a session (\<open>strict\<close>); that of
  \<open>RunPing\<close> goes on.  The result is what reached the pipe.
\<close>

fun relayToPipe ::
  "(bytes \<Rightarrow> aead option) \<Rightarrow> TurnParams \<Rightarrow> bool \<Rightarrow> (nat \<Rightarrow> bool) \<Rightarrow> nat \<Rightarrow> bytes option list \<Rightarrow> replayWindow \<Rightarrow> aead_cache \<Rightarrow> bytes list" where
  "relayToPipe newc tp strict up k [] w cache = []"
| "relayToPipe newc tp strict up k (None # net) w cache = []"
| "relayToPipe newc tp strict up k (Some payload # net) w cache =
     (if useWrap tp then
        (if \<not> obfsIsRTPPacket payload then relayToPipe newc tp strict up k net w cache
         else case obfsUnwrapPacket newc (WrapKey tp) payload readBufSize cache of
           (Inl _, cache') \<Rightarrow> relayToPipe newc tp strict up k net w cache'
         | (Inr plain, cache') \<Rightarrow>
             (case accept payload w of
                (False, w') \<Rightarrow> relayToPipe newc tp strict up k net w' cache'
              | (True, w') \<Rightarrow>
                  if up k then plain # relayToPipe newc tp strict up (k + 1) net w' cache'
                  else if strict then [] else relayToPipe newc tp strict up (k + 1) net w' cache'))
      else if up k then payload # relayToPipe newc tp strict up (k + 1) net w cache
      else if strict then [] else relayToPipe newc tp strict up (k + 1) net w cache)"

text \<open>The way out: a packet that cannot be wrapped ends the goroutine.  \<open>obfs\<close> is there if the session wraps.\<close>

fun pipeToRelay ::
  "(bytes \<Rightarrow> aead option) \<Rightarrow> TurnParams \<Rightarrow> bool \<Rightarrow> (nat \<Rightarrow> bool) \<Rightarrow> nat \<Rightarrow> bytes option list \<Rightarrow> (ObfsConfig \<times> ObfsState) option
     \<Rightarrow> aead_cache \<Rightarrow> entropy \<Rightarrow> bytes list" where
  "pipeToRelay newc tp strict up k [] obfs cache ent = []"
| "pipeToRelay newc tp strict up k (None # ps) obfs cache ent = []"
| "pipeToRelay newc tp strict up k (Some p # ps) None cache ent =
     (if up k then p # pipeToRelay newc tp strict up (k + 1) ps None cache ent
      else if strict then [] else pipeToRelay newc tp strict up (k + 1) ps None cache ent)"
| "pipeToRelay newc tp strict up k (Some p # ps) (Some (cfg, st)) cache ent =
     (case obfsWrapPacket newc (WrapKey tp) p cfg st cache ent of
        (Inl _, _, _, _) \<Rightarrow> []
      | (Inr wrapped, st', cache', ent') \<Rightarrow>
          (if up k then wrapped # pipeToRelay newc tp strict up (k + 1) ps (Some (cfg, st')) cache' ent'
           else if strict then [] else pipeToRelay newc tp strict up (k + 1) ps (Some (cfg, st')) cache' ent'))"

section \<open>The DTLS pipe and the direct connection\<close>

lemma obfsRead_shorter: "obfsRead newc n net c cache = (Some r, net', c', cache') \<Longrightarrow> length net' < length net"
proof (induction newc n net c cache rule: obfsRead.induct)
  case (3 newc n wire net c cache)
  then show ?case by (auto simp: less_Suc_eq split: if_splits prod.splits sum.splits bool.splits)
qed simp_all

lemma obfsReads_unfold:
  "obfsReads newc n net c cache =
     (case obfsRead newc n net c cache of (None, _, _, _) \<Rightarrow> [] | (Some r, net', c', cache') \<Rightarrow> r # obfsReads newc n net' c' cache')"
  by (cases "net = []") (auto simp: obfsReads.simps [of newc n net] split: option.splits prod.splits dest: obfsRead_shorter)

lemma obfsReads_same:
  "obfsRead newc n net c cache = obfsRead newc n net' c' cache' \<Longrightarrow> obfsReads newc n net c cache = obfsReads newc n net' c' cache'"
  by (simp add: obfsReads_unfold [of newc n net] obfsReads_unfold [of newc n net'])

text \<open>A wrapping session hands the pipe exactly what reads of the direct connection with the same key would return.\<close>

lemma relayToPipe_reads:
  assumes "useWrap tp" "\<forall>k. up k"
  shows "wrapKey c = WrapKey tp \<Longrightarrow> replay c = w \<Longrightarrow>
    obfsReads newc readBufSize (map Some wires) c cache = map ok (relayToPipe newc tp strict up k (map Some wires) w cache)"
proof (induction wires arbitrary: c w cache k)
  case (Cons x xs)
  obtain u cache' where u: "obfsUnwrapPacket newc (WrapKey tp) x readBufSize cache = (u, cache')" by (metis surj_pair)
  obtain b w' where b: "accept x w = (b, w')" by (metis surj_pair)
  note skip = obfsReads_same [of newc readBufSize "Some x # map Some xs" c cache "map Some xs"]
  show ?case
  proof (cases "obfsIsRTPPacket x")
    case False
    then show ?thesis using Cons skip [of c cache] assms(1) by simp
  next
    case rtp: True
    show ?thesis
    proof (cases u)
      case (Inl e)
      then show ?thesis using Cons skip [of c cache'] rtp u assms(1) by simp
    next
      case (Inr plain)
      then show ?thesis
        using Cons skip [of "c\<lparr>replay := w'\<rparr>" cache'] obfsReads_accepted [of x newc c readBufSize cache plain cache' w'] rtp u b assms
        by (cases b) simp_all
    qed
  qed
qed simp

text \<open>As long as every packet can be wrapped and written, the way out is that of the direct connection.\<close>

lemma pipeToRelay_wraps:
  assumes "\<forall>k. up k" "newc (WrapKey tp) = Some a" "aead_ok a" "length (WrapKey tp) = 32" "Obfs.cfg_ok cfg"
  shows "cache_ok newc cache \<Longrightarrow> (\<forall>p \<in> set ps. p \<noteq> []) \<Longrightarrow> 61 * length ps \<le> length ent \<Longrightarrow>
    pipeToRelay newc tp strict up k (map Some ps) (Some (cfg, st)) cache ent = obfsWraps newc (WrapKey tp) cfg ps st cache ent"
proof (induction ps arbitrary: st cache ent k)
  case (Cons p ps)
  have "1 + PaddingMax cfg \<le> int (length ent)" "0 < PaddingMax cfg"
    using assms(5) Cons.prems(3) by (auto simp: Obfs.cfg_ok_def)
  then obtain wire st' cache' ent' where
    w: "obfsWrapPacket newc (WrapKey tp) p cfg st cache ent = (ok wire, st', cache', ent')"
    using obfsWrapPacket_succeeds [of "WrapKey tp" p newc a cache cfg ent st] assms Cons.prems(1,2) by auto
  note s = obfsWrapPacket_sentAs [OF w assms(2,3) Cons.prems(1) assms(5)]
  have "pipeToRelay newc tp strict up (k + 1) (map Some ps) (Some (cfg, st')) cache' ent' = obfsWraps newc (WrapKey tp) cfg ps st' cache' ent'"
    using Cons.prems s(2) obfsWrapPacket_entropy [OF w assms(5)] by (intro Cons.IH) auto
  moreover have "up k" using assms(1) by blast
  ultimately show ?case using w by simp
qed simp

text \<open>
  Between two ends with the same key the pipes carry the packets of the DTLS connection like the direct connection does: whatever
  subset of the packets the relay lets through in order arrives, unchanged and nothing twice.
\<close>

lemma pipes_deliver:
  assumes "NewObfsConfig mode ent0 = ok (cfg, ent1)" "length (WrapKey tp) = 32" "newc (WrapKey tp) = Some a" "aead_ok a"
    and "cache_ok newc cache" "cache_ok newc rcache" "\<forall>k. up k" "\<forall>p \<in> set ps. p \<noteq> [] \<and> length p \<le> readBufSize"
    and "61 * length ps \<le> length ent" "length ps \<le> 2 ^ 21" "unat (pcount st) + length ps \<le> 2 ^ 48"
  shows "relayToPipe newc tp strict up k
      (map Some (nths (pipeToRelay newc tp strict' up l (map Some ps) (Some (cfg, st)) cache ent) arrived)) replayWindow0 rcache
    = nths ps arrived"
proof -
  define c where "c = \<lparr>wrapKey = WrapKey tp, ocfg = cfg, writeState = st, replay = replayWindow0\<rparr>"
  have sent: "pipeToRelay newc tp strict' up l (map Some ps) (Some (cfg, st)) cache ent = obfsWraps newc (WrapKey tp) cfg ps st cache ent"
    by (rule pipeToRelay_wraps [OF assms(7,3,4,2) NewObfsConfig_ok [OF assms(1)] assms(5)]) (use assms in auto)
  have "obfsReads newc readBufSize (map Some (nths (obfsWraps newc (WrapKey tp) cfg ps st cache ent) arrived)) c rcache = map ok (nths ps arrived)"
    using assms by (intro session_delivery) (simp_all add: c_def)
  moreover have "useWrap tp" using assms(2) by (simp add: useWrap_def wrapKeyLen_def)
  ultimately show ?thesis
    unfolding sent
    using relayToPipe_reads [OF \<open>useWrap tp\<close> assms(7), of c replayWindow0 newc
        "nths (obfsWraps newc (WrapKey tp) cfg ps st cache ent) arrived" rcache strict k]
    by (simp add: c_def)
qed

section \<open>RunPing\<close>

text \<open>The errors come without the prefixes of a session.  \<open>PingError\<close> is the text of a package or of the context.\<close>

datatype ping_error = PingNoURL | PingBadURL string | PingDial session_error | PingError string | PingObfs string obfs_error

fun pingText :: "texts \<Rightarrow> ping_error \<Rightarrow> string" where
  "pingText x PingNoURL = utf8 [208, 189, 208, 181, 209, 130, 32, 84, 85, 82, 78, 32, 85, 82, 76]"
| "pingText x (PingBadURL url) = addrText x url"
| "pingText x (PingDial e) = sessionText x e"
| "pingText x (PingError e) = e"
| "pingText x (PingObfs what e) = ''RTP-obfs '' @ what @ '': '' @ obfsText x e"

definition pingEndpoint :: "TurnParams \<Rightarrow> string list \<Rightarrow> ping_error + string" where
  "pingEndpoint tp urls =
     (case urls of
        [] \<Rightarrow> Inl PingNoURL
      | url # _ \<Rightarrow>
          (case SplitHostPort url of
             None \<Rightarrow> Inl (PingBadURL url)
           | Some (h, p) \<Rightarrow>
               Inr (JoinHostPort (if tpHost tp \<noteq> [] then tpHost tp else h) (if tpPort tp \<noteq> [] then tpPort tp else p))))"

definition pingRelay :: "session_env \<Rightarrow> TurnParams \<Rightarrow> bytes \<Rightarrow> creds \<Rightarrow> bool \<Rightarrow> ping_error + unit" where
  "pingRelay e tp peer cr gated =
     (case cr of (user, pass, urls) \<Rightarrow>
      case pingEndpoint tp urls of
        Inl er \<Rightarrow> Inl er
      | Inr turnAddr \<Rightarrow>
          (case dialTURNConn (tnet e) turnAddr (tpTransport tp) of
             Inl er \<Rightarrow> Inl (PingDial er)
           | Inr _ \<Rightarrow>
               (case newClient e turnAddr user pass (addrFamily peer) of
                  Some t \<Rightarrow> Inl (PingError t)
                | None \<Rightarrow>
                    (case clientListen e of
                       Some t \<Rightarrow> Inl (PingError t)
                     | None \<Rightarrow>
                         (case (gated, ctxDone e) of
                            (True, Some t) \<Rightarrow> Inl (PingError t)
                          | _ \<Rightarrow> (case allocError e of Some t \<Rightarrow> Inl (PingError t) | None \<Rightarrow> Inr ()))))))"

text \<open>The times are those of \<open>time.Now\<close> in nanoseconds; the result is in milliseconds.  All resources are released by \<open>defer\<close>.\<close>

definition RunPing :: "session_env \<Rightarrow> TurnParams \<Rightarrow> bytes \<Rightarrow> creds \<Rightarrow> bool \<Rightarrow> int \<Rightarrow> int \<Rightarrow> ping_error + int" where
  "RunPing e tp peer cr gated startPing endPing =
     (case pingRelay e tp peer cr gated of
        Inl er \<Rightarrow> Inl er
      | Inr _ \<Rightarrow>
          (case (if useWrap tp then map_sum id Some (obfsPair (randomness e) (ObfsMode tp)) else Inr None) of
             Inl (ObfsFailed what er) \<Rightarrow> Inl (PingObfs what er)
           | Inl er \<Rightarrow> Inl (PingDial er)
           | Inr _ \<Rightarrow>
               (case certError e of
                  Some t \<Rightarrow> Inl (PingError t)
                | None \<Rightarrow>
                    (case dtlsError e of
                       Some t \<Rightarrow> Inl (PingError t)
                     | None \<Rightarrow>
                         (case handshakeError e of
                            Some t \<Rightarrow> Inl (PingError t)
                          | None \<Rightarrow> Inr ((endPing - startPing) div 1000000))))))"

text \<open>The endpoint of a ping is that of session 0.\<close>

lemma pingEndpoint_first: "(pingEndpoint tp urls = Inr a) = (turnEndpoint tp urls 0 = Inr a)"
  by (auto simp: pingEndpoint_def turnEndpoint_def Let_def split: list.splits option.splits)

lemma pingRelay_opens:
  assumes "urls \<noteq> []"
  shows "pingRelay e tp peer (user, pass, urls) True = Inr () \<longleftrightarrow>
    fst (openRelay (turn_env.truncate e) tp peer (user, pass, urls) sid 0 st) = None"
proof (cases "turnEndpoint tp urls 0")
  case (Inl er)
  then have "\<nexists>a. pingEndpoint tp urls = Inr a" using pingEndpoint_first by fastforce
  then show ?thesis using Inl by (auto simp: pingRelay_def openRelay_def split: sum.splits)
next
  case (Inr a)
  then show ?thesis using pingEndpoint_first [of tp urls a]
    by (auto simp: pingRelay_def openRelay_def allocateRelay_def turn_env.truncate_def split: sum.splits option.splits)
qed

text \<open>
  A ping measures exactly when a DTLS session with the same credentials would get as far as its first message, whatever
  channel the profile asks for: it never takes the direct connection.
\<close>

lemma ping_like_session:
  "(\<exists>ms. RunPing e tp peer (user, pass, urls) True t0 t1 = Inr ms) \<longleftrightarrow>
     fst (openRelay (turn_env.truncate e) tp peer (user, pass, urls) sid 0 st) = None \<and>
     (\<exists>c. openChannel (e\<lparr>slotDone := None\<rparr>) (tp\<lparr>tpNoDTLS := False, tpRawMode := False\<rparr>) = Inr (Dtls c))"
proof -
  have r: "pingRelay e tp peer (user, pass, urls) True = Inr () \<longleftrightarrow> fst (openRelay (turn_env.truncate e) tp peer (user, pass, urls) sid 0 st) = None"
  proof (cases "urls = []")
    case True
    then show ?thesis by (simp add: pingRelay_def pingEndpoint_def openRelay_def turnEndpoint_def)
  qed (rule pingRelay_opens)
  have u: "useWrap (tp\<lparr>tpNoDTLS := False, tpRawMode := False\<rparr>) = useWrap tp" by (simp add: useWrap_def)
  show ?thesis
    unfolding r [symmetric]
    by (auto simp: RunPing_def openChannel_def u split: sum.splits option.splits session_error.splits)
qed

end
