(* ===== verification/Wireproxy.thy ===== *)
theory Wireproxy
  imports Router
begin

text \<open>
  The SOCKS5 runner of \<open>internal/core/wireproxy_runner.go\<close>: starting a user-space WireGuard device and a SOCKS5 listener, which
  of the two upstreams a request takes, and stopping.

  The packages \<open>wireproxy\<close> and \<open>go-socks5\<close> are reached through \<open>wp_env\<close>: what the parser makes of a configuration text
  and the WireGuard configuration it refers to, and which of the calls succeed.  What the process holds of the machine is explicit: temporary files, open devices, listeners.
\<close>

section \<open>State\<close>

text \<open>A routine of a parsed configuration is a SOCKS5 section with address and credentials, or something else.\<close>

datatype routine = Socks5 string string string | OtherRoutine

record wp_env =
  wTempName :: string
  wTempOk :: bool
  wWriteOk :: bool
  wConfOk :: bool
  ParseConfig :: "string \<Rightarrow> string \<Rightarrow> routine list option"
  StartWireguard :: bool
  canListen :: "string \<Rightarrow> bool"

record host =
  hFiles :: "string set"
  hDevices :: nat
  hListening :: "string list"

datatype authenticator = NoAuth | UserPass string string

record WireproxyRunner =
  wPort :: int
  wUser :: string
  wPass :: string
  wBind :: string
  wRouter :: Router
  wTun :: bool
  wCancel :: bool
  wCancelled :: bool
  wListener :: "(string \<times> authenticator) option"

definition NewWireproxyRunner :: "(string \<Rightarrow> string) \<Rightarrow> int \<Rightarrow> string \<Rightarrow> string \<Rightarrow> string \<Rightarrow> string list \<Rightarrow> string list \<Rightarrow> WireproxyRunner" where
  "NewWireproxyRunner lower port user pass bind bypassDomains bypassIPs =
     \<lparr>wPort = port, wUser = user, wPass = pass, wBind = (if bind = [] then ''127.0.0.1'' else bind),
      wRouter = NewRouter lower bypassDomains bypassIPs, wTun = False, wCancel = False, wCancelled = False, wListener = None\<rparr>"

section \<open>Requests\<close>

definition SetBypass :: "(string \<Rightarrow> string) \<Rightarrow> string list \<Rightarrow> string list \<Rightarrow> WireproxyRunner \<Rightarrow> WireproxyRunner" where
  "SetBypass lower ds ips w = w\<lparr>wRouter := Update lower ds ips (wRouter w)\<rparr>"

text \<open>A request with a name, or with an address only, goes where the router sends it.\<close>

definition dialUpstream :: "(string \<Rightarrow> string) \<Rightarrow> (bytes \<Rightarrow> string) \<Rightarrow> WireproxyRunner \<Rightarrow> string option \<Rightarrow> bytes option \<Rightarrow> upstream" where
  "dialUpstream lower show_ip w fqdn ip = fst (Resolve lower (wRouter w) (dialHost show_ip fqdn ip))"

section \<open>Start and Stop\<close>

definition wireproxyConf :: "string \<Rightarrow> WireproxyRunner \<Rightarrow> string" where
  "wireproxyConf tmp w =
     ''WGConfig = '' @ tmp @ [newline] @
     ''[Socks5]'' @ [newline] @ ''BindAddress = '' @ wBind w @ '':'' @ Itoa (wPort w) @ [newline] @
     (if wUser w \<noteq> [] then ''Username = '' @ wUser w @ [newline] @ ''Password = '' @ wPass w @ [newline] else [])"

datatype start_error = TempFailed | TempWriteFailed | ConfWriteFailed | ConfParseFailed | WireguardFailed | ListenFailed string

definition authOf :: "string \<Rightarrow> string \<Rightarrow> authenticator" where
  "authOf user pass = (if user \<noteq> [] then UserPass user pass else NoAuth)"

text \<open>The routines of the configuration in their order; a listener that cannot be opened ends the loop.\<close>

fun spawnAll :: "wp_env \<Rightarrow> routine list \<Rightarrow> WireproxyRunner \<Rightarrow> host \<Rightarrow> start_error option \<times> WireproxyRunner \<times> host" where
  "spawnAll we [] w h = (None, w, h)"
| "spawnAll we (OtherRoutine # rs) w h = spawnAll we rs w h"
| "spawnAll we (Socks5 bind user pass # rs) w h =
     (if \<not> canListen we bind then (Some (ListenFailed bind), w, h)
      else spawnAll we rs (w\<lparr>wListener := Some (bind, authOf user pass)\<rparr>) (h\<lparr>hListening := bind # hListening h\<rparr>))"

text \<open>The deferred removals run on every way out; \<open>wireproxy.conf\<close> lies in the directory of the temporary file.\<close>

definition confPath :: "string \<Rightarrow> string" where
  "confPath tmp = rev (dropWhile (\<lambda>c. c \<noteq> CHR ''/'') (rev tmp)) @ ''wireproxy.conf''"

definition runConf :: "wp_env \<Rightarrow> routine list \<Rightarrow> WireproxyRunner \<Rightarrow> host \<Rightarrow> start_error option \<times> WireproxyRunner \<times> host" where
  "runConf we rs w h =
     (let w1 = w\<lparr>wCancel := True\<rparr> in
      if \<not> StartWireguard we then (Some WireguardFailed, w1\<lparr>wCancelled := True\<rparr>, h)
      else spawnAll we rs (w1\<lparr>wTun := True\<rparr>) (h\<lparr>hDevices := hDevices h + 1\<rparr>))"

definition runnerStart :: "wp_env \<Rightarrow> string \<Rightarrow> WireproxyRunner \<Rightarrow> host \<Rightarrow> start_error option \<times> WireproxyRunner \<times> host" where
  "runnerStart we wgConfig w h =
     (if \<not> wTempOk we then (Some TempFailed, w, h)
      else
        let h1 = h\<lparr>hFiles := insert (wTempName we) (hFiles h)\<rparr>;
            dropTemp = (\<lambda>(e, w, h). (e, w, h\<lparr>hFiles := hFiles h - {wTempName we}\<rparr>))
        in dropTemp
          (if \<not> wWriteOk we then (Some TempWriteFailed, w, h1)
           else
             if \<not> wConfOk we then (Some ConfWriteFailed, w, h1)
             else
               let conf = confPath (wTempName we); h2 = h1\<lparr>hFiles := insert conf (hFiles h1)\<rparr>;
                   dropConf = (\<lambda>(e, w, h). (e, w, h\<lparr>hFiles := hFiles h - {conf}\<rparr>))
               in dropConf
                 (case ParseConfig we wgConfig (wireproxyConf (wTempName we) w) of
                    None \<Rightarrow> (Some ConfParseFailed, w, h2)
                  | Some rs \<Rightarrow> runConf we rs w h2)))"

definition runnerStop :: "WireproxyRunner \<Rightarrow> host \<Rightarrow> WireproxyRunner \<times> host" where
  "runnerStop w h =
     (w\<lparr>wCancelled := (wCancelled w \<or> wCancel w), wListener := None, wTun := False\<rparr>,
      h\<lparr>hListening := (case wListener w of Some (bind, _) \<Rightarrow> remove1 bind (hListening h) | None \<Rightarrow> hListening h),
        hDevices := (if wTun w then hDevices h - 1 else hDevices h)\<rparr>)"

section \<open>Nothing is left\<close>

definition socksRoutines :: "routine list \<Rightarrow> nat" where
  "socksRoutines rs = length (filter (\<lambda>r. r \<noteq> OtherRoutine) rs)"

text \<open>What a fresh runner holds of the machine, compared with the machine before it.\<close>

definition holds_only :: "WireproxyRunner \<Rightarrow> host \<Rightarrow> host \<Rightarrow> bool" where
  "holds_only w h0 h \<longleftrightarrow>
     hDevices h = hDevices h0 + (if wTun w then 1 else 0) \<and>
     hListening h = (case wListener w of Some (b, _) \<Rightarrow> [b] | None \<Rightarrow> []) @ hListening h0"

lemma spawn_none: "socksRoutines rs = 0 \<Longrightarrow> spawnAll we rs w h = (None, w, h)"
proof (induction rs)
  case (Cons r rs) then show ?case by (cases r) (auto simp: socksRoutines_def)
qed simp

lemma spawn_holds:
  assumes "spawnAll we rs w h = (e, w', h')" "socksRoutines rs \<le> 1" "wListener w = None" "holds_only w h0 h"
  shows "holds_only w' h0 h' \<and> hFiles h' = hFiles h"
  using assms
proof (induction rs arbitrary: w h)
  case (Cons r rs)
  show ?case
  proof (cases r)
    case (Socks5 bind user pass)
    have "socksRoutines rs = 0" using Cons.prems(2) Socks5 by (simp add: socksRoutines_def)
    then show ?thesis
      using Cons.prems Socks5 spawn_none by (auto simp: holds_only_def split: if_splits)
  next
    case OtherRoutine then show ?thesis using Cons by (simp add: socksRoutines_def)
  qed
qed simp

lemma stop_releases: "holds_only w h0 h \<Longrightarrow> snd (runnerStop w h) = h0\<lparr>hFiles := hFiles h\<rparr>"
  by (cases h0; cases h) (auto simp: holds_only_def runnerStop_def split: option.splits prod.splits)

lemma run_holds:
  assumes "runConf we rs w h = (e, w', h')" "socksRoutines rs \<le> 1" "wTun w = False" "wListener w = None"
  shows "holds_only w' h h' \<and> hFiles h' = hFiles h"
proof (cases "StartWireguard we")
  case True
  let ?w = "w\<lparr>wCancel := True, wTun := True\<rparr>" and ?h = "h\<lparr>hDevices := hDevices h + 1\<rparr>"
  have "spawnAll we rs ?w ?h = (e, w', h')" using assms(1) True by (simp add: runConf_def Let_def)
  moreover have "holds_only ?w h ?h" using assms(4) by (simp add: holds_only_def)
  ultimately show ?thesis using spawn_holds [of we rs ?w ?h e w' h' h] assms(2,4) by simp
qed (use assms in \<open>auto simp: runConf_def Let_def holds_only_def\<close>)

definition single_socks :: "wp_env \<Rightarrow> bool" where
  "single_socks we \<longleftrightarrow> (\<forall>wgc text rs. ParseConfig we wgc text = Some rs \<longrightarrow> socksRoutines rs \<le> 1)"

definition fresh_names :: "wp_env \<Rightarrow> host \<Rightarrow> bool" where
  "fresh_names we h \<longleftrightarrow> wTempName we \<notin> hFiles h \<and> confPath (wTempName we) \<notin> hFiles h"

text \<open>
  On every path, errors included, \<open>Start\<close> followed by \<open>Stop\<close> returns the devices, listeners and files of the machine as they
  were.
\<close>

lemma runner_start_holds:
  assumes "single_socks we" "fresh_names we h" "wTun w = False" "wListener w = None" "runnerStart we wgConfig w h = (e, w', h')"
  shows "holds_only w' h h' \<and> hFiles h' = hFiles h"
proof -
  define t where "t = wTempName we"
  define c where "c = confPath t"
  have f: "t \<notin> hFiles h" "c \<notin> hFiles h" using assms(2) by (simp_all add: fresh_names_def t_def c_def)
  have base: "holds_only w h (h\<lparr>hFiles := F\<rparr>)" for F using assms(3,4) by (simp add: holds_only_def)
  define k where "k = h\<lparr>hFiles := insert t (hFiles h)\<rparr>"
  define h2 where "h2 = k\<lparr>hFiles := insert c (hFiles k)\<rparr>"
  define core where "core = (case ParseConfig we wgConfig (wireproxyConf t w) of None \<Rightarrow> (Some ConfParseFailed, w, h2) | Some rs \<Rightarrow> runConf we rs w h2)"
  obtain e1 w1 h1 where r: "core = (e1, w1, h1)" by (cases core)
  have in1: "holds_only w1 h2 h1 \<and> hFiles h1 = insert c (insert t (hFiles h))"
  proof (cases "ParseConfig we wgConfig (wireproxyConf t w)")
    case None then show ?thesis using r assms(3,4) by (auto simp: core_def h2_def k_def holds_only_def)
  next
    case (Some rs)
    then have "runConf we rs w h2 = (e1, w1, h1)" using r by (simp add: core_def)
    from run_holds [OF this _ assms(3,4)] Some assms(1) show ?thesis by (auto simp: single_socks_def h2_def k_def)
  qed
  then have in2: "holds_only w1 h h1" by (simp add: holds_only_def h2_def k_def)
  have shape: "runnerStart we wgConfig w h =
      (if \<not> wTempOk we then (Some TempFailed, w, h)
       else if \<not> wWriteOk we then (Some TempWriteFailed, w, h\<lparr>hFiles := insert t (hFiles h) - {t}\<rparr>)
       else if \<not> wConfOk we then (Some ConfWriteFailed, w, h\<lparr>hFiles := insert t (hFiles h) - {t}\<rparr>)
       else (e1, w1, h1\<lparr>hFiles := hFiles h1 - {c} - {t}\<rparr>))"
    unfolding runnerStart_def Let_def t_def [symmetric] c_def [symmetric] k_def [symmetric] h2_def [symmetric] core_def [symmetric] r
    by (simp add: k_def)
  have files: "hFiles h1 - {c} - {t} = hFiles h" "insert t (hFiles h) - {t} = hFiles h" using in1 f by auto
  have last: "holds_only w1 h (h1\<lparr>hFiles := hFiles h\<rparr>)" using in2 by (simp add: holds_only_def)
  have same: "holds_only w h h" using assms(3,4) by (simp add: holds_only_def)
  have "case runnerStart we wgConfig w h of (e, w', h') \<Rightarrow> holds_only w' h h' \<and> hFiles h' = hFiles h"
    unfolding shape files using base [of "hFiles h"] last same by simp
  then show ?thesis using assms(5) by simp
qed

lemma runner_leaves_nothing:
  assumes "single_socks we" "fresh_names we h" "wTun w = False" "wListener w = None" "runnerStart we wgConfig w h = (e, w', h')"
  shows "snd (runnerStop w' h') = h"
  using runner_start_holds [OF assms] stop_releases [of w' h h'] by simp

text \<open>
  A start that fails to listen has opened the device, and only \<open>Stop\<close> closes it; the loop of \<open>connect.go\<close> does not call it.
\<close>

lemma failed_listen_keeps_device:
  assumes "runnerStart we wgConfig w h = (Some (ListenFailed b), w', h')"
  shows "wTun w' \<and> hDevices h' \<ge> hDevices h + 1"
proof -
  have spawn: "spawnAll we rs u k = (Some (ListenFailed b), u', k') \<Longrightarrow> wTun u' = wTun u \<and> hDevices k' = hDevices k" for rs u k u' k'
    by (induction we rs u k rule: spawnAll.induct) (auto split: if_splits)
  show ?thesis
    using assms
    by (auto simp: runnerStart_def runConf_def Let_def split: if_splits option.splits prod.splits dest!: spawn)
qed

end
