(* ===== verification/Tester.thy ===== *)
theory Tester
  imports Connect_Exit Wireproxy
begin

text \<open>
  The command \<open>test\<close> of \<open>test.go\<close>: which profiles and links it tests and in which order, the test of one profile as a loop over
  timer, ticker, captcha results and events of the core, the Internet check, and the clean-up after every test.
\<close>

section \<open>Options and capabilities\<close>

record test_opts =
  tMode :: string
  tSocksPort :: int
  tSocksUser :: string
  tSocksPass :: string
  tPub :: bool
  tListen :: string
  tTransport :: string
  tRo :: bool
  tEnabled :: bool
  tDisabled :: bool
  tGroup :: string
  tSub :: bool

datatype test_refusal =
    ListenAndPub | PubNeedsSocks | ListenNeedsSocks | BadListen listen_error | BadMode string | EnabledAndDisabled
  | BadLink string link_error | NotReadOnlyName string | IsDisabled string | IsEnabled string

definition testFlagCheck :: "iface list option \<Rightarrow> test_opts \<Rightarrow> test_refusal option" where
  "testFlagCheck ifaces o1 =
     (if tListen o1 \<noteq> [] \<and> tPub o1 then Some ListenAndPub
      else if tPub o1 \<and> tMode o1 \<noteq> ''socks'' then Some PubNeedsSocks
      else if tListen o1 \<noteq> [] \<and> tMode o1 \<noteq> ''socks'' then Some ListenNeedsSocks
      else if tListen o1 \<noteq> [] then map_option BadListen (validateSocksListenAddr ifaces (tListen o1))
      else None)"

text \<open>The effective capabilities in \<open>/proc/self/status\<close>; bit 12 is CAP_NET_ADMIN.\<close>

definition hexDigit :: "char \<Rightarrow> nat option" where
  "hexDigit c =
     (let v = of_char c in
      if 48 \<le> v \<and> v \<le> 57 then Some (v - 48)
      else if 97 \<le> v \<and> v \<le> 102 then Some (v - 87)
      else if 65 \<le> v \<and> v \<le> 70 then Some (v - 55) else None)"

definition scanHex :: "string \<Rightarrow> nat option" where
  "scanHex s =
     (let ds = takeWhile (\<lambda>c. hexDigit c \<noteq> None) (dropWhile (\<lambda>c. c = CHR '' '' \<or> c = CHR 0x09) s);
          v = foldl (\<lambda>a c. 16 * a + the (hexDigit c)) 0 ds
      in if ds = [] \<or> v \<ge> 2 ^ 64 then None else Some v)"

definition hasCapNetAdmin :: "int \<Rightarrow> string option \<Rightarrow> bool" where
  "hasCapNetAdmin euid status =
     (if euid = 0 then True
      else case status of
        None \<Rightarrow> False
      | Some s \<Rightarrow>
          (case find (\<lambda>l. HasPrefix l ''CapEff:'') (SplitByte newline s) of
             None \<Rightarrow> False
           | Some l \<Rightarrow> (case scanHex (TrimPrefix l ''CapEff:'') of None \<Rightarrow> False | Some caps \<Rightarrow> bit caps 12)))"

section \<open>What is tested\<close>

fun classify :: "io \<Rightarrow> store \<Rightarrow> test_opts \<Rightarrow> string list \<Rightarrow> test_refusal + (WdttLink \<times> string) list \<times> string list" where
  "classify io s o1 [] = Inr ([], [])"
| "classify io s o1 (arg # args) =
     (if HasPrefix arg ''wdtt://'' \<or> HasPrefix arg ''qwdtt://'' then
        (case parseLink arg of
           Inl e \<Rightarrow> Inl (BadLink arg e)
         | Inr l \<Rightarrow> map_sum id (\<lambda>(ls, ns). ((l, arg) # ls, ns)) (classify io s o1 args))
      else if tRo o1 \<and> \<not> isRO arg then Inl (NotReadOnlyName arg)
      else if tEnabled o1 \<and> \<not> isProfileEnabled io s arg then Inl (IsDisabled arg)
      else if tDisabled o1 \<and> isProfileEnabled io s arg then Inl (IsEnabled arg)
      else map_sum id (\<lambda>(ls, ns). (ls, arg # ns)) (classify io s o1 args))"

definition allTargets :: "io \<Rightarrow> store \<Rightarrow> test_opts \<Rightarrow> string list" where
  "allTargets io s o1 =
     (let ns = (if tRo o1 then listReadOnlyProfileNames s
                else if tSub o1 then profilesInAllSubscriptions io s else listAllProfileNames s);
          ns1 = (if tEnabled o1 then filter (isProfileEnabled io s) ns else ns)
      in if tDisabled o1 then filter (\<lambda>n. \<not> isProfileEnabled io s n) ns1 else ns1)"

text \<open>The order of the tests: by falling priority, then by name.\<close>

definition testOrder :: "io \<Rightarrow> store \<Rightarrow> string list \<Rightarrow> string list" where
  "testOrder io s ns = sort_key (\<lambda>n. - profilePriority io s n) (sort ns)"

datatype selection =
    Refused test_refusal
  | NothingToTest
  | Selected "(WdttLink \<times> string) list" "string list"

definition testSelect :: "iface list option \<Rightarrow> io \<Rightarrow> store \<Rightarrow> test_opts \<Rightarrow> string list \<Rightarrow> selection" where
  "testSelect ifaces io s o1 args0 =
     (case testFlagCheck ifaces o1 of
        Some r \<Rightarrow> Refused r
      | None \<Rightarrow>
          (let members = profilesInGroup io s (tGroup o1);
               args1 = (if tGroup o1 \<noteq> [] then members @ args0 else args0);
               bySub = tSub o1 \<and> tGroup o1 = [] \<and> args1 = [];
               args2 = (if bySub then profilesInAllSubscriptions io s else args1);
               args = expandProfileMasks s args2
           in if tGroup o1 \<noteq> [] \<and> members = [] \<or> bySub \<and> args2 = [] then NothingToTest
              else if tMode o1 \<notin> {''tun'', ''raw'', ''socks''} then Refused (BadMode (tMode o1))
              else if tEnabled o1 \<and> tDisabled o1 then Refused EnabledAndDisabled
              else case classify io s o1 args of
                Inl r \<Rightarrow> Refused r
              | Inr (ls, ns) \<Rightarrow>
                  (let ns1 = (if args = [] then allTargets io s o1 else ns)
                   in if ls = [] \<and> ns1 = [] then NothingToTest else Selected ls (testOrder io s ns1))))"

section \<open>Configuration of the core\<close>

definition testConfig :: "test_opts \<Rightarrow> string \<Rightarrow> string \<Rightarrow> string \<Rightarrow> string list \<Rightarrow> string \<Rightarrow> string \<Rightarrow> string \<Rightarrow> int \<Rightarrow> Config" where
  "testConfig o1 deviceID peer pass hashes listen host port workers =
     \<lparr>PeerAddr = peer, cfgPassword = pass, cfgHashes = hashes,
      Listen = (if tMode o1 = ''socks'' then ''127.0.0.1:0'' else if listen = [] then ''127.0.0.1:9000'' else listen),
      TurnHost = host, TurnPort = port, DeviceID = deviceID, cfgWorkers = workers, CaptchaMode = ''auto'', MTU = 1280,
      DNS = ''yandex'', Mode = tMode o1, SocksPort = tSocksPort o1, SocksUser = tSocksUser o1, SocksPass = tSocksPass o1,
      SocksBindAddr =
        (if tMode o1 \<noteq> ''socks'' then [] else if tPub o1 then ''0.0.0.0''
         else if tListen o1 \<noteq> [] then tListen o1 else ''127.0.0.1''),
      WGRawConfig = [], RawMode = (tMode o1 = ''raw''), NoDTLS = False, Transport = tTransport o1, RawPort = ''56003''\<rparr>"

definition profileConfig :: "test_opts \<Rightarrow> string \<Rightarrow> ProfileData \<Rightarrow> Config" where
  "profileConfig o1 deviceID p =
     testConfig o1 deviceID (pPeerAddr p) (pPassword p) (pHashes p) (pListen p) (pTurnHost p) (pTurnPort p)
       (if pWorkers p \<le> 0 then 9 else pWorkers p)"

definition linkConfig :: "test_opts \<Rightarrow> string \<Rightarrow> WdttLink \<Rightarrow> Config" where
  "linkConfig o1 deviceID l =
     testConfig o1 deviceID (IP l @ '':'' @ DTLSPort l) (Password l) (Hashes l) (''127.0.0.1:'' @ Port l) [] [] (Workers l)"

section \<open>The Internet check\<close>

datatype probe = Ping string string | Curl int string
datatype mark = Pass | Fail | NotRun

definition checkHosts :: "string list" where
  "checkHosts = [''8.8.8.8'', ''1.1.1.1'', ''9.9.9.9'', ''208.67.222.222'']"

text \<open>\<open>answers\<close> tells which probe succeeds in which round; raw mode has a second round after a pause.\<close>

definition testInternetCheck :: "string \<Rightarrow> int \<Rightarrow> (nat \<Rightarrow> probe \<Rightarrow> bool) \<Rightarrow> mark" where
  "testInternetCheck mode port answers =
     (if mode = ''tun'' then (if list_ex (\<lambda>h. answers 0 (Ping wgIface h)) checkHosts then Pass else Fail)
      else if mode = ''raw'' then
        (if list_ex (\<lambda>h. answers 0 (Ping RawIfaceName h)) checkHosts then Pass
         else if list_ex (\<lambda>h. answers 1 (Ping RawIfaceName h)) checkHosts then Pass else Fail)
      else (if list_ex (\<lambda>h. answers 0 (Curl port h)) checkHosts then Pass else Fail))"

definition connHosts :: "string list" where
  "connHosts = [''1.1.1.1'', ''8.8.8.8'', ''208.67.222.222'']"

definition testRawConnectivity :: "'k netlink \<Rightarrow> (nat \<Rightarrow> probe \<Rightarrow> bool) \<Rightarrow> 'k \<Rightarrow> bool" where
  "testRawConnectivity nl answers k =
     (LinkByName nl RawIfaceName k \<noteq> None \<and> list_ex (\<lambda>h. answers 0 (Ping RawIfaceName h)) connHosts)"

definition testWGConnectivity :: "'k netlink \<Rightarrow> (nat \<Rightarrow> probe \<Rightarrow> bool) \<Rightarrow> 'k \<Rightarrow> bool" where
  "testWGConnectivity nl answers k =
     (LinkByName nl wgIface k \<noteq> None \<and> list_ex (\<lambda>h. answers 0 (Ping wgIface h)) connHosts)"

section \<open>One test\<close>

datatype test_error = AlreadyRunning | LoadFailed store_error | NeedsCap | CoreFailed core_error

record TestResult =
  rProfile :: string
  rVKAuth :: bool
  rConnect :: bool
  rInternet :: mark
  rError :: "test_error option"

definition resultPassed :: "TestResult \<Rightarrow> bool" where
  "resultPassed r \<longleftrightarrow> rVKAuth r \<and> rConnect r \<and> rInternet r = Pass"

definition failedResult :: "string \<Rightarrow> test_error \<Rightarrow> TestResult" where
  "failedResult name e = \<lparr>rProfile = name, rVKAuth = False, rConnect = False, rInternet = NotRun, rError = Some e\<rparr>"

record 'k test_world =
  tproc :: "'k proc"
  thost :: host
  tstore :: store
  tsockets :: "string set"

record test_state =
  vkAuthPassed :: bool
  connectPassed :: bool
  wgApplied :: bool
  rawApplied :: bool
  wr :: "WireproxyRunner option"
  internet :: mark
  solved :: "string list"

definition freshTest :: test_state where
  "freshTest = \<lparr>vkAuthPassed = False, connectPassed = False, wgApplied = False, rawApplied = False, wr = None, internet = NotRun, solved = []\<rparr>"

text \<open>What the handler of an event meets: whether VK authentication has passed, the TURN addresses, the resolver, the runner, the probes.\<close>

record test_ctx =
  cVkAuth :: bool
  cTurnIPs :: "string list"
  cResolver :: resolver
  cWp :: wp_env
  cAnswers :: "nat \<Rightarrow> probe \<Rightarrow> bool"

datatype test_input =
    Timeout
  | Tick bool
  | Solved string
  | Closed
  | Event event test_ctx

text \<open>The two calls that bring the tunnel up, and whether they succeeded.\<close>

definition bringUp :: "'k machine \<Rightarrow> Config \<Rightarrow> string \<Rightarrow> test_ctx \<Rightarrow> test_state \<Rightarrow> 'k test_world \<Rightarrow> bool \<times> test_state \<times> 'k test_world" where
  "bringUp m cfg conf c t w =
     (let t1 = t\<lparr>wgApplied := True\<rparr> in
      if Mode cfg = ''socks'' then
        (case runnerStart (cWp c) conf
                (NewWireproxyRunner (ToLower (mEnv m)) (SocksPort cfg) (SocksUser cfg) (SocksPass cfg) (SocksBindAddr cfg) [] [])
                (thost w) of
           (e, r, h) \<Rightarrow> (e = None, t1\<lparr>wr := Some r\<rparr>, w\<lparr>thost := h\<rparr>))
      else
        (case applyWGConfig (mNl m) (mPs m) (cResolver c) conf (cTurnIPs c) None (tproc w) of
           (e, p) \<Rightarrow> (e = None, t1, w\<lparr>tproc := p\<rparr>)))"

definition onTestConfig :: "'k machine \<Rightarrow> Config \<Rightarrow> string \<Rightarrow> test_ctx \<Rightarrow> test_state \<Rightarrow> 'k test_world \<Rightarrow> bool \<times> test_state \<times> 'k test_world" where
  "onTestConfig m cfg conf c t w =
     (case bringUp m cfg conf c t w of
        (False, t1, w1) \<Rightarrow> (False, t1, w1)
      | (True, t1, w1) \<Rightarrow>
          (True, t1\<lparr>connectPassed := True,
             internet := (if Mode cfg = ''tun'' then testInternetCheck ''tun'' 0 (cAnswers c)
                          else testInternetCheck ''socks'' (SocksPort cfg) (cAnswers c))\<rparr>, w1))"

definition onTestRaw :: "'k machine \<Rightarrow> test_ctx \<Rightarrow> test_state \<Rightarrow> 'k test_world \<Rightarrow> test_state \<times> 'k test_world" where
  "onTestRaw m c t w =
     (let p = tproc w;
          p1 = (case defaultGateway (mNl m) (kern p) of Some gw \<Rightarrow> applyTurnIPsBypass (mNl m) (cTurnIPs c) gw p | None \<Rightarrow> p)
      in (t\<lparr>rawApplied := True, connectPassed := True, internet := testInternetCheck ''raw'' 0 (cAnswers c)\<rparr>, w\<lparr>tproc := p1\<rparr>))"

definition seeAuth :: "bool \<Rightarrow> test_state \<Rightarrow> test_state" where
  "seeAuth passed t = t\<lparr>vkAuthPassed := (vkAuthPassed t \<or> passed)\<rparr>"

definition allStagesDone :: "test_state \<Rightarrow> bool" where
  "allStagesDone t \<longleftrightarrow> vkAuthPassed t \<and> connectPassed t \<and> internet t = Pass"

text \<open>The result says whether the loop is done.\<close>

definition onTestEvent :: "'k machine \<Rightarrow> Config \<Rightarrow> event \<Rightarrow> test_ctx \<Rightarrow> test_state \<Rightarrow> 'k test_world \<Rightarrow> bool \<times> test_state \<times> 'k test_world" where
  "onTestEvent m cfg ev c t w =
     (case ev of
        EEvent name data \<Rightarrow>
          (let (good, t1, w1) = (if name = ''wg_config'' \<and> \<not> connectPassed t then onTestConfig m cfg data c t w else (True, t, w))
           in if \<not> good then (True, t1, w1)
              else
                let (t2, w2) = (if Mode cfg = ''raw'' \<and> name = ''raw_conf'' \<and> \<not> connectPassed t1 then onTestRaw m c t1 w1 else (t1, w1));
                    t3 = seeAuth (cVkAuth c) t2
                in (name = ''workers_completed'' \<or> allStagesDone t3, t3, w2))
      | EError _ \<Rightarrow> (True, seeAuth (cVkAuth c) t, w)
      | _ \<Rightarrow> (let t1 = seeAuth (cVkAuth c) t in (allStagesDone t1, t1, w)))"

text \<open>\<open>sock\<close> says whether there is a control socket, which the test of a link has not.\<close>

definition testStep :: "'k machine \<Rightarrow> Config \<Rightarrow> bool \<Rightarrow> test_input \<Rightarrow> test_state \<Rightarrow> 'k test_world \<Rightarrow> bool \<times> test_state \<times> 'k test_world" where
  "testStep m cfg sock i t w =
     (case i of
        Timeout \<Rightarrow> (True, t, w)
      | Tick passed \<Rightarrow> (False, seeAuth passed t, w)
      | Solved r \<Rightarrow> (False, if sock then t\<lparr>solved := SolveCaptcha r (solved t)\<rparr> else t, w)
      | Closed \<Rightarrow> (True, t, w)
      | Event ev c \<Rightarrow> onTestEvent m cfg ev c t w)"

fun testLoop :: "'k machine \<Rightarrow> Config \<Rightarrow> bool \<Rightarrow> test_input list \<Rightarrow> test_state \<Rightarrow> 'k test_world \<Rightarrow> (test_state \<times> 'k test_world) option" where
  "testLoop m cfg sock [] t w = None"
| "testLoop m cfg sock (i # is) t w =
     (case testStep m cfg sock i t w of
        (True, t1, w1) \<Rightarrow> Some (t1, w1)
      | (False, t1, w1) \<Rightarrow> testLoop m cfg sock is t1 w1)"

definition testCleanup :: "'k machine \<Rightarrow> Config \<Rightarrow> test_state \<Rightarrow> 'k test_world \<Rightarrow> 'k test_world" where
  "testCleanup m cfg t w =
     (let w1 = (if \<not> wgApplied t then w
                else case (if Mode cfg = ''socks'' then wr t else None) of
                  Some r \<Rightarrow> w\<lparr>thost := snd (runnerStop r (thost w))\<rparr>
                | None \<Rightarrow> w\<lparr>tproc := snd (teardownWG (mNl m) (tproc w))\<rparr>)
      in if rawApplied t then w1\<lparr>tproc := teardownTunnelRoutes (mNl m) (tproc w1)\<rparr> else w1)"

definition testBody :: "'k machine \<Rightarrow> start_env \<Rightarrow> Config \<Rightarrow> bool \<Rightarrow> string \<Rightarrow> test_input list \<Rightarrow> 'k test_world
    \<Rightarrow> (TestResult \<times> 'k test_world) option" where
  "testBody m se cfg sock name inputs w =
     (case New cfg of
        Inl e \<Rightarrow> Some (failedResult name (CoreFailed e), w)
      | Inr (cfg1, _) \<Rightarrow>
          (case Start (sNet se) (sHkdf se) (sSocketOk se) cfg1 of
             Inl e \<Rightarrow> Some (failedResult name (CoreFailed e), w)
           | Inr _ \<Rightarrow>
               map_option
                 (\<lambda>(t, w1). (\<lparr>rProfile = name, rVKAuth = vkAuthPassed t, rConnect = connectPassed t, rInternet = internet t, rError = None\<rparr>,
                    testCleanup m cfg t w1))
                 (testLoop m cfg sock inputs freshTest w)))"

text \<open>What a test meets: the daemons, the capability, whether the control socket opens, the start of the core, the messages.\<close>

record test_run =
  trDaemons :: run_env
  trCap :: bool
  trSocketOk :: bool
  trStart :: start_env
  trInputs :: "test_input list"

definition testProfile :: "'k machine \<Rightarrow> test_opts \<Rightarrow> test_run \<Rightarrow> string \<Rightarrow> 'k test_world \<Rightarrow> (TestResult \<times> 'k test_world) option" where
  "testProfile m o1 r name w =
     (if isDaemonRunning (trDaemons r) name then Some (failedResult name AlreadyRunning, w)
      else case loadProfile (mIo m) (tstore w) name of
        Inl e \<Rightarrow> Some (failedResult name (LoadFailed e), w)
      | Inr prof \<Rightarrow>
          (let (deviceID, st) = (if pDeviceID prof = [] then getOrCreateDeviceID (mIo m) (sDraw (trStart r)) (tstore w)
                                 else (pDeviceID prof, tstore w));
               cfg = profileConfig o1 deviceID prof;
               w1 = w\<lparr>tstore := st, tsockets := (if trSocketOk r then insert name (tsockets w) else tsockets w - {name})\<rparr>;
               stop = (\<lambda>w. w\<lparr>tsockets := tsockets w - {name}\<rparr>)
           in if tMode o1 \<noteq> ''socks'' \<and> \<not> trCap r then Some (failedResult name NeedsCap, stop w1)
              else map_option (\<lambda>(res, w2). (res, stop w2)) (testBody m (trStart r) cfg True name (trInputs r) w1)))"

definition testProfileFromLink :: "'k machine \<Rightarrow> test_opts \<Rightarrow> test_run \<Rightarrow> WdttLink \<Rightarrow> string \<Rightarrow> 'k test_world
    \<Rightarrow> (TestResult \<times> 'k test_world) option" where
  "testProfileFromLink m o1 r link label w =
     (case getOrCreateDeviceID (mIo m) (sDraw (trStart r)) (tstore w) of
        (deviceID, st) \<Rightarrow> testBody m (trStart r) (linkConfig o1 deviceID link) False label (trInputs r) (w\<lparr>tstore := st\<rparr>))"

section \<open>The command\<close>

datatype target = ByLink WdttLink string | ByName string

definition testOne :: "'k machine \<Rightarrow> test_opts \<Rightarrow> target \<Rightarrow> test_run \<Rightarrow> 'k test_world \<Rightarrow> (TestResult \<times> 'k test_world) option" where
  "testOne m o1 x r w =
     (case x of ByLink l label \<Rightarrow> testProfileFromLink m o1 r l label w | ByName name \<Rightarrow> testProfile m o1 r name w)"

fun testAll :: "'k machine \<Rightarrow> test_opts \<Rightarrow> (target \<times> test_run) list \<Rightarrow> 'k test_world \<Rightarrow> (TestResult list \<times> 'k test_world) option" where
  "testAll m o1 [] w = Some ([], w)"
| "testAll m o1 ((x, r) # xs) w =
     (case testOne m o1 x r w of
        None \<Rightarrow> None
      | Some (res, w1) \<Rightarrow> map_option (\<lambda>(rs, w2). (res # rs, w2)) (testAll m o1 xs w1))"

definition testTargets :: "(WdttLink \<times> string) list \<Rightarrow> string list \<Rightarrow> target list" where
  "testTargets ls ns = map (\<lambda>(l, label). ByLink l label) ls @ map ByName ns"

datatype test_outcome = TestRefused test_refusal | TestNothing | Tested "TestResult list" nat nat

text \<open>Links come first; \<open>runs\<close> gives what each test meets.  The summary counts passed and failed tests.\<close>

definition testCmd :: "'k machine \<Rightarrow> iface list option \<Rightarrow> test_opts \<Rightarrow> string list \<Rightarrow> (nat \<Rightarrow> test_run) \<Rightarrow> 'k test_world
    \<Rightarrow> (test_outcome \<times> 'k test_world) option" where
  "testCmd m ifaces o1 args runs w =
     (case testSelect ifaces (mIo m) (tstore w) o1 args of
        Refused r \<Rightarrow> Some (TestRefused r, w)
      | NothingToTest \<Rightarrow> Some (TestNothing, w)
      | Selected ls ns \<Rightarrow>
          (let xs = testTargets ls ns in
           map_option (\<lambda>(rs, w1). (Tested rs (length (filter resultPassed rs)) (length (filter (\<lambda>r. \<not> resultPassed r) rs)), w1))
             (testAll m o1 (zip xs (map runs [0..<length xs])) w)))"

section \<open>Nothing is left behind\<close>

lemma lasts_frame [simp]:
  "wgApplied (seeAuth b t) = wgApplied t" "rawApplied (seeAuth b t) = rawApplied t" "wr (seeAuth b t) = wr t"
  "connectPassed (seeAuth b t) = connectPassed t" "internet (seeAuth b t) = internet t"
  by (simp_all add: seeAuth_def)

text \<open>The runner holds exactly what the machine has more than at the beginning.\<close>

definition host_inv :: "host \<Rightarrow> test_state \<Rightarrow> host \<Rightarrow> bool" where
  "host_inv h0 t h \<longleftrightarrow>
     (case wr t of None \<Rightarrow> h = h0 | Some r \<Rightarrow> holds_only r h0 h \<and> hFiles h = hFiles h0)"

definition test_inv :: "'k netlink \<Rightarrow> ('k \<Rightarrow> ipnet \<Rightarrow> hop option) \<Rightarrow> 'k \<Rightarrow> host \<Rightarrow> Config \<Rightarrow> test_state \<Rightarrow> 'k test_world \<Rightarrow> bool" where
  "test_inv nl tbl k0 h0 cfg t w \<longleftrightarrow>
     tracked nl tbl k0 (tproc w) \<and> host_inv h0 t (thost w) \<and>
     (wgApplied t \<and> Mode cfg \<noteq> ''socks'' \<or> rawApplied t \<or> restored nl tbl k0 (tproc w)) \<and>
     (wgApplied t \<and> Mode cfg \<noteq> ''socks'' \<or> no_new_link nl k0 (kern (tproc w))) \<and>
     (rawApplied t \<longrightarrow> Mode cfg = ''raw'') \<and>
     (if Mode cfg = ''socks'' then wgApplied t = (wr t \<noteq> None) else wr t = None)"

text \<open>While the loop goes on, nothing was brought up without the connection counting as passed.\<close>

definition calm_state :: "test_state \<Rightarrow> bool" where
  "calm_state t \<longleftrightarrow> (wgApplied t \<or> rawApplied t \<longrightarrow> connectPassed t)"

definition ctx_ok :: "host \<Rightarrow> test_input \<Rightarrow> bool" where
  "ctx_ok h0 i \<longleftrightarrow> (case i of Event _ c \<Rightarrow> single_socks (cWp c) \<and> fresh_names (cWp c) h0 | _ \<Rightarrow> True)"

lemma test_inv_seeAuth [simp]: "test_inv nl tbl k0 h0 cfg (seeAuth b t) w = test_inv nl tbl k0 h0 cfg t w"
  by (simp add: test_inv_def host_inv_def)

lemma test_inv_marks [simp]:
  "test_inv nl tbl k0 h0 cfg (t\<lparr>connectPassed := b, internet := i\<rparr>) w = test_inv nl tbl k0 h0 cfg t w"
  "test_inv nl tbl k0 h0 cfg (t\<lparr>solved := q\<rparr>) w = test_inv nl tbl k0 h0 cfg t w"
  by (simp_all add: test_inv_def host_inv_def)

lemma bringUp_inv:
  assumes laws: "netlink_laws (mNl m) tbl" and inv: "test_inv (mNl m) tbl k0 h0 cfg t w"
    and new: "\<not> wgApplied t" "\<not> rawApplied t" and c: "single_socks (cWp c)" "fresh_names (cWp c) h0"
  shows "case bringUp m cfg conf c t w of (good, t1, w1) \<Rightarrow>
    test_inv (mNl m) tbl k0 h0 cfg t1 w1 \<and> wgApplied t1 \<and> rawApplied t1 = rawApplied t"
proof (cases "Mode cfg = ''socks''")
  case True
  let ?r = "NewWireproxyRunner (ToLower (mEnv m)) (SocksPort cfg) (SocksUser cfg) (SocksPass cfg) (SocksBindAddr cfg) [] []"
  have h: "thost w = h0" "wr t = None" using inv new True by (auto simp: test_inv_def host_inv_def)
  obtain e r h1 where s: "runnerStart (cWp c) conf ?r h0 = (e, r, h1)" by (metis prod_cases3)
  have "holds_only r h0 h1 \<and> hFiles h1 = hFiles h0"
    by (rule runner_start_holds [OF c _ _ s]) (simp_all add: NewWireproxyRunner_def)
  then show ?thesis using inv new True s h by (auto simp: bringUp_def test_inv_def host_inv_def Let_def)
next
  case False
  have r: "tracked (mNl m) tbl k0 (tproc w)" "routedTurnIPs (tproc w) = []" using inv new by (auto simp: test_inv_def restored_def)
  obtain e p where ap: "applyWGConfig (mNl m) (mPs m) (cResolver c) conf (cTurnIPs c) None (tproc w) = (e, p)" by fastforce
  have "tracked (mNl m) tbl k0 p"
    using tracked_apply [OF laws r, of "mPs m" "cResolver c" conf "cTurnIPs c" None] by (simp add: ap)
  then show ?thesis using inv new False ap by (auto simp: bringUp_def test_inv_def host_inv_def Let_def)
qed

lemma onTestConfig_inv:
  assumes "netlink_laws (mNl m) tbl" "test_inv (mNl m) tbl k0 h0 cfg t w" "\<not> wgApplied t" "\<not> rawApplied t"
    "single_socks (cWp c)" "fresh_names (cWp c) h0"
  shows "case onTestConfig m cfg conf c t w of (good, t1, w1) \<Rightarrow>
    test_inv (mNl m) tbl k0 h0 cfg t1 w1 \<and> (good \<longrightarrow> connectPassed t1)"
  using bringUp_inv [OF assms, of conf] by (auto simp: onTestConfig_def split: prod.splits bool.splits)

lemma onTestRaw_inv:
  assumes laws: "netlink_laws (mNl m) tbl" and inv: "test_inv (mNl m) tbl k0 h0 cfg t w"
    and new: "\<not> wgApplied t" "\<not> rawApplied t" "Mode cfg = ''raw''"
  shows "case onTestRaw m c t w of (t1, w1) \<Rightarrow> test_inv (mNl m) tbl k0 h0 cfg t1 w1 \<and> connectPassed t1"
proof -
  let ?p = "tproc w"
  have r: "restored (mNl m) tbl k0 ?p" "no_new_link (mNl m) k0 (kern ?p)" using inv new unfolding test_inv_def by auto
  have r0: "routedTurnIPs ?p = []" using r(1) by (simp add: restored_def)
  have "tracked (mNl m) tbl k0 (applyTurnIPsBypass (mNl m) ips gw ?p) \<and>
      no_new_link (mNl m) k0 (kern (applyTurnIPsBypass (mNl m) ips gw ?p))" for ips gw
    using tracked_turn [OF laws restored_tracked [OF r(1)] r0] no_new_link_same [OF r(2)] by blast
  then show ?thesis
    using inv new restored_tracked [OF r(1)] r by (auto simp: onTestRaw_def Let_def test_inv_def host_inv_def split: option.split)
qed

lemma testStep_inv:
  assumes laws: "netlink_laws (mNl m) tbl" and inv: "test_inv (mNl m) tbl k0 h0 cfg t w" "calm_state t" and c: "ctx_ok h0 i"
    and step: "testStep m cfg sock i t w = (fin, t1, w1)"
  shows "test_inv (mNl m) tbl k0 h0 cfg t1 w1 \<and> (\<not> fin \<longrightarrow> calm_state t1)"
proof (cases i)
  case (Event ev c)
  have ctx: "single_socks (cWp c)" "fresh_names (cWp c) h0" using c Event by (simp_all add: ctx_ok_def)
  show ?thesis
  proof (cases ev)
    case (EEvent name data)
    define r1 where "r1 = (if name = ''wg_config'' \<and> \<not> connectPassed t then onTestConfig m cfg data c t w else (True, t, w))"
    obtain good ta wa where r1: "r1 = (good, ta, wa)" by (cases r1)
    have a: "test_inv (mNl m) tbl k0 h0 cfg ta wa" "good \<longrightarrow> calm_state ta"
      using onTestConfig_inv [OF laws inv(1) _ _ ctx, of data] inv r1 by (auto simp: r1_def calm_state_def split: if_splits)
    define r2 where "r2 = (if Mode cfg = ''raw'' \<and> name = ''raw_conf'' \<and> \<not> connectPassed ta then onTestRaw m c ta wa else (ta, wa))"
    obtain tb wb where r2: "r2 = (tb, wb)" by fastforce
    have b: "good \<longrightarrow> test_inv (mNl m) tbl k0 h0 cfg tb wb \<and> calm_state tb"
      using onTestRaw_inv [OF laws a(1), of c] a r2 by (auto simp: r2_def calm_state_def split: if_splits)
    have "(fin, t1, w1) = (if \<not> good then (True, ta, wa)
        else (name = ''workers_completed'' \<or> allStagesDone (seeAuth (cVkAuth c) tb), seeAuth (cVkAuth c) tb, wb))"
      using step Event EEvent r1 r2 by (simp add: testStep_def onTestEvent_def r1_def r2_def Let_def split: prod.splits if_splits)
    then show ?thesis using a b by (auto simp: calm_state_def split: if_splits)
  qed (use step Event inv in \<open>auto simp: testStep_def onTestEvent_def calm_state_def Let_def\<close>)
qed (use step inv in \<open>auto simp: testStep_def calm_state_def split: if_splits\<close>)

lemma testLoop_inv:
  assumes laws: "netlink_laws (mNl m) tbl"
  shows "testLoop m cfg sock is t w = Some (t1, w1) \<Longrightarrow> test_inv (mNl m) tbl k0 h0 cfg t w \<Longrightarrow> calm_state t \<Longrightarrow>
    list_all (ctx_ok h0) is \<Longrightarrow> test_inv (mNl m) tbl k0 h0 cfg t1 w1"
proof (induction "is" arbitrary: t w)
  case (Cons i "is")
  obtain fin ta wa where s: "testStep m cfg sock i t w = (fin, ta, wa)" by (cases "testStep m cfg sock i t w")
  show ?case using Cons s testStep_inv [OF laws Cons.prems(2,3) _ s] by (cases fin) auto
qed simp

text \<open>The timer ends the loop at the latest.\<close>

lemma testLoop_returns: "Timeout \<in> set is \<Longrightarrow> testLoop m cfg sock is t w \<noteq> None"
  by (induction m cfg sock "is" t w rule: testLoop.induct) (auto simp: testStep_def split: prod.split bool.split)


lemma cleanup_restores:
  assumes laws: "netlink_laws (mNl m) tbl" and inv: "test_inv (mNl m) tbl k0 h0 cfg t w"
  defines "w1 \<equiv> testCleanup m cfg t w"
  shows "restored (mNl m) tbl k0 (tproc w1) \<and> thost w1 = h0 \<and> tstore w1 = tstore w \<and> tsockets w1 = tsockets w"
proof -
  let ?nl = "mNl m"
  define wa where "wa = (if \<not> wgApplied t then w
    else case (if Mode cfg = ''socks'' then wr t else None) of
      Some r \<Rightarrow> w\<lparr>thost := snd (runnerStop r (thost w))\<rparr>
    | None \<Rightarrow> w\<lparr>tproc := snd (teardownWG ?nl (tproc w))\<rparr>)"
  have host: "thost wa = h0"
    using inv stop_releases [of _ h0 "thost w"] by (auto simp: wa_def test_inv_def host_inv_def split: if_splits option.splits)
  have frame: "tstore wa = tstore w" "tsockets wa = tsockets w" by (auto simp: wa_def split: option.split)
  have rest: "tracked ?nl tbl k0 (tproc wa) \<and> no_new_link ?nl k0 (kern (tproc wa)) \<and> (rawApplied t \<or> restored ?nl tbl k0 (tproc wa))"
  proof (cases "wgApplied t \<and> Mode cfg \<noteq> ''socks''")
    case True
    have "tracked ?nl tbl k0 (tproc w)" using inv by (simp add: test_inv_def)
    note r = restored_WG [OF laws this]
    have "tproc wa = snd (teardownWG ?nl (tproc w))" using True by (simp add: wa_def)
    then show ?thesis using r restored_tracked [OF r] by (simp add: restored_def)
  next
    case False
    then have "tproc wa = tproc w" using inv by (auto simp: wa_def test_inv_def split: option.split)
    then show ?thesis using inv False unfolding test_inv_def by auto
  qed
  have "w1 = (if rawApplied t then wa\<lparr>tproc := teardownTunnelRoutes ?nl (tproc wa)\<rparr> else wa)"
    unfolding w1_def testCleanup_def Let_def wa_def [symmetric] by simp
  then show ?thesis using host frame rest restored_routes [OF laws] by auto
qed

lemma testStep_sockets: "testStep m cfg sock i t w = (fin, t1, w1) \<Longrightarrow> tsockets w1 = tsockets w"
  by (auto simp: testStep_def onTestEvent_def onTestConfig_def bringUp_def onTestRaw_def Let_def
      split: test_input.splits event.splits prod.splits if_splits bool.splits)

lemma testLoop_sockets: "testLoop m cfg sock is t w = Some (t1, w1) \<Longrightarrow> tsockets w1 = tsockets w"
proof (induction "is" arbitrary: t w)
  case (Cons i "is")
  then show ?case using testStep_sockets [of m cfg sock i t w] by (fastforce split: prod.splits bool.splits)
qed simp

text \<open>What the world looks like between two tests.\<close>

definition tidy :: "'k netlink \<Rightarrow> ('k \<Rightarrow> ipnet \<Rightarrow> hop option) \<Rightarrow> 'k \<Rightarrow> host \<Rightarrow> string set \<Rightarrow> 'k test_world \<Rightarrow> bool" where
  "tidy nl tbl k0 h0 socks w \<longleftrightarrow> restored nl tbl k0 (tproc w) \<and> thost w = h0 \<and> tsockets w \<subseteq> socks"

definition run_ok :: "host \<Rightarrow> test_run \<Rightarrow> bool" where
  "run_ok h0 r \<longleftrightarrow> Timeout \<in> set (trInputs r) \<and> list_all (ctx_ok h0) (trInputs r)"

lemma testBody_tidy:
  assumes laws: "netlink_laws (mNl m) tbl" and r: "Timeout \<in> set is" "list_all (ctx_ok h0) is"
    and w: "restored (mNl m) tbl k0 (tproc w)" "thost w = h0"
  shows "\<exists>res w1. testBody m se cfg sock name is w = Some (res, w1) \<and>
    restored (mNl m) tbl k0 (tproc w1) \<and> thost w1 = h0 \<and> tsockets w1 = tsockets w"
proof -
  obtain t w1 where l: "testLoop m cfg sock is freshTest w = Some (t, w1)" using testLoop_returns [OF r(1)] by fast
  have "no_new_link (mNl m) k0 (kern (tproc w))" using w(1) by (simp add: restored_def)
  then have "test_inv (mNl m) tbl k0 h0 cfg freshTest w" "calm_state freshTest"
    using w restored_tracked [OF w(1)] by (simp_all add: test_inv_def host_inv_def freshTest_def calm_state_def)
  from testLoop_inv [OF laws l this r(2)] have inv: "test_inv (mNl m) tbl k0 h0 cfg t w1" .
  have sock: "tsockets w1 = tsockets w" by (rule testLoop_sockets [OF l])
  show ?thesis
    using cleanup_restores [OF laws inv] l w sock by (auto simp: testBody_def split: sum.split prod.split)
qed


lemma testProfile_shape:
  obtains e where "testProfile m o1 r name w = Some (failedResult name e, w)"
  | cfg w1 st where "w1 = w\<lparr>tstore := st, tsockets := (if trSocketOk r then insert name (tsockets w) else tsockets w - {name})\<rparr>"
      "testProfile m o1 r name w =
        (if tMode o1 \<noteq> ''socks'' \<and> \<not> trCap r then Some (failedResult name NeedsCap, w1\<lparr>tsockets := tsockets w1 - {name}\<rparr>)
         else map_option (\<lambda>(res, w2). (res, w2\<lparr>tsockets := tsockets w2 - {name}\<rparr>))
           (testBody m (trStart r) cfg True name (trInputs r) w1))"
proof (cases "isDaemonRunning (trDaemons r) name \<or> (\<exists>e. loadProfile (mIo m) (tstore w) name = Inl e)")
  case True
  then have "\<exists>e. testProfile m o1 r name w = Some (failedResult name e, w)" by (auto simp: testProfile_def)
  then show thesis using that(1) by blast
next
  case False
  then obtain prof where prof: "\<not> isDaemonRunning (trDaemons r) name" "loadProfile (mIo m) (tstore w) name = Inr prof"
    by (metis sum.exhaust)
  obtain d st where g: "(if pDeviceID prof = [] then getOrCreateDeviceID (mIo m) (sDraw (trStart r)) (tstore w)
      else (pDeviceID prof, tstore w)) = (d, st)" by fastforce
  show thesis by (rule that(2) [OF refl, of st "profileConfig o1 d prof"]) (use prof in \<open>simp add: testProfile_def g\<close>)
qed

lemma testOne_tidy:
  assumes laws: "netlink_laws (mNl m) tbl" and r: "run_ok h0 r" and w: "tidy (mNl m) tbl k0 h0 socks w"
  shows "\<exists>res w1. testOne m o1 x r w = Some (res, w1) \<and> tidy (mNl m) tbl k0 h0 socks w1"
proof -
  have r': "Timeout \<in> set (trInputs r)" "list_all (ctx_ok h0) (trInputs r)" using r by (simp_all add: run_ok_def)
  have body: "\<exists>res w2. testBody m (trStart r) cfg sock name (trInputs r) w1 = Some (res, w2) \<and>
      restored (mNl m) tbl k0 (tproc w2) \<and> thost w2 = h0 \<and> tsockets w2 = tsockets w1"
    if "tproc w1 = tproc w" "thost w1 = thost w" for cfg sock name w1
    using testBody_tidy [OF laws r', of k0 w1] that w by (simp add: tidy_def)
  show ?thesis
  proof (cases x)
    case (ByLink l label)
    obtain d st where g: "getOrCreateDeviceID (mIo m) (sDraw (trStart r)) (tstore w) = (d, st)" by fastforce
    show ?thesis
      using body [of "w\<lparr>tstore := st\<rparr>" "linkConfig o1 d l" False label] w
      by (auto simp: testOne_def ByLink testProfileFromLink_def g tidy_def)
  next
    case (ByName name)
    show ?thesis
    proof (cases rule: testProfile_shape [of m o1 r name w])
      case (1 e)
      then show ?thesis using w by (simp add: testOne_def ByName)
    next
      case (2 cfg w1 st)
      have f: "tproc w1 = tproc w" "thost w1 = thost w" by (simp_all add: 2(1))
      have sock: "tsockets w1 - {name} \<subseteq> socks" using w by (auto simp: 2(1) tidy_def)
      show ?thesis
        using body [OF f, of cfg True name] w sock f by (auto simp: testOne_def ByName 2(2) tidy_def)
    qed
  qed
qed

lemma testAll_tidy:
  assumes laws: "netlink_laws (mNl m) tbl"
  shows "list_all (\<lambda>(x, r). run_ok h0 r) xs \<Longrightarrow> tidy (mNl m) tbl k0 h0 socks w \<Longrightarrow>
    \<exists>rs w1. testAll m o1 xs w = Some (rs, w1) \<and> tidy (mNl m) tbl k0 h0 socks w1 \<and> length rs = length xs"
proof (induction xs arbitrary: w)
  case (Cons y xs)
  obtain x r where y: "y = (x, r)" by fastforce
  obtain res w1 where one: "testOne m o1 x r w = Some (res, w1)" "tidy (mNl m) tbl k0 h0 socks w1"
    using testOne_tidy [OF laws, of h0 r k0 socks w o1 x] Cons.prems y by auto
  then show ?case using Cons.IH [of w1] Cons.prems(1) y by fastforce
qed simp

text \<open>What a passed test rests on: authentication was seen, and a probe answered after the configuration had arrived.\<close>

definition sawAuth :: "test_input \<Rightarrow> bool" where
  "sawAuth i \<longleftrightarrow> (case i of Tick b \<Rightarrow> b | Event _ c \<Rightarrow> cVkAuth c | _ \<Rightarrow> False)"

definition probed :: "(nat \<Rightarrow> probe \<Rightarrow> bool) \<Rightarrow> bool" where
  "probed answers \<longleftrightarrow> (\<exists>round port. list_ex (\<lambda>h. answers round (Ping wgIface h) \<or> answers round (Ping RawIfaceName h) \<or>
     answers round (Curl port h)) checkHosts)"

definition sawTunnel :: "test_input \<Rightarrow> bool" where
  "sawTunnel i \<longleftrightarrow> (case i of Event (EEvent name _) c \<Rightarrow> name \<in> {''wg_config'', ''raw_conf''} \<and> probed (cAnswers c) | _ \<Rightarrow> False)"

lemma check_probed: "testInternetCheck mode port answers = Pass \<Longrightarrow> probed answers"
  unfolding testInternetCheck_def probed_def list_ex_iff by (simp split: if_splits) blast+

lemma config_probed:
  "onTestConfig m cfg conf c t w = (good, t1, w1) \<Longrightarrow> vkAuthPassed t1 = vkAuthPassed t \<and>
    (connectPassed t1 \<and> internet t1 = Pass \<longrightarrow> connectPassed t \<and> internet t = Pass \<or> probed (cAnswers c))"
  by (auto simp: onTestConfig_def bringUp_def Let_def dest: check_probed split: prod.splits bool.splits if_splits)

lemma raw_probed:
  "onTestRaw m c t w = (t1, w1) \<Longrightarrow> vkAuthPassed t1 = vkAuthPassed t \<and> (internet t1 = Pass \<longrightarrow> probed (cAnswers c))"
  by (auto simp: onTestRaw_def Let_def dest: check_probed)

lemma testStep_sound:
  assumes "testStep m cfg sock i t w = (fin, t1, w1)"
  shows "(vkAuthPassed t1 \<longrightarrow> vkAuthPassed t \<or> sawAuth i) \<and>
    (connectPassed t1 \<and> internet t1 = Pass \<longrightarrow> connectPassed t \<and> internet t = Pass \<or> sawTunnel i)"
proof (cases i)
  case (Event ev c)
  show ?thesis
  proof (cases ev)
    case (EEvent name data)
    define r1 where "r1 = (if name = ''wg_config'' \<and> \<not> connectPassed t then onTestConfig m cfg data c t w else (True, t, w))"
    obtain good ta wa where r1: "r1 = (good, ta, wa)" by (cases r1)
    have a: "vkAuthPassed ta = vkAuthPassed t"
      "connectPassed ta \<and> internet ta = Pass \<longrightarrow> connectPassed t \<and> internet t = Pass \<or> name = ''wg_config'' \<and> probed (cAnswers c)"
      using config_probed [of m cfg data c t w good ta wa] r1 by (auto simp: r1_def split: if_splits)
    define r2 where "r2 = (if Mode cfg = ''raw'' \<and> name = ''raw_conf'' \<and> \<not> connectPassed ta then onTestRaw m c ta wa else (ta, wa))"
    obtain tb wb where r2: "r2 = (tb, wb)" by fastforce
    have b: "vkAuthPassed tb = vkAuthPassed ta"
      "connectPassed tb \<and> internet tb = Pass \<longrightarrow> connectPassed ta \<and> internet ta = Pass \<or> name = ''raw_conf'' \<and> probed (cAnswers c)"
      using raw_probed [of m c ta wa tb wb] r2 by (auto simp: r2_def split: if_splits)
    have "t1 = (if \<not> good then ta else seeAuth (cVkAuth c) tb)"
      using assms Event EEvent r1 r2 by (simp add: testStep_def onTestEvent_def r1_def r2_def Let_def split: prod.splits if_splits)
    then show ?thesis using a b by (auto simp: Event EEvent sawAuth_def sawTunnel_def seeAuth_def split: if_splits)
  qed (use assms Event in \<open>auto simp: testStep_def onTestEvent_def seeAuth_def sawAuth_def Let_def\<close>)
qed (use assms in \<open>auto simp: testStep_def seeAuth_def sawAuth_def split: if_splits\<close>)

lemma testLoop_sound:
  "testLoop m cfg sock is t w = Some (t1, w1) \<Longrightarrow>
    (vkAuthPassed t1 \<longrightarrow> vkAuthPassed t \<or> list_ex sawAuth is) \<and>
    (connectPassed t1 \<and> internet t1 = Pass \<longrightarrow> connectPassed t \<and> internet t = Pass \<or> list_ex sawTunnel is)"
proof (induction "is" arbitrary: t w)
  case (Cons i "is")
  obtain fin ta wa where s: "testStep m cfg sock i t w = (fin, ta, wa)" by (cases "testStep m cfg sock i t w")
  show ?case using Cons.prems Cons.IH [of ta wa] s testStep_sound [OF s] by (cases fin) auto
qed simp

definition sound_pass :: "TestResult \<Rightarrow> test_run \<Rightarrow> bool" where
  "sound_pass res r \<longleftrightarrow> (resultPassed res \<longrightarrow> list_ex sawAuth (trInputs r) \<and> list_ex sawTunnel (trInputs r))"

lemma testBody_sound: "testBody m (trStart r) cfg sock name (trInputs r) w = Some (res, w1) \<Longrightarrow> sound_pass res r"
  using testLoop_sound [of m cfg sock "trInputs r" freshTest w]
  by (auto simp: testBody_def sound_pass_def resultPassed_def failedResult_def freshTest_def split: sum.splits)

lemma failed_sound [simp]: "sound_pass (failedResult name e) r"
  by (simp add: sound_pass_def resultPassed_def failedResult_def)

lemma testProfile_sound:
  assumes "testProfile m o1 r name w = Some (res, w1)"
  shows "sound_pass res r"
proof (cases rule: testProfile_shape [of m o1 r name w])
  case (2 cfg w1 st)
  show ?thesis
  proof (cases "testBody m (trStart r) cfg True name (trInputs r) w1")
    case (Some z)
    then show ?thesis
      using assms testBody_sound [of m r cfg True name w1] unfolding 2(2) by (cases z) (auto split: if_splits)
  qed (use assms in \<open>auto simp: 2(2) split: if_splits\<close>)
qed (use assms in simp)

lemma testOne_sound: "testOne m o1 x r w = Some (res, w1) \<Longrightarrow> sound_pass res r"
  using testProfile_sound testBody_sound [of m r] by (auto simp: testOne_def testProfileFromLink_def split: target.splits prod.splits)

lemma testAll_sound: "testAll m o1 xs w = Some (rs, w1) \<Longrightarrow> list_all2 (\<lambda>res (x, r). sound_pass res r) rs xs"
proof (induction m o1 xs w arbitrary: rs w1 rule: testAll.induct)
  case (2 m o1 x r xs w)
  obtain res w2 rs' where "testOne m o1 x r w = Some (res, w2)" "testAll m o1 xs w2 = Some (rs', w1)" "rs = res # rs'"
    using 2(2) by (auto split: option.splits)
  then show ?case using 2(1) testOne_sound by fastforce
qed simp



text \<open>A test of the only profile in raw mode: the configuration arrives, a host answers, and the route to the TURN server goes again.\<close>

definition demoOpts :: test_opts where
  "demoOpts = \<lparr>tMode = ''raw'', tSocksPort = 9050, tSocksUser = [], tSocksPass = [], tPub = False, tListen = [], tTransport = ''udp'',
     tRo = False, tEnabled = False, tDisabled = False, tGroup = [], tSub = False\<rparr>"

definition demoWp :: wp_env where
  "demoWp = \<lparr>wTempName = ''/tmp/qwdtt-wg-1.conf'', wTempOk = True, wWriteOk = True, wConfOk = True,
     ParseConfig = (\<lambda>_ _. Some [Socks5 ''127.0.0.1:9050'' [] []]), StartWireguard = True, canListen = (\<lambda>_. True)\<rparr>"

definition demoCtx :: test_ctx where
  "demoCtx = \<lparr>cVkAuth = True, cTurnIPs = [''5.6.7.8''], cResolver = demoResolver, cWp = demoWp,
     cAnswers = (\<lambda>_ p. p = Ping RawIfaceName ''1.1.1.1'')\<rparr>"

definition demoRun :: test_run where
  "demoRun = \<lparr>trDaemons = \<lparr>runEntries = [], pidText = (\<lambda>_. []), alive = (\<lambda>_. False), cmdlineOf = (\<lambda>_. None), splitOf = (\<lambda>_. None)\<rparr>,
     trCap = True, trSocketOk = True, trStart = demoStart,
     trInputs = [Event (EState ''connecting'') (demoCtx\<lparr>cVkAuth := False\<rparr>), Event (EEvent ''raw_conf'' ''10.0.0.2|1.1.1.1|1280'') demoCtx, Timeout]\<rparr>"

definition demoTest :: "demo_kernel test_world" where
  "demoTest = \<lparr>tproc = demoProc, thost = \<lparr>hFiles = {}, hDevices = 0, hListening = []\<rparr>, tstore = wstore demoWorld, tsockets = {}\<rparr>"


text \<open>A mask that matches no profile leaves no arguments, and then all profiles are tested.\<close>

lemma unmatched_mask_tests_all:
  "testSelect None all_ok sampleStore (demoOpts\<lparr>tMode := ''tun''\<rparr>) [''x*''] = Selected [] [''bad'', ''home'', ''ro-work'']"
  by code_simp

end
