(* ===== verification/Raw_Tun.thy ===== *)
theory Raw_Tun
  imports Routes
begin

text \<open>
  The device of raw mode: \<open>internal/core/tun_linux.go\<close>.  The core opens a TUN device when it starts, sets it up when the
  server's configuration arrives (address, MTU, the two half routes, an nftables rule that clamps the MSS), and removes
  everything when it ends.

  Beside \<open>netlink\<close> the code uses the TUN ioctls, the deletion of routes and addresses of one link, and nftables, which are
  \<open>tun_ops\<close>; \<open>tun_laws\<close> is what it relies on.
\<close>

section \<open>Interfaces\<close>

datatype nft_result = NftOk | NftMissing | NftFailed

text \<open>The expressions of the rule, with their registers, offsets and data.\<close>

datatype nft_expr =
    MetaOifName nat
  | MetaL4Proto nat
  | CmpEq nat bytes
  | PayloadTransport nat nat nat
  | BitwiseAnd nat nat nat bytes bytes
  | RtTcpMss nat
  | SetTcpOption nat nat nat nat

record nft_table =
  ntName :: string
  ntChain :: string
  ntRule :: "nft_expr list"

record 'k tun_ops =
  openTun :: "'k \<Rightarrow> bool"
  tunSetIff :: "string \<Rightarrow> 'k \<Rightarrow> bool \<times> 'k"
  setNonblock :: "'k \<Rightarrow> bool"
  closeTun :: "string \<Rightarrow> 'k \<Rightarrow> 'k"
  isExist :: "ipnet \<Rightarrow> nat \<Rightarrow> 'k \<Rightarrow> bool"
  routeDelOn :: "nat \<Rightarrow> ipnet \<Rightarrow> 'k \<Rightarrow> bool \<times> 'k"
  addrDel :: "nat \<Rightarrow> ipnet \<Rightarrow> 'k \<Rightarrow> bool \<times> 'k"
  delTable :: "string \<Rightarrow> 'k \<Rightarrow> nft_result \<times> 'k"
  addTable :: "nft_table \<Rightarrow> 'k \<Rightarrow> nft_result \<times> 'k"

section \<open>State\<close>

record rawNetworking =
  rnIface :: string
  rnAddr :: string
  rnRoutes :: "string list"
  rnMss :: bool

record 'k raw_state =
  rkern :: 'k
  rnet :: rawNetworking

definition noNetworking :: rawNetworking where
  "noNetworking = \<lparr>rnIface = [], rnAddr = [], rnRoutes = [], rnMss = False\<rparr>"

section \<open>Operations\<close>

definition ifnamsiz :: nat where "ifnamsiz = 16"

datatype tun_error =
    OpenFailed | BadIfaceName | SetIffFailed | NonblockFailed | BadRawIP string | NoLink string | MtuFailed int | AddrFailed string
  | UpFailedRaw | RouteFailed string | MssFailed

definition createRawTUN :: "'k tun_ops \<Rightarrow> string \<Rightarrow> 'k raw_state \<Rightarrow> tun_error option \<times> 'k raw_state" where
  "createRawTUN tn name s =
     (if \<not> openTun tn (rkern s) then (Some OpenFailed, s)
      else if length name \<ge> ifnamsiz then (Some BadIfaceName, s)
      else case tunSetIff tn name (rkern s) of
        (False, k) \<Rightarrow> (Some SetIffFailed, s\<lparr>rkern := k\<rparr>)
      | (True, k) \<Rightarrow>
          if \<not> setNonblock tn k then (Some NonblockFailed, s\<lparr>rkern := closeTun tn name k\<rparr>)
          else (None, s\<lparr>rkern := k, rnet := noNetworking\<lparr>rnIface := name\<rparr>\<rparr>))"

definition ifname :: "string \<Rightarrow> bytes" where
  "ifname n = take 16 (map (of_char :: char \<Rightarrow> 8 word) (n @ [CHR 0x00]) @ replicate 16 0)"

definition nftTableName :: string where "nftTableName = ''wdtt_raw''"
definition nftChainName :: string where "nftChainName = ''output_mss''"

definition mssTable :: "string \<Rightarrow> nft_table" where
  "mssTable iface =
     \<lparr>ntName = nftTableName, ntChain = nftChainName,
      ntRule =
        [MetaOifName 1, CmpEq 1 (ifname iface),
         MetaL4Proto 1, CmpEq 1 [6],
         PayloadTransport 1 13 1, BitwiseAnd 1 1 1 [0x06] [0x00], CmpEq 1 [0x02],
         RtTcpMss 1, SetTcpOption 1 2 2 2]\<rparr>"

text \<open>First a table of an earlier process goes, in a batch of its own; then the new one is created in one batch.\<close>

definition setupRawMSSClampingNFT :: "'k tun_ops \<Rightarrow> string \<Rightarrow> 'k \<Rightarrow> nft_result \<times> 'k" where
  "setupRawMSSClampingNFT tn iface k =
     (case delTable tn nftTableName k of
        (NftFailed, k1) \<Rightarrow> (NftFailed, k1)
      | (_, k1) \<Rightarrow> addTable tn (mssTable iface) k1)"

definition teardownRawMSSClampingNFT :: "'k tun_ops \<Rightarrow> 'k \<Rightarrow> 'k" where
  "teardownRawMSSClampingNFT tn k = snd (delTable tn nftTableName k)"

definition halfCidrs :: "string list" where
  "halfCidrs = [''0.0.0.0/1'', ''128.0.0.0/1'']"

fun addHalfRoutes :: "'k netlink \<Rightarrow> 'k tun_ops \<Rightarrow> nat \<Rightarrow> string list \<Rightarrow> string list \<Rightarrow> 'k \<Rightarrow> (tun_error + string list) \<times> 'k" where
  "addHalfRoutes nl tn idx [] added k = (Inr added, k)"
| "addHalfRoutes nl tn idx (c # cs) added k =
     (case ParseCIDR c of
        None \<Rightarrow> addHalfRoutes nl tn idx cs added k
      | Some (_, dst) \<Rightarrow>
          (case RouteAdd nl dst idx k of
             (b, k1) \<Rightarrow>
               if \<not> b \<and> \<not> isExist tn dst idx k then (Inl (RouteFailed c), k1)
               else addHalfRoutes nl tn idx cs (added @ [c]) k1))"

text \<open>MTU, address, flag and routes of the link; the result is the list of routes.\<close>

definition setupRawLink :: "'k netlink \<Rightarrow> 'k tun_ops \<Rightarrow> nat \<Rightarrow> string \<Rightarrow> int \<Rightarrow> 'k \<Rightarrow> (tun_error + string list) \<times> 'k" where
  "setupRawLink nl tn idx addr mtu k0 =
     (case (if mtu > 0 then LinkSetMTU nl idx mtu k0 else (True, k0)) of
        (False, k) \<Rightarrow> (Inl (MtuFailed mtu), k)
      | (True, k1) \<Rightarrow>
          (case AddrAdd nl idx (IPNet (the (ParseIP addr)) (CIDRMask 32 4)) k1 of
             (False, k) \<Rightarrow> (Inl (AddrFailed addr), k)
           | (True, k2) \<Rightarrow>
               (case LinkSetUp nl idx k2 of
                  (False, k) \<Rightarrow> (Inl UpFailedRaw, k)
                | (True, k3) \<Rightarrow> addHalfRoutes nl tn idx halfCidrs [] k3)))"

definition setupRawTUN :: "'k netlink \<Rightarrow> 'k tun_ops \<Rightarrow> string \<Rightarrow> string \<Rightarrow> int \<Rightarrow> 'k raw_state \<Rightarrow> tun_error option \<times> 'k raw_state" where
  "setupRawTUN nl tn name addr mtu s =
     (if Option.bind (ParseIP addr) To4 = None then (Some (BadRawIP addr), s)
      else case LinkByName nl name (rkern s) of
        None \<Rightarrow> (Some (NoLink name), s)
      | Some idx \<Rightarrow>
          (case setupRawLink nl tn idx addr mtu (rkern s) of
             (Inl e, k) \<Rightarrow> (Some e, s\<lparr>rkern := k\<rparr>)
           | (Inr added, k4) \<Rightarrow>
               (case setupRawMSSClampingNFT tn name k4 of
                  (NftFailed, k) \<Rightarrow> (Some MssFailed, s\<lparr>rkern := k\<rparr>)
                | (_, k) \<Rightarrow> (None, s\<lparr>rkern := k, rnet := (rnet s)\<lparr>rnAddr := addr, rnRoutes := added, rnMss := True\<rparr>\<rparr>))))"

fun delHalfRoutes :: "'k tun_ops \<Rightarrow> nat \<Rightarrow> string list \<Rightarrow> 'k \<Rightarrow> 'k" where
  "delHalfRoutes tn idx [] k = k"
| "delHalfRoutes tn idx (c # cs) k =
     delHalfRoutes tn idx cs (case ParseCIDR c of None \<Rightarrow> k | Some (_, dst) \<Rightarrow> snd (routeDelOn tn idx dst k))"

definition teardownRawTUN :: "'k netlink \<Rightarrow> 'k tun_ops \<Rightarrow> 'k raw_state \<Rightarrow> 'k raw_state" where
  "teardownRawTUN nl tn s =
     (let r = rnet s; s1 = s\<lparr>rnet := noNetworking\<rparr>; k = rkern s in
      if rnIface r = [] then s1
      else
        let k1 = (if rnMss r then teardownRawMSSClampingNFT tn k else k) in
        case LinkByName nl (rnIface r) k1 of
          None \<Rightarrow> s1\<lparr>rkern := k1\<rparr>
        | Some idx \<Rightarrow>
            (let k2 = delHalfRoutes tn idx (rnRoutes r) k1;
                 k3 = (if rnAddr r = [] then k2
                       else case ParseIP (rnAddr r) of
                         None \<Rightarrow> k2
                       | Some ip \<Rightarrow> snd (addrDel tn idx (IPNet ip (CIDRMask 32 4)) k2))
             in s1\<lparr>rkern := snd (LinkDel nl idx k3)\<rparr>))"

text \<open>When the core ends it closes the file of the device and then tears down.\<close>

definition rawExit :: "'k netlink \<Rightarrow> 'k tun_ops \<Rightarrow> 'k raw_state \<Rightarrow> 'k raw_state" where
  "rawExit nl tn s = teardownRawTUN nl tn (s\<lparr>rkern := closeTun tn RawIfaceName (rkern s)\<rparr>)"

section \<open>What the kernel promises\<close>

text \<open>
  Closing a device that is not persistent removes its link and the routes over it; no two links share an index; deleting routes
  and addresses of a link only removes routes; nftables holds at most one table of that name.
\<close>

definition drops :: "('k \<Rightarrow> ipnet \<Rightarrow> hop option) \<Rightarrow> 'k \<Rightarrow> 'k \<Rightarrow> bool" where
  "drops tbl k k' \<longleftrightarrow> (\<forall>n. tbl k' n = tbl k n \<or> tbl k' n = None)"

definition device_laws :: "'k netlink \<Rightarrow> 'k tun_ops \<Rightarrow> ('k \<Rightarrow> ipnet \<Rightarrow> hop option) \<Rightarrow> ('k \<Rightarrow> nft_table option) \<Rightarrow> bool" where
  "device_laws nl tn tbl nft \<longleftrightarrow>
     (\<forall>name k. let (b, k') = tunSetIff tn name k in
        tbl k' = tbl k \<and> nft k' = nft k \<and> (\<forall>other. other \<noteq> name \<or> \<not> b \<longrightarrow> LinkByName nl other k' = LinkByName nl other k)) \<and>
     (\<forall>name k. let k' = closeTun tn name k in
        nft k' = nft k \<and> (\<forall>other. other \<noteq> name \<longrightarrow> LinkByName nl other k' = LinkByName nl other k) \<and>
        (LinkByName nl name k' = LinkByName nl name k \<and> tbl k' = tbl k \<or>
         LinkByName nl name k' = None \<and>
         (\<forall>n. tbl k' n = (if tbl k n \<noteq> None \<and> tbl k n = map_option OnLink (LinkByName nl name k) then None else tbl k n)))) \<and>
     (\<forall>a b k idx. LinkByName nl a k = Some idx \<and> LinkByName nl b k = Some idx \<longrightarrow> a = b)"

definition nft_laws :: "'k netlink \<Rightarrow> 'k tun_ops \<Rightarrow> ('k \<Rightarrow> ipnet \<Rightarrow> hop option) \<Rightarrow> ('k \<Rightarrow> nft_table option) \<Rightarrow> bool" where
  "nft_laws nl tn tbl nft \<longleftrightarrow>
     (\<forall>k. let (r, k') = delTable tn nftTableName k in
        same_links nl k k' \<and> tbl k' = tbl k \<and> nft k' = (if r = NftFailed then nft k else None)) \<and>
     (\<forall>t k. let (r, k') = addTable tn t k in
        same_links nl k k' \<and> tbl k' = tbl k \<and> nft k' = (if r = NftOk then Some t else nft k))"

definition tun_laws :: "'k netlink \<Rightarrow> 'k tun_ops \<Rightarrow> ('k \<Rightarrow> ipnet \<Rightarrow> hop option) \<Rightarrow> ('k \<Rightarrow> nft_table option) \<Rightarrow> bool" where
  "tun_laws nl tn tbl nft \<longleftrightarrow>
     netlink_laws nl tbl \<and> device_laws nl tn tbl nft \<and> nft_laws nl tn tbl nft \<and>
     (\<forall>idx n k. let k' = snd (routeDelOn tn idx n k) in same_links nl k k' \<and> nft k' = nft k \<and> drops tbl k k') \<and>
     (\<forall>idx n k. let k' = snd (addrDel tn idx n k) in same_links nl k k' \<and> nft k' = nft k \<and> drops tbl k k') \<and>
     (\<forall>idx m n k. nft (snd (LinkSetMTU nl idx m k)) = nft k \<and> nft (snd (AddrAdd nl idx n k)) = nft k \<and>
        nft (snd (LinkSetUp nl idx k)) = nft k \<and> nft (snd (LinkDel nl idx k)) = nft k \<and> nft (snd (RouteAdd nl n idx k)) = nft k)"

section \<open>Nothing is left\<close>

text \<open>Other links are as at the beginning, and every route was there or runs over the device.\<close>

definition raw_inv :: "'k netlink \<Rightarrow> ('k \<Rightarrow> ipnet \<Rightarrow> hop option) \<Rightarrow> 'k \<Rightarrow> 'k \<Rightarrow> bool" where
  "raw_inv nl tbl k0 k \<longleftrightarrow>
     (\<forall>other. other \<noteq> RawIfaceName \<longrightarrow> LinkByName nl other k = LinkByName nl other k0) \<and>
     (\<forall>n h. tbl k n = Some h \<longrightarrow> tbl k0 n = Some h \<or> (\<exists>idx. h = OnLink idx \<and> LinkByName nl RawIfaceName k = Some idx))"

definition device_up :: "'k netlink \<Rightarrow> ('k \<Rightarrow> ipnet \<Rightarrow> hop option) \<Rightarrow> ('k \<Rightarrow> nft_table option) \<Rightarrow> 'k \<Rightarrow> nat \<Rightarrow> nft_table option \<Rightarrow> 'k \<Rightarrow> bool" where
  "device_up nl tbl nft k0 idx t k \<longleftrightarrow> raw_inv nl tbl k0 k \<and> LinkByName nl RawIfaceName k = Some idx \<and> nft k = t"

lemma raw_invD:
  assumes "raw_inv nl tbl k0 k"
  shows "other \<noteq> RawIfaceName \<Longrightarrow> LinkByName nl other k = LinkByName nl other k0"
    "tbl k n = Some h \<Longrightarrow> tbl k0 n = Some h \<or> (\<exists>idx. h = OnLink idx \<and> LinkByName nl RawIfaceName k = Some idx)"
  using assms unfolding raw_inv_def by blast+

lemma raw_inv_start: "raw_inv nl tbl k k"
  by (simp add: raw_inv_def)

lemma raw_inv_drops: "raw_inv nl tbl k0 k \<Longrightarrow> same_links nl k k' \<Longrightarrow> drops tbl k k' \<Longrightarrow> raw_inv nl tbl k0 k'"
  unfolding raw_inv_def same_links_def drops_def by (metis option.distinct(1))

lemma raw_inv_same: "raw_inv nl tbl k0 k \<Longrightarrow> same_links nl k k' \<Longrightarrow> tbl k' = tbl k \<Longrightarrow> raw_inv nl tbl k0 k'"
  by (erule (1) raw_inv_drops) (simp add: drops_def)

lemma device_up_grow:
  assumes "device_up nl tbl nft k0 idx t k" "grows_on nl tbl idx k k'" "nft k' = nft k"
  shows "device_up nl tbl nft k0 idx t k'"
  using assms unfolding device_up_def raw_inv_def grows_on_def same_links_def by (metis option.inject)

lemma tun_parts:
  assumes "tun_laws nl tn tbl nft"
  shows "netlink_laws nl tbl" "device_laws nl tn tbl nft" "nft_laws nl tn tbl nft"
    "same_links nl k (snd (routeDelOn tn idx n k)) \<and> nft (snd (routeDelOn tn idx n k)) = nft k \<and> drops tbl k (snd (routeDelOn tn idx n k))"
    "same_links nl k (snd (addrDel tn idx n k)) \<and> nft (snd (addrDel tn idx n k)) = nft k \<and> drops tbl k (snd (addrDel tn idx n k))"
    "nft (snd (LinkSetMTU nl idx m k)) = nft k" "nft (snd (AddrAdd nl idx n k)) = nft k" "nft (snd (LinkSetUp nl idx k)) = nft k"
    "nft (snd (LinkDel nl idx k)) = nft k" "nft (snd (RouteAdd nl n idx k)) = nft k"
  using assms unfolding tun_laws_def Let_def by blast+

lemma route_grows: "netlink_laws nl tbl \<Longrightarrow> grows_on nl tbl idx k (snd (RouteAdd nl n idx k))"
  unfolding netlink_laws_def add_law_def grows_on_def by (metis fun_upd_apply)

lemma addHalfRoutes_up:
  assumes laws: "tun_laws nl tn tbl nft"
  shows "device_up nl tbl nft k0 idx t k \<Longrightarrow> device_up nl tbl nft k0 idx t (snd (addHalfRoutes nl tn idx cs added k))"
proof (induction cs arbitrary: added k)
  case (Cons c cs)
  show ?case
  proof (cases "ParseCIDR c")
    case (Some z)
    obtain ip dst where z: "z = (ip, dst)" by fastforce
    obtain b k1 where r: "RouteAdd nl dst idx k = (b, k1)" by fastforce
    have "device_up nl tbl nft k0 idx t k1"
      using device_up_grow [OF Cons.prems route_grows [OF tun_parts(1) [OF laws]]] tun_parts(10) [OF laws, of dst idx k] r
      by (metis snd_conv)
    then show ?thesis using Cons.IH Some z r by simp
  qed (use Cons in simp)
qed simp

lemma setupRawLink_up:
  assumes laws: "tun_laws nl tn tbl nft" and up: "device_up nl tbl nft k0 idx t k"
  shows "device_up nl tbl nft k0 idx t (snd (setupRawLink nl tn idx addr mtu k))"
proof -
  note nl = tun_parts(1) [OF laws]
  obtain b1 k1 where s1: "(if mtu > 0 then LinkSetMTU nl idx mtu k else (True, k)) = (b1, k1)" by fastforce
  have u1: "device_up nl tbl nft k0 idx t k1"
    using s1 up device_up_grow [OF up grow_laws(2) [OF nl] tun_parts(6) [OF laws]] by (metis snd_conv)
  obtain b2 k2 where s2: "AddrAdd nl idx (IPNet (the (ParseIP addr)) (CIDRMask 32 4)) k1 = (b2, k2)" by fastforce
  have u2: "device_up nl tbl nft k0 idx t k2"
    using s2 device_up_grow [OF u1 grow_laws(3) [OF nl] tun_parts(7) [OF laws]] by (metis snd_conv)
  obtain b3 k3 where s3: "LinkSetUp nl idx k2 = (b3, k3)" by fastforce
  have u3: "device_up nl tbl nft k0 idx t k3"
    using s3 device_up_grow [OF u2 grow_laws(1) [OF nl] tun_parts(8) [OF laws]] by (metis snd_conv)
  have u4: "device_up nl tbl nft k0 idx t (snd (addHalfRoutes nl tn idx halfCidrs [] k3))" by (rule addHalfRoutes_up [OF laws u3])
  show ?thesis
    unfolding setupRawLink_def s1 using u1 u2 u3 u4 s2 s3 by (cases b1; cases b2; cases b3) simp_all
qed

lemma nft_step:
  assumes laws: "tun_laws nl tn tbl nft"
  shows "setupRawMSSClampingNFT tn name k = (r, k') \<Longrightarrow>
      same_links nl k k' \<and> tbl k' = tbl k \<and> (r = NftFailed \<longrightarrow> nft k' \<in> {None, nft k})"
    and "same_links nl k (teardownRawMSSClampingNFT tn k) \<and> tbl (teardownRawMSSClampingNFT tn k) = tbl k \<and>
      nft (teardownRawMSSClampingNFT tn k) = (if fst (delTable tn nftTableName k) = NftFailed then nft k else None)"
proof -
  note law = tun_parts(3) [OF laws, unfolded nft_laws_def Let_def split_beta]
  have d: "same_links nl k (snd (delTable tn nftTableName k))" "tbl (snd (delTable tn nftTableName k)) = tbl k"
    "nft (snd (delTable tn nftTableName k)) = (if fst (delTable tn nftTableName k) = NftFailed then nft k else None)" for k
    using law by blast+
  have a: "same_links nl k (snd (addTable tn t k))" "tbl (snd (addTable tn t k)) = tbl k"
    "nft (snd (addTable tn t k)) = (if fst (addTable tn t k) = NftOk then Some t else nft k)" for t k
    using law by blast+
  show "same_links nl k (teardownRawMSSClampingNFT tn k) \<and> tbl (teardownRawMSSClampingNFT tn k) = tbl k \<and>
      nft (teardownRawMSSClampingNFT tn k) = (if fst (delTable tn nftTableName k) = NftFailed then nft k else None)"
    using d by (simp add: teardownRawMSSClampingNFT_def)
  assume run: "setupRawMSSClampingNFT tn name k = (r, k')"
  obtain r1 k1 where s1: "delTable tn nftTableName k = (r1, k1)" by fastforce
  obtain r2 k2 where s2: "addTable tn (mssTable name) k1 = (r2, k2)" by fastforce
  show "same_links nl k k' \<and> tbl k' = tbl k \<and> (r = NftFailed \<longrightarrow> nft k' \<in> {None, nft k})"
    using run d [of k] a [where t = "mssTable name" and k = k1] s1 s2 same_links_trans [of nl k k1 k2]
    by (cases r1) (auto simp: setupRawMSSClampingNFT_def)
qed


definition raw_good :: "'k netlink \<Rightarrow> ('k \<Rightarrow> ipnet \<Rightarrow> hop option) \<Rightarrow> ('k \<Rightarrow> nft_table option) \<Rightarrow> 'k \<Rightarrow> 'k raw_state \<Rightarrow> bool" where
  "raw_good nl tbl nft k0 s \<longleftrightarrow>
     raw_inv nl tbl k0 (rkern s) \<and> (rnMss (rnet s) \<or> nft (rkern s) \<in> {None, nft k0}) \<and> rnIface (rnet s) = RawIfaceName"

lemma setup_good:
  assumes laws: "tun_laws nl tn tbl nft" and good: "raw_good nl tbl nft k0 s"
  shows "raw_good nl tbl nft k0 (snd (setupRawTUN nl tn RawIfaceName addr mtu s))"
proof (cases "Option.bind (ParseIP addr) To4 = None \<or> LinkByName nl RawIfaceName (rkern s) = None")
  case False
  then obtain idx where idx: "LinkByName nl RawIfaceName (rkern s) = Some idx" by auto
  obtain r k where link: "setupRawLink nl tn idx addr mtu (rkern s) = (r, k)" by fastforce
  have up: "device_up nl tbl nft k0 idx (nft (rkern s)) (rkern s)" using good idx by (simp add: raw_good_def device_up_def)
  have k: "raw_inv nl tbl k0 k" "nft k = nft (rkern s)"
    using setupRawLink_up [OF laws up, of addr mtu] link by (simp_all add: device_up_def)
  obtain q k' where n: "setupRawMSSClampingNFT tn RawIfaceName k = (q, k')" by fastforce
  note nft = nft_step(1) [OF laws n]
  have "raw_inv nl tbl k0 k'" using raw_inv_same [OF k(1)] nft by blast
  then show ?thesis
    using good False idx link k n nft
    by (cases r; cases q) (auto simp: setupRawTUN_def raw_good_def)
qed (use good in \<open>auto simp: setupRawTUN_def\<close>)

lemma delHalf_inv:
  assumes laws: "tun_laws nl tn tbl nft"
  shows "same_links nl k (delHalfRoutes tn idx cs k) \<and> nft (delHalfRoutes tn idx cs k) = nft k \<and>
    (raw_inv nl tbl k0 k \<longrightarrow> raw_inv nl tbl k0 (delHalfRoutes tn idx cs k))"
proof (induction cs arbitrary: k)
  case (Cons c cs)
  define k1 where "k1 = (case ParseCIDR c of None \<Rightarrow> k | Some (_, dst) \<Rightarrow> snd (routeDelOn tn idx dst k))"
  have d: "same_links nl k k1 \<and> nft k1 = nft k \<and> drops tbl k k1"
  proof (cases "ParseCIDR c")
    case None then show ?thesis by (simp add: k1_def drops_def same_links_refl)
  next
    case (Some z)
    then have "k1 = snd (routeDelOn tn idx (snd z) k)" by (simp add: k1_def split: prod.split)
    then show ?thesis using tun_parts(4) [OF laws, of k idx "snd z"] by simp
  qed
  have inv: "raw_inv nl tbl k0 k \<longrightarrow> raw_inv nl tbl k0 k1" using raw_inv_drops [of nl tbl k0 k k1] d by simp
  have eq: "delHalfRoutes tn idx (c # cs) k = delHalfRoutes tn idx cs k1" by (simp add: k1_def)
  have "same_links nl k (delHalfRoutes tn idx cs k1)" using d Cons [of k1] same_links_trans [of nl k k1] by metis
  then show ?case unfolding eq using Cons [of k1] d inv by simp
qed (simp add: same_links_refl)

lemma link_del_clears:
  assumes laws: "tun_laws nl tn tbl nft" and inv: "raw_inv nl tbl k0 k" and idx: "LinkByName nl RawIfaceName k = Some idx"
  defines "k' \<equiv> snd (LinkDel nl idx k)"
  shows "raw_inv nl tbl k0 k' \<and> LinkByName nl RawIfaceName k' = None \<and> nft k' = nft k"
proof -
  have uniq: "LinkByName nl a k = Some idx \<Longrightarrow> a = RawIfaceName" for a
    using conjunct2 [OF conjunct2 [OF tun_parts(2) [OF laws, unfolded device_laws_def]], rule_format, of a k idx RawIfaceName] idx by simp
  have l: "LinkByName nl name k' = (if LinkByName nl name k = Some idx then None else LinkByName nl name k)" for name
    using Link_laws(4) [OF tun_parts(1) [OF laws]] by (simp add: k'_def)
  have r: "tbl k' n = (if tbl k n = Some (OnLink idx) then None else tbl k n)" for n
    using Link_laws(3) [OF tun_parts(1) [OF laws]] by (simp add: k'_def)
  have "LinkByName nl other k' = LinkByName nl other k0" if "other \<noteq> RawIfaceName" for other
    using that uniq [of other] raw_invD(1) [OF inv that] unfolding l by (metis (full_types))
  moreover have "tbl k0 n = Some h" if "tbl k' n = Some h" for n h
  proof -
    have "tbl k n = Some h \<and> h \<noteq> OnLink idx" using that unfolding r by (simp split: if_splits)
    then show ?thesis using raw_invD(2) [OF inv, of n h] idx by (metis option.inject)
  qed
  ultimately have inv': "raw_inv nl tbl k0 k'" unfolding raw_inv_def by metis
  have "LinkByName nl RawIfaceName k' = None" using idx by (simp add: l)
  moreover have "nft k' = nft k" using tun_parts(9) [OF laws, of idx k] by (simp add: k'_def)
  ultimately show ?thesis using inv' by simp
qed

lemma close_keeps:
  assumes laws: "tun_laws nl tn tbl nft" and inv: "raw_inv nl tbl k0 k"
  shows "raw_inv nl tbl k0 (closeTun tn RawIfaceName k) \<and> nft (closeTun tn RawIfaceName k) = nft k \<and>
    (\<forall>n h. tbl (closeTun tn RawIfaceName k) n = Some h \<longrightarrow> tbl k n = Some h)"
proof -
  let ?k = "closeTun tn RawIfaceName k"
  have c: "nft ?k = nft k" "other \<noteq> RawIfaceName \<Longrightarrow> LinkByName nl other ?k = LinkByName nl other k"
    "LinkByName nl RawIfaceName ?k = LinkByName nl RawIfaceName k \<and> tbl ?k = tbl k \<or> LinkByName nl RawIfaceName ?k = None \<and>
     (\<forall>n. tbl ?k n = (if tbl k n \<noteq> None \<and> tbl k n = map_option OnLink (LinkByName nl RawIfaceName k) then None else tbl k n))" for other
    using tun_parts(2) [OF laws] unfolding device_laws_def Let_def by blast+
  have gone: "tbl k n = Some h \<and> (LinkByName nl RawIfaceName ?k = LinkByName nl RawIfaceName k \<or> Some h \<noteq> map_option OnLink (LinkByName nl RawIfaceName k))"
    if "tbl ?k n = Some h" for n h
    using c(3) that by (elim disjE conjE) (simp, metis option.distinct(1))
  have "tbl k0 n = Some h \<or> (\<exists>idx. h = OnLink idx \<and> LinkByName nl RawIfaceName ?k = Some idx)" if "tbl ?k n = Some h" for n h
    using gone [OF that] raw_invD(2) [OF inv, of n h] by auto
  moreover have "LinkByName nl other ?k = LinkByName nl other k0" if "other \<noteq> RawIfaceName" for other
    using c(2) [OF that] raw_invD(1) [OF inv that] by simp
  ultimately show ?thesis using gone c(1) by (simp add: raw_inv_def)
qed

lemma create_outcome:
  assumes laws: "tun_laws nl tn tbl nft" and run: "createRawTUN tn RawIfaceName s = (e, s1)"
  shows "raw_inv nl tbl (rkern s) (rkern s1) \<and> nft (rkern s1) = nft (rkern s) \<and>
    (e = None \<longrightarrow> rnet s1 = noNetworking\<lparr>rnIface := RawIfaceName\<rparr>) \<and> (e \<noteq> None \<longrightarrow> rnet s1 = rnet s \<and> (\<forall>n h. tbl (rkern s1) n = Some h \<longrightarrow> tbl (rkern s) n = Some h))"
proof -
  obtain b k where set_iff: "tunSetIff tn RawIfaceName (rkern s) = (b, k)" by fastforce
  have k: "tbl k = tbl (rkern s)" "nft k = nft (rkern s)"
    "\<And>other. other \<noteq> RawIfaceName \<or> \<not> b \<Longrightarrow> LinkByName nl other k = LinkByName nl other (rkern s)"
    using conjunct1 [OF tun_parts(2) [OF laws, unfolded device_laws_def], rule_format, of RawIfaceName "rkern s"] set_iff
    by (auto simp: Let_def)
  have inv: "raw_inv nl tbl (rkern s) k" using k by (auto simp: raw_inv_def)
  then show ?thesis
    using run set_iff k close_keeps [OF laws inv] raw_inv_start [of nl tbl "rkern s"]
    by (auto simp: createRawTUN_def split: if_splits bool.splits)
qed

lemma teardown_clears:
  assumes laws: "tun_laws nl tn tbl nft" and good: "raw_good nl tbl nft k0 s"
  defines "t \<equiv> teardownRawTUN nl tn s"
  shows "raw_inv nl tbl k0 (rkern t) \<and> LinkByName nl RawIfaceName (rkern t) = None \<and> rnet t = noNetworking \<and>
    (nft (rkern t) \<in> {None, nft k0} \<or> (\<exists>k. fst (delTable tn nftTableName k) = NftFailed))"
proof -
  define k1 where "k1 = (if rnMss (rnet s) then teardownRawMSSClampingNFT tn (rkern s) else rkern s)"
  have n1: "same_links nl (rkern s) k1 \<and> tbl k1 = tbl (rkern s) \<and>
      (nft k1 \<in> {None, nft k0} \<or> (\<exists>k. fst (delTable tn nftTableName k) = NftFailed))"
    using nft_step(2) [OF laws, of "rkern s"] good by (auto simp: k1_def same_links_refl raw_good_def)
  have inv1: "raw_inv nl tbl k0 k1" using raw_inv_same [of nl tbl k0 "rkern s" k1] good n1 by (simp add: raw_good_def)
  have name: "rnIface (rnet s) = RawIfaceName" "RawIfaceName \<noteq> []" using good by (simp_all add: raw_good_def RawIfaceName_def)
  show ?thesis
  proof (cases "LinkByName nl RawIfaceName k1")
    case None
    then have "t = s\<lparr>rnet := noNetworking, rkern := k1\<rparr>"
      unfolding t_def teardownRawTUN_def Let_def k1_def [symmetric] name(1) using name(2) by simp
    then show ?thesis using None n1 inv1 by simp
  next
    case (Some idx)
    define k2 where "k2 = delHalfRoutes tn idx (rnRoutes (rnet s)) k1"
    define k3 where "k3 = (if rnAddr (rnet s) = [] then k2 else case ParseIP (rnAddr (rnet s)) of None \<Rightarrow> k2
        | Some ip \<Rightarrow> snd (addrDel tn idx (IPNet ip (CIDRMask 32 4)) k2))"
    have s2: "raw_inv nl tbl k0 k2 \<and> same_links nl k1 k2 \<and> nft k2 = nft k1"
      using delHalf_inv [OF laws] inv1 by (simp add: k2_def)
    have "drops tbl k2 k2" by (simp add: drops_def)
    then have "same_links nl k2 k3 \<and> nft k3 = nft k2 \<and> drops tbl k2 k3"
      using tun_parts(5) [OF laws, where k = k2 and idx = idx] same_links_refl [of nl k2] by (simp add: k3_def split: option.split)
    then have s3: "raw_inv nl tbl k0 k3" "same_links nl k1 k3" "nft k3 = nft k1"
      using raw_inv_drops [of nl tbl k0 k2 k3] s2 same_links_trans [of nl k1 k2 k3] by simp_all
    have "LinkByName nl RawIfaceName k3 = Some idx" using Some s3(2) by (simp add: same_links_def)
    note del = link_del_clears [OF laws s3(1) this]
    have "t = s\<lparr>rnet := noNetworking, rkern := snd (LinkDel nl idx k3)\<rparr>"
      unfolding t_def teardownRawTUN_def Let_def k1_def [symmetric] name(1) Some option.case k2_def [symmetric] k3_def [symmetric]
      using name(2) by simp
    then show ?thesis using del n1 s3(3) by simp
  qed
qed

definition configureAll :: "'k netlink \<Rightarrow> 'k tun_ops \<Rightarrow> (string \<times> int) list \<Rightarrow> 'k raw_state \<Rightarrow> 'k raw_state" where
  "configureAll nl tn confs s = fold (\<lambda>(addr, mtu) s. snd (setupRawTUN nl tn RawIfaceName addr mtu s)) confs s"

lemma configureAll_good: "tun_laws nl tn tbl nft \<Longrightarrow> raw_good nl tbl nft k0 s \<Longrightarrow> raw_good nl tbl nft k0 (configureAll nl tn confs s)"
  unfolding configureAll_def by (induction confs arbitrary: s) (auto intro: setup_good)


text \<open>A kernel with its routes, whether \<open>wg-qwdtt\<close> (index 7) and \<open>raw-qwdtt\<close> (index 8) exist, and the table.\<close>

type_synonym raw_kernel = "(ipnet \<Rightarrow> hop option) \<times> bool \<times> bool \<times> nft_table option"

definition without :: "nat \<Rightarrow> (ipnet \<Rightarrow> hop option) \<Rightarrow> ipnet \<Rightarrow> hop option" where
  "without idx t = (\<lambda>n. if t n = Some (OnLink idx) then None else t n)"

definition rawNl :: "raw_kernel netlink" where
  "rawNl =
     \<lparr>RouteReplace = (\<lambda>n g (t, w). (True, t(n \<mapsto> Via g), w)), RouteAdd = (\<lambda>n i (t, w). (True, t(n \<mapsto> OnLink i), w)),
      RouteDel = (\<lambda>n (t, w). (True, t(n := None), w)), RouteList = (\<lambda>_. Some []),
      LinkByName = (\<lambda>name (t, w, r, f). if name = wgIface \<and> w then Some 7 else if name = RawIfaceName \<and> r then Some 8 else None),
      LinkAdd = (\<lambda>name (t, w, r, f). if name = wgIface \<and> \<not> w then (True, t, True, r, f) else (False, t, w, r, f)),
      LinkDel = (\<lambda>i (t, w, r, f). (True, without i t, w \<and> i \<noteq> 7, r \<and> i \<noteq> 8, f)),
      LinkSetUp = (\<lambda>_ k. (True, k)), LinkSetMTU = (\<lambda>_ _ k. (True, k)),
      AddrAdd = (\<lambda>i n (t, w). (True, t(n \<mapsto> OnLink i), w)), ConfigureDevice = (\<lambda>_ _ k. (True, k))\<rparr>"

definition rawOps :: "raw_kernel tun_ops" where
  "rawOps =
     \<lparr>openTun = (\<lambda>_. True),
      tunSetIff = (\<lambda>name (t, w, r, f). if name = RawIfaceName then (True, t, w, True, f) else (False, t, w, r, f)),
      setNonblock = (\<lambda>_. True),
      closeTun = (\<lambda>name (t, w, r, f). if name = RawIfaceName \<and> r then (without 8 t, w, False, f) else (t, w, r, f)),
      isExist = (\<lambda>_ _ _. False),
      routeDelOn = (\<lambda>i n (t, w). if t n = Some (OnLink i) then (True, t(n := None), w) else (False, t, w)),
      addrDel = (\<lambda>_ _ k. (True, k)),
      delTable = (\<lambda>_ (t, w, r, f). (if f = None then NftMissing else NftOk, t, w, r, None)),
      addTable = (\<lambda>x (t, w, r, f). (NftOk, t, w, r, Some x))\<rparr>"

definition rawTables :: "raw_kernel \<Rightarrow> nft_table option" where
  "rawTables = (\<lambda>(t, w, r, f). f)"

lemma names_differ: "wgIface \<noteq> RawIfaceName"
  by (simp add: wgIface_def RawIfaceName_def)

lemma rawNl_laws: "netlink_laws rawNl fst"
  unfolding netlink_laws_def
  by (intro conjI)
     (auto simp: replace_law_def add_law_def del_law_def link_add_law_def link_del_law_def device_law_def grows_on_def same_links_def
       rawNl_def without_def names_differ split: if_splits)

lemma rawOps_device: "device_laws rawNl rawOps fst rawTables"
  using names_differ
  by (auto simp: device_laws_def rawOps_def rawNl_def rawTables_def without_def split: if_splits)

lemma rawOps_laws: "tun_laws rawNl rawOps fst rawTables"
  unfolding tun_laws_def
  by (intro conjI rawNl_laws rawOps_device)
     (auto simp: nft_laws_def same_links_def drops_def rawOps_def rawNl_def rawTables_def split: if_splits)

definition rawStart :: "raw_kernel raw_state" where
  "rawStart = \<lparr>rkern = ([IPNet [] [] \<mapsto> Via [192, 168, 0, 1]], False, False, None), rnet = noNetworking\<rparr>"

definition rawRunning :: "raw_kernel raw_state" where
  "rawRunning = configureAll rawNl rawOps [(''10.0.0.2'', 1280)] (snd (createRawTUN rawOps RawIfaceName rawStart))"


end
