(* ===== verification/Listing.thy ===== *)
theory Listing
  imports Running
begin

text \<open>
  The read-only commands: \<open>list\<close>, \<open>show\<close>, \<open>subscription show\<close>, \<open>log\<close>, the completions, the interactive choice of a
  profile and the statistics of \<open>debug\<close> (\<open>commands.go\<close>, \<open>cli.go\<close>, \<open>utils.go\<close>).  What they print is a value: the lines of
  \<open>list\<close> as they are, otherwise the data of the lines.
\<close>

section \<open>list: collecting\<close>

record profileInfo =
  iName :: string
  iPeer :: string
  iHashes :: nat
  iEnabled :: bool
  iPriority :: int
  iGroups :: "string list"
  iActive :: bool
  iMode :: string
  iSocksPort :: int
  iReadOnly :: bool
  iSubscription :: string

definition profileInfoOf :: "io \<Rightarrow> store \<Rightarrow> (string \<times> ProfileDetails) list \<Rightarrow> bool \<Rightarrow> string \<Rightarrow> profileInfo option" where
  "profileInfoOf io s details ro n =
     (case loadProfile io s n of
        Inl _ \<Rightarrow> None
      | Inr p \<Rightarrow>
          (let d = map_of details n in
           Some \<lparr>iName = n, iPeer = pPeerAddr p, iHashes = length (pHashes p), iEnabled = isProfileEnabled io s n, iPriority = pPriority p,
             iGroups = pGroups p, iActive = (d \<noteq> None), iMode = (case d of Some x \<Rightarrow> rdMode x | None \<Rightarrow> []),
             iSocksPort = (case d of Some x \<Rightarrow> rdSocksPort x | None \<Rightarrow> 0), iReadOnly = ro, iSubscription = pSubscription p\<rparr>))"

definition readProfilesFromDir :: "io \<Rightarrow> store \<Rightarrow> (string \<times> ProfileDetails) list \<Rightarrow> bool \<Rightarrow> profileInfo list" where
  "readProfilesFromDir io s details ro = List.map_filter (profileInfoOf io s details ro) (dirNames ro s)"

section \<open>list: filters and order\<close>

record list_flags =
  lEnabled :: bool
  lDisabled :: bool
  lRo :: bool
  lActive :: bool
  lSub :: bool
  lNoIP :: bool
  lGroups :: "string list"

record sections =
  regular :: "profileInfo list"
  managed :: "profileInfo list"
  readOnly :: "profileInfo list"

definition eachSection :: "(profileInfo list \<Rightarrow> profileInfo list) \<Rightarrow> sections \<Rightarrow> sections" where
  "eachSection f x = \<lparr>regular = f (regular x), managed = f (managed x), readOnly = f (readOnly x)\<rparr>"

definition filterByGroups :: "string list \<Rightarrow> profileInfo list \<Rightarrow> profileInfo list" where
  "filterByGroups gs = filter (\<lambda>p. list_ex (\<lambda>g. g \<in> set gs) (iGroups p))"

definition filterByStatus :: "list_flags \<Rightarrow> profileInfo list \<Rightarrow> profileInfo list" where
  "filterByStatus f = filter (\<lambda>p. (lEnabled f \<and> iEnabled p) \<or> (lDisabled f \<and> \<not> iEnabled p))"

definition sortProfilesByPriority :: "profileInfo list \<Rightarrow> profileInfo list" where
  "sortProfilesByPriority ps = sort_key (\<lambda>p. - iPriority p) (sort_key iName ps)"

definition collectSections :: "io \<Rightarrow> store \<Rightarrow> (string \<times> ProfileDetails) list \<Rightarrow> sections" where
  "collectSections io s details =
     (let own = readProfilesFromDir io s details False in
      \<lparr>regular = filter (\<lambda>p. iSubscription p = []) own, managed = filter (\<lambda>p. iSubscription p \<noteq> []) own,
       readOnly = readProfilesFromDir io s details True\<rparr>)"

definition filterSections :: "list_flags \<Rightarrow> sections \<Rightarrow> sections" where
  "filterSections f x0 =
     (let x1 = (if lGroups f \<noteq> [] then eachSection (filterByGroups (lGroups f)) x0 else x0);
          x2 = (if lEnabled f \<or> lDisabled f then eachSection (filterByStatus f) x1 else x1);
          x3 = (if lRo f then x2\<lparr>regular := [], managed := []\<rparr> else x2);
          x4 = (if lSub f then x3\<lparr>regular := [], readOnly := [], managed := filter (\<lambda>p. iSubscription p \<noteq> []) (managed x3)\<rparr> else x3);
          x5 = (if lActive f then eachSection (filter iActive) x4 else x4)
      in eachSection sortProfilesByPriority x5)"

section \<open>list: lines\<close>

definition colorReset :: string where "colorReset = CHR 0x1B # ''[0m''"
definition colorGreen :: string where "colorGreen = CHR 0x1B # ''[32m''"
definition colorRed :: string where "colorRed = CHR 0x1B # ''[31m''"
definition colorCyan :: string where "colorCyan = CHR 0x1B # ''[36m''"
definition colorYellow :: string where "colorYellow = CHR 0x1B # ''[33m''"

definition modeTag :: "string \<Rightarrow> int \<Rightarrow> string" where
  "modeTag mode port =
     (if mode = ''socks'' then '' [socks:'' @ Itoa port @ '']'' else if mode = ''raw'' then '' [raw]'' else '' [tun]'')"

definition hashesWord :: string where
  "hashesWord =
     '' '' @ [CHR 0xD1, CHR 0x85, CHR 0xD0, CHR 0xB5, CHR 0xD1, CHR 0x88, CHR 0xD0, CHR 0xB5, CHR 0xD0, CHR 0xB9]"

definition listLine :: "bool \<Rightarrow> nat \<Rightarrow> nat \<Rightarrow> string \<Rightarrow> profileInfo \<Rightarrow> string" where
  "listLine noIP nameLen peerLen current p =
     (let socks = (iActive p \<and> iMode p = ''socks''); cur = (current = iName p);
          mode0 = (if iActive p then modeTag (iMode p) (iSocksPort p) else []);
          marker = (if cur \<and> iActive p then colorYellow @ '' [autoswitch]'' @ colorReset else []);
          mode = (if cur \<and> \<not> iActive p then '' [autoswitch]'' else mode0);
          status = (if iEnabled p then colorGreen else colorRed) @ padRight 8 (if iEnabled p then ''enabled'' else ''disabled'') @ colorReset;
          padded = padRight 15 mode;
          shown =
            (if cur \<and> iActive p then (if socks then colorCyan @ mode @ colorReset else mode)
             else if cur then colorYellow @ padded @ colorReset
             else if socks then colorCyan @ padded @ colorReset else padded);
          groups = (if iGroups p = [] then [] else colorCyan @ '' ['' @ Join (iGroups p) '', '' @ '']'' @ colorReset)
      in '' '' @ (if iActive p then ''*'' else '' '') @ '' '' @ padRight nameLen (iName p) @
         (if noIP then [] else ''  '' @ padRight peerLen (iPeer p)) @
         ''  '' @ Itoa (int (iHashes p)) @ hashesWord @ ''  ['' @ status @ '']  priority: '' @ padRight 3 (Itoa (iPriority p)) @
         groups @ shown @ marker @ [newline])"

datatype auto_status =
    AutoRunning string int "string option"
  | AutoPointer "string option"
  | CurrentProfile string "(string \<times> int) option"
  | NoCurrent

definition autoStatus :: "io \<Rightarrow> store \<Rightarrow> (string \<times> ProfileDetails) list \<Rightarrow> auto_status" where
  "autoStatus io s details =
     (let c = getAutoswitchCurrentProfile io s; cur = (if c = [] then None else Some c); a = getActiveProfile io s in
      case map_of details ''autoswitch'' of
        Some d \<Rightarrow> AutoRunning (rdMode d) (rdSocksPort d) cur
      | None \<Rightarrow>
          if a = ''autoswitch'' then AutoPointer cur
          else if a = [] then NoCurrent
          else CurrentProfile a (map_option (\<lambda>d. (rdMode d, rdSocksPort d)) (map_of details a)))"

datatype listing = BothStatuses | NothingListed | Listed "string list" "string list" "string list" auto_status

definition listCmd :: "io \<Rightarrow> store \<Rightarrow> (string \<times> ProfileDetails) list \<Rightarrow> list_flags \<Rightarrow> listing" where
  "listCmd io s details f =
     (let all = collectSections io s details; infos = regular all @ managed all @ readOnly all; x = filterSections f all;
          line = listLine (lNoIP f) (maxLen (map iName infos)) (maxLen (map iPeer infos)) (getAutoswitchCurrentProfile io s)
      in if lEnabled f \<and> lDisabled f then BothStatuses
         else if regular x = [] \<and> readOnly x = [] \<and> managed x = [] then NothingListed
         else Listed (map line (regular x)) (map line (managed x)) (map line (readOnly x)) (autoStatus io s details))"

section \<open>show\<close>

record shown =
  sReadOnly :: bool
  sPeer :: string
  sPassword :: string
  sListen :: string
  sTurn :: "(string \<times> string) option"
  sDeviceID :: "string option"
  sWorkers :: int
  sEnabled :: bool
  sPriority :: int
  sGroups :: "string list"
  sManager :: "string option"
  sRunning :: "(string \<times> (int \<times> string option) option \<times> int) option"
  sHashes :: "(nat \<times> string) list"

definition nonempty :: "string \<Rightarrow> string option" where
  "nonempty s = (if s = [] then None else Some s)"

text \<open>Mode, in SOCKS mode port and listen address, and PID of a running profile.\<close>

definition runningPart :: "ProfileDetails \<Rightarrow> string \<times> (int \<times> string option) option \<times> int" where
  "runningPart d =
     (rdMode d,
      if rdMode d = ''socks''
      then Some (rdSocksPort d, if rdSocksPublic d then Some ''0.0.0.0 (public)'' else nonempty (rdSocksListenAddr d)) else None,
      rdPID d)"

definition showProfile :: "io \<Rightarrow> store \<Rightarrow> (string \<times> ProfileDetails) list \<Rightarrow> string \<Rightarrow> ProfileData \<Rightarrow> shown" where
  "showProfile io s details n p =
     \<lparr>sReadOnly = isRO n, sPeer = pPeerAddr p, sPassword = maskPassword (pPassword p), sListen = pListen p,
      sTurn = (if pTurnHost p = [] then None else Some (pTurnHost p, pTurnPort p)), sDeviceID = nonempty (pDeviceID p),
      sWorkers = (if pWorkers p \<le> 0 then defaultWorkers else pWorkers p), sEnabled = isProfileEnabled io s n, sPriority = pPriority p,
      sGroups = pGroups p, sManager = nonempty (pSubscription p), sRunning = map_option runningPart (map_of details n),
      sHashes = enumerate 1 (pHashes p)\<rparr>"

datatype show_result = ShowNoManaged | ShowUsage | Shown "(string \<times> (store_error + shown)) list" bool

definition showCmd :: "io \<Rightarrow> store \<Rightarrow> (string \<times> ProfileDetails) list \<Rightarrow> string \<Rightarrow> bool \<Rightarrow> string list \<Rightarrow> show_result" where
  "showCmd io s details grp sub names0 =
     (let bySub = sub \<and> grp = [] \<and> names0 = []; names1 = (if bySub then profilesInAllSubscriptions io s else names0);
          names = collectTargets io s grp names1;
          rs = map (\<lambda>n. (n, map_sum id (showProfile io s details n) (loadProfile io s n))) names
      in if bySub \<and> names1 = [] then ShowNoManaged
         else if names = [] then ShowUsage
         else Shown rs (list_ex (\<lambda>(_, r). isl r) rs))"

section \<open>subscription show\<close>

datatype sub_entry = SubUnreadable string | SubEntry string nat "string option" string

definition subEntry :: "io \<Rightarrow> store \<Rightarrow> string \<Rightarrow> sub_entry" where
  "subEntry io s n =
     (case loadSubscription io s n of
        Inl _ \<Rightarrow> SubUnreadable n
      | Inr c \<Rightarrow> SubEntry n (length (sProfiles c)) (nonempty (sLastFetch c)) (sURL c))"

text \<open>A managed profile: its number, its name, and status and address if it loads.\<close>

definition subProfileRow :: "io \<Rightarrow> store \<Rightarrow> nat \<times> string \<Rightarrow> nat \<times> string \<times> (bool \<times> string) option" where
  "subProfileRow io s x =
     (case x of (i, n) \<Rightarrow>
        (i, n, case loadProfile io s n of Inl _ \<Rightarrow> None | Inr p \<Rightarrow> Some (isProfileEnabled io s n, pPeerAddr p)))"

datatype sub_show = SubList "sub_entry list" | SubMissing "string list" | SubShown SubscriptionConfig "(nat \<times> string \<times> (bool \<times> string) option) list"

definition subscriptionShowCmd :: "io \<Rightarrow> store \<Rightarrow> string list \<Rightarrow> sub_show" where
  "subscriptionShowCmd io s args =
     (case args of
        [] \<Rightarrow> SubList (map (subEntry io s) (listSubscriptions s))
      | n # _ \<Rightarrow>
          if n = [] then SubList (map (subEntry io s) (listSubscriptions s))
          else case loadSubscription io s n of
            Inl _ \<Rightarrow> SubMissing (listSubscriptions s)
          | Inr c \<Rightarrow> SubShown c (map (subProfileRow io s) (enumerate 1 (sProfiles c))))"

section \<open>log, completions, interactive choice\<close>

definition lastLines :: "int \<Rightarrow> string \<Rightarrow> string" where
  "lastLines n content =
     (if n > 0 then
        (let ls = SplitByte newline content in Join (if int (length ls) > n then drop (length ls - nat n) ls else ls) [newline])
      else content)"

text \<open>The name whose log is shown, and what is printed; with \<open>follow\<close> a newline closes an unfinished line.\<close>

definition logCmd :: "io \<Rightarrow> store \<Rightarrow> (string \<Rightarrow> string option) \<Rightarrow> string list \<Rightarrow> int \<Rightarrow> bool \<Rightarrow> string option" where
  "logCmd io s logOf args n follow =
     (let name = (case args of a # _ \<Rightarrow> if \<not> HasPrefix a ''-'' then Some a else None | [] \<Rightarrow> None);
          active = getActiveProfile io s;
          file = (case name of Some a \<Rightarrow> a | None \<Rightarrow> if active = [] then ''autoswitch'' else active)
      in map_option (\<lambda>data. let c = lastLines n data in c @ (if follow \<and> \<not> HasSuffix c [newline] then [newline] else [])) (logOf file))"

definition listNonReadOnlyProfileNames :: "store \<Rightarrow> string list" where
  "listNonReadOnlyProfileNames s = dirNames False s"

definition logProfile :: "string \<Rightarrow> string option" where
  "logProfile name =
     (if \<not> HasSuffix name ''.log'' \<or> \<not> HasPrefix name ''qwdtt-'' then None
      else nonempty (TrimPrefix (TrimSuffix name ''.log'') ''qwdtt-''))"

definition listLogProfileNames :: "string list \<Rightarrow> string list" where
  "listLogProfileNames entries = List.map_filter logProfile entries"

definition completeGroups :: "io \<Rightarrow> store \<Rightarrow> string list" where
  "completeGroups io s =
     collect_unique (\<lambda>_. True)
       (concat (map (\<lambda>n. case loadProfile io s n of Inr p \<Rightarrow> pGroups p | Inl _ \<Rightarrow> []) (listAllProfileNames s)))"

definition completeRunning :: "io \<Rightarrow> store \<Rightarrow> bool \<Rightarrow> string list \<Rightarrow> string list" where
  "completeRunning io s autoswitchRuns running =
     (let c = getAutoswitchCurrentProfile io s in
      sort (remdups (running @ (if c \<noteq> [] \<and> autoswitchRuns then [c] else []))))"

definition selectProfileInteractive :: "io \<Rightarrow> store \<Rightarrow> int option \<Rightarrow> string" where
  "selectProfileInteractive io s choice =
     (let ps = filter (\<lambda>n. \<not> isl (loadProfile io s n) \<and> isProfileEnabled io s n) (listAllProfileNames s) in
      case choice of
        None \<Rightarrow> []
      | Some c \<Rightarrow> if ps = [] \<or> c < 1 \<or> c > int (length ps) then [] else ps ! nat (c - 1))"

section \<open>Statistics\<close>

text \<open>The loop that finds the unit, on 64-bit integers; divisor and exponent.\<close>

function unitLoop :: "int \<Rightarrow> int \<Rightarrow> nat \<Rightarrow> int \<times> nat" where
  "unitLoop n d e = (if n \<ge> 1024 then unitLoop (n div 1024) (d * 1024) (e + 1) else (d, e))"
  by auto
termination by (relation "measure (\<lambda>(n, d, e). nat n)") auto

declare unitLoop.simps [simp del]

text \<open>One decimal, ties to even; the quotient of integers below $2^{53}$ by a power of two is exact in a float.\<close>

definition tenths :: "int \<Rightarrow> int \<Rightarrow> int" where
  "tenths b d =
     (let q = (10 * b) div d; r = (10 * b) mod d in if 2 * r < d then q else if 2 * r > d then q + 1 else if even q then q else q + 1)"

definition formatBytes :: "int \<Rightarrow> string" where
  "formatBytes b =
     (if b < 1024 then Itoa b @ '' B''
      else case unitLoop (b div 1024) 1024 0 of
        (d, e) \<Rightarrow> (let t = tenths b d in Itoa (t div 10) @ ''.'' @ Itoa (t mod 10) @ '' '' @ [''KMGTPE'' ! e] @ ''B''))"

record WGStats =
  RxBytes :: int
  TxBytes :: int
  RxPackets :: int
  TxPackets :: int

definition getWGStats :: "(string \<Rightarrow> string option) \<Rightarrow> WGStats option" where
  "getWGStats readStat =
     (let num = (\<lambda>s. case Atoi (TrimSpace s) of Some n \<Rightarrow> n | None \<Rightarrow> 0) in
      case (readStat ''rx_bytes'', readStat ''tx_bytes'', readStat ''rx_packets'', readStat ''tx_packets'') of
        (Some a, Some b, Some c, Some d) \<Rightarrow> Some \<lparr>RxBytes = num a, TxBytes = num b, RxPackets = num c, TxPackets = num d\<rparr>
      | _ \<Rightarrow> None)"

record ProcessUsage =
  uCPU :: rat
  uMemory :: int
  uThreads :: int
  uWorkers :: int

definition threadsOf :: "string option \<Rightarrow> int option" where
  "threadsOf status =
     (case status of
        None \<Rightarrow> None
      | Some s \<Rightarrow>
          (case find (\<lambda>l. HasPrefix l ''Threads:'') (SplitByte newline s) of
             None \<Rightarrow> None
           | Some l \<Rightarrow> Atoi (TrimSpace (TrimPrefix l ''Threads:''))))"

definition getProcessUsageByPID :: "(string \<Rightarrow> rat option) \<Rightarrow> string option \<Rightarrow> string option \<Rightarrow> ProcessUsage option" where
  "getProcessUsageByPID parseFloat ps status =
     (case ps of
        None \<Rightarrow> None
      | Some out \<Rightarrow>
          (case Go_Strings.Fields out of
             c # m # _ \<Rightarrow>
               (case (parseFloat (map (\<lambda>x. if x = CHR '','' then CHR ''.'' else x) c), Atoi m) of
                  (Some cpu, Some rss) \<Rightarrow>
                    (let t = (case threadsOf status of Some t \<Rightarrow> t | None \<Rightarrow> 0) in
                     Some \<lparr>uCPU = cpu, uMemory = rss * 1024, uThreads = t, uWorkers = (if t > 3 then t - 3 else 0)\<rparr>)
                | _ \<Rightarrow> None)
           | _ \<Rightarrow> None))"

text \<open>The processes are that of the active profile, or all that \<open>pgrep\<close> finds; the process itself does not count.\<close>

definition getProcessUsage :: "string \<Rightarrow> string option \<Rightarrow> int \<Rightarrow> (int \<Rightarrow> ProcessUsage option) \<Rightarrow> ProcessUsage option" where
  "getProcessUsage pidFile pgrep self usageOf =
     (let pid = TrimSpace pidFile in
      case (if pid \<noteq> [] then Some [pid] else map_option (\<lambda>out. SplitByte newline (TrimSpace out)) pgrep) of
        None \<Rightarrow> None
      | Some pids \<Rightarrow>
          (let ns = map (\<lambda>p. case Atoi p of Some n \<Rightarrow> n | None \<Rightarrow> 0) (filter (\<lambda>p. p \<noteq> []) pids);
               us = List.map_filter usageOf (filter (\<lambda>n. n \<noteq> self) ns); threads = sum_list (map uThreads us)
           in if us = [] then None
              else Some \<lparr>uCPU = sum_list (map uCPU us), uMemory = sum_list (map uMemory us), uThreads = threads,
                uWorkers = (if threads > 3 then threads - 3 else 0)\<rparr>))"

section \<open>What the commands show\<close>

text \<open>\<open>list\<close> shows exactly the profiles that load and pass the filters, each section sorted by falling priority and then by name.\<close>

definition passes :: "list_flags \<Rightarrow> profileInfo \<Rightarrow> bool" where
  "passes f p \<longleftrightarrow>
     (lGroups f \<noteq> [] \<longrightarrow> set (iGroups p) \<inter> set (lGroups f) \<noteq> {}) \<and>
     (lEnabled f \<or> lDisabled f \<longrightarrow> lEnabled f \<and> iEnabled p \<or> lDisabled f \<and> \<not> iEnabled p) \<and>
     (lRo f \<longrightarrow> iReadOnly p) \<and> (lSub f \<longrightarrow> \<not> iReadOnly p \<and> iSubscription p \<noteq> []) \<and> (lActive f \<longrightarrow> iActive p)"

lemma eachSection_simps [simp]:
  "regular (eachSection g x) = g (regular x)" "managed (eachSection g x) = g (managed x)" "readOnly (eachSection g x) = g (readOnly x)"
  by (simp_all add: eachSection_def)

lemma set_sorted [simp]: "set (sortProfilesByPriority ps) = set ps"
  by (simp add: sortProfilesByPriority_def)

lemma set_groups [simp]: "set (filterByGroups gs ps) = {p \<in> set ps. set (iGroups p) \<inter> set gs \<noteq> {}}"
  by (auto simp: filterByGroups_def list_ex_iff)

lemma set_status [simp]: "set (filterByStatus f ps) = {p \<in> set ps. lEnabled f \<and> iEnabled p \<or> lDisabled f \<and> \<not> iEnabled p}"
  by (auto simp: filterByStatus_def)

lemma read_flags: "p \<in> set (readProfilesFromDir io s details ro) \<Longrightarrow> iReadOnly p = ro"
  by (auto simp: readProfilesFromDir_def List.map_filter_def profileInfoOf_def Let_def split: sum.splits)

lemma sections_exact:
  fixes io s details f
  defines "all \<equiv> collectSections io s details"
  defines "x \<equiv> filterSections f all"
  shows "set (regular x) = {p \<in> set (regular all). passes f p}" "set (managed x) = {p \<in> set (managed all). passes f p}"
    "set (readOnly x) = {p \<in> set (readOnly all). passes f p}"
proof -
  have r: "p \<in> set (regular all) \<Longrightarrow> \<not> iReadOnly p \<and> iSubscription p = []" "p \<in> set (managed all) \<Longrightarrow> \<not> iReadOnly p \<and> iSubscription p \<noteq> []"
    "p \<in> set (readOnly all) \<Longrightarrow> iReadOnly p" for p
    using read_flags by (auto simp: all_def collectSections_def Let_def)
  show "set (regular x) = {p \<in> set (regular all). passes f p}"
    using r(1) by (auto simp: x_def filterSections_def passes_def Let_def)
  show "set (managed x) = {p \<in> set (managed all). passes f p}"
    using r(2) by (auto simp: x_def filterSections_def passes_def Let_def)
  show "set (readOnly x) = {p \<in> set (readOnly all). passes f p}"
    using r(3) by (auto simp: x_def filterSections_def passes_def Let_def)
qed

text \<open>The unit of a byte count never runs past the table: an \<open>int64\<close> is below $2^{63}$.\<close>

lemma div_below: "n < 1024 * m \<Longrightarrow> n div 1024 < (m :: int)"
  by presburger

lemma unitLoop_exponent: "n < 1024 ^ Suc k \<Longrightarrow> snd (unitLoop n d e) \<le> e + k"
proof (induction k arbitrary: n d e)
  case 0 then show ?case by (simp add: unitLoop.simps [of n])
next
  case (Suc k)
  show ?case
  proof (cases "n \<ge> 1024")
    case True
    have "n < 1024 * 1024 ^ Suc k" using Suc.prems by simp
    then have "n div 1024 < 1024 ^ Suc k" by (rule div_below)
    then show ?thesis using Suc.IH [of "n div 1024" "d * 1024" "e + 1"] True by (simp add: unitLoop.simps [of n])
  next
    case False then show ?thesis by (simp add: unitLoop.simps [of n])
  qed
qed

lemma formatBytes_in_table: "b < 2 ^ 63 \<Longrightarrow> snd (unitLoop (b div 1024) 1024 0) < length ''KMGTPE''"
proof -
  assume "b < 2 ^ 63"
  then have "b < 1024 * 1024 ^ Suc 5" by simp
  then have "b div 1024 < 1024 ^ Suc 5" by (rule div_below)
  from unitLoop_exponent [OF this, of 1024 0] show ?thesis by simp
qed

lemma formatBytes_sample: "formatBytes 1536 = ''1.5 KB''" "formatBytes 1048575 = ''1024.0 KB''"
  by code_simp+

text \<open>A number of lines counts the empty string behind the last newline: \<open>log -n 1\<close> of a complete log shows nothing.\<close>

lemma last_line_empty: "lastLines 1 (a @ [newline]) = []" if "newline \<notin> set a"
proof -
  have "SplitByte newline (a @ [newline]) = [a, []]" using that by (induction a) auto
  then show ?thesis by (simp add: lastLines_def)
qed

end
