(* ===== verification/Cli.thy ===== *)
theory Cli
  imports Listing
begin

text \<open>
  The command line: the commands of \<open>cli.go\<close>, the sub-commands of \<open>bl\<close> and \<open>subscription\<close>, reloading a bypass list of a running
  daemon, \<open>debug\<close>, \<open>regenerate-id\<close>, and small services of the processes (\<open>commands.go\<close>, \<open>daemon.go\<close>, \<open>suspend.go\<close>,
  \<open>internal/core/namegen.go\<close>).
\<close>

section \<open>Commands\<close>

datatype cli_command =
    Connect | Disconnect | Switch | Debug | Add | Edit | Remove | Move | ListProfiles | Show | Share | Enable | Disable | Import
  | Bl | DeviceIDs | RegenerateID | Log | Test | Subscription | Complete string | Version | Help

definition commandTable :: "(string list \<times> cli_command) list" where
  "commandTable =
     [([''connect'', ''con''], Connect), ([''disconnect'', ''discon''], Disconnect), ([''switch'', ''sw''], Switch),
      ([''debug'', ''deb''], Debug), ([''add''], Add), ([''edit''], Edit), ([''remove'', ''rm''], Remove), ([''move'', ''mv''], Move),
      ([''list'', ''ls''], ListProfiles), ([''show'', ''sh''], Show), ([''share''], Share), ([''enable'', ''en''], Enable),
      ([''disable'', ''dis''], Disable), ([''import''], Import), ([''bl''], Bl), ([''device-id'', ''id''], DeviceIDs),
      ([''regenerate-id''], RegenerateID), ([''log'', ''lg''], Log), ([''test''], Test), ([''subscription'', ''sub''], Subscription),
      ([''__complete_subscriptions''], Complete ''subscriptions''), ([''version'', ''--version''], Version),
      ([''help'', ''-h'', ''--help''], Help), ([''__complete_enabled''], Complete ''enabled''),
      ([''__complete_disabled''], Complete ''disabled''), ([''__complete_all''], Complete ''all''), ([''__complete_user''], Complete ''user''),
      ([''__complete_logs''], Complete ''logs''), ([''__complete_groups''], Complete ''groups''), ([''__complete_running''], Complete ''running'')]"

text \<open>\<open>None\<close> prints the usage and fails.\<close>

definition commandOf :: "string list \<Rightarrow> cli_command option" where
  "commandOf args =
     (case args of _ # cmd # _ \<Rightarrow> map_option snd (find (\<lambda>(ns, _). cmd \<in> set ns) commandTable) | _ \<Rightarrow> None)"

definition completions :: "io \<Rightarrow> store \<Rightarrow> bool \<Rightarrow> string list \<Rightarrow> string list \<Rightarrow> string \<Rightarrow> string list" where
  "completions io s autoswitchRuns running entries which =
     (if which = ''subscriptions'' then listSubscriptions s
      else if which = ''enabled'' then listProfileNames io s
      else if which = ''disabled'' then listDisabledProfileNames io s
      else if which = ''all'' then listAllProfileNames s
      else if which = ''user'' then listNonReadOnlyProfileNames s
      else if which = ''logs'' then listLogProfileNames entries
      else if which = ''groups'' then completeGroups io s
      else if which = ''running'' then completeRunning io s autoswitchRuns running else [])"

text \<open>No name stands for two commands.\<close>

lemma commands_distinct: "distinct (concat (map fst commandTable))"
  by code_simp

section \<open>subscription\<close>

datatype sub_command = SubAdd | SubRemove | SubShow | SubMove | SubUpdate

definition subName :: "string list \<Rightarrow> string" where
  "subName args = (case find (\<lambda>a. a \<noteq> ''-'' \<and> \<not> HasPrefix a ''-'') args of Some a \<Rightarrow> a | None \<Rightarrow> [])"

text \<open>\<open>args\<close> are those behind \<open>subscription\<close>; the first that is no flag is the sub-command, even the value of a flag.\<close>

definition subscriptionCmd :: "string list \<Rightarrow> sub_command option" where
  "subscriptionCmd args =
     (let sub = subName args in
      if sub = ''add'' then Some SubAdd
      else if sub = ''remove'' \<or> sub = ''rm'' then Some SubRemove
      else if sub = ''show'' \<or> sub = ''sh'' then Some SubShow
      else if sub = ''move'' \<or> sub = ''mv'' then Some SubMove
      else if sub = ''update'' \<or> sub = ''upd'' then Some SubUpdate else None)"

datatype op_row = Created string "(string \<times> string \<times> bool) option" | Dropped string

definition opRow :: "io \<Rightarrow> store \<Rightarrow> string \<Rightarrow> op_row" where
  "opRow io s n =
     Created n (case loadProfile io s n of
       Inl _ \<Rightarrow> None | Inr p \<Rightarrow> Some (pPeerAddr p, maskPassword (pPassword p), isProfileEnabled io s n))"

definition printSubscriptionOpResult :: "io \<Rightarrow> store \<Rightarrow> string list \<Rightarrow> string list \<Rightarrow> op_row list" where
  "printSubscriptionOpResult io s created removed = map (opRow io s) created @ map Dropped removed"

section \<open>Bypass lists of running daemons\<close>

text \<open>What the running daemons say: the arguments of the operations in \<open>Running\<close>.\<close>

record bl_view =
  vAuto :: bool
  vCurrent :: string
  vActive :: string
  vDetails :: "(string \<times> ProfileDetails) list"
  vFiles :: split_files
  vSock :: "string \<Rightarrow> bool"
  vKernel :: bool

definition viewFile :: "bl_view \<Rightarrow> string \<Rightarrow> string" where
  "viewFile v profile = getBlFileForProfile (vAuto v) (vCurrent v) (vActive v) (vFiles v) (vDetails v) profile"

definition viewSocket :: "bl_view \<Rightarrow> string \<Rightarrow> socket_error + (string \<times> string \<times> string)" where
  "viewSocket v explicit = resolveBlSocket (vAuto v) (vCurrent v) (vActive v) (vSock v) (vDetails v) explicit"

datatype reload_outcome =
    NoTunnel
  | ReloadRefused socket_error
  | SendFailed
  | Reloaded string
  | ReloadRejected string
  | OtherReply string

text \<open>\<open>send\<close> is \<open>sendBlReload\<close>: the reply line of the daemon behind a socket to a path.\<close>

definition replyOutcome :: "string \<Rightarrow> reload_outcome" where
  "replyOutcome reply =
     (if HasPrefix reply ''RELOAD_OK|'' then Reloaded (TrimPrefix reply ''RELOAD_OK|'')
      else if HasPrefix reply ''RELOAD_ERR|'' then ReloadRejected (TrimPrefix reply ''RELOAD_ERR|'')
      else OtherReply reply)"

definition sendBlReloadCommand :: "bl_view \<Rightarrow> (string \<Rightarrow> string \<Rightarrow> string option) \<Rightarrow> string \<Rightarrow> string \<Rightarrow> reload_outcome" where
  "sendBlReloadCommand v send explicit path =
     (if explicit = [] \<and> \<not> vKernel v then NoTunnel
      else case viewSocket v explicit of
        Inl e \<Rightarrow> ReloadRefused e
      | Inr (sock, _, _) \<Rightarrow> (case send sock path of None \<Rightarrow> SendFailed | Some reply \<Rightarrow> replyOutcome reply))"

datatype load_outcome = LoadUsage | LoadInvalid go_err | LoadPath go_err | LoadSent reload_outcome

definition reloadBlFile :: "bl_env \<Rightarrow> (string \<Rightarrow> string) \<Rightarrow> bl_view \<Rightarrow> (string \<Rightarrow> string \<Rightarrow> string option) \<Rightarrow> string \<Rightarrow> string
    \<Rightarrow> load_outcome" where
  "reloadBlFile env absPath v send file explicit =
     (case expandPath env file of
        Inl e \<Rightarrow> LoadPath e
      | Inr p \<Rightarrow> LoadSent (sendBlReloadCommand v send explicit (absPath p)))"

definition blLoad :: "bl_env \<Rightarrow> files \<Rightarrow> (string \<Rightarrow> string) \<Rightarrow> bl_view \<Rightarrow> (string \<Rightarrow> string \<Rightarrow> string option) \<Rightarrow> string list \<Rightarrow> string
    \<Rightarrow> load_outcome" where
  "blLoad env fs absPath v send args explicit =
     (case args of
        [] \<Rightarrow> LoadUsage
      | raw # _ \<Rightarrow>
          if raw = [] then LoadUsage
          else case loadBypassRoutesFile env fs raw of
            Inl e \<Rightarrow> LoadInvalid e
          | Inr _ \<Rightarrow> reloadBlFile env absPath v send raw explicit)"

definition blUnload :: "bl_view \<Rightarrow> (string \<Rightarrow> string \<Rightarrow> string option) \<Rightarrow> string \<Rightarrow> reload_outcome" where
  "blUnload v send explicit = sendBlReloadCommand v send explicit []"

record bl_opts =
  oFile :: string
  oYes :: bool
  oProfile :: string
  oReload :: bool

datatype bl_action =
    BlUsage
  | BlInit "string list"
  | BlNoPath
  | BlNoTunnel
  | BlLoad string
  | BlUnloadUsage
  | BlUnload
  | BlTwoTargets
  | BlNoFile string
  | BlListArgs
  | BlList string
  | BlAdd "string list" string
  | BlRemove "string list" string
  | BlFind "string list" string
  | BlUnknown string

text \<open>The file the sub-commands work on: that of the profile, the given one, or that of the running tunnel.\<close>

definition blTarget :: "bl_view \<Rightarrow> bl_opts \<Rightarrow> bl_action + string" where
  "blTarget v o1 =
     (if oProfile o1 \<noteq> [] then
        (if oFile o1 \<noteq> [] then Inl BlTwoTargets
         else let f = viewFile v (oProfile o1) in if f = [] then Inl (BlNoFile (oProfile o1)) else Inr f)
      else
        let f = (if oFile o1 = [] then getCurrentBlFile (vAuto v) (vCurrent v) (vActive v) (vDetails v) else oFile o1)
        in if f = [] then Inl BlUsage else Inr f)"

definition blCmd :: "bl_view \<Rightarrow> bl_opts \<Rightarrow> string list \<Rightarrow> bl_action" where
  "blCmd v o1 args0 =
     (let sub = (case args0 of s # _ \<Rightarrow> s | [] \<Rightarrow> []); args = tl args0; arg = (case args of a # _ \<Rightarrow> a | [] \<Rightarrow> []) in
      if sub = ''init'' then BlInit args
      else if sub = ''load'' then
        (if arg = [] \<and> oFile o1 = [] then BlNoPath
         else if oProfile o1 = [] \<and> isl (viewSocket v []) then BlNoTunnel
         else BlLoad (if arg \<noteq> [] then arg else oFile o1))
      else if sub = ''unload'' then
        (if args \<noteq> [] then BlUnloadUsage
         else if oProfile o1 = [] \<and> getCurrentBlFile (vAuto v) (vCurrent v) (vActive v) (vDetails v) = [] then BlNoTunnel
         else BlUnload)
      else case blTarget v o1 of
        Inl a \<Rightarrow> a
      | Inr f \<Rightarrow>
          if sub = ''list'' \<or> sub = ''ls'' then (if args = [] then BlList f else BlListArgs)
          else if sub = ''add'' then (if args = [] then BlUsage else BlAdd args f)
          else if sub = ''remove'' \<or> sub = ''rm'' then (if args = [] then BlUsage else BlRemove args f)
          else if sub = ''find'' \<or> sub = ''fd'' then (if args = [] then BlUsage else BlFind args f)
          else BlUnknown sub)"

section \<open>debug\<close>

definition debugOrder :: "(string \<times> ProfileDetails) list \<Rightarrow> (string \<times> ProfileDetails) list" where
  "debugOrder ds = sort_key (\<lambda>(n, d). if rdMode d = ''tun'' then 0 else (1 :: nat)) (sort_key fst ds)"

definition hasRawModeProfile :: "(string \<times> ProfileDetails) list \<Rightarrow> bool" where
  "hasRawModeProfile ds = list_ex (\<lambda>(_, d). rdMode d = ''raw'') ds"

definition debugIface :: "(string \<times> ProfileDetails) list \<Rightarrow> string" where
  "debugIface ds = (if hasRawModeProfile ds then ''raw-qwdtt'' else ''wg-qwdtt'')"

text \<open>
  The black list of a profile: an error of its file, the formatted table with its number of entries, and whether changes are
  pending for the named profile.  A comma in the list of the command line ends the process.
\<close>

record black_list =
  bFileError :: bool
  bCount :: nat
  bTable :: string
  bPending :: "string option"

definition appliedTags :: "bl_env \<Rightarrow> string list \<Rightarrow> string list \<Rightarrow> (string \<times> string) list" where
  "appliedTags env applied ds =
     map (\<lambda>d. (if domainKey env d \<in> domainKey env ` set applied then [] else ''[!]'', displayDomain env d)) ds"

definition printBlackList :: "bl_env \<Rightarrow> files \<Rightarrow> (string \<Rightarrow> string) \<Rightarrow> (string \<Rightarrow> int option) \<Rightarrow> (string \<Rightarrow> int) \<Rightarrow> ProfileDetails \<Rightarrow> string
    \<Rightarrow> black_list option" where
  "printBlackList env fs absClean mtime stateMtime d profile =
     (case (if rdBlackList d = [] then Inr [] else splitDomains (rdBlackList d)) of
        Inl _ \<Rightarrow> None
      | Inr own \<Rightarrow>
          (let loaded = (if rdBlackListFile d = [] then Inr [] else loadBypassRoutesFile env fs (rdBlackListFile d));
               ds = own @ (case loaded of Inr fd \<Rightarrow> fd | Inl _ \<Rightarrow> []);
               prof = (if profile = [] then ''autoswitch'' else profile);
               pending = isBlPendingForProfile env absClean mtime (stateMtime prof) (Some d)
           in Some \<lparr>bFileError = isl loaded, bCount = length ds,
                bTable =
                  (if ds = [] then []
                   else if pending \<and> rdBlackListDomains d \<noteq> []
                   then formatTaggedDomains (appliedTags env (rdBlackListDomains d) ds) ''    '' ''  '' 3
                   else formatDomainsInColumns (map (displayDomain env) ds) ''    '' ''  '' 3),
                bPending = (if pending then Some prof else None)\<rparr>))"

datatype debug_entry =
    DebugAuto "string \<times> (int \<times> string option) option \<times> int" "string option" "ProfileUsage option" "black_list option"
  | DebugBroken string store_error
  | DebugProfile string ProfileData "string \<times> (int \<times> string option) option \<times> int" "ProfileUsage option" "black_list option option"
and ProfileUsage = ActiveWorkers int

text \<open>The entry of a running profile; \<open>bl\<close> is \<open>printBlackList\<close>, \<open>usage\<close> the worker count of a process.\<close>

definition debugEntry :: "io \<Rightarrow> store \<Rightarrow> bool \<Rightarrow> (string \<times> ProfileDetails) list \<Rightarrow> (ProfileDetails \<Rightarrow> string \<Rightarrow> black_list option)
    \<Rightarrow> (int \<Rightarrow> ProfileUsage option) \<Rightarrow> string \<times> ProfileDetails \<Rightarrow> debug_entry" where
  "debugEntry io s autoRuns details bl usage x =
     (case x of (n, d) \<Rightarrow>
        let cur = getAutoswitchCurrentProfile io s in
        if n = ''autoswitch'' then
          DebugAuto (runningPart d) (nonempty cur) (usage (rdPID d))
            (bl (case map_of details cur of Some c \<Rightarrow> c | None \<Rightarrow> d) cur)
        else case loadProfile io s n of
          Inl e \<Rightarrow> DebugBroken n e
        | Inr p \<Rightarrow>
            DebugProfile n p (runningPart d) (usage (rdPID d)) (if autoRuns \<and> n = cur then None else Some (bl d n)))"

definition debugCmd :: "io \<Rightarrow> store \<Rightarrow> bool \<Rightarrow> (string \<times> ProfileDetails) list \<Rightarrow> (ProfileDetails \<Rightarrow> string \<Rightarrow> black_list option)
    \<Rightarrow> (int \<Rightarrow> ProfileUsage option) \<Rightarrow> debug_entry list option" where
  "debugCmd io s autoRuns details bl usage =
     (if details = [] then None else Some (map (debugEntry io s autoRuns details bl usage) (debugOrder details)))"

section \<open>Device id, names, suspend, daemon files\<close>

definition regenerateIDCmd :: "io \<Rightarrow> bytes option \<Rightarrow> store \<Rightarrow> (string \<times> string) option \<times> store" where
  "regenerateIDCmd io draw s =
     (case draw of
        None \<Rightarrow> (None, s)
      | Some b \<Rightarrow>
          if io (WriteFile DeviceP) then (None, s)
          else
            (Some (case deviceFile s of Some old \<Rightarrow> if io (ReadFile DeviceP) then [] else TrimSpace old | None \<Rightarrow> [], hexEncode b),
             s\<lparr>deviceFile := Some (hexEncode b)\<rparr>))"

text \<open>The name a guest gives itself; endings of Russian surnames as UTF-8, the tables of names are arguments.\<close>

definition adjectiveEnds :: "string list" where
  "adjectiveEnds =
     [[CHR 0xD0, CHR 0xB8, CHR 0xD0, CHR 0xB9], [CHR 0xD1, CHR 0x8B, CHR 0xD0, CHR 0xB9], [CHR 0xD0, CHR 0xBE, CHR 0xD0, CHR 0xB9]]"

definition nounEnds :: "string list" where
  "nounEnds =
     [[CHR 0xD0, CHR 0xBE, CHR 0xD0, CHR 0xB2], [CHR 0xD0, CHR 0xB5, CHR 0xD0, CHR 0xB2], [CHR 0xD0, CHR 0xB8, CHR 0xD0, CHR 0xBD],
      [CHR 0xD1, CHR 0x8B, CHR 0xD0, CHR 0xBD], [CHR 0xD1, CHR 0x91, CHR 0xD0, CHR 0xB2]]"

definition convertToFemaleSurname :: "string \<Rightarrow> string" where
  "convertToFemaleSurname n =
     (if list_ex (HasSuffix n) adjectiveEnds then take (length n - 4) n @ [CHR 0xD0, CHR 0xB0, CHR 0xD1, CHR 0x8F]
      else if list_ex (HasSuffix n) nounEnds then n @ [CHR 0xD0, CHR 0xB0] else n)"

record name_draw =
  drawFemale :: bool
  drawFirst :: nat
  drawShort :: bool
  drawLast :: nat

definition generateName :: "string list \<Rightarrow> string list \<Rightarrow> string list \<Rightarrow> name_draw \<Rightarrow> string" where
  "generateName females males lasts r =
     (let names = (if drawFemale r then females else males); first = names ! (drawFirst r mod length names); ln = lasts ! (drawLast r mod length lasts)
      in if drawShort r then first
         else first @ '' '' @ (if drawFemale r then convertToFemaleSurname ln else ln))"

datatype bus_signal = Sleeping bool | OtherSignal

text \<open>The watcher waits for the first resume, on which it reports once (if the channel has room) and ends.\<close>

fun monitorSuspendResume :: "bus_signal list \<Rightarrow> bool" where
  "monitorSuspendResume [] = False"
| "monitorSuspendResume (Sleeping False # _) = True"
| "monitorSuspendResume (_ # ss) = monitorSuspendResume ss"

lemma monitor_resume: "monitorSuspendResume ss \<longleftrightarrow> Sleeping False \<in> set ss"
  by (induction ss rule: monitorSuspendResume.induct) auto

definition pidFilesDir :: "string \<Rightarrow> string option \<Rightarrow> string" where
  "pidFilesDir runtimeDir home =
     (if runtimeDir \<noteq> [] then runtimeDir else case home of None \<Rightarrow> ''/tmp'' | Some h \<Rightarrow> h @ ''/.local/run'') @ ''/qwdtt''"

definition runFile :: "string \<Rightarrow> string \<Rightarrow> string \<Rightarrow> string" where
  "runFile dir profile ext = dir @ ''/qwdtt-'' @ profile @ ext"

text \<open>A PID file read for its number, and the test whether an auto-switch daemon may run.\<close>

definition daemonPid :: "string option \<Rightarrow> int option" where
  "daemonPid file = Option.bind file (\<lambda>s. Atoi (TrimSpace s))"

definition isAutoSwitchDaemon :: "string option \<Rightarrow> bool" where
  "isAutoSwitchDaemon file = (case file of Some s \<Rightarrow> TrimSpace s \<noteq> [] | None \<Rightarrow> False)"

text \<open>Names of files of different profiles do not clash, and the name is read back from the log file.\<close>

lemma runFile_inj: "runFile dir a ext = runFile dir b ext \<Longrightarrow> a = b"
  by (simp add: runFile_def)

lemma logProfile_runFile: "a \<noteq> [] \<Longrightarrow> logProfile (''qwdtt-'' @ a @ ''.log'') = Some a"
  by (simp add: logProfile_def nonempty_def HasSuffix_def HasPrefix_def TrimPrefix_def TrimSuffix_def)

section \<open>The daemon process\<close>

text \<open>The name for the files; the auto-switch daemon has one of its own.\<close>

definition managerName :: "string \<Rightarrow> bool \<Rightarrow> string" where
  "managerName profile autoSwitch = (if autoSwitch then ''autoswitch'' else profile)"

record daemon_context =
  dPidFile :: string
  dLogFile :: string
  dArgs :: "string list"

text \<open>\<open>base\<close> is the last element of the path of the program.\<close>

definition daemonContext :: "string \<Rightarrow> string \<Rightarrow> string \<Rightarrow> bool \<Rightarrow> string list \<Rightarrow> daemon_context" where
  "daemonContext dir base profile autoSwitch args =
     (let n = managerName profile autoSwitch
      in \<lparr>dPidFile = runFile dir n ''.pid'', dLogFile = runFile dir n ''.log'', dArgs = base # tl args\<rparr>)"

text \<open>
  \<open>reborn\<close> is the result of \<open>go-daemon\<close>: an error, or the process of the child in the parent.  The caller gets the child, if it
  is the parent, and whether it is the daemon.
\<close>

datatype daemon_start = StartFailed string | Started "int option" bool

definition daemonStart :: "bool \<Rightarrow> (string + int option) \<Rightarrow> daemon_start" where
  "daemonStart wasReborn reborn =
     (if wasReborn then
        (case reborn of Inl e \<Rightarrow> StartFailed (''daemon child init: '' @ e) | Inr _ \<Rightarrow> Started None True)
      else
        (case reborn of
           Inl e \<Rightarrow> StartFailed (''failed to daemonize: '' @ e)
         | Inr (Some child) \<Rightarrow> Started (Some child) False
         | Inr None \<Rightarrow> Started None True))"

text \<open>Stopping signals the process that \<open>Search\<close> finds, if the manager was started.\<close>

definition managerStop :: "bool \<Rightarrow> (string + int option) \<Rightarrow> int list" where
  "managerStop started search = (if started then (case search of Inr (Some pid) \<Rightarrow> [pid] | _ \<Rightarrow> []) else [])"

text \<open>The signal goes to the group of the process, which has the negative number.\<close>

definition groupSignal :: "(int \<Rightarrow> string + int) \<Rightarrow> int \<Rightarrow> string + int" where
  "groupSignal getpgid pid = (case getpgid pid of Inl e \<Rightarrow> Inl e | Inr pgid \<Rightarrow> Inr (- pgid))"

datatype os_signal = SIGINT | SIGTERM | SIGUSR1 | SIGUSR2

text \<open>The handler reads signals until one closes \<open>done\<close>; \<open>Some\<close> are those it leaves, \<open>None\<close> means that it still waits.\<close>

fun signalHandler :: "os_signal list \<Rightarrow> os_signal list option" where
  "signalHandler [] = None"
| "signalHandler (SIGUSR1 # ss) = signalHandler ss"
| "signalHandler (SIGUSR2 # ss) = signalHandler ss"
| "signalHandler (_ # ss) = Some ss"

text \<open>One process goes on as the daemon, and it is not the one that knows the child.\<close>

lemma daemon_or_parent: "daemonStart r x = Started c d \<Longrightarrow> d \<longleftrightarrow> c = None"
  by (auto simp: daemonStart_def split: if_splits sum.splits option.splits)

lemma user_signals_ignored: "set ss \<subseteq> {SIGUSR1, SIGUSR2} \<Longrightarrow> signalHandler (ss @ ss') = signalHandler ss'"
  by (induction ss) auto

lemma termination_closes: "signalHandler ss \<noteq> None \<longleftrightarrow> SIGINT \<in> set ss \<or> SIGTERM \<in> set ss"
  by (induction ss rule: signalHandler.induct) auto

end
