(* ===== verification/Spec2Isabelle.thy ===== *)
theory Spec2Isabelle
  imports Obfs_Order Dispatcher Slider Subscription Protocol Router Routes Bypass Core_Runtime Worker_Group Connect_Exit Autoswitch Session Doh
    Disconnect Token_Chain Packet_Pump Tester Raw_Tun Cli
begin

text \<open>
  \<^bold>\<open>qWDTT for Linux\<close> is a VPN client that carries WireGuard (or raw IP) packets through the TURN relays of VK calls.  The
  program has two halves: the core (\<open>src/internal/core\<close>), which obtains relay credentials from VK, runs groups of worker
  sessions and moves packets, and the command line (\<open>src/*.go\<close>), which keeps profiles and subscriptions, starts daemons and
  sets up links and routes.  This library models both, as functions over explicit state, and proves what they promise.

  \<^bold>\<open>How the parts interact.\<close>  \<open>connect\<close> loads a profile (\<open>Profiles\<close>, \<open>Links\<close>, \<open>Subscription\<close>), checks flags and conflicts
  with other daemons (\<open>Running\<close>, \<open>Connect\<close>), and starts the core (\<open>Core_Runtime\<close>).  The core plans groups of nine workers
  (\<open>Worker_Group\<close>); a group fetches credentials (\<open>Creds\<close>, whose network half is \<open>Vk_Http\<close>, \<open>Captcha\<close>, \<open>Slider\<close>,
  \<open>Slider_Cursor\<close>, \<open>Token_Chain\<close>, resolving names by \<open>Doh\<close>), its workers run sessions (\<open>Session\<close>) that obfuscate packets (\<open>Obfs\<close>,
  \<open>Obfs_Replay\<close>, \<open>Obfs_Order\<close>, for DTLS \<open>Packet_Pump\<close>), ask the server for the configuration (\<open>Protocol\<close>) and exchange packets with the local side
  (\<open>Dispatcher\<close>).  When the configuration arrives, the daemon configures a WireGuard link, a SOCKS5 runner or a TUN device
  (\<open>Routes\<close>, \<open>Wireproxy\<close>, \<open>Raw_Tun\<close>) with bypass lists (\<open>Bypass\<close>, \<open>Router\<close>), and takes everything down again
  (\<open>Connect_Exit\<close>); auto-switch rotates over profiles (\<open>Autoswitch\<close>), \<open>disconnect\<close> stops daemons (\<open>Disconnect\<close>),
  \<open>test\<close> does all of it for a moment (\<open>Tester\<close>), and the remaining commands look at the state (\<open>Listing\<close>, \<open>Cli\<close>).
\<close>

text \<open>
  \<^bold>\<open>Conventions.\<close>  A definition has the name of the Go function, type or constant it models, or the manifest of the library names the lines it
  translates.  Structs are records, errors are values of a sum (\<open>Inl\<close> the error) or an option, integers of fixed
  width in packet formats, counters and time stamps are words, other integers are mathematical.  Strings are byte sequences; the
  routines of \<open>strings\<close>, \<open>strconv\<close>, \<open>net\<close>, \<open>net/url\<close> and \<open>path/filepath\<close> that the program uses are written out in
  \<open>Go_Strings\<close>, \<open>Go_Utf8\<close>, \<open>Go_Net\<close> and \<open>Go_Url\<close>, channels in \<open>Go_Chan\<close>, binary codecs, entropy and the generic
  collectors in \<open>Go_Base\<close>.  What lies outside the repository enters as an argument, often a record of functions: the kernel
  (\<open>netlink\<close>, \<open>tun_ops\<close>), the file system (\<open>io\<close>, \<open>files\<close>), VK and other servers (\<open>vkenv\<close>, \<open>http\<close>, \<open>doh_server\<close>), TURN,
  DTLS, AEAD and HKDF packages, JSON decoding, the clock and random bytes.  What is relied on is a named predicate over the
  argument (\<open>netlink_laws\<close>, \<open>tun_laws\<close>, \<open>aead_ok\<close>), with a concrete instance in a witness.

  \<^bold>\<open>Interfaces.\<close>  Contracts that several components use are locales with an interpretation on the model: \<open>fixed_codec\<close> (big
  endian integers, used by the RTP header), \<open>unique_collector\<close> (order preserving deduplication), \<open>bounded_fifo\<close> (channels
  with non-blocking sends), \<open>keyed_store\<close> (profile, subscription and status files), \<open>numbered_names\<close> (the search for a free
  name, which ends).

  \<^bold>\<open>Concurrency.\<close>  Goroutines that share state are interleavings of atomic steps: \<open>dstep\<close> and \<open>reachable\<close> for the dispatcher with
  the sessions that use its channels, \<open>wstep\<close> for the workers that share the request for the configuration, \<open>chain_step\<close> for
  the start of the groups, \<open>rstep\<close> for what a process does to the routing table, \<open>attempt_step\<close> for successive attempts.  Event
  loops (\<open>connLoop\<close>, \<open>testLoop\<close>) are functions of the messages they receive and give \<open>None\<close> while they would wait for more;
  that they end on the message that ends them is proved.
\<close>

text \<open>
  \<^bold>\<open>What is shown.\<close>  The properties C1 to C40 stand in the theories of their components.
  \<^item> \<open>Obfs\<close>: nonces of one direction never repeat (C1); wrapping and unwrapping (C2); sizes on the wire (C3).  \<open>Obfs_Replay\<close>,
    \<open>Obfs_Order\<close>: the replay window stays bounded (C5), refuses what it accepted (C6), and delivers packets in order (C7).
  \<^item> \<open>Packet_Pump\<close>: the goroutines between relay and DTLS pipe deliver what the direct connection delivers; a ping succeeds when a
    session would get as far.  \<open>Slider_Cursor\<close>: the mouse path stays in its frame.
  \<^item> \<open>Session\<close>: no traffic over an unencrypted channel or after a denial, and how a session ends (C4).
  \<^item> \<open>Dispatcher\<close>: a packet reaches exactly one lane or is dropped (C8), no panic and no overfull queue under any interleaving (C9),
    chunks of a burst stay together (C10).
  \<^item> \<open>Creds\<close>: what the cache serves is fresh and of the right call (C11), three errors empty it (C12), the rotation over application
    ids (C13).  \<open>Token_Chain\<close>: bounds on the conversation with VK (C16) and the steps of the other path (C18).  \<open>Slider\<close>: the ranking
    does not depend on the schedule (C15).
  \<^item> \<open>Links\<close>: round trip of links (C17).  \<open>Profiles\<close>: save and load (C20), rename (C21, C22), edit (C23).  \<open>Subscription\<close>: updates
    and imports leave foreign and read-only profiles alone (C24 to C27).
  \<^item> \<open>Protocol\<close>: the raw configuration (C28) and the patched WireGuard configuration (C30) parse.
  \<^item> \<open>Router\<close>: the router refines membership in the list (C31), lists are read back from the control socket (C32).  \<open>Bypass\<close>: adding
    and removing domains (C37).
  \<^item> \<open>Routes\<close>, \<open>Connect_Exit\<close>, \<open>Tester\<close>, \<open>Raw_Tun\<close>, \<open>Disconnect\<close>: nothing is left behind by a teardown (C33), by attempts to
    connect (C38), by tests (C14), by the device of raw mode (C19), after \<open>disconnect\<close> (C29).
  \<^item> \<open>Worker_Group\<close>: one request for the configuration at a time (C34), the start of the groups comes to rest (C35).
    \<open>Core_Runtime\<close>: configurations in normal form (C36).  \<open>Autoswitch\<close>: the rotation keeps trying (C39).
  \<^item> \<open>Doh\<close>: the connection refines a lookup (C40).

  Lemmas outside this list record how the code behaves at its edges, among them the deviations that the manifest lists as
  findings, each with the name of the lemma or the line.

  \<^bold>\<open>Bounds and termination.\<close>  All recursions terminate by structure or by a measure; there is no fuel except for the proof of work
  (\<open>maxNonce\<close>, the bound of the code).  The rounds of the captcha solver end because a show type is never tried twice and checks are
  counted.  The search for a free name is a partial function, and its commands are proved to return.  The bounds $2^{48}$ packets per
  direction (C1) and $2^{21}$ lost packets in a row (C7) are those at which counter and time stamp of the format wrap.
\<close>

text \<open>
  \<^bold>\<open>Not modelled.\<close>  Texts for the user, log lines, usage and progress output, notifications, QR codes and shell hints: pure output.
  The fork inside \<open>go-daemon\<close>; what the program makes of its result is modelled.  The rounding of \<open>float64\<close>, \<open>math.Exp\<close>, the image decoder and random draws of the captcha solver: they
  enter as arguments, and properties hold for all of them.  Request headers and the TLS fingerprint of the
  HTTP clients.  The counters of \<open>stats.go\<close>, which only feed the log and the statistics event, and the
  table of browser profiles.  What the kernel does with packets once links, routes and the nftables rule are in place.
\<close>

end
